(* ===== verification/Prelude.thy ===== *)
theory Prelude
  imports Main "HOL-Library.Multiset" "HOL-Library.Sublist"
begin

text \<open>
  The ground the component theories stand on: Go's strings, decimal integers, time values,
  sorting routines and 64-bit wrap-around, Redis sorted sets and hashes, and SQL statements over
  tables held as lists of rows.  The lemma collections \<open>go_simps\<close> and \<open>sql_simps\<close> are the
  simplification sets that the later theories use.
\<close>

named_theorems go_simps
named_theorems sql_simps

section \<open>Integers and time\<close>

text \<open>Go's \<open>int\<close> has 64 bits in two's complement; \<open>wrap64\<close> is its wrap-around.\<close>

definition wrap64 :: "int \<Rightarrow> int" where
  "wrap64 n = (n + 2 ^ 63) mod 2 ^ 64 - 2 ^ 63"

definition int64_ok :: "int \<Rightarrow> bool" where
  "int64_ok n \<longleftrightarrow> - (2 ^ 63) \<le> n \<and> n < 2 ^ 63"

lemma wrap64_id: "int64_ok n \<Longrightarrow> wrap64 n = n"
  by (simp add: wrap64_def int64_ok_def)

lemma int64_ok_wrap64: "int64_ok (wrap64 n)"
proof -
  have "0 \<le> (n + 2 ^ 63) mod 2 ^ 64" "(n + 2 ^ 63) mod 2 ^ 64 < (2 ^ 64 :: int)"
    by simp_all
  then show ?thesis by (simp add: wrap64_def int64_ok_def)
qed

text \<open>
  A \<open>time.Time\<close> is the number of nanoseconds since the Unix epoch; the zero value of the type,
  the one \<open>IsZero\<close> recognises, is the first of January of the year 1.
  A \<open>time.Duration\<close> is a number of nanoseconds.
\<close>

type_synonym gotime = int
type_synonym duration = int

definition zero_time :: gotime where
  "zero_time = - 62135596800 * 1000000000"

abbreviation (input) millisecond :: duration where "millisecond \<equiv> 1000000"
abbreviation (input) second :: duration where "second \<equiv> 1000000000"
abbreviation (input) minute :: duration where "minute \<equiv> 60000000000"
abbreviation (input) hour :: duration where "hour \<equiv> 3600000000000"

definition is_zero_time :: "gotime \<Rightarrow> bool" where
  "is_zero_time t \<longleftrightarrow> t = zero_time"

section \<open>Strings\<close>

text \<open>
  A Go string is a byte string, here \<open>string\<close> (a list of 8-bit characters).  The library
  functions below are the source's calls into \<open>strings\<close> and \<open>strconv\<close>, on the ASCII range.
\<close>

definition is_space :: "char \<Rightarrow> bool" where
  "is_space c \<longleftrightarrow> c \<in> {CHR 0x09, CHR 0x0A, CHR 0x0B, CHR 0x0C, CHR 0x0D, CHR 0x20}"

definition TrimSpace :: "string \<Rightarrow> string" where
  "TrimSpace s = rev (dropWhile is_space (rev (dropWhile is_space s)))"

definition lower_char :: "char \<Rightarrow> char" where
  "lower_char c = (let n = (of_char c :: nat) in if 65 \<le> n \<and> n \<le> 90 then char_of (n + 32) else c)"

definition ToLower :: "string \<Rightarrow> string" where
  "ToLower = map lower_char"

definition EqualFold :: "string \<Rightarrow> string \<Rightarrow> bool" where
  "EqualFold s t \<longleftrightarrow> ToLower s = ToLower t"

definition HasPrefix :: "string \<Rightarrow> string \<Rightarrow> bool" where
  "HasPrefix s p \<longleftrightarrow> take (length p) s = p"

definition TrimPrefix :: "string \<Rightarrow> string \<Rightarrow> string" where
  "TrimPrefix s p = (if HasPrefix s p then drop (length p) s else s)"

definition TrimSuffix :: "string \<Rightarrow> string \<Rightarrow> string" where
  "TrimSuffix s p = (if HasPrefix (rev s) (rev p) then take (length s - length p) s else s)"

text \<open>\<open>strings.Split\<close> at a single separator character; the empty string gives one empty part.\<close>

fun Split :: "string \<Rightarrow> char \<Rightarrow> string list" where
  "Split [] c = [[]]"
| "Split (x # xs) c =
     (if x = c then [] # Split xs c
      else (case Split xs c of [] \<Rightarrow> [[x]] | p # ps \<Rightarrow> (x # p) # ps))"

fun contains_char :: "char \<Rightarrow> string \<Rightarrow> bool" where
  "contains_char c [] = False"
| "contains_char c (x # xs) = (x = c \<or> contains_char c xs)"

text \<open>\<open>strings.Index\<close> of a substring, and the ordering of strings by bytes.\<close>

fun Index :: "string \<Rightarrow> string \<Rightarrow> nat option" where
  "Index [] p = (if p = [] then Some 0 else None)"
| "Index (x # xs) p = (if HasPrefix (x # xs) p then Some 0 else map_option Suc (Index xs p))"

fun string_less :: "string \<Rightarrow> string \<Rightarrow> bool" where
  "string_less _ [] = False"
| "string_less [] (_ # _) = True"
| "string_less (x # xs) (y # ys) =
     (let a = (of_char x :: nat); b = of_char y in a < b \<or> (a = b \<and> string_less xs ys))"

lemma contains_char_set [go_simps]: "contains_char c s \<longleftrightarrow> c \<in> set s"
  by (induction s) auto

lemma dropWhile_idem: "dropWhile P (dropWhile P xs) = dropWhile P xs"
  by (induction xs) auto

lemma hd_dropWhile_rev:
  assumes "ys = rev (dropWhile P (rev (dropWhile P xs)))" "ys \<noteq> []"
  shows "\<not> P (hd ys)"
proof -
  have suf: "prefix ys (dropWhile P xs)"
    unfolding assms(1) by (metis rev_rev_ident suffix_dropWhile suffix_to_prefix)
  then obtain zs where zs: "dropWhile P xs = ys @ zs" by (auto simp: prefix_def)
  then have "dropWhile P xs \<noteq> []" using assms(2) by simp
  then have "\<not> P (hd (dropWhile P xs))" by (rule hd_dropWhile)
  then show ?thesis using zs assms(2) by simp
qed

lemma TrimSpace_idem [simp]: "TrimSpace (TrimSpace s) = TrimSpace s"
proof (cases "TrimSpace s = []")
  case True
  have "TrimSpace [] = []" by (simp add: TrimSpace_def)
  with True show ?thesis by simp
next
  case False
  then have "\<not> is_space (hd (TrimSpace s))"
    using hd_dropWhile_rev [of "TrimSpace s" is_space s] by (simp add: TrimSpace_def)
  with False have "dropWhile is_space (TrimSpace s) = TrimSpace s"
    by (cases "TrimSpace s") auto
  then show ?thesis
    by (simp add: TrimSpace_def dropWhile_idem)
qed

lemma lower_char_idem [simp]: "lower_char (lower_char c) = lower_char c"
  by (simp add: lower_char_def Let_def)

lemma ToLower_idem [simp]: "ToLower (ToLower s) = ToLower s"
  by (simp add: ToLower_def)

lemma is_space_lower_char [simp]: "is_space (lower_char c) = is_space c"
proof (cases "65 \<le> (of_char c :: nat) \<and> (of_char c :: nat) \<le> 90")
  case True
  define n where "n = (of_char c :: nat)"
  have n: "65 \<le> n" "n \<le> 90" using True by (simp_all add: n_def)
  have c: "c = char_of n" by (simp add: n_def)
  have "lower_char c = char_of (n + 32)" using True by (simp add: lower_char_def n_def Let_def)
  moreover have "\<not> is_space (char_of (n + 32))" "\<not> is_space c"
    using n unfolding c is_space_def
    by (auto simp: char_of_eq_iff take_bit_eq_mod dest: arg_cong [where f = "of_char :: char \<Rightarrow> nat"])
  ultimately show ?thesis by simp
next
  case False
  then show ?thesis by (auto simp: lower_char_def Let_def)
qed

lemma dropWhile_map_lower: "dropWhile is_space (map lower_char s) = map lower_char (dropWhile is_space s)"
  by (induction s) auto

lemma TrimSpace_ToLower: "TrimSpace (ToLower s) = ToLower (TrimSpace s)"
  by (simp add: TrimSpace_def ToLower_def dropWhile_map_lower rev_map)

lemma HasPrefix_append [simp]: "HasPrefix (p @ s) p"
  by (simp add: HasPrefix_def)

lemma HasPrefix_iff: "HasPrefix s p \<longleftrightarrow> (\<exists>t. s = p @ t)"
  unfolding HasPrefix_def by (metis append_eq_conv_conj append_take_drop_id)

lemma TrimPrefix_append [simp]: "TrimPrefix (p @ s) p = s"
  by (simp add: TrimPrefix_def)

lemma Split_no_sep: "c \<notin> set s \<Longrightarrow> Split s c = [s]"
  by (induction s) auto

lemma Split_append_sep: "c \<notin> set s \<Longrightarrow> Split (s @ c # t) c = s # Split t c"
  by (induction s) auto

lemma Split_nonempty [simp]: "Split s c \<noteq> []"
  by (induction s) (auto split: list.splits)

lemma Split_parts_no_sep: "p \<in> set (Split s c) \<Longrightarrow> c \<notin> set p"
  by (induction s arbitrary: p) (fastforce split: list.splits if_splits)+

section \<open>Decimal integers\<close>

text \<open>\<open>strconv.Itoa\<close> and \<open>strconv.Atoi\<close>: an optional sign and decimal digits, in 64-bit range.\<close>

definition digit_char :: "nat \<Rightarrow> char" where
  "digit_char d = char_of (48 + d)"

definition digit_val :: "char \<Rightarrow> nat option" where
  "digit_val c = (let n = of_char c in if 48 \<le> n \<and> n \<le> 57 then Some (n - 48) else None)"

fun digits10 :: "nat \<Rightarrow> string" where
  "digits10 n = (if n < 10 then [digit_char n] else digits10 (n div 10) @ [digit_char (n mod 10)])"

declare digits10.simps [simp del]

fun parse_digits :: "nat \<Rightarrow> string \<Rightarrow> nat option" where
  "parse_digits acc [] = Some acc"
| "parse_digits acc (c # cs) =
     (case digit_val c of None \<Rightarrow> None | Some d \<Rightarrow> parse_digits (acc * 10 + d) cs)"

definition Itoa :: "int \<Rightarrow> string" where
  "Itoa n = (if n < 0 then CHR ''-'' # digits10 (nat (- n)) else digits10 (nat n))"

definition Atoi :: "string \<Rightarrow> int option" where
  "Atoi s =
     (let (neg, ds) = (case s of [] \<Rightarrow> (False, [])
        | c # cs \<Rightarrow> if c = CHR ''-'' then (True, cs) else if c = CHR ''+'' then (False, cs) else (False, s))
      in if ds = [] then None
         else (case parse_digits 0 ds of None \<Rightarrow> None
           | Some n \<Rightarrow> (let v = (if neg then - int n else int n) in if int64_ok v then Some v else None)))"

lemma digit_val_char [simp]: "d < 10 \<Longrightarrow> digit_val (digit_char d) = Some d"
  by (simp add: digit_val_def digit_char_def Let_def)

lemma digit_char_sign: "d < 10 \<Longrightarrow> digit_char d \<noteq> CHR ''-'' \<and> digit_char d \<noteq> CHR ''+''"
  by (auto simp: digit_char_def char_of_eq_iff take_bit_eq_mod)

lemma parse_digits_append:
  "parse_digits acc (xs @ ys) = Option.bind (parse_digits acc xs) (\<lambda>a. parse_digits a ys)"
  by (induction xs arbitrary: acc) (auto split: option.splits)

lemma parse_digits10: "parse_digits 0 (digits10 n) = Some n"
proof (induction n rule: digits10.induct)
  case (1 n)
  show ?case
  proof (cases "n < 10")
    case True
    then show ?thesis by (simp add: digits10.simps [of n])
  next
    case False
    then have "parse_digits 0 (digits10 (n div 10)) = Some (n div 10)" using "1.IH" by simp
    with False show ?thesis by (simp add: digits10.simps [of n] parse_digits_append)
  qed
qed

lemma digits10_nonempty [simp]: "digits10 n \<noteq> []"
  by (simp add: digits10.simps [of n])

lemma digits10_head: "c = hd (digits10 n) \<Longrightarrow> c \<noteq> CHR ''-'' \<and> c \<noteq> CHR ''+''"
proof (induction n arbitrary: c rule: digits10.induct)
  case (1 n)
  show ?case
  proof (cases "n < 10")
    case True
    with 1 show ?thesis by (simp add: digits10.simps [of n] digit_char_sign)
  next
    case False
    with 1 show ?thesis by (simp add: digits10.simps [of n])
  qed
qed

lemma Atoi_Itoa [simp]: "int64_ok n \<Longrightarrow> Atoi (Itoa n) = Some n"
proof -
  assume ok: "int64_ok n"
  obtain c cs where c: "digits10 (nat n) = c # cs" by (cases "digits10 (nat n)") auto
  then have hd: "c \<noteq> CHR ''-''" "c \<noteq> CHR ''+''" using digits10_head [of c "nat n"] by auto
  have p: "parse_digits 0 (c # cs) = Some (nat n)" using parse_digits10 [of "nat n"] c by simp
  show ?thesis
  proof (cases "n < 0")
    case True
    then show ?thesis using ok parse_digits10 [of "nat (- n)"]
      by (simp add: Itoa_def Atoi_def del: parse_digits.simps)
  next
    case False
    then show ?thesis using ok p c hd
      by (simp add: Itoa_def Atoi_def Let_def del: parse_digits.simps)
  qed
qed

lemma Itoa_inject: "int64_ok m \<Longrightarrow> int64_ok n \<Longrightarrow> Itoa m = Itoa n \<longleftrightarrow> m = n"
  by (metis Atoi_Itoa option.inject)

lemma Itoa_nonempty [simp]: "Itoa n \<noteq> []"
  by (simp add: Itoa_def)

section \<open>Sorting\<close>

text \<open>
  \<open>sort.SliceStable\<close> is the stable sort.  \<open>sort.Slice\<close> promises only an ordered permutation:
  elements that compare equal may come out in any order.  The locale \<open>go_sort\<close> states that promise;
  the models that call \<open>sort.Slice\<close> take the sorting routine as an argument.
\<close>

fun insert_by :: "('a \<Rightarrow> 'a \<Rightarrow> bool) \<Rightarrow> 'a \<Rightarrow> 'a list \<Rightarrow> 'a list" where
  "insert_by lt x [] = [x]"
| "insert_by lt x (y # ys) = (if lt y x then y # insert_by lt x ys else x # y # ys)"

definition SliceStable :: "('a \<Rightarrow> 'a \<Rightarrow> bool) \<Rightarrow> 'a list \<Rightarrow> 'a list" where
  "SliceStable lt xs = foldr (insert_by lt) xs []"

definition strict_weak :: "('a \<Rightarrow> 'a \<Rightarrow> bool) \<Rightarrow> bool" where
  "strict_weak lt \<longleftrightarrow> (\<forall>x. \<not> lt x x) \<and> (\<forall>x y z. lt x y \<longrightarrow> lt y z \<longrightarrow> lt x z)
     \<and> (\<forall>x y z. lt x z \<longrightarrow> lt x y \<or> lt y z)"

lemma strict_weak_key [simp]: "strict_weak (\<lambda>x y. (f x :: 'b :: linorder) < f y)"
  by (auto simp: strict_weak_def)

locale go_sort =
  fixes srt :: "('a \<Rightarrow> 'a \<Rightarrow> bool) \<Rightarrow> 'a list \<Rightarrow> 'a list"
  assumes srt_perm: "mset (srt lt xs) = mset xs"
    and srt_ordered: "strict_weak lt \<Longrightarrow> sorted_wrt (\<lambda>x y. \<not> lt y x) (srt lt xs)"
begin

lemma set_srt: "set (srt lt xs) = set xs"
  using srt_perm [of lt xs] by (metis set_mset_mset)

lemma length_srt: "length (srt lt xs) = length xs"
  using srt_perm [of lt xs] by (metis size_mset)

lemma srt_nil_iff: "srt lt xs = [] \<longleftrightarrow> xs = []"
  using length_srt [of lt xs] by auto

lemma distinct_map_srt: "distinct (map f (srt lt xs)) \<longleftrightarrow> distinct (map f xs)"
  using srt_perm [of lt xs] by (metis mset_map mset_eq_imp_distinct_iff)

lemma srt_head_least:
  assumes "strict_weak lt" "srt lt xs = y # ys" "x \<in> set xs"
  shows "\<not> lt x y"
  using srt_ordered [OF assms(1), of xs] set_srt [of lt xs] assms
  by (auto simp: strict_weak_def)

end

lemma mset_insert_by: "mset (insert_by lt x ys) = add_mset x (mset ys)"
  by (induction ys) auto

lemma set_insert_by [simp]: "set (insert_by lt x ys) = insert x (set ys)"
  by (induction ys) auto

lemma insert_by_ordered:
  assumes "strict_weak lt"
  shows "sorted_wrt (\<lambda>x y. \<not> lt y x) ys \<Longrightarrow> sorted_wrt (\<lambda>x y. \<not> lt y x) (insert_by lt x ys)"
proof (induction ys)
  case Nil
  then show ?case by simp
next
  case (Cons y ys)
  show ?case
  proof (cases "lt y x")
    case True
    then have "\<not> lt x y" using assms unfolding strict_weak_def by blast
    with True Cons show ?thesis by simp
  next
    case False
    have "\<not> lt z x" if "z \<in> set ys" for z
    proof -
      from that Cons.prems have "\<not> lt z y" by simp
      with False show ?thesis using assms unfolding strict_weak_def by blast
    qed
    with False Cons.prems show ?thesis by auto
  qed
qed

lemma mset_SliceStable: "mset (SliceStable lt xs) = mset xs"
  by (induction xs) (auto simp: SliceStable_def mset_insert_by)

lemma SliceStable_ordered: "strict_weak lt \<Longrightarrow> sorted_wrt (\<lambda>x y. \<not> lt y x) (SliceStable lt xs)"
  by (induction xs) (auto simp: SliceStable_def insert_by_ordered)

interpretation stable: go_sort SliceStable
  by unfold_locales (simp_all add: mset_SliceStable SliceStable_ordered)

text \<open>Under a total order the sorted list is determined by the elements.\<close>

lemma ordered_unique:
  assumes "strict_weak lt" "\<And>x y. \<not> lt x y \<Longrightarrow> \<not> lt y x \<Longrightarrow> x = y"
  shows "sorted_wrt (\<lambda>x y. \<not> lt y x) xs \<Longrightarrow> sorted_wrt (\<lambda>x y. \<not> lt y x) ys \<Longrightarrow> mset xs = mset ys \<Longrightarrow> xs = ys"
proof (induction xs arbitrary: ys)
  case (Cons x xs)
  then obtain y ys' where ys: "ys = y # ys'" by (cases ys) auto
  have "x = y"
  proof (rule ccontr)
    assume "x \<noteq> y"
    have "y \<in> set xs" using Cons.prems(3) ys \<open>x \<noteq> y\<close> by (metis list.set_intros(1) mset_eq_setD set_ConsD)
    moreover have "x \<in> set ys'" using Cons.prems(3) ys \<open>x \<noteq> y\<close> by (metis list.set_intros(1) mset_eq_setD set_ConsD)
    ultimately show False using Cons.prems(1,2) ys assms(2) \<open>x \<noteq> y\<close> by auto
  qed
  with Cons ys show ?case by simp
qed simp

lemma SliceStable_mset_eq:
  assumes "strict_weak lt" "\<And>x y. \<not> lt x y \<Longrightarrow> \<not> lt y x \<Longrightarrow> x = y" "mset xs = mset ys"
  shows "SliceStable lt xs = SliceStable lt ys"
  by (rule ordered_unique [OF assms(1,2)])
    (simp_all add: SliceStable_ordered assms mset_SliceStable)

lemma distinct_submset:
  assumes "mset xs \<subseteq># mset ys" "distinct ys" shows "distinct xs"
proof -
  obtain zs where "mset ys = mset (xs @ zs)"
    using assms(1) by (metis ex_mset mset_append subset_mset.add_diff_inverse)
  then have "distinct (xs @ zs)" using assms(2) by (metis mset_eq_imp_distinct_iff)
  then show ?thesis by simp
qed

lemma string_less_irrefl: "\<not> string_less x x"
  by (induction x) (auto simp: Let_def)

lemma string_less_total: "\<not> string_less x y \<Longrightarrow> \<not> string_less y x \<Longrightarrow> x = y"
proof (induction x y rule: string_less.induct)
  case (1 x)
  then show ?case by (cases x) auto
next
  case (3 x xs y ys)
  then have "(of_char x :: nat) = of_char y" "\<not> string_less xs ys" "\<not> string_less ys xs"
    by (auto simp: Let_def)
  with 3 show ?case by simp
qed simp

lemma string_less_trans: "string_less x y \<Longrightarrow> string_less y z \<Longrightarrow> string_less x z"
proof (induction x y arbitrary: z rule: string_less.induct)
  case (3 x xs y ys)
  then show ?case by (cases z) (auto simp: Let_def)
next
  case (2 y ys)
  then show ?case by (cases z) auto
qed simp

lemma strict_weak_string_less [simp]: "strict_weak string_less"
  unfolding strict_weak_def
  by (metis string_less_irrefl string_less_total string_less_trans)

section \<open>Redis structures\<close>

text \<open>
  A sorted set holds integer members (task ids) with integer scores (priorities).  \<open>ZSorted\<close> is the
  order of \<open>ZRANGE\<close>: by score, then by the member's bytes.
\<close>

type_synonym zset = "(int \<times> int) list"
type_synonym redis_hash = "(string \<times> string) list"

definition ZRem :: "zset \<Rightarrow> int \<Rightarrow> zset" where
  "ZRem z m = filter (\<lambda>p. fst p \<noteq> m) z"

definition ZAdd :: "zset \<Rightarrow> int \<Rightarrow> int \<Rightarrow> zset" where
  "ZAdd z m s = ZRem z m @ [(m, s)]"

definition zmembers :: "zset \<Rightarrow> int set" where
  "zmembers z = fst ` set z"

definition zless :: "int \<times> int \<Rightarrow> int \<times> int \<Rightarrow> bool" where
  "zless p q \<longleftrightarrow> snd p < snd q \<or> (snd p = snd q \<and> string_less (Itoa (fst p)) (Itoa (fst q)))"

definition ZSorted :: "zset \<Rightarrow> zset" where
  "ZSorted z = SliceStable zless z"

definition ZPopMin :: "zset \<Rightarrow> ((int \<times> int) \<times> zset) option" where
  "ZPopMin z = (case ZSorted z of [] \<Rightarrow> None | p # _ \<Rightarrow> Some (p, ZRem z (fst p)))"

definition HDel :: "redis_hash \<Rightarrow> string list \<Rightarrow> redis_hash" where
  "HDel h ks = filter (\<lambda>p. fst p \<notin> set ks) h"

fun HSet :: "redis_hash \<Rightarrow> (string \<times> string) list \<Rightarrow> redis_hash" where
  "HSet h [] = h"
| "HSet h ((k, v) # fs) = HSet (HDel h [k] @ [(k, v)]) fs"

text \<open>Go reads a missing key of a map as the empty string.\<close>

definition hget :: "redis_hash \<Rightarrow> string \<Rightarrow> string" where
  "hget h k = (case map_of h k of None \<Rightarrow> [] | Some v \<Rightarrow> v)"

lemma map_of_HDel [simp]: "map_of (HDel h ks) k = (if k \<in> set ks then None else map_of h k)"
  unfolding HDel_def by (induction h) auto

lemma map_of_HSet: "map_of (HSet h fs) = map_of h ++ map_of (rev fs)"
proof (induction h fs rule: HSet.induct)
  case (2 h k v fs)
  have "map_of (HDel h [k] @ [(k, v)]) = (map_of h)(k \<mapsto> v)"
    by (rule ext) (auto simp: map_add_def split: option.splits)
  have "map_of (HSet h ((k, v) # fs)) = (map_of h)(k \<mapsto> v) ++ map_of (rev fs)"
    unfolding HSet.simps 2 by (simp only: \<open>map_of (HDel h [k] @ [(k, v)]) = (map_of h)(k \<mapsto> v)\<close>)
  also have "\<dots> = map_of h ++ map_of (rev ((k, v) # fs))"
    by (rule ext) (auto simp: map_add_def split: option.splits)
  finally show ?case .
qed simp

lemma zmembers_ZRem [simp]: "zmembers (ZRem z m) = zmembers z - {m}"
  by (auto simp: zmembers_def ZRem_def)

lemma zmembers_ZAdd [simp]: "zmembers (ZAdd z m s) = insert m (zmembers z)"
  by (auto simp: zmembers_def ZAdd_def ZRem_def)

lemma zmembers_Nil [simp]: "zmembers [] = {}"
  by (simp add: zmembers_def)

lemma set_ZAdd: "set (ZAdd z m s) = {p \<in> set z. fst p \<noteq> m} \<union> {(m, s)}"
  by (auto simp: ZAdd_def ZRem_def)

lemma ZPopMin_Some:
  assumes "ZPopMin z = Some (p, z')"
  shows "p \<in> set z" "z' = ZRem z (fst p)"
proof -
  from assms obtain ps where ps: "ZSorted z = p # ps" "z' = ZRem z (fst p)"
    by (auto simp: ZPopMin_def split: list.splits)
  from ps(1) have "p \<in> set (ZSorted z)" by simp
  then show "p \<in> set z" by (simp add: ZSorted_def stable.set_srt)
  from ps show "z' = ZRem z (fst p)" by simp
qed

section \<open>SQL over lists of rows\<close>

text \<open>
  A table is the list of its rows.  \<open>sql_update w f t\<close> is \<open>UPDATE t SET f WHERE w\<close> with its
  number of affected rows; \<open>sql_count\<close>, \<open>sql_find\<close> and \<open>sql_exists\<close> are the reads.
\<close>

definition sql_update :: "('r \<Rightarrow> bool) \<Rightarrow> ('r \<Rightarrow> 'r) \<Rightarrow> 'r list \<Rightarrow> 'r list \<times> nat" where
  "sql_update w f t = (map (\<lambda>r. if w r then f r else r) t, length (filter w t))"

definition sql_count :: "('r \<Rightarrow> bool) \<Rightarrow> 'r list \<Rightarrow> nat" where
  "sql_count w t = length (filter w t)"

definition sql_find :: "('r \<Rightarrow> bool) \<Rightarrow> 'r list \<Rightarrow> 'r option" where
  "sql_find w t = List.find w t"

definition sql_exists :: "('r \<Rightarrow> bool) \<Rightarrow> 'r list \<Rightarrow> bool" where
  "sql_exists w t = (list_ex w t)"

lemma set_sql_update [sql_simps]:
  "set (fst (sql_update w f t)) = (\<lambda>r. if w r then f r else r) ` set t"
  by (simp add: sql_update_def)

lemma sql_update_none [sql_simps]: "snd (sql_update w f t) = 0 \<longleftrightarrow> (\<forall>r \<in> set t. \<not> w r)"
  by (simp add: sql_update_def filter_empty_conv)

lemma sql_update_none_id: "snd (sql_update w f t) = 0 \<Longrightarrow> fst (sql_update w f t) = t"
  by (induction t) (auto simp: sql_update_def split: if_splits)

lemma sql_count_0 [sql_simps]: "sql_count w t = 0 \<longleftrightarrow> (\<forall>r \<in> set t. \<not> w r)"
  by (simp add: sql_count_def filter_empty_conv)

lemma sql_find_Some: "sql_find w t = Some r \<Longrightarrow> r \<in> set t \<and> w r"
  by (auto simp: sql_find_def find_Some_iff)

lemma sql_find_None [sql_simps]: "sql_find w t = None \<longleftrightarrow> (\<forall>r \<in> set t. \<not> w r)"
  by (auto simp: sql_find_def find_None_iff)

lemma sql_exists_iff [sql_simps]: "sql_exists w t \<longleftrightarrow> (\<exists>r \<in> set t. w r)"
  by (simp add: sql_exists_def list_ex_iff)

lemma map_key_sql_update:
  "(\<And>r. key (f r) = key r) \<Longrightarrow> map key (fst (sql_update w f t)) = map key t"
  by (simp add: sql_update_def)

lemma unique_key:
  "distinct (map key t) \<Longrightarrow> r \<in> set t \<Longrightarrow> s \<in> set t \<Longrightarrow> key r = key s \<Longrightarrow> r = s"
  by (meson distinct_map inj_on_def)

section \<open>Programs that thread a state\<close>

text \<open>
  A program that passes a state through its calls respects a reflexive and transitive relation when its
  calls do: \<open>bind\<close> goes through a call with a result, \<open>call\<close> through one without.
\<close>

locale respected =
  fixes R :: "'s \<Rightarrow> 's \<Rightarrow> bool"
  assumes reflexive: "R s s" and transitive: "R a b \<Longrightarrow> R b c \<Longrightarrow> R a c"
begin

lemma bind:
  assumes "R s (snd p)" "R s0 s" "\<And>x t. R s0 t \<Longrightarrow> R s0 (snd (g x t))"
  shows "R s0 (snd (case p of (x, t) \<Rightarrow> g x t))"
  using transitive [OF assms(2,1)] assms(3) by (simp add: split_def)

lemma call: "R s t \<Longrightarrow> R s0 s \<Longrightarrow> R s0 t"
  by (rule transitive)

lemma folds:
  assumes "R s0 s" "\<And>x s. R s (f x s)" shows "R s0 (fold f xs s)"
  using assms(1)
proof (induction xs arbitrary: s)
  case (Cons x xs)
  from Cons.IH [OF transitive [OF Cons.prems assms(2)]] show ?case by simp
qed simp

end

end
