(* ===== verification/Float64.thy ===== *)
theory Float64
  imports Complex_Main Prelude "HOL-Library.Log_Nat"
begin

text \<open>
  Go's \<open>float64\<close>: IEEE-754 double precision with round-to-nearest-even, infinities and NaN.
  A finite value is the rational it denotes; the sign of a zero is not represented (no modelled
  routine reads it).  Every arithmetic operation of the source is the rounded operation here, so
  rounding, overflow and NaN are part of the model.  \<open>f2i\<close> is Go's conversion \<open>int(x)\<close> on amd64.
  The functions of package \<open>math\<close> that are not correctly rounded (\<open>Sin\<close>, \<open>Log\<close>, ...) are
  arguments of the models that call them.
\<close>

datatype f64 = Fin rat | PInf | NInf | NaN

section \<open>Rounding\<close>

definition two_pow :: "int \<Rightarrow> rat" where
  "two_pow e = (if 0 \<le> e then 2 ^ nat e else 1 / 2 ^ nat (- e))"

text \<open>\<open>flog2 x\<close> is the floor of the binary logarithm of a positive rational.\<close>

definition flog2 :: "rat \<Rightarrow> int" where
  "flog2 x = (let (n, d) = quotient_of x; k = bitlen n - bitlen d
              in if two_pow k \<le> x then k else k - 1)"

definition round_half_even :: "rat \<Rightarrow> int" where
  "round_half_even x =
     (let f = \<lfloor>x\<rfloor>; d = x - of_int f
      in if d < 1 / 2 then f else if 1 / 2 < d then f + 1 else if even f then f else f + 1)"

definition ulp_exp :: "rat \<Rightarrow> int" where
  "ulp_exp a = max (flog2 a - 52) (- 1074)"

definition round_pos :: "rat \<Rightarrow> rat" where
  "round_pos a = of_int (round_half_even (a / two_pow (ulp_exp a))) * two_pow (ulp_exp a)"

definition fround :: "rat \<Rightarrow> f64" where
  "fround x =
     (if x = 0 then Fin 0
      else if 0 < x then (let v = round_pos x in if two_pow 1024 \<le> v then PInf else Fin v)
      else (let v = round_pos (- x) in if two_pow 1024 \<le> v then NInf else Fin (- v)))"

section \<open>Arithmetic and comparison\<close>

fun fneg :: "f64 \<Rightarrow> f64" where
  "fneg (Fin x) = Fin (- x)"
| "fneg PInf = NInf"
| "fneg NInf = PInf"
| "fneg NaN = NaN"

fun fadd :: "f64 \<Rightarrow> f64 \<Rightarrow> f64" where
  "fadd (Fin x) (Fin y) = fround (x + y)"
| "fadd NaN _ = NaN"
| "fadd _ NaN = NaN"
| "fadd PInf NInf = NaN"
| "fadd NInf PInf = NaN"
| "fadd PInf _ = PInf"
| "fadd _ PInf = PInf"
| "fadd NInf _ = NInf"
| "fadd _ NInf = NInf"

definition fsub :: "f64 \<Rightarrow> f64 \<Rightarrow> f64" where
  "fsub a b = fadd a (fneg b)"

definition inf_of :: "bool \<Rightarrow> f64" where
  "inf_of neg = (if neg then NInf else PInf)"

text \<open>The sign of a non-NaN value as -1, 0 or 1.\<close>

fun fsgn :: "f64 \<Rightarrow> int" where
  "fsgn (Fin x) = (if x < 0 then - 1 else if x = 0 then 0 else 1)"
| "fsgn PInf = 1"
| "fsgn NInf = - 1"
| "fsgn NaN = 0"

fun fmul :: "f64 \<Rightarrow> f64 \<Rightarrow> f64" where
  "fmul (Fin x) (Fin y) = fround (x * y)"
| "fmul NaN _ = NaN"
| "fmul _ NaN = NaN"
| "fmul a b = (if fsgn a * fsgn b = 0 then NaN else inf_of (fsgn a * fsgn b < 0))"

fun fdiv :: "f64 \<Rightarrow> f64 \<Rightarrow> f64" where
  "fdiv (Fin x) (Fin y) =
     (if y = 0 then (if x = 0 then NaN else inf_of (x < 0)) else fround (x / y))"
| "fdiv NaN _ = NaN"
| "fdiv _ NaN = NaN"
| "fdiv (Fin x) _ = Fin 0"
| "fdiv a (Fin y) = inf_of (fsgn a * (if y < 0 then - 1 else 1) < 0)"
| "fdiv _ _ = NaN"

fun flt :: "f64 \<Rightarrow> f64 \<Rightarrow> bool" where
  "flt (Fin x) (Fin y) = (x < y)"
| "flt NaN _ = False"
| "flt _ NaN = False"
| "flt NInf NInf = False"
| "flt NInf _ = True"
| "flt _ NInf = False"
| "flt PInf _ = False"
| "flt _ PInf = True"

fun feq :: "f64 \<Rightarrow> f64 \<Rightarrow> bool" where
  "feq NaN _ = False"
| "feq _ NaN = False"
| "feq a b = (a = b)"

definition fle :: "f64 \<Rightarrow> f64 \<Rightarrow> bool" where
  "fle a b \<longleftrightarrow> flt a b \<or> feq a b"

fun fabs :: "f64 \<Rightarrow> f64" where
  "fabs (Fin x) = Fin \<bar>x\<bar>"
| "fabs NInf = PInf"
| "fabs a = a"

definition is_NaN :: "f64 \<Rightarrow> bool" where
  "is_NaN a \<longleftrightarrow> a = NaN"

definition is_Inf :: "f64 \<Rightarrow> bool" where
  "is_Inf a \<longleftrightarrow> a = PInf \<or> a = NInf"

text \<open>\<open>math.Mod\<close>: the remainder with the sign of the dividend, which is exact.\<close>

definition trunc_rat :: "rat \<Rightarrow> int" where
  "trunc_rat x = (if x < 0 then - \<lfloor>- x\<rfloor> else \<lfloor>x\<rfloor>)"

fun fMod :: "f64 \<Rightarrow> f64 \<Rightarrow> f64" where
  "fMod (Fin x) (Fin y) = (if y = 0 then NaN else Fin (x - y * of_int (trunc_rat (x / y))))"
| "fMod (Fin x) NaN = NaN"
| "fMod (Fin x) _ = Fin x"
| "fMod _ _ = NaN"

fun fFloor :: "f64 \<Rightarrow> f64" where
  "fFloor (Fin x) = Fin (of_int \<lfloor>x\<rfloor>)"
| "fFloor a = a"

fun fCeil :: "f64 \<Rightarrow> f64" where
  "fCeil (Fin x) = Fin (of_int \<lceil>x\<rceil>)"
| "fCeil a = a"

definition fMin :: "f64 \<Rightarrow> f64 \<Rightarrow> f64" where
  "fMin a b = (if a = NInf \<or> b = NInf then NInf else if a = NaN \<or> b = NaN then NaN
               else if flt a b then a else b)"

definition fMax :: "f64 \<Rightarrow> f64 \<Rightarrow> f64" where
  "fMax a b = (if a = PInf \<or> b = PInf then PInf else if a = NaN \<or> b = NaN then NaN
               else if flt b a then a else b)"

text \<open>Conversions: \<open>float64(n)\<close> and \<open>int(x)\<close>.\<close>

definition i2f :: "int \<Rightarrow> f64" where
  "i2f n = fround (of_int n)"

fun f2i :: "f64 \<Rightarrow> int" where
  "f2i (Fin x) = (let t = trunc_rat x in if int64_ok t then t else - (2 ^ 63))"
| "f2i _ = - (2 ^ 63)"

text \<open>\<open>Duration.Seconds\<close>: whole seconds and nanoseconds are converted separately.\<close>

definition Seconds :: "duration \<Rightarrow> f64" where
  "Seconds d = (let s = sgn d * (\<bar>d\<bar> div second); ns = d - s * second
                in fadd (i2f s) (fdiv (i2f ns) (Fin 1000000000)))"

text \<open>A literal of the source: the decimal constant, rounded.\<close>

abbreviation flit :: "rat \<Rightarrow> f64" where
  "flit \<equiv> fround"

section \<open>Powers of two and the binary exponent\<close>

lemma two_pow_pos [simp]: "0 < two_pow e"
  by (simp add: two_pow_def)

lemma two_pow_nonneg [simp]: "0 \<le> two_pow e"
  using two_pow_pos [of e] by linarith

lemma two_pow_nz [simp]: "two_pow e \<noteq> 0"
  using two_pow_pos [of e] by linarith

lemma two_pow_powi: "two_pow e = 2 powi e"
  by (auto simp: two_pow_def power_int_def divide_simps)

lemma two_pow_add: "two_pow (a + b) = two_pow a * two_pow b"
  by (simp add: two_pow_powi power_int_add)

lemma two_pow_diff: "two_pow (a - b) = two_pow a / two_pow b"
  by (simp add: two_pow_powi power_int_diff)

lemma two_pow_mono: "a \<le> b \<Longrightarrow> two_pow a \<le> two_pow b"
  by (simp add: two_pow_powi power_int_increasing)

lemma two_pow_Suc: "two_pow (e + 1) = 2 * two_pow e"
  by (simp add: two_pow_add) (simp add: two_pow_def)

lemma two_pow_less: "two_pow a < two_pow b \<Longrightarrow> a < b"
  using two_pow_mono [of b a] by (meson linorder_not_less)

lemma bitlen_rat_bounds:
  assumes "0 < n"
  shows "two_pow (bitlen n - 1) \<le> of_int n" "of_int n < two_pow (bitlen n)"
proof -
  have pos: "0 < bitlen n" using assms by (simp add: bitlen_alt_def)
  have b: "2 ^ nat (bitlen n - 1) \<le> n" "n < 2 ^ nat (bitlen n)"
    using bitlen_bounds [OF assms] by auto
  from b(1) have "(2::rat) ^ nat (bitlen n - 1) \<le> of_int n"
    by (metis of_int_le_iff of_int_numeral of_int_power)
  then show "two_pow (bitlen n - 1) \<le> of_int n" using pos by (simp add: two_pow_def)
  from b(2) have "of_int n < (2::rat) ^ nat (bitlen n)"
    by (metis of_int_less_iff of_int_numeral of_int_power)
  then show "of_int n < two_pow (bitlen n)" using pos by (simp add: two_pow_def)
qed

lemma flog2_bounds:
  assumes "0 < x"
  shows "two_pow (flog2 x) \<le> x" "x < two_pow (flog2 x + 1)"
proof -
  obtain n d where q: "quotient_of x = (n, d)" by (cases "quotient_of x") auto
  have d: "0 < d" using quotient_of_denom_pos [OF q] .
  have x: "x = of_int n / of_int d" using quotient_of_div [OF q] .
  have n: "0 < n" using assms x d by (simp add: zero_less_divide_iff)
  define k where "k = bitlen n - bitlen d"
  note bn = bitlen_rat_bounds [OF n] and bd = bitlen_rat_bounds [OF d]
  have d': "(0::rat) < of_int d" and n0: "0 \<le> n" using d n by simp_all
  have "two_pow (bitlen n - 1) / two_pow (bitlen d) \<le> x"
    unfolding x using bn bd d' n0 by (intro frac_le) auto
  then have lo: "two_pow (k - 1) \<le> x"
    by (simp add: k_def two_pow_diff [symmetric] algebra_simps)
  have "x < two_pow (bitlen n) / two_pow (bitlen d - 1)"
    unfolding x using bn bd d' n0 by (intro frac_less) auto
  then have hi: "x < two_pow (k + 1)"
    by (simp add: k_def two_pow_diff [symmetric] algebra_simps)
  have f: "flog2 x = (if two_pow k \<le> x then k else k - 1)"
    by (simp add: flog2_def q k_def)
  show "two_pow (flog2 x) \<le> x" using lo by (simp add: f)
  show "x < two_pow (flog2 x + 1)" using hi by (simp add: f)
qed

lemma flog2_mono: "0 < x \<Longrightarrow> x \<le> y \<Longrightarrow> flog2 x \<le> flog2 y"
proof -
  assume a: "0 < x" "x \<le> y"
  then have "two_pow (flog2 x) < two_pow (flog2 y + 1)"
    using flog2_bounds [of x] flog2_bounds [of y] by linarith
  then show ?thesis using two_pow_less by fastforce
qed

section \<open>Rounding is monotone\<close>

lemma round_half_even_bounds: "\<lfloor>x\<rfloor> \<le> round_half_even x" "round_half_even x \<le> \<lfloor>x\<rfloor> + 1"
  by (auto simp: round_half_even_def Let_def)

lemma round_half_even_int [simp]: "round_half_even (of_int n) = n"
  by (simp add: round_half_even_def)

lemma round_half_even_mono:
  assumes "x \<le> y"
  shows "round_half_even x \<le> round_half_even y"
proof (cases "\<lfloor>x\<rfloor> = \<lfloor>y\<rfloor>")
  case True
  with assms show ?thesis by (auto simp: round_half_even_def Let_def)
next
  case False
  with floor_mono [OF assms] have "\<lfloor>x\<rfloor> + 1 \<le> \<lfloor>y\<rfloor>" by linarith
  then show ?thesis using round_half_even_bounds [of x] round_half_even_bounds [of y] by linarith
qed

lemma round_pos_nonneg: "0 \<le> a \<Longrightarrow> 0 \<le> round_pos a"
proof -
  assume "0 \<le> a"
  then have "0 \<le> \<lfloor>a / two_pow (ulp_exp a)\<rfloor>" by simp
  then have "0 \<le> round_half_even (a / two_pow (ulp_exp a))"
    using round_half_even_bounds by (meson order_trans)
  then show ?thesis by (simp add: round_pos_def)
qed

lemma round_pos_mono:
  assumes "0 < a" "a \<le> b"
  shows "round_pos a \<le> round_pos b"
proof -
  have le: "ulp_exp a \<le> ulp_exp b" using flog2_mono [OF assms] by (simp add: ulp_exp_def)
  show ?thesis
  proof (cases "ulp_exp a = ulp_exp b")
    case True
    have "round_half_even (a / two_pow (ulp_exp b)) \<le> round_half_even (b / two_pow (ulp_exp b))"
      using assms by (intro round_half_even_mono divide_right_mono) auto
    then show ?thesis using True by (simp add: round_pos_def mult_right_mono)
  next
    case False
    with le have lt: "ulp_exp a < ulp_exp b" by simp
    then have eb: "ulp_exp b = flog2 b - 52" and fl: "flog2 a < flog2 b"
      by (auto simp: ulp_exp_def split: if_splits simp: max_def)
    have a_hi: "a \<le> two_pow (flog2 a + 1)" using flog2_bounds [of a] assms by simp
    have ea: "ulp_exp a \<le> flog2 b" using lt eb by simp
    define E where "E = max (flog2 a + 1) (ulp_exp a)"
    have E: "E \<le> flog2 b" using fl ea by (simp add: E_def)
    have "a / two_pow (ulp_exp a) \<le> two_pow (E - ulp_exp a)"
      unfolding two_pow_diff using a_hi two_pow_mono [of "flog2 a + 1" E]
      by (intro divide_right_mono) (auto simp: E_def)
    also have "two_pow (E - ulp_exp a) = of_int (2 ^ nat (E - ulp_exp a))"
      by (simp add: two_pow_def E_def)
    finally have "round_half_even (a / two_pow (ulp_exp a)) \<le> 2 ^ nat (E - ulp_exp a)"
      by (metis round_half_even_mono round_half_even_int)
    then have "(of_int (round_half_even (a / two_pow (ulp_exp a))) :: rat) \<le> of_int (2 ^ nat (E - ulp_exp a))"
      by (simp only: of_int_le_iff)
    then have "(of_int (round_half_even (a / two_pow (ulp_exp a))) :: rat) \<le> two_pow (E - ulp_exp a)"
      by (simp add: two_pow_def E_def)
    then have "round_pos a \<le> two_pow (E - ulp_exp a) * two_pow (ulp_exp a)"
      unfolding round_pos_def by (intro mult_right_mono) auto
    then have ra: "round_pos a \<le> two_pow E" by (simp flip: two_pow_add)
    have "two_pow (flog2 b) / two_pow (ulp_exp b) \<le> b / two_pow (ulp_exp b)"
      using flog2_bounds [of b] assms by (intro divide_right_mono) auto
    then have "of_int (2 ^ 52) \<le> b / two_pow (ulp_exp b)"
      by (simp add: eb flip: two_pow_diff) (simp add: two_pow_def)
    then have "2 ^ 52 \<le> round_half_even (b / two_pow (ulp_exp b))"
      using round_half_even_mono [of "of_int (2 ^ 52)"] by (simp only: round_half_even_int)
    then have "(of_int (2 ^ 52) :: rat) \<le> of_int (round_half_even (b / two_pow (ulp_exp b)))"
      by (simp only: of_int_le_iff)
    then have "of_int (2 ^ 52) * two_pow (ulp_exp b) \<le> round_pos b"
      unfolding round_pos_def by (intro mult_right_mono) auto
    moreover have "of_int (2 ^ 52) * two_pow (ulp_exp b) = two_pow (flog2 b)"
    proof -
      have "two_pow (flog2 b) = two_pow 52 * two_pow (flog2 b - 52)" by (simp flip: two_pow_add)
      then show ?thesis by (simp add: eb) (simp add: two_pow_def)
    qed
    ultimately have "two_pow (flog2 b) \<le> round_pos b" by simp
    then show ?thesis using ra two_pow_mono [OF E] by linarith
  qed
qed

lemma fround_0 [simp]: "fround 0 = Fin 0"
  by (simp add: fround_def)

lemma fround_not_NaN [simp]: "fround x \<noteq> NaN"
  by (simp add: fround_def Let_def)

lemma fle_refl: "a \<noteq> NaN \<Longrightarrow> fle a a"
  by (cases a) (auto simp: fle_def)

lemma fle_Fin [simp]: "fle (Fin x) (Fin y) \<longleftrightarrow> x \<le> y"
  by (auto simp: fle_def)

lemma fround_mono: "x \<le> y \<Longrightarrow> fle (fround x) (fround y)"
proof -
  assume le: "x \<le> y"
  consider "0 < x" | "x \<le> 0" "0 \<le> y" | "y < 0" by linarith
  then show ?thesis
  proof cases
    case 1
    with round_pos_mono [of x y] le show ?thesis by (auto simp: fround_def Let_def fle_def)
  next
    case 2
    then show ?thesis using round_pos_nonneg [of y] round_pos_nonneg [of "- x"]
      by (auto simp: fround_def Let_def fle_def)
  next
    case 3
    with round_pos_mono [of "- y" "- x"] le show ?thesis by (auto simp: fround_def Let_def fle_def)
  qed
qed

lemma trunc_rat_mono: "x \<le> y \<Longrightarrow> trunc_rat x \<le> trunc_rat y"
proof -
  assume le: "x \<le> y"
  have "- \<lfloor>- x\<rfloor> \<le> - \<lfloor>- y\<rfloor>" using le by (simp add: floor_mono)
  moreover have "\<lfloor>x\<rfloor> \<le> \<lfloor>y\<rfloor>" using le by (rule floor_mono)
  moreover have "x < 0 \<Longrightarrow> - \<lfloor>- x\<rfloor> \<le> 0" "0 \<le> y \<Longrightarrow> 0 \<le> \<lfloor>y\<rfloor>" by simp_all
  ultimately have "x < 0 \<Longrightarrow> \<not> y < 0 \<Longrightarrow> - \<lfloor>- x\<rfloor> \<le> \<lfloor>y\<rfloor>" "\<not> x < 0 \<Longrightarrow> \<not> y < 0"
    using le by (metis not_le order_trans, linarith)
  then show ?thesis
    using floor_mono [OF le] floor_mono [of "- y" "- x"] le by (simp add: trunc_rat_def)
qed

section \<open>Exactly representable values\<close>

lemma ulp_exp_le:
  assumes "0 < m" "m < 2 ^ 53" "- 1074 \<le> k"
  shows "ulp_exp (of_int m * two_pow k) \<le> k"
proof -
  let ?x = "of_int m * two_pow k"
  have pos: "0 < ?x" using assms by simp
  have "(of_int m :: rat) < of_int (2 ^ 53)" using assms(2) by (simp only: of_int_less_iff)
  then have "(of_int m :: rat) < two_pow 53" by (simp add: two_pow_def [of 53])
  then have "?x < two_pow 53 * two_pow k" by (rule mult_strict_right_mono) simp
  then have "?x < two_pow (53 + k)" by (simp only: two_pow_add)
  with flog2_bounds(1) [OF pos] have "two_pow (flog2 ?x) < two_pow (53 + k)"
    by (rule order.strict_trans1)
  then have "flog2 ?x < 53 + k" by (rule two_pow_less)
  then show ?thesis using assms(3) by (simp add: ulp_exp_def)
qed

lemma round_pos_exact:
  assumes "0 < m" "m < 2 ^ 53" "- 1074 \<le> k"
  shows "round_pos (of_int m * two_pow k) = of_int m * two_pow k"
proof -
  define u where "u = ulp_exp (of_int m * two_pow k)"
  have "u \<le> k" using ulp_exp_le [OF assms] by (simp add: u_def)
  then have "two_pow k / two_pow u = of_int (2 ^ nat (k - u))"
    by (simp flip: two_pow_diff) (simp add: two_pow_def)
  then have q: "of_int m * two_pow k / two_pow u = of_int (m * 2 ^ nat (k - u))"
    by (simp flip: times_divide_eq_right)
  have "round_pos (of_int m * two_pow k) = of_int (m * 2 ^ nat (k - u)) * two_pow u"
    unfolding round_pos_def u_def [symmetric] q by (simp only: round_half_even_int)
  also have "\<dots> = of_int m * two_pow k / two_pow u * two_pow u" by (simp only: q)
  finally show ?thesis by simp
qed

lemma fround_exact:
  assumes "\<bar>m\<bar> < 2 ^ 53" "- 1074 \<le> k" "k \<le> 971"
  shows "fround (of_int m * two_pow k) = Fin (of_int m * two_pow k)"
proof (cases "m = 0")
  case True
  then show ?thesis by simp
next
  case False
  define n where "n = \<bar>m\<bar>"
  have n: "0 < n" "n < 2 ^ 53" using False assms by (auto simp: n_def)
  have r: "round_pos (of_int n * two_pow k) = of_int n * two_pow k"
    using round_pos_exact n assms by simp
  have "(of_int n :: rat) < of_int (2 ^ 53)" using n(2) by (simp only: of_int_less_iff)
  then have "of_int n * two_pow k < two_pow 53 * two_pow k" by (simp add: two_pow_def [of 53])
  also have "two_pow 53 * two_pow k \<le> two_pow 1024"
    using assms(3) by (simp flip: two_pow_add add: two_pow_mono)
  finally have lt: "of_int n * two_pow k < two_pow 1024" .
  show ?thesis
  proof (cases "0 < m")
    case True
    then have "n = m" by (simp add: n_def)
    with r lt True show ?thesis by (simp add: fround_def)
  next
    case neg: False
    then have m: "m = - n" "m < 0" using False by (auto simp: n_def)
    then have "of_int m * two_pow k < 0" by (simp add: mult_neg_pos)
    then have np: "\<not> 0 < of_int m * two_pow k" by simp
    have e: "- (of_int m * two_pow k) = of_int n * two_pow k" using m by simp
    show ?thesis unfolding fround_def e r using lt np e m by (simp add: Let_def)
  qed
qed

lemma fround_of_int: "\<bar>m\<bar> < 2 ^ 53 \<Longrightarrow> fround (of_int m) = Fin (of_int m)"
  using fround_exact [of m 0] by (simp add: two_pow_def)

lemma fround_numeral [simp]: "(numeral n :: int) < 2 ^ 53 \<Longrightarrow> fround (numeral n) = Fin (numeral n)"
  using fround_of_int [of "numeral n"] by simp

lemma fround_neg_numeral [simp]:
  "(numeral n :: int) < 2 ^ 53 \<Longrightarrow> fround (- numeral n) = Fin (- numeral n)"
  using fround_of_int [of "- numeral n"] by simp

lemma fround_1 [simp]: "fround 1 = Fin 1"
  using fround_of_int [of 1] by simp

lemma fround_half [simp]: "fround (1 / 2) = Fin (1 / 2)"
  using fround_exact [of 1 "- 1"] by (simp add: two_pow_def)

lemma i2f_exact: "\<bar>m\<bar> < 2 ^ 53 \<Longrightarrow> i2f m = Fin (of_int m)"
  by (simp add: i2f_def fround_of_int)

lemma f2i_i2f: "\<bar>m\<bar> < 2 ^ 53 \<Longrightarrow> f2i (i2f m) = m"
  by (auto simp: i2f_exact int64_ok_def Let_def trunc_rat_def)

lemma trunc_rat_of_int [simp]: "trunc_rat (of_int n) = n"
  by (simp add: trunc_rat_def)

text \<open>Between two representable values a rounded result is finite and stays between them.\<close>

lemma fround_between:
  assumes "fround lo = Fin lo" "fround hi = Fin hi" "lo \<le> x" "x \<le> hi"
  obtains v where "fround x = Fin v" "lo \<le> v" "v \<le> hi"
proof -
  have "fle (Fin lo) (fround x)" "fle (fround x) (Fin hi)"
    using fround_mono [OF assms(3)] fround_mono [OF assms(4)] assms(1,2) by simp_all
  then obtain v where "fround x = Fin v" by (cases "fround x") (auto simp: fle_def)
  with \<open>fle (Fin lo) (fround x)\<close> \<open>fle (fround x) (Fin hi)\<close> that show thesis by (auto simp: fle_def)
qed

text \<open>Non-negative values are closed under the rounded operations.\<close>

lemma fle_0_iff: "fle (Fin 0) a \<longleftrightarrow> a = PInf \<or> (\<exists>r. a = Fin r \<and> 0 \<le> r)"
  by (cases a) (auto simp: fle_def)

lemma fround_nonneg: "0 \<le> x \<Longrightarrow> fle (Fin 0) (fround x)"
  using fround_mono [of 0 x] by simp

lemma fadd_nonneg: "fle (Fin 0) a \<Longrightarrow> fle (Fin 0) b \<Longrightarrow> fle (Fin 0) (fadd a b)"
  by (auto simp: fle_0_iff) (metis add_nonneg_nonneg fle_0_iff fround_nonneg)

lemma fdiv_nonneg: "fle (Fin 0) a \<Longrightarrow> 0 < y \<Longrightarrow> fle (Fin 0) (fdiv a (Fin y))"
  by (auto simp: fle_0_iff inf_of_def) (metis divide_nonneg_pos fle_0_iff fround_nonneg)

lemma flt_irrefl: "\<not> flt x x"
  by (cases x) auto

lemma not_flt_0: "fle (Fin 0) a \<Longrightarrow> \<not> flt a (Fin 0)"
  by (auto simp: fle_0_iff)

lemma Seconds_nonneg:
  assumes "0 \<le> d" shows "fle (Fin 0) (Seconds d)"
proof -
  have sg: "sgn d * (\<bar>d\<bar> div second) = d div second" using assms by (cases "d = 0") auto
  have "0 \<le> d - d div second * second" by (simp add: minus_div_mult_eq_mod)
  moreover have "0 \<le> d div second" using assms by (simp add: pos_imp_zdiv_nonneg_iff)
  ultimately show ?thesis
    unfolding Seconds_def Let_def sg i2f_def
    by (intro fadd_nonneg fdiv_nonneg fround_nonneg) ((simp only: of_int_0_le_iff) | simp)+
qed

lemma Seconds_0 [simp]: "Seconds 0 = Fin 0"
  by (simp add: Seconds_def i2f_def)

end
