(* ===== verification/Wire.thy ===== *)
theory Wire
  imports Prelude Float64
begin

text \<open>
  The pier-facing MQTT contract (\<open>shared/wire\<close>) and the runner's record check
  (\<open>shared/pierjob\<close>): topic strings, command signing, the capability menu of on-pier
  researcher code, the bounds of an exposure override, and the artifact that a pier fetches,
  verifies and caches.  HMAC-SHA256, SHA-256, RFC 3339 and URL parsing, DNS and the transport are
  arguments; the file system is a map from paths to contents with explicit write faults.
\<close>

section \<open>Topics\<close>

definition TopicTelemetry :: string where "TopicTelemetry = ''/telemetry/%s''"
definition TopicCommands :: string where "TopicCommands = ''/commands/%s''"
definition TopicMetadata :: string where "TopicMetadata = ''/metadata/%s''"
definition TopicStatus :: string where "TopicStatus = ''/status/%s''"
definition TopicBoard :: string where "TopicBoard = ''/board/%s/%s''"
definition TopicCampaignBoard :: string where "TopicCampaignBoard = ''/board/campaign/%s/%s''"

text \<open>\<open>fmt.Sprintf\<close> with \<open>%s\<close> verbs only, and \<open>strings.ReplaceAll\<close> of the verb.\<close>

fun sprintf_s :: "string \<Rightarrow> string list \<Rightarrow> string" where
  "sprintf_s (a # b # f) xs =
     (if a = CHR ''%'' \<and> b = CHR ''s''
      then (case xs of [] \<Rightarrow> ''%!s(MISSING)'' @ sprintf_s f [] | x # ys \<Rightarrow> x @ sprintf_s f ys)
      else a # sprintf_s (b # f) xs)"
| "sprintf_s f xs = f"

fun replace_verb :: "string \<Rightarrow> string \<Rightarrow> string" where
  "replace_verb (a # b # f) r =
     (if a = CHR ''%'' \<and> b = CHR ''s'' then r @ replace_verb f r else a # replace_verb (b # f) r)"
| "replace_verb f r = f"

definition SubscribeFilter :: "string \<Rightarrow> string" where
  "SubscribeFilter topic = replace_verb topic ''+''"

definition TopicPrefix :: "string \<Rightarrow> string" where
  "TopicPrefix topic = (case Index topic ''%s'' of Some i \<Rightarrow> take i topic | None \<Rightarrow> topic)"

definition NodeIDFromTopic :: "string \<Rightarrow> string \<Rightarrow> string" where
  "NodeIDFromTopic topic pre =
     (let topic = TrimSpace topic; pre = TrimSuffix pre ''/'' @ ''/'' in
      if \<not> HasPrefix topic pre then []
      else (let id = TrimPrefix topic pre in
            if id = [] \<or> contains_char (CHR ''/'') id then [] else id))"

lemma TopicPrefix_simps [simp]:
  "TopicPrefix TopicTelemetry = ''/telemetry/''" "TopicPrefix TopicCommands = ''/commands/''"
  "TopicPrefix TopicMetadata = ''/metadata/''" "TopicPrefix TopicStatus = ''/status/''"
  "TopicPrefix TopicBoard = ''/board/''" "TopicPrefix TopicCampaignBoard = ''/board/campaign/''"
  by (simp_all add: TopicPrefix_def TopicTelemetry_def TopicCommands_def TopicMetadata_def
      TopicStatus_def TopicBoard_def TopicCampaignBoard_def HasPrefix_def)

lemma NodeIDFromTopic_clean: "CHR ''/'' \<notin> set (NodeIDFromTopic topic pre)"
  by (auto simp: NodeIDFromTopic_def Let_def contains_char_set)

lemma sprintf_telemetry: "sprintf_s TopicTelemetry [x] = ''/telemetry/'' @ x"
  by (simp add: TopicTelemetry_def)

lemma TrimSpace_solid:
  assumes "s \<noteq> []" "\<not> is_space (hd s)" "\<not> is_space (last s)"
  shows "TrimSpace s = s"
proof -
  have "dropWhile is_space s = s" using assms by (cases s) auto
  moreover have "dropWhile is_space (rev s) = rev s"
    using assms by (cases s rule: rev_cases) auto
  ultimately show ?thesis by (simp add: TrimSpace_def)
qed

text \<open>A node id that publishes under a topic is the id the server reads back from it.\<close>

lemma NodeIDFromTopic_publish:
  assumes "pre = ''/'' @ name @ ''/''" "nid \<noteq> []" "CHR ''/'' \<notin> set nid" "\<not> is_space (last nid)"
  shows "NodeIDFromTopic (pre @ nid) pre = nid"
proof -
  have "TrimSuffix pre ''/'' @ ''/'' = pre" using assms(1)
    by (simp add: TrimSuffix_def HasPrefix_def)
  moreover have "TrimSpace (pre @ nid) = pre @ nid"
    using assms by (intro TrimSpace_solid) (auto simp: is_space_def)
  ultimately show ?thesis using assms(2,3)
    by (simp only: NodeIDFromTopic_def Let_def HasPrefix_append TrimPrefix_append contains_char_set)
      simp
qed

section \<open>Command signing\<close>

datatype sign_error = ErrCommandHMACSecretMissing | ErrCommandSignatureInvalid | ErrCommandStale
  | ErrCommandMarshal

record command =
  cmd_Type :: string
  cmd_NodeID :: string
  cmd_Payload :: string
  cmd_SentAt :: string
  cmd_Sig :: string

definition CommandMaxAge :: duration where
  "CommandMaxAge = 5 * minute"

definition CommandCanonical :: "string \<Rightarrow> string \<Rightarrow> string \<Rightarrow> string \<Rightarrow> string" where
  "CommandCanonical cmdType nodeID sentAt payloadJSON =
     ''v1'' @ [CHR 0x0A] @ cmdType @ [CHR 0x0A] @ nodeID @ [CHR 0x0A] @ sentAt @ [CHR 0x0A] @ payloadJSON"

text \<open>\<open>hmac_hex key msg\<close> is the lower-case hexadecimal HMAC-SHA256.\<close>

definition SignCommandPayload ::
  "(string \<Rightarrow> string \<Rightarrow> string) \<Rightarrow> string \<Rightarrow> string \<Rightarrow> string \<Rightarrow> string \<Rightarrow> string \<Rightarrow> sign_error + string" where
  "SignCommandPayload hmac_hex secret cmdType nodeID sentAt payloadJSON =
     (if secret = [] then Inl ErrCommandHMACSecretMissing
      else Inr (hmac_hex secret (CommandCanonical cmdType nodeID sentAt payloadJSON)))"

definition VerifyCommandSignature ::
  "(string \<Rightarrow> string \<Rightarrow> string) \<Rightarrow> (string \<Rightarrow> gotime option) \<Rightarrow> gotime \<Rightarrow>
   string \<Rightarrow> string \<Rightarrow> string \<Rightarrow> string \<Rightarrow> string \<Rightarrow> string \<Rightarrow> sign_error option" where
  "VerifyCommandSignature hmac_hex parse_rfc3339 now secret cmdType nodeID sentAt sig payloadJSON =
     (if secret = [] then Some ErrCommandHMACSecretMissing
      else (case parse_rfc3339 sentAt of
          None \<Rightarrow> Some ErrCommandStale
        | Some sent \<Rightarrow>
            if sent < now + (- CommandMaxAge) \<or> now + CommandMaxAge < sent then Some ErrCommandStale
            else (case SignCommandPayload hmac_hex secret cmdType nodeID sentAt payloadJSON of
                Inl err \<Rightarrow> Some err
              | Inr want \<Rightarrow> if ToLower sig \<noteq> ToLower want then Some ErrCommandSignatureInvalid else None)))"

text \<open>
  \<open>SealCommand\<close>: the secret and \<open>DEV_MODE\<close> come from the environment; \<open>marshal\<close> is the
  encoding of the payload, \<open>None\<close> when it fails; \<open>format_rfc3339\<close> prints whole seconds.
\<close>

definition SealCommand ::
  "(string \<Rightarrow> string \<Rightarrow> string) \<Rightarrow> (gotime \<Rightarrow> string) \<Rightarrow> ('p \<Rightarrow> string option) \<Rightarrow> gotime \<Rightarrow> string \<Rightarrow> bool
   \<Rightarrow> string \<Rightarrow> string \<Rightarrow> 'p \<Rightarrow> sign_error + command" where
  "SealCommand hmac_hex format_rfc3339 marshal now env_secret dev_mode cmdType nodeID payload =
     (let secret = TrimSpace env_secret; sentAt = format_rfc3339 now in
      case marshal payload of
        None \<Rightarrow> Inl ErrCommandMarshal
      | Some payloadJSON \<Rightarrow>
          (let cmd = \<lparr>cmd_Type = cmdType, cmd_NodeID = nodeID, cmd_Payload = payloadJSON,
                      cmd_SentAt = sentAt, cmd_Sig = []\<rparr> in
           if secret = [] then (if dev_mode then Inr cmd else Inl ErrCommandHMACSecretMissing)
           else (case SignCommandPayload hmac_hex secret cmdType nodeID sentAt payloadJSON of
               Inl err \<Rightarrow> Inl err
             | Inr sig \<Rightarrow> Inr (cmd\<lparr>cmd_Sig := sig\<rparr>))))"

lemma append_sep_inject:
  assumes "c \<notin> set a" "c \<notin> set b"
  shows "a @ c # s = b @ c # t \<longleftrightarrow> a = b \<and> s = t"
  using assms
proof (induction a arbitrary: b)
  case Nil
  then show ?case by (cases b) auto
next
  case (Cons x a)
  then show ?case by (cases b) auto
qed

text \<open>The canonical string binds each field, as long as the header fields hold no newline.\<close>

lemma CommandCanonical_inject:
  assumes "CHR 0x0A \<notin> set ty" "CHR 0x0A \<notin> set ty'" "CHR 0x0A \<notin> set n" "CHR 0x0A \<notin> set n'"
    "CHR 0x0A \<notin> set t" "CHR 0x0A \<notin> set t'"
  shows "CommandCanonical ty n t p = CommandCanonical ty' n' t' p' \<longleftrightarrow> ty = ty' \<and> n = n' \<and> t = t' \<and> p = p'"
  using assms by (simp add: CommandCanonical_def append_sep_inject)

lemma Verify_accepts_iff:
  "VerifyCommandSignature hm prs now secret ty n t sig p = None \<longleftrightarrow>
     secret \<noteq> [] \<and> (\<exists>sent. prs t = Some sent \<and> \<bar>now - sent\<bar> \<le> CommandMaxAge)
     \<and> ToLower sig = ToLower (hm secret (CommandCanonical ty n t p))"
  by (auto simp: VerifyCommandSignature_def SignCommandPayload_def split: option.splits if_splits)

lemma SealCommand_Inr:
  assumes "SealCommand hm fmt mar now env dev ty n p = Inr c" "TrimSpace env \<noteq> []"
  shows "cmd_NodeID c = n" "cmd_Type c = ty" "cmd_SentAt c = fmt now" "mar p = Some (cmd_Payload c)"
    "cmd_Sig c = hm (TrimSpace env) (CommandCanonical ty n (fmt now) (cmd_Payload c))"
  using assms by (auto simp: SealCommand_def SignCommandPayload_def Let_def split: option.splits if_splits)

section \<open>Properties\<close>

text \<open>C36: A command that the server seals is accepted by the node it is addressed to for five
  minutes, and the sealed bytes bind type, node and payload: a command with another type, another
  node id or another payload is accepted with the same signature only if the MAC collides.\<close>

theorem seal_verify:
  assumes "SealCommand hmac_hex format_rfc3339 marshal sent env_secret dev_mode ty node payload = Inr c"
    and "TrimSpace env_secret \<noteq> []"
    and "parse_rfc3339 (format_rfc3339 sent) = Some (sent div second * second)"
    and "sent \<le> now" "now - sent div second * second \<le> CommandMaxAge"
    and "CHR 0x0A \<notin> set ty" "CHR 0x0A \<notin> set ty'" "CHR 0x0A \<notin> set node" "CHR 0x0A \<notin> set node'"
        "CHR 0x0A \<notin> set (format_rfc3339 sent)"
  shows "VerifyCommandSignature hmac_hex parse_rfc3339 now (TrimSpace env_secret) (cmd_Type c) (cmd_NodeID c)
      (cmd_SentAt c) (cmd_Sig c) (cmd_Payload c) = None
    \<and> (VerifyCommandSignature hmac_hex parse_rfc3339 now (TrimSpace env_secret) ty' node'
         (cmd_SentAt c) (cmd_Sig c) pl' = None \<longrightarrow> (ty', node', pl') \<noteq> (ty, node, cmd_Payload c) \<longrightarrow>
       (\<exists>m m'. m \<noteq> m' \<and> ToLower (hmac_hex (TrimSpace env_secret) m) = ToLower (hmac_hex (TrimSpace env_secret) m')))"
proof -
  note c = SealCommand_Inr [OF assms(1,2)]
  have "sent div second * second \<le> sent" by (simp add: minus_mod_eq_div_mult [symmetric])
  then have age: "\<bar>now - sent div second * second\<bar> \<le> CommandMaxAge" using assms(4,5) by linarith
  have coll: "\<exists>m m'. m \<noteq> m' \<and> ToLower (hmac_hex (TrimSpace env_secret) m) = ToLower (hmac_hex (TrimSpace env_secret) m')"
    if "VerifyCommandSignature hmac_hex parse_rfc3339 now (TrimSpace env_secret) ty' node'
         (cmd_SentAt c) (cmd_Sig c) pl' = None" "(ty', node', pl') \<noteq> (ty, node, cmd_Payload c)"
  proof -
    have "CommandCanonical ty' node' (format_rfc3339 sent) pl' \<noteq>
        CommandCanonical ty node (format_rfc3339 sent) (cmd_Payload c)"
      using that(2) CommandCanonical_inject [of ty' ty node' node] assms(6-) by blast
    moreover have "ToLower (hmac_hex (TrimSpace env_secret) (CommandCanonical ty' node' (format_rfc3339 sent) pl'))
      = ToLower (hmac_hex (TrimSpace env_secret) (CommandCanonical ty node (format_rfc3339 sent) (cmd_Payload c)))"
      using that(1) c by (simp add: Verify_accepts_iff)
    ultimately show ?thesis by (intro exI conjI)
  qed
  have "VerifyCommandSignature hmac_hex parse_rfc3339 now (TrimSpace env_secret) (cmd_Type c)
      (cmd_NodeID c) (cmd_SentAt c) (cmd_Sig c) (cmd_Payload c) = None"
    unfolding Verify_accepts_iff c(1-3) c(5) using age assms(2,3) by blast
  then show ?thesis using coll by (intro conjI impI)
qed

theorem seal_verify_witness:
  "VerifyCommandSignature (\<lambda>k m. m) (\<lambda>s. Some 0) 5 ''k'' ''ping'' ''n1'' ''t'' (CommandCanonical ''ping'' ''n1'' ''t'' ''{}'') ''{}'' = None"
  using seal_verify [of "\<lambda>k m. m" "\<lambda>t. ''t''" "\<lambda>p. Some p" 0 "''k''" False "''ping''" "''n1''" "''{}''"
      "\<lparr>cmd_Type = ''ping'', cmd_NodeID = ''n1'', cmd_Payload = ''{}'', cmd_SentAt = ''t'',
        cmd_Sig = CommandCanonical ''ping'' ''n1'' ''t'' ''{}''\<rparr>" "\<lambda>s. Some 0" 5 "''ping''" "''n1''" "''{}''"]
  by (simp add: SealCommand_def SignCommandPayload_def Let_def TrimSpace_def is_space_def CommandMaxAge_def)

text \<open>What a node publishes under its own topic is attributed to it: for every server-read topic,
  the node id that the server parses from the topic of a node is that node's id, and a node id the
  server parses never contains a slash.\<close>

theorem node_topic_roundtrip:
  assumes "topic \<in> {TopicTelemetry, TopicCommands, TopicMetadata, TopicStatus}"
    and "node \<noteq> []" "CHR ''/'' \<notin> set node" "\<not> is_space (last node)"
  shows "NodeIDFromTopic (sprintf_s topic [node]) (TopicPrefix topic) = node \<and>
    CHR ''/'' \<notin> set (NodeIDFromTopic other (TopicPrefix topic))"
proof -
  have p: "sprintf_s topic [node] = TopicPrefix topic @ node"
    using assms(1) by (auto simp: TopicTelemetry_def TopicCommands_def TopicMetadata_def TopicStatus_def
        TopicPrefix_def HasPrefix_def)
  obtain name where "TopicPrefix topic = ''/'' @ name @ ''/''"
  proof -
    have "\<exists>name. TopicPrefix topic = ''/'' @ name @ ''/''"
      using assms(1)
      by (auto intro: exI [of _ "''telemetry''"] exI [of _ "''commands''"] exI [of _ "''metadata''"] exI [of _ "''status''"])
    then show ?thesis using that by blast
  qed
  from NodeIDFromTopic_publish [OF this assms(2-)] show ?thesis by (simp add: p NodeIDFromTopic_clean)
qed

theorem node_topic_roundtrip_witness:
  "NodeIDFromTopic (sprintf_s TopicStatus [''n1'']) (TopicPrefix TopicStatus) = ''n1''"
  using node_topic_roundtrip [of TopicStatus "''n1''" "[]"] by (simp add: is_space_def)

end
