(* ===== verification/PierWire.thy ===== *)
theory PierWire
  imports Wire
begin

text \<open>
  On-pier researcher code, the wire side (\<open>shared/wire/piercode.go\<close>) and the record check of
  \<open>shared/pierjob\<close>: the capability menu, the exposure bounds, artifact references, the verified
  artifact cache and the restricted HTTP transport.
\<close>

section \<open>The capability menu\<close>

definition ActionReadFrame :: string where "ActionReadFrame = ''read_frame''"
definition ActionBoardPost :: string where "ActionBoardPost = ''board_post''"
definition ActionBoardRead :: string where "ActionBoardRead = ''board_read''"
definition ActionInboxAlert :: string where "ActionInboxAlert = ''inbox_alert''"
definition ActionUrgencyFlag :: string where "ActionUrgencyFlag = ''urgency_flag''"
definition ActionListPiers :: string where "ActionListPiers = ''list_piers''"
definition ActionRequestTime :: string where "ActionRequestTime = ''request_time''"
definition ActionNextCapture :: string where "ActionNextCapture = ''next_capture''"
definition ActionState :: string where "ActionState = ''state''"
definition ActionDone :: string where "ActionDone = ''done''"
definition ActionError :: string where "ActionError = ''error''"

lemmas action_names = ActionReadFrame_def ActionBoardPost_def ActionBoardRead_def
  ActionInboxAlert_def ActionUrgencyFlag_def ActionListPiers_def ActionRequestTime_def
  ActionNextCapture_def ActionState_def ActionDone_def ActionError_def

type_synonym grants = "string \<Rightarrow> bool option"

definition PierCodeActions :: "string list" where
  "PierCodeActions = [ActionReadFrame, ActionBoardPost, ActionBoardRead, ActionInboxAlert,
     ActionUrgencyFlag, ActionListPiers, ActionRequestTime, ActionNextCapture]"

definition IsPierCodeAction :: "string \<Rightarrow> bool" where
  "IsPierCodeAction name \<longleftrightarrow> name \<in> set PierCodeActions"

definition DefaultPierCodeGrants :: grants where
  "DefaultPierCodeGrants =
     [ActionReadFrame \<mapsto> True, ActionBoardPost \<mapsto> True, ActionBoardRead \<mapsto> True]"

definition GrantAllows :: "grants \<Rightarrow> string \<Rightarrow> bool" where
  "GrantAllows grants action =
     (if \<not> IsPierCodeAction action then False else grants action = Some True)"

section \<open>Records of the runner\<close>

record runner_record =
  rr_Action :: string
  rr_Payload :: string
  rr_OK :: bool
  rr_Msg :: string

datatype grant_error = NotInMenu string | NotGranted string

definition CheckRecordGrant :: "runner_record \<Rightarrow> grants \<Rightarrow> grant_error option" where
  "CheckRecordGrant rec grants =
     (if rr_Action rec = ActionState \<or> rr_Action rec = ActionDone \<or> rr_Action rec = ActionError then None
      else if \<not> IsPierCodeAction (rr_Action rec) then Some (NotInMenu (rr_Action rec))
      else if \<not> GrantAllows grants (rr_Action rec) then Some (NotGranted (rr_Action rec))
      else None)"

lemma terminal_not_grantable:
  "\<not> IsPierCodeAction ActionState" "\<not> IsPierCodeAction ActionDone" "\<not> IsPierCodeAction ActionError"
  by (simp_all add: IsPierCodeAction_def PierCodeActions_def action_names)

lemma GrantAllows_menu: "GrantAllows g a \<Longrightarrow> a \<in> set PierCodeActions"
  by (simp add: GrantAllows_def IsPierCodeAction_def split: if_splits)

lemma CheckRecordGrant_None_iff:
  "CheckRecordGrant rec g = None \<longleftrightarrow>
     rr_Action rec \<in> {ActionState, ActionDone, ActionError} \<or> GrantAllows g (rr_Action rec)"
  by (auto simp: CheckRecordGrant_def GrantAllows_def)

section \<open>Bounds of the next capture\<close>

record next_capture =
  nc_ExposureSec :: "f64 option"
  nc_Gain :: "f64 option"
  nc_Filter :: "string option"

record capture_bounds =
  cb_MinExposureSec :: f64
  cb_MaxExposureSec :: f64
  cb_MinGain :: f64
  cb_MaxGain :: f64
  cb_AllowedFilters :: "string list"

record pier_code_error =
  pe_Field :: string
  pe_Msg :: string

definition pcerr :: "string \<Rightarrow> string \<Rightarrow> pier_code_error" where
  "pcerr f m = \<lparr>pe_Field = f, pe_Msg = m\<rparr>"

definition validate_exposure :: "capture_bounds \<Rightarrow> f64 option \<Rightarrow> pier_code_error option" where
  "validate_exposure b e = (case e of None \<Rightarrow> None | Some v \<Rightarrow>
     if fle v (Fin 0) then Some (pcerr ''exposure_sec'' ''must be > 0'')
     else if flt (Fin 0) (cb_MaxExposureSec b) \<and> flt (cb_MaxExposureSec b) v
       then Some (pcerr ''exposure_sec'' ''above campaign max'')
     else if flt (Fin 0) (cb_MinExposureSec b) \<and> flt v (cb_MinExposureSec b)
       then Some (pcerr ''exposure_sec'' ''below campaign min'')
     else None)"

definition validate_gain :: "capture_bounds \<Rightarrow> f64 option \<Rightarrow> pier_code_error option" where
  "validate_gain b g = (case g of None \<Rightarrow> None | Some v \<Rightarrow>
     if flt (Fin 0) (cb_MaxGain b) \<and> flt (cb_MaxGain b) v
       then Some (pcerr ''gain'' ''above campaign max'')
     else if flt v (cb_MinGain b) then Some (pcerr ''gain'' ''below campaign min'')
     else None)"

definition validate_filter :: "capture_bounds \<Rightarrow> string option \<Rightarrow> pier_code_error option" where
  "validate_filter b x = (case x of None \<Rightarrow> None | Some f \<Rightarrow>
     if f \<in> set (cb_AllowedFilters b) then None
     else Some (pcerr ''filter'' ''not in campaign filter set''))"

definition ValidateNextCapture :: "capture_bounds \<Rightarrow> next_capture \<Rightarrow> pier_code_error option" where
  "ValidateNextCapture b p =
     (case validate_exposure b (nc_ExposureSec p) of Some e \<Rightarrow> Some e | None \<Rightarrow>
      (case validate_gain b (nc_Gain p) of Some e \<Rightarrow> Some e | None \<Rightarrow>
       validate_filter b (nc_Filter p)))"

lemma flt_Fin0_iff: "flt (Fin 0) x \<longleftrightarrow> x = PInf \<or> (\<exists>r. x = Fin r \<and> 0 < r)"
  by (cases x) auto

lemma validate_exposure_ok:
  assumes "validate_exposure b (Some (Fin v)) = None" "cb_MaxExposureSec b = Fin hi" "cb_MinExposureSec b = Fin lo"
    "0 < hi" "0 < lo"
  shows "lo \<le> v \<and> v \<le> hi"
  using assms by (auto simp: validate_exposure_def fle_def split: if_splits)

section \<open>Artifact references\<close>

record pier_code_ref =
  pr_SHA256 :: string
  pr_URL :: string
  pr_SizeBytes :: int

definition isSHA256Hex :: "string \<Rightarrow> bool" where
  "isSHA256Hex s =
     (if length s \<noteq> 64 then False
      else list_all (\<lambda>c. let n = (of_char c :: nat) in
             \<not> ((n < 48 \<or> 57 < n) \<and> (n < 97 \<or> 102 < n))) s)"

text \<open>
  IP addresses after \<open>To4\<close> normalisation: four bytes, or sixteen.  The classes are those of
  package \<open>net\<close>.
\<close>

datatype ip = IP4 nat nat nat nat | IP6 "nat list"

fun blockedArtifactIP :: "ip \<Rightarrow> bool" where
  "blockedArtifactIP (IP4 a b c d) =
     (a = 127 \<or> (a = 10 \<or> (a = 172 \<and> b div 16 = 1) \<or> (a = 192 \<and> b = 168)) \<or> (a = 169 \<and> b = 254) \<or>
      (a = 224 \<and> b = 0 \<and> c = 0) \<or> (a = 0 \<and> b = 0 \<and> c = 0 \<and> d = 0) \<or> a div 16 = 14)"
| "blockedArtifactIP (IP6 bs) =
     (bs = replicate 15 0 @ [1] \<or> (length bs = 16 \<and> bs ! 0 div 2 = 126) \<or>
      (length bs = 16 \<and> bs ! 0 = 254 \<and> bs ! 1 div 64 = 2) \<or>
      (length bs = 16 \<and> bs ! 0 = 255 \<and> bs ! 1 mod 16 = 2) \<or> bs = replicate 16 0 \<or>
      (length bs = 16 \<and> bs ! 0 = 255))"

record url =
  u_Scheme :: string
  u_Host :: string
  u_User :: bool
  u_Hostname :: string

text \<open>\<open>parse_uri\<close> is \<open>url.ParseRequestURI\<close>, \<open>parse_ip\<close> is \<open>net.ParseIP\<close>.\<close>

definition parseArtifactURL ::
  "(string \<Rightarrow> url option) \<Rightarrow> (string \<Rightarrow> ip option) \<Rightarrow> string \<Rightarrow> string + url" where
  "parseArtifactURL parse_uri parse_ip raw =
     (case parse_uri raw of
        None \<Rightarrow> Inl ''must be a public https URL''
      | Some u \<Rightarrow>
          if u_Scheme u \<noteq> ''https'' \<or> u_Host u = [] \<or> u_User u then Inl ''must be a public https URL''
          else if u_Hostname u = [] \<or> EqualFold (u_Hostname u) ''localhost'' then Inl ''host is not allowed''
          else (case parse_ip (u_Hostname u) of
              Some i \<Rightarrow> if blockedArtifactIP i then Inl ''host is not allowed'' else Inr u
            | None \<Rightarrow> Inr u))"

definition ValidateRef ::
  "(string \<Rightarrow> url option) \<Rightarrow> (string \<Rightarrow> ip option) \<Rightarrow> pier_code_ref option \<Rightarrow> pier_code_error option" where
  "ValidateRef parse_uri parse_ip ref =
     (case ref of None \<Rightarrow> Some (pcerr ''pier_code'' ''nil ref'')
      | Some r \<Rightarrow>
          if \<not> isSHA256Hex (pr_SHA256 r) then Some (pcerr ''sha256'' ''must be 64 lowercase hex chars'')
          else (case (if pr_URL r = [] then None else
                  (case parseArtifactURL parse_uri parse_ip (pr_URL r) of
                     Inl e \<Rightarrow> Some (pcerr ''url'' e) | Inr _ \<Rightarrow> None)) of
              Some e \<Rightarrow> Some e
            | None \<Rightarrow> if pr_SizeBytes r < 0 then Some (pcerr ''size_bytes'' ''negative'') else None))"

definition MaxArtifactBytes :: int where
  "MaxArtifactBytes = 8 * 2 ^ 20"

text \<open>\<open>sha256_hex\<close> is the lower-case hexadecimal SHA-256.\<close>

definition VerifyArtifactBytes ::
  "(string \<Rightarrow> string) \<Rightarrow> (string \<Rightarrow> url option) \<Rightarrow> (string \<Rightarrow> ip option) \<Rightarrow> pier_code_ref option \<Rightarrow> string
   \<Rightarrow> pier_code_error option" where
  "VerifyArtifactBytes sha256_hex parse_uri parse_ip ref b =
     (case ValidateRef parse_uri parse_ip ref of Some e \<Rightarrow> Some e | None \<Rightarrow>
       (case ref of None \<Rightarrow> None | Some r \<Rightarrow>
         if b = [] then Some (pcerr ''artifact'' ''empty'')
         else if MaxArtifactBytes < int (length b) then Some (pcerr ''artifact'' ''exceeds MaxArtifactBytes'')
         else if pr_SizeBytes r \<noteq> 0 \<and> int (length b) \<noteq> pr_SizeBytes r
           then Some (pcerr ''artifact'' ''size does not match ref'')
         else if sha256_hex b \<noteq> pr_SHA256 r then Some (pcerr ''artifact'' ''sha256 mismatch'')
         else None))"

lemma VerifyArtifactBytes_ok:
  assumes "VerifyArtifactBytes sha pu pip (Some r) b = None"
  shows "sha b = pr_SHA256 r" "b \<noteq> []" "int (length b) \<le> MaxArtifactBytes"
    "pr_SizeBytes r = 0 \<or> int (length b) = pr_SizeBytes r"
  using assms by (auto simp: VerifyArtifactBytes_def split: option.splits if_splits)

section \<open>The verified artifact cache\<close>

text \<open>
  The file system maps paths to contents.  The faults of one run say which call fails; a failing
  write leaves a prefix of the data in the temporary file.  \<open>path_join\<close> is \<open>filepath.Join\<close> of a
  clean directory and a plain file name.
\<close>

type_synonym filesys = "string \<Rightarrow> string option"

record io_faults =
  io_read :: bool
  io_mkdir :: bool
  io_write :: "nat option"
  io_rename :: bool

definition no_faults :: io_faults where
  "no_faults = \<lparr>io_read = False, io_mkdir = False, io_write = None, io_rename = False\<rparr>"

datatype fetch_error = RefError pier_code_error | CacheRead | CachedInvalid pier_code_error
  | GetFailed string | DirFailed | WriteFailed | CommitFailed

definition path_join :: "string \<Rightarrow> string \<Rightarrow> string" where
  "path_join dir name = (if dir = [] then name else dir @ ''/'' @ name)"

definition ArtifactCachePath :: "pier_code_ref \<Rightarrow> string \<Rightarrow> string" where
  "ArtifactCachePath r cacheDir = path_join cacheDir (pr_SHA256 r @ ''.wasm'')"

definition FetchVerifiedArtifact ::
  "(string \<Rightarrow> string) \<Rightarrow> (string \<Rightarrow> url option) \<Rightarrow> (string \<Rightarrow> ip option) \<Rightarrow> (string \<Rightarrow> string + string)
   \<Rightarrow> io_faults \<Rightarrow> pier_code_ref option \<Rightarrow> string \<Rightarrow> filesys \<Rightarrow> (fetch_error + string) \<times> filesys" where
  "FetchVerifiedArtifact sha256_hex parse_uri parse_ip get io ref cacheDir fs =
     (case ValidateRef parse_uri parse_ip ref of Some e \<Rightarrow> (Inl (RefError e), fs) | None \<Rightarrow>
      (case ref of None \<Rightarrow> (Inl (RefError (pcerr ''pier_code'' ''nil ref'')), fs) | Some r \<Rightarrow>
       let path = ArtifactCachePath r cacheDir; tmp = path @ ''.tmp'' in
       case fs path of
         Some cached \<Rightarrow>
           if io_read io then (Inl CacheRead, fs)
           else (case VerifyArtifactBytes sha256_hex parse_uri parse_ip ref cached of
               Some e \<Rightarrow> (Inl (CachedInvalid e), fs)
             | None \<Rightarrow> (Inr path, fs))
       | None \<Rightarrow>
           if pr_URL r = [] then (Inl (RefError (pcerr ''url'' ''no cached artifact and no url to fetch'')), fs)
           else (case get (pr_URL r) of
               Inl e \<Rightarrow> (Inl (GetFailed e), fs)
             | Inr b \<Rightarrow>
                 (case VerifyArtifactBytes sha256_hex parse_uri parse_ip ref b of
                    Some e \<Rightarrow> (Inl (RefError e), fs)
                  | None \<Rightarrow>
                      if io_mkdir io then (Inl DirFailed, fs)
                      else (case io_write io of
                          Some n \<Rightarrow> (Inl WriteFailed, fs(tmp \<mapsto> take n b))
                        | None \<Rightarrow>
                            if io_rename io then (Inl CommitFailed, fs(tmp \<mapsto> b))
                            else (Inr path, (fs(tmp := None))(path \<mapsto> b)))))))"

text \<open>A cached file is sound when its name is the hash of its contents.\<close>

definition cache_sound :: "(string \<Rightarrow> string) \<Rightarrow> string \<Rightarrow> filesys \<Rightarrow> bool" where
  "cache_sound sha256_hex cacheDir fs \<longleftrightarrow>
     (\<forall>h b. length h = 64 \<longrightarrow> fs (path_join cacheDir (h @ ''.wasm'')) = Some b \<longrightarrow> sha256_hex b = h)"

lemma append_last_neq: "last x \<noteq> last y \<Longrightarrow> x \<noteq> [] \<Longrightarrow> y \<noteq> [] \<Longrightarrow> a @ x \<noteq> b @ y"
  by (metis last_appendR)

lemma path_join_tmp: "path_join d (h @ ''.wasm'') @ ''.tmp'' \<noteq> path_join d (g @ ''.wasm'')"
  using append_last_neq [of "''.tmp''" "''.wasm''" "path_join d (h @ ''.wasm'')" "(if d = [] then [] else d @ ''/'') @ g"]
  by (auto simp: path_join_def split: if_splits)

lemma path_join_inject [simp]:
  "path_join d (h @ ''.wasm'') = path_join d (g @ ''.wasm'') \<longleftrightarrow> h = g"
  by (simp add: path_join_def)

lemma Fetch_Inr:
  assumes "FetchVerifiedArtifact sha pu pip get io (Some r) d fs = (Inr path, fs')"
  shows "path = ArtifactCachePath r d"
    "\<exists>b. fs' path = Some b \<and> VerifyArtifactBytes sha pu pip (Some r) b = None"
  using assms
  by (auto simp: FetchVerifiedArtifact_def Let_def split: option.splits sum.splits if_splits)

lemma Fetch_files:
  assumes "FetchVerifiedArtifact sha pu pip get io (Some r) d fs = (res, fs')"
    "p \<noteq> ArtifactCachePath r d @ ''.tmp''"
  shows "fs' p = fs p \<or> (p = ArtifactCachePath r d \<and> (\<exists>b. fs' p = Some b \<and>
           VerifyArtifactBytes sha pu pip (Some r) b = None))"
  using assms
  by (auto simp: FetchVerifiedArtifact_def Let_def split: option.splits sum.splits if_splits)

section \<open>The HTTP transport\<close>

text \<open>
  \<open>dial_artifact\<close> is the \<open>DialContext\<close> of the transport: the addresses are tried in order until
  one connects; the second component lists the addresses a connection was attempted to.
  \<open>lookup\<close> is the resolver, \<open>connect\<close> the dialer; \<open>serve\<close> is the server's response to the
  request over a connection.  Redirects are not followed, so a response is final.
\<close>

datatype dial_result = DialErr string | DialConn ip | DialNil

fun dial_ips :: "(ip \<Rightarrow> string option) \<Rightarrow> string option \<Rightarrow> ip list \<Rightarrow> dial_result \<times> ip list" where
  "dial_ips connect lastErr [] = (case lastErr of None \<Rightarrow> DialNil | Some e \<Rightarrow> DialErr e, [])"
| "dial_ips connect lastErr (i # is) =
     (if blockedArtifactIP i then (DialErr ''host resolves to a private address'', [])
      else (case connect i of
          None \<Rightarrow> (DialConn i, [i])
        | Some e \<Rightarrow> (let (r, tr) = dial_ips connect (Some e) is in (r, i # tr))))"

definition dial_artifact ::
  "(string \<Rightarrow> string + ip list) \<Rightarrow> (ip \<Rightarrow> string option) \<Rightarrow> string \<Rightarrow> dial_result \<times> ip list" where
  "dial_artifact lookup connect host =
     (case lookup host of Inl e \<Rightarrow> (DialErr e, []) | Inr ips \<Rightarrow> dial_ips connect None ips)"

definition HTTPGet ::
  "(string \<Rightarrow> url option) \<Rightarrow> (string \<Rightarrow> ip option) \<Rightarrow> (string \<Rightarrow> string + ip list) \<Rightarrow> (ip \<Rightarrow> string option)
   \<Rightarrow> (ip \<Rightarrow> url \<Rightarrow> string + int \<times> string) \<Rightarrow> string \<Rightarrow> (string + string) \<times> ip list" where
  "HTTPGet parse_uri parse_ip lookup connect serve rawURL =
     (case parseArtifactURL parse_uri parse_ip rawURL of
        Inl e \<Rightarrow> (Inl e, [])
      | Inr u \<Rightarrow>
          (case dial_artifact lookup connect (u_Hostname u) of
             (DialErr e, tr) \<Rightarrow> (Inl e, tr)
           | (DialNil, tr) \<Rightarrow> (Inl ''no connection'', tr)
           | (DialConn i, tr) \<Rightarrow>
               (case serve i u of
                  Inl e \<Rightarrow> (Inl e, tr)
                | Inr (status, body) \<Rightarrow>
                    if status \<noteq> 200 then (Inl ''artifact GET: status'', tr)
                    else (Inr (take (nat (MaxArtifactBytes + 1)) body), tr))))"

lemma dial_ips_allowed: "i \<in> set (snd (dial_ips connect e is)) \<Longrightarrow> \<not> blockedArtifactIP i"
  by (induction connect e "is" rule: dial_ips.induct)
    (auto split: if_splits option.splits prod.splits simp: Let_def)

lemma parseArtifactURL_ok:
  "parseArtifactURL pu pip raw = Inr u \<Longrightarrow>
     pu raw = Some u \<and> u_Scheme u = ''https'' \<and> \<not> u_User u \<and> u_Hostname u \<noteq> [] \<and>
     (\<forall>i. pip (u_Hostname u) = Some i \<longrightarrow> \<not> blockedArtifactIP i)"
  by (auto simp: parseArtifactURL_def split: option.splits if_splits)

section \<open>Properties\<close>

text \<open>C35: A fetch leaves the artifact cache sound (every cached file's name is the hash of its
  contents), whatever call of the file system fails on the way, and a path it returns holds
  verified bytes: non-empty, within the size cap, hashing to the reference.\<close>

theorem fetch_keeps_cache_sound:
  assumes "cache_sound sha256_hex cacheDir fs"
    and "FetchVerifiedArtifact sha256_hex parse_uri parse_ip get io (Some r) cacheDir fs = (res, fs')"
  shows "cache_sound sha256_hex cacheDir fs' \<and>
    (case res of Inl _ \<Rightarrow> True
     | Inr path \<Rightarrow> (\<exists>b. fs' path = Some b \<and> sha256_hex b = pr_SHA256 r \<and> b \<noteq> [] \<and>
                      int (length b) \<le> MaxArtifactBytes))"
proof
  show "cache_sound sha256_hex cacheDir fs'"
    unfolding cache_sound_def
  proof (intro allI impI)
    fix h b assume h: "length h = 64" "fs' (path_join cacheDir (h @ ''.wasm'')) = Some b"
    have "path_join cacheDir (h @ ''.wasm'') \<noteq> ArtifactCachePath r cacheDir @ ''.tmp''"
      using path_join_tmp [of cacheDir "pr_SHA256 r" h] by (metis ArtifactCachePath_def)
    from Fetch_files [OF assms(2) this] h assms(1) show "sha256_hex b = h"
      by (auto simp: cache_sound_def ArtifactCachePath_def dest: VerifyArtifactBytes_ok(1))
  qed
  show "case res of Inl _ \<Rightarrow> True | Inr path \<Rightarrow> (\<exists>b. fs' path = Some b \<and> sha256_hex b = pr_SHA256 r \<and>
      b \<noteq> [] \<and> int (length b) \<le> MaxArtifactBytes)"
    using assms(2) by (auto split: sum.split dest!: Fetch_Inr(2) dest: VerifyArtifactBytes_ok)
qed

definition demo_ref :: pier_code_ref where
  "demo_ref = \<lparr>pr_SHA256 = replicate 64 (CHR ''a''), pr_URL = ''https://x'', pr_SizeBytes = 0\<rparr>"

definition demo_url :: url where
  "demo_url = \<lparr>u_Scheme = ''https'', u_Host = ''x'', u_User = False, u_Hostname = ''x''\<rparr>"

lemma demo_ref_hex: "isSHA256Hex (pr_SHA256 demo_ref)"
  by (simp add: isSHA256Hex_def demo_ref_def list_all_iff)

lemma demo_fetch:
  "FetchVerifiedArtifact (\<lambda>b. replicate 64 (CHR ''a'')) (\<lambda>s. Some demo_url) (\<lambda>s. None) (\<lambda>u. Inr ''code'')
     no_faults (Some demo_ref) ''c'' (\<lambda>p. None)
   = (Inr (ArtifactCachePath demo_ref ''c''), [ArtifactCachePath demo_ref ''c'' \<mapsto> ''code''])"
  using demo_ref_hex
  by (simp add: FetchVerifiedArtifact_def ValidateRef_def VerifyArtifactBytes_def parseArtifactURL_def
      demo_url_def EqualFold_def ToLower_def MaxArtifactBytes_def no_faults_def Let_def)
    (simp add: demo_ref_def)

theorem fetch_keeps_cache_sound_witness:
  "cache_sound (\<lambda>b. replicate 64 (CHR ''a'')) ''c'' [ArtifactCachePath demo_ref ''c'' \<mapsto> ''code'']"
proof -
  have "cache_sound (\<lambda>b. replicate 64 (CHR ''a'')) ''c'' (\<lambda>p. None)" by (simp add: cache_sound_def)
  from fetch_keeps_cache_sound [OF this demo_fetch] show ?thesis by (rule conjunct1)
qed

text \<open>The artifact transport attempts a connection only to public addresses, whatever the name
  resolves to, and delivers a body only for a public https URL, with status 200, cut at one byte
  over the size cap.\<close>

theorem http_get_public_only:
  assumes "HTTPGet parse_uri parse_ip lookup connect serve rawURL = (res, dialled)"
  shows "(\<forall>i \<in> set dialled. \<not> blockedArtifactIP i) \<and>
    (\<forall>body. res = Inr body \<longrightarrow> int (length body) \<le> MaxArtifactBytes + 1 \<and>
       (\<exists>u i full. parse_uri rawURL = Some u \<and> u_Scheme u = ''https'' \<and> \<not> u_User u \<and> i \<in> set dialled \<and>
          serve i u = Inr (200, full) \<and> body = take (nat (MaxArtifactBytes + 1)) full))"
proof -
  have conn: "i \<in> set tr" if "dial_artifact lookup connect h = (DialConn i, tr)" for h i tr
  proof -
    have "fst (dial_ips connect e is) = DialConn i \<Longrightarrow> i \<in> set (snd (dial_ips connect e is))" for e "is"
      by (induction connect e "is" rule: dial_ips.induct)
        (auto split: if_splits option.splits prod.splits simp: Let_def)
    from this [of None] show ?thesis using that
      by (auto simp: dial_artifact_def split: sum.splits) (metis fst_conv snd_conv)
  qed
  have allowed: "\<not> blockedArtifactIP i" if "dial_artifact lookup connect h = (d, tr)" "i \<in> set tr" for h d i tr
    using that dial_ips_allowed [of i connect None]
    by (auto simp: dial_artifact_def split: sum.splits) (metis snd_conv)
  show ?thesis
    using assms conn allowed
    by (auto simp: HTTPGet_def split: sum.splits prod.splits dial_result.splits if_splits
        dest!: parseArtifactURL_ok) (auto simp: MaxArtifactBytes_def)
qed

theorem http_get_public_only_witness:
  "HTTPGet (\<lambda>s. Some demo_url) (\<lambda>s. None) (\<lambda>h. Inr [IP4 8 8 8 8]) (\<lambda>i. None) (\<lambda>i u. Inr (200, ''code''))
     ''https://x'' = (Inr ''code'', [IP4 8 8 8 8]) \<and> \<not> blockedArtifactIP (IP4 8 8 8 8)"
proof -
  have h: "HTTPGet (\<lambda>s. Some demo_url) (\<lambda>s. None) (\<lambda>h. Inr [IP4 8 8 8 8]) (\<lambda>i. None) (\<lambda>i u. Inr (200, ''code''))
     ''https://x'' = (Inr ''code'', [IP4 8 8 8 8])"
    by (simp add: HTTPGet_def parseArtifactURL_def demo_url_def EqualFold_def ToLower_def
        dial_artifact_def MaxArtifactBytes_def)
  show ?thesis using http_get_public_only [OF h] h by simp
qed

text \<open>The record gate fails closed: a record of the runner passes exactly when it is one of the
  three terminal records or a menu action that the campaign's grants allow, so no grant map lets an
  action outside the menu through, and with no grants only terminal records pass.\<close>

theorem record_gate_closed:
  "CheckRecordGrant rec g = None \<longleftrightarrow>
     rr_Action rec \<in> {ActionState, ActionDone, ActionError} \<or>
     (rr_Action rec \<in> set PierCodeActions \<and> g (rr_Action rec) = Some True)"
  by (auto simp: CheckRecordGrant_None_iff GrantAllows_def IsPierCodeAction_def)

end
