(* ===== verification/Consent.thy ===== *)
theory Consent
  imports Prelude
begin

text \<open>
  The pier-local record of the operator's approvals (\<open>shared/consent/consent.go\<close>): the store as a
  map from campaign ids to records, its operations, and its load and save on a file system with
  faults.  The JSON encoding is the pair of arguments \<open>encode\<close> and \<open>decode\<close>.
\<close>

definition FileVersion :: int where "FileVersion = 1"

record consent_record =
  cr_ApprovedAt :: gotime
  cr_Actions :: "string list"

text \<open>A nil map of campaigns is \<open>None\<close>.\<close>

record consent_store =
  cs_Version :: int
  cs_Campaigns :: "(string \<Rightarrow> consent_record option) option"

definition campaigns_of :: "consent_store \<Rightarrow> string \<Rightarrow> consent_record option" where
  "campaigns_of s = (case cs_Campaigns s of None \<Rightarrow> (\<lambda>_. None) | Some m \<Rightarrow> m)"

text \<open>\<open>normalize\<close>: first occurrences of the non-empty names, sorted by bytes.\<close>

fun dedup_nonempty :: "string set \<Rightarrow> string list \<Rightarrow> string list" where
  "dedup_nonempty seen [] = []"
| "dedup_nonempty seen (a # xs) =
     (if a = [] \<or> a \<in> seen then dedup_nonempty seen xs
      else a # dedup_nonempty (insert a seen) xs)"

definition normalize_actions :: "string list \<Rightarrow> string list" where
  "normalize_actions xs = SliceStable string_less (dedup_nonempty {} xs)"

definition Approve :: "gotime \<Rightarrow> string \<Rightarrow> string list \<Rightarrow> consent_store \<Rightarrow> consent_store" where
  "Approve now campaignID actions s =
     s\<lparr>cs_Campaigns := Some ((campaigns_of s)(campaignID \<mapsto>
        \<lparr>cr_ApprovedAt = now, cr_Actions = normalize_actions actions\<rparr>))\<rparr>"

definition Revoke :: "string \<Rightarrow> consent_store \<Rightarrow> bool \<times> consent_store" where
  "Revoke campaignID s =
     (case campaigns_of s campaignID of
        None \<Rightarrow> (False, s)
      | Some _ \<Rightarrow> (True, s\<lparr>cs_Campaigns := Some ((campaigns_of s)(campaignID := None))\<rparr>))"

datatype refusal = NoConsent string | NotApproved string

fun first_ungranted :: "string set \<Rightarrow> string list \<Rightarrow> string option" where
  "first_ungranted granted [] = None"
| "first_ungranted granted (a # want) = (if a \<notin> granted then Some a else first_ungranted granted want)"

definition Allows :: "consent_store \<Rightarrow> string \<Rightarrow> string list \<Rightarrow> refusal option" where
  "Allows s campaignID want =
     (case campaigns_of s campaignID of
        None \<Rightarrow> Some (NoConsent campaignID)
      | Some rec \<Rightarrow> map_option NotApproved (first_ungranted (set (cr_Actions rec)) want))"

text \<open>The file: \<open>Load\<close> of a missing file is an empty store; \<open>Save\<close> writes a temporary file and renames it.\<close>

datatype consent_error = ConsentRead | ConsentParse | ConsentDir | ConsentEncode | ConsentWrite | ConsentRename

record consent_faults =
  cf_read :: bool
  cf_mkdir :: bool
  cf_write :: "nat option"
  cf_rename :: bool

definition Load ::
  "(string \<Rightarrow> consent_store option) \<Rightarrow> consent_faults \<Rightarrow> string \<Rightarrow> (string \<Rightarrow> string option)
   \<Rightarrow> consent_error + consent_store" where
  "Load decode io path fs =
     (case fs path of
        None \<Rightarrow> Inr \<lparr>cs_Version = FileVersion, cs_Campaigns = Some (\<lambda>_. None)\<rparr>
      | Some b \<Rightarrow>
          if cf_read io then Inl ConsentRead
          else (case decode b of
              None \<Rightarrow> Inl ConsentParse
            | Some s \<Rightarrow>
                (let s = (if cs_Campaigns s = None then s\<lparr>cs_Campaigns := Some (\<lambda>_. None)\<rparr> else s) in
                 Inr (if cs_Version s = 0 then s\<lparr>cs_Version := FileVersion\<rparr> else s))))"

definition Save ::
  "(consent_store \<Rightarrow> string option) \<Rightarrow> consent_faults \<Rightarrow> string \<Rightarrow> consent_store \<Rightarrow> (string \<Rightarrow> string option)
   \<Rightarrow> consent_error option \<times> (string \<Rightarrow> string option)" where
  "Save encode io path s fs =
     (let s = s\<lparr>cs_Version := FileVersion\<rparr>; tmp = path @ ''.tmp'' in
      if cf_mkdir io then (Some ConsentDir, fs)
      else (case encode s of
          None \<Rightarrow> (Some ConsentEncode, fs)
        | Some b \<Rightarrow>
            (case cf_write io of
               Some n \<Rightarrow> (Some ConsentWrite, fs(tmp \<mapsto> take n (b @ [CHR 0x0A])))
             | None \<Rightarrow>
                 if cf_rename io then (Some ConsentRename, fs(tmp \<mapsto> b @ [CHR 0x0A]))
                 else (None, (fs(tmp := None))(path \<mapsto> b @ [CHR 0x0A])))))"

section \<open>Lemmas\<close>

lemma set_dedup: "set (dedup_nonempty seen xs) = {a \<in> set xs. a \<noteq> [] \<and> a \<notin> seen}"
  by (induction seen xs rule: dedup_nonempty.induct) auto

lemma set_normalize [simp]: "set (normalize_actions xs) = {a \<in> set xs. a \<noteq> []}"
  by (auto simp: normalize_actions_def stable.set_srt set_dedup)

lemma distinct_dedup: "distinct (dedup_nonempty seen xs)"
  by (induction seen xs rule: dedup_nonempty.induct) (auto simp: set_dedup)

lemma distinct_normalize: "distinct (normalize_actions xs)"
  using distinct_dedup [of "{}" xs] stable.distinct_map_srt [of "\<lambda>x :: string. x"]
  by (simp add: normalize_actions_def)

lemma first_ungranted_None: "first_ungranted g want = None \<longleftrightarrow> set want \<subseteq> g"
  by (induction want) auto

lemma Allows_None_iff:
  "Allows s c want = None \<longleftrightarrow> (\<exists>r. campaigns_of s c = Some r \<and> set want \<subseteq> set (cr_Actions r))"
  by (auto simp: Allows_def first_ungranted_None split: option.splits)

lemma campaigns_Approve: "campaigns_of (Approve now c acts s) =
    (campaigns_of s)(c \<mapsto> \<lparr>cr_ApprovedAt = now, cr_Actions = normalize_actions acts\<rparr>)"
  by (simp add: Approve_def campaigns_of_def)

lemma campaigns_Revoke: "campaigns_of (snd (Revoke c s)) = (campaigns_of s)(c := None)"
  by (auto simp: Revoke_def campaigns_of_def split: option.splits)

section \<open>Properties\<close>

datatype consent_op = OpApprove gotime string "string list" | OpRevoke string

fun run_consent :: "consent_op list \<Rightarrow> consent_store \<Rightarrow> consent_store" where
  "run_consent [] s = s"
| "run_consent (OpApprove t c as # ops) s = run_consent ops (Approve t c as s)"
| "run_consent (OpRevoke c # ops) s = run_consent ops (snd (Revoke c s))"

text \<open>The specification: a campaign has a set of approved names or none; the last decision counts.\<close>

definition approved :: "consent_store \<Rightarrow> string \<Rightarrow> string set option" where
  "approved s c = map_option (\<lambda>r. set (cr_Actions r)) (campaigns_of s c)"

fun decision :: "string \<Rightarrow> consent_op \<Rightarrow> string set option option" where
  "decision c (OpApprove t c' as) = (if c' = c then Some (Some (set as - {[]})) else None)"
| "decision c (OpRevoke c') = (if c' = c then Some None else None)"

definition last_decision :: "string \<Rightarrow> consent_op list \<Rightarrow> string set option \<Rightarrow> string set option" where
  "last_decision c ops d = (case List.map_filter (decision c) ops of [] \<Rightarrow> d | ds \<Rightarrow> last ds)"

lemma last_decision_Cons:
  "last_decision c (op # ops) d = last_decision c ops (case decision c op of None \<Rightarrow> d | Some e \<Rightarrow> e)"
  by (auto simp: last_decision_def List.map_filter_simps split: option.splits list.splits)

lemma approved_run: "approved (run_consent ops s) c = last_decision c ops (approved s c)"
proof (induction ops s rule: run_consent.induct)
  case (1 s)
  then show ?case by (simp add: last_decision_def List.map_filter_simps)
next
  case (2 t c' as ops s)
  have "{a \<in> set as. a \<noteq> []} = set as - {[]}" by auto
  with 2 show ?case by (auto simp: last_decision_Cons approved_def campaigns_Approve)
next
  case (3 c' ops s)
  then show ?case by (auto simp: last_decision_Cons approved_def campaigns_Revoke)
qed

text \<open>C37: Consent is exactly what the operator approved: after any sequence of approvals and
  revocations, the actions that a campaign wants are allowed iff the last decision about that
  campaign is an approval that named all of them; decisions about other campaigns do not matter.\<close>

theorem consent_last_decision:
  "Allows (run_consent ops s) c want = None \<longleftrightarrow>
     (\<exists>A. last_decision c ops (approved s c) = Some A \<and> set want \<subseteq> A)"
proof -
  have "Allows (run_consent ops s) c want = None \<longleftrightarrow>
      (\<exists>A. approved (run_consent ops s) c = Some A \<and> set want \<subseteq> A)"
    by (auto simp: Allows_None_iff approved_def)
  then show ?thesis by (simp add: approved_run)
qed

text \<open>Saving consent is atomic and survives a restart: a save that fails at any call leaves the
  consent file as it was, and after one that succeeds a load returns the saved store (with the
  current version), as long as the encoding can be read back.\<close>

theorem consent_save_load:
  assumes "\<And>b. encode (s\<lparr>cs_Version := FileVersion\<rparr>) = Some b \<Longrightarrow>
      decode (b @ [CHR 0x0A]) = Some (s\<lparr>cs_Version := FileVersion\<rparr>)"
    and "Save encode io path s fs = (res, fs')" "\<not> cf_read io'"
  shows "case res of Some _ \<Rightarrow> fs' path = fs path
    | None \<Rightarrow> \<exists>s'. Load decode io' path fs' = Inr s' \<and> cs_Version s' = FileVersion \<and> campaigns_of s' = campaigns_of s"
proof (cases res)
  case None
  then obtain b where b: "encode (s\<lparr>cs_Version := FileVersion\<rparr>) = Some b" "fs' path = Some (b @ [CHR 0x0A])"
    using assms(2) by (auto simp: Save_def Let_def split: if_splits option.splits)
  then show ?thesis using assms(1) [OF b(1)] assms(3) None
    by (auto simp: Load_def Let_def FileVersion_def campaigns_of_def)
next
  case (Some e)
  then show ?thesis using assms(2) by (auto simp: Save_def Let_def split: if_splits option.splits)
qed

theorem consent_save_load_witness:
  "\<exists>s'. Load (\<lambda>b. Some \<lparr>cs_Version = 1, cs_Campaigns = Some (\<lambda>_. None)\<rparr>)
       \<lparr>cf_read = False, cf_mkdir = False, cf_write = None, cf_rename = False\<rparr> ''f''
       [''f'' \<mapsto> ''e'' @ [CHR 0x0A]] = Inr s' \<and> cs_Version s' = FileVersion \<and>
     campaigns_of s' = campaigns_of \<lparr>cs_Version = 0, cs_Campaigns = Some (\<lambda>_. None)\<rparr>"
proof -
  define io where "io = \<lparr>cf_read = False, cf_mkdir = False, cf_write = None, cf_rename = False\<rparr>"
  define s :: consent_store where "s = \<lparr>cs_Version = 0, cs_Campaigns = Some (\<lambda>_. None)\<rparr>"
  have "Save (\<lambda>s. Some ''e'') io ''f'' s (\<lambda>_. None) = (None, [''f'' \<mapsto> ''e'' @ [CHR 0x0A]])"
    by (simp add: Save_def io_def)
  from consent_save_load [OF _ this, of "\<lambda>b. Some (s\<lparr>cs_Version := FileVersion\<rparr>)" io]
  show ?thesis by (simp add: io_def s_def FileVersion_def)
qed

end
