(* ===== verification/TaskModel.thy ===== *)
theory TaskModel
  imports Prelude Float64 PierWire
begin

text \<open>
  The data model the orchestrator and the API share (\<open>shared/models.go\<close>, \<open>requirements.go\<close>,
  \<open>task_status.go\<close>, \<open>campaign\<close>, \<open>simultaneous\<close>): task and campaign status strings and the
  predicates over them, the node state, the notification payload and the selector's requirements.
\<close>

section \<open>Task status\<close>

definition TaskStatusPending :: string where "TaskStatusPending = ''pending''"
definition TaskStatusAssigned :: string where "TaskStatusAssigned = ''assigned''"
definition TaskStatusInProgress :: string where "TaskStatusInProgress = ''in_progress''"
definition TaskStatusCompleted :: string where "TaskStatusCompleted = ''completed''"
definition TaskStatusExpired :: string where "TaskStatusExpired = ''expired''"
definition TaskStatusSuperseded :: string where "TaskStatusSuperseded = ''superseded''"
definition TaskStatusCancelled :: string where "TaskStatusCancelled = ''cancelled''"
definition TaskStatusFailed :: string where "TaskStatusFailed = ''failed''"

lemmas status_names = TaskStatusPending_def TaskStatusAssigned_def TaskStatusInProgress_def
  TaskStatusCompleted_def TaskStatusExpired_def TaskStatusSuperseded_def TaskStatusCancelled_def
  TaskStatusFailed_def

definition NormalizeTaskStatus :: "string \<Rightarrow> string" where
  "NormalizeTaskStatus status = ToLower (TrimSpace status)"

definition TaskAssignable :: "string \<Rightarrow> string option \<Rightarrow> bool" where
  "TaskAssignable status assigned =
     (if NormalizeTaskStatus status \<noteq> TaskStatusPending then False
      else (case assigned of None \<Rightarrow> True | Some t \<Rightarrow> TrimSpace t = []))"

definition TaskCompletable :: "string \<Rightarrow> bool" where
  "TaskCompletable status =
     (NormalizeTaskStatus status \<in> {TaskStatusPending, TaskStatusAssigned, TaskStatusInProgress})"

definition TaskOpenForUpload :: "string \<Rightarrow> bool" where
  "TaskOpenForUpload status =
     (NormalizeTaskStatus status \<in> {TaskStatusPending, TaskStatusAssigned, TaskStatusInProgress})"

lemma NormalizeTaskStatus_idem [simp]: "NormalizeTaskStatus (NormalizeTaskStatus s) = NormalizeTaskStatus s"
  by (simp add: NormalizeTaskStatus_def TrimSpace_ToLower)

lemma Normalize_status [simp]:
  "NormalizeTaskStatus TaskStatusPending = TaskStatusPending"
  "NormalizeTaskStatus TaskStatusAssigned = TaskStatusAssigned"
  "NormalizeTaskStatus TaskStatusInProgress = TaskStatusInProgress"
  "NormalizeTaskStatus TaskStatusCompleted = TaskStatusCompleted"
  "NormalizeTaskStatus TaskStatusExpired = TaskStatusExpired"
  "NormalizeTaskStatus TaskStatusSuperseded = TaskStatusSuperseded"
  "NormalizeTaskStatus TaskStatusCancelled = TaskStatusCancelled"
  "NormalizeTaskStatus TaskStatusFailed = TaskStatusFailed"
  by (simp_all add: status_names NormalizeTaskStatus_def TrimSpace_def ToLower_def is_space_def lower_char_def)

lemma TaskAssignable_completable: "TaskAssignable s a \<Longrightarrow> TaskCompletable s"
  by (simp add: TaskAssignable_def TaskCompletable_def split: if_splits)

section \<open>Campaign status\<close>

definition StatusDraft :: string where "StatusDraft = ''draft''"
definition StatusActive :: string where "StatusActive = ''active''"
definition StatusPaused :: string where "StatusPaused = ''paused''"
definition StatusCompleted :: string where "StatusCompleted = ''completed''"
definition StatusArchived :: string where "StatusArchived = ''archived''"

lemmas campaign_names = StatusDraft_def StatusActive_def StatusPaused_def StatusCompleted_def
  StatusArchived_def

definition AllowsAssign :: "string \<Rightarrow> bool" where
  "AllowsAssign campaignStatus = (if campaignStatus = [] then True else campaignStatus = StatusActive)"

definition CanPause :: "string \<Rightarrow> bool" where "CanPause status = (status = StatusActive)"
definition CanResume :: "string \<Rightarrow> bool" where "CanResume status = (status = StatusPaused)"
definition CanComplete :: "string \<Rightarrow> bool" where "CanComplete status = (status = StatusActive)"

definition NodeServesCampaign :: "string list \<Rightarrow> string \<Rightarrow> bool" where
  "NodeServesCampaign enabled campaignID =
     (if campaignID = [] then True else if enabled = [] then False
      else list_ex (\<lambda>id. id = campaignID) enabled)"

definition IsScientificSuccess :: "string \<Rightarrow> bool" where
  "IsScientificSuccess status = (status = ''completed'')"

lemma NodeServesCampaign_iff: "NodeServesCampaign enabled c \<longleftrightarrow> c = [] \<or> c \<in> set enabled"
  by (auto simp: NodeServesCampaign_def list_ex_iff)

section \<open>Node state and payloads\<close>

record node_state =
  ns_NodeID :: string
  ns_Status :: string
  ns_CurrentTaskID :: "int option"
  ns_CurrentTaskPriority :: "int option"
  ns_LoadPct :: f64
  ns_EstimatedStartupMS :: int
  ns_QualityTier :: string
  ns_ReliabilityScore :: f64
  ns_MountAltDeg :: "f64 option"
  ns_MountAzDeg :: "f64 option"
  ns_LastSeen :: string

definition CohortMaxNodes :: int where "CohortMaxNodes = 8"
definition PreemptThresholdDefault :: int where "PreemptThresholdDefault = 10"
definition SlewNearbyThresholdMsDefault :: int where "SlewNearbyThresholdMsDefault = 5000"

record notify_payload =
  np_TaskID :: int
  np_Priority :: int
  np_Name :: string
  np_MinPower :: "f64 option"
  np_TargetMagnitude :: "f64 option"
  np_RequiredFilters :: "string list"
  np_IntegrationTime :: "f64 option"
  np_TargetRA :: "f64 option"
  np_TargetDec :: "f64 option"
  np_MinAltitudeDeg :: "f64 option"
  np_AllowEmulator :: bool
  np_MinApertureMM :: "f64 option"
  np_MinSubExposureS :: "f64 option"
  np_MinResolutionArcsec :: "f64 option"
  np_MaxResolutionArcsec :: "f64 option"
  np_MinPSFFWHMArcsec :: "f64 option"
  np_MaxPSFFWHMArcsec :: "f64 option"
  np_RequiredFOVWidthArcmin :: "f64 option"
  np_RequiredFOVHeightArcmin :: "f64 option"
  np_ScienceBand :: string
  np_CampaignID :: string
  np_CreatedAt :: string
  np_ScheduledEndAt :: "gotime option"
  np_UserEndAt :: "gotime option"
  np_HandoffLeadSeconds :: "int option"
  np_EmergencyHandoffRequestedAt :: "gotime option"
  np_CoverageEnabled :: bool
  np_CoveragePrimary :: "string list"
  np_CoverageRedundant :: "string list"
  np_CoverageHardMode :: bool
  np_SeasonKind :: string
  np_SeasonUrgency :: string
  np_SeasonCadenceGoalMin :: int
  np_SeasonWindowStart :: "string option"
  np_SeasonWindowEnd :: "string option"
  np_PierCodeGrants :: grants
  np_PierCodeDisabled :: bool
  np_PierCode :: "pier_code_ref option"

record task_requirements =
  tr_RA :: "f64 option"
  tr_Dec :: "f64 option"
  tr_MinAltitudeDeg :: "f64 option"
  tr_MinPower :: "f64 option"
  tr_TargetMagnitude :: "f64 option"
  tr_RequiredFilters :: "string list"
  tr_AllowEmulator :: bool
  tr_MinApertureMM :: "f64 option"
  tr_MinSubExposureS :: "f64 option"
  tr_MinResolutionArcsec :: "f64 option"
  tr_MaxResolutionArcsec :: "f64 option"
  tr_MinPSFFWHMArcsec :: "f64 option"
  tr_MaxPSFFWHMArcsec :: "f64 option"
  tr_RequiredFOVWidthArcmin :: "f64 option"
  tr_RequiredFOVHeightArcmin :: "f64 option"
  tr_ScienceBand :: string
  tr_CampaignID :: string
  tr_PreferredNodeIDs :: "string list"
  tr_PreferredFailOpen :: bool

definition RequirementsFromNotify :: "notify_payload \<Rightarrow> task_requirements" where
  "RequirementsFromNotify p =
     \<lparr>tr_RA = np_TargetRA p, tr_Dec = np_TargetDec p, tr_MinAltitudeDeg = np_MinAltitudeDeg p,
      tr_MinPower = np_MinPower p, tr_TargetMagnitude = np_TargetMagnitude p,
      tr_RequiredFilters = np_RequiredFilters p, tr_AllowEmulator = np_AllowEmulator p,
      tr_MinApertureMM = np_MinApertureMM p, tr_MinSubExposureS = np_MinSubExposureS p,
      tr_MinResolutionArcsec = np_MinResolutionArcsec p,
      tr_MaxResolutionArcsec = np_MaxResolutionArcsec p,
      tr_MinPSFFWHMArcsec = np_MinPSFFWHMArcsec p, tr_MaxPSFFWHMArcsec = np_MaxPSFFWHMArcsec p,
      tr_RequiredFOVWidthArcmin = np_RequiredFOVWidthArcmin p,
      tr_RequiredFOVHeightArcmin = np_RequiredFOVHeightArcmin p,
      tr_ScienceBand = np_ScienceBand p, tr_CampaignID = np_CampaignID p,
      tr_PreferredNodeIDs = np_CoveragePrimary p @ np_CoverageRedundant p,
      tr_PreferredFailOpen = (\<not> np_CoverageHardMode p)\<rparr>"

end
