(* ===== verification/Safety.thy ===== *)
theory Safety
  imports TaskModel
begin

text \<open>
  Pointing safety (\<open>shared/slew.go\<close>, \<open>obstruction.go\<close>, \<open>obstruction_validate.go\<close>,
  \<open>safety_match.go\<close>): the position of a target over a site, the forbidden polygons of a site's
  obstruction mask, mount limits, the horizon profile and the gate that combines them.  The
  functions of package \<open>math\<close> that are not correctly rounded are the fields of \<open>mathlib\<close>, an
  argument of every routine that calls one.
\<close>

record mathlib =
  m_Sin :: "f64 \<Rightarrow> f64"
  m_Cos :: "f64 \<Rightarrow> f64"
  m_Asin :: "f64 \<Rightarrow> f64"
  m_Atan2 :: "f64 \<Rightarrow> f64 \<Rightarrow> f64"
  m_Sqrt :: "f64 \<Rightarrow> f64"
  m_Log :: "f64 \<Rightarrow> f64"

definition math_Pi :: f64 where
  "math_Pi = flit (314159265358979323846264338327950288419 / 10 ^ 38)"

text \<open>An instance, for examples.\<close>

definition demo_math :: mathlib where
  "demo_math = \<lparr>m_Sin = (\<lambda>_. Fin 0), m_Cos = (\<lambda>_. Fin 0), m_Asin = (\<lambda>_. NInf), m_Atan2 = (\<lambda>_ _. Fin 0),
     m_Sqrt = (\<lambda>_. Fin 0), m_Log = (\<lambda>_. Fin 0)\<rparr>"

section \<open>Target position\<close>

text \<open>\<open>Time.Date\<close>: year, month and day of an instant, by the proleptic Gregorian calendar.\<close>

definition civil_date :: "gotime \<Rightarrow> int \<times> int \<times> int" where
  "civil_date t =
     (let z = t div (24 * hour) + 719468; era = z div 146097; doe = z mod 146097;
          yoe = (doe - doe div 1460 + doe div 36524 - doe div 146096) div 365;
          doy = doe - (365 * yoe + yoe div 4 - yoe div 100);
          mp = (5 * doy + 2) div 153;
          d = doy - (153 * mp + 2) div 5 + 1;
          m = (if mp < 10 then mp + 3 else mp - 9);
          y = yoe + era * 400 + (if m \<le> 2 then 1 else 0)
      in (y, m, d))"

definition julianDay :: "gotime \<Rightarrow> f64" where
  "julianDay t =
     (let (y, m, d) = civil_date t;
          sod = t mod (24 * hour);
          h = fadd (fadd (fadd (i2f (sod div hour)) (fdiv (i2f (sod mod hour div minute)) (Fin 60)))
                 (fdiv (i2f (sod mod minute div second)) (Fin 3600)))
                (fdiv (i2f (sod mod second)) (flit 3600000000000));
          (y, m) = (if m \<le> 2 then (y - 1, m + 12) else (y, m));
          a = fFloor (fdiv (i2f y) (Fin 100));
          b = fadd (fsub (Fin 2) a) (fFloor (fdiv a (Fin 4)))
      in fsub (fadd (fadd (fadd (fadd (fFloor (fmul (flit (36525 / 100)) (i2f (y + 4716))))
                 (fFloor (fmul (flit (306001 / 10000)) (i2f (m + 1))))) (i2f d))
               (fdiv h (Fin 24))) b) (flit (15245 / 10)))"

definition greenwichMeanSiderealTime :: "f64 \<Rightarrow> f64" where
  "greenwichMeanSiderealTime jd =
     (let t = fdiv (fsub jd (Fin 2451545)) (Fin 36525);
          gmst = fsub (fadd (fadd (flit (28046061837 / 10 ^ 8))
                     (fmul (flit (36098564736629 / 10 ^ 11)) (fsub jd (Fin 2451545))))
                   (fmul (fmul (flit (387933 / 10 ^ 9)) t) t))
                 (fdiv (fmul (fmul t t) t) (Fin 38710000))
      in fMod gmst (Fin 360))"

definition ComputeTargetAltAz :: "mathlib \<Rightarrow> f64 \<Rightarrow> f64 \<Rightarrow> f64 \<Rightarrow> f64 \<Rightarrow> gotime \<Rightarrow> f64 \<times> f64" where
  "ComputeTargetAltAz M raDeg decDeg latDeg lonDeg now =
     (let jd = julianDay now;
          gmstDeg = greenwichMeanSiderealTime jd;
          lstDeg = fMod (fadd gmstDeg lonDeg) (Fin 360);
          haDeg = fMod (fadd (fsub lstDeg raDeg) (Fin 360)) (Fin 360);
          haRad = fdiv (fmul haDeg math_Pi) (Fin 180);
          decRad = fdiv (fmul decDeg math_Pi) (Fin 180);
          latRad = fdiv (fmul latDeg math_Pi) (Fin 180);
          sinAlt = fadd (fmul (m_Sin M decRad) (m_Sin M latRad))
                     (fmul (fmul (m_Cos M decRad) (m_Cos M latRad)) (m_Cos M haRad));
          sinAlt = (if flt (Fin 1) sinAlt then Fin 1 else sinAlt);
          sinAlt = (if flt sinAlt (Fin (- 1)) then Fin (- 1) else sinAlt);
          altRad = m_Asin M sinAlt;
          altDeg = fdiv (fmul altRad (Fin 180)) math_Pi;
          x = fmul (fneg (m_Sin M haRad)) (m_Cos M decRad);
          y = fsub (fmul (m_Sin M decRad) (m_Cos M latRad))
                (fmul (fmul (m_Cos M decRad) (m_Sin M latRad)) (m_Cos M haRad));
          azRad = m_Atan2 M x y;
          azDeg = fMod (fadd (fdiv (fmul azRad (Fin 180)) math_Pi) (Fin 360)) (Fin 360)
      in (altDeg, azDeg))"

definition AngularDistanceDeg :: "mathlib \<Rightarrow> f64 \<Rightarrow> f64 \<Rightarrow> f64 \<Rightarrow> f64 \<Rightarrow> f64" where
  "AngularDistanceDeg M alt1Deg az1Deg alt2Deg az2Deg =
     (let dAlt = fdiv (fmul (fsub alt2Deg alt1Deg) math_Pi) (Fin 180);
          dAz = fdiv (fmul (fsub az2Deg az1Deg) math_Pi) (Fin 180);
          alt1Rad = fdiv (fmul alt1Deg math_Pi) (Fin 180);
          alt2Rad = fdiv (fmul alt2Deg math_Pi) (Fin 180);
          a = fadd (fmul (m_Sin M (fdiv dAlt (Fin 2))) (m_Sin M (fdiv dAlt (Fin 2))))
                (fmul (fmul (fmul (m_Cos M alt1Rad) (m_Cos M alt2Rad)) (m_Sin M (fdiv dAz (Fin 2))))
                   (m_Sin M (fdiv dAz (Fin 2))));
          a = (if flt (Fin 1) a then Fin 1 else a);
          a = (if flt a (Fin 0) then Fin 0 else a);
          c = fmul (Fin 2) (m_Atan2 M (m_Sqrt M a) (m_Sqrt M (fsub (Fin 1) a)))
      in fdiv (fmul c (Fin 180)) math_Pi)"

definition EstimateSlewTimeMs :: "mathlib \<Rightarrow> f64 \<Rightarrow> f64 \<Rightarrow> f64 \<Rightarrow> f64 \<Rightarrow> f64 option \<Rightarrow> int" where
  "EstimateSlewTimeMs M currentAltDeg currentAzDeg targetAltDeg targetAzDeg slewRate =
     (case slewRate of None \<Rightarrow> 0
      | Some r \<Rightarrow> if fle r (Fin 0) then 0
          else (let dist = AngularDistanceDeg M currentAltDeg currentAzDeg targetAltDeg targetAzDeg;
                    timeSec = fdiv dist r
                in f2i (fmul timeSec (Fin 1000))))"

section \<open>Forbidden polygons\<close>

text \<open>A mask is a list of polygons, a polygon a list of \<open>[alt, az]\<close> points.\<close>

type_synonym polygon = "f64 list list"
type_synonym obstruction_mask = "polygon list"

definition bad_vertex :: "f64 list \<Rightarrow> bool" where
  "bad_vertex v \<longleftrightarrow> length v < 2 \<or> is_NaN (v ! 0) \<or> is_NaN (v ! 1) \<or> is_Inf (v ! 0) \<or> is_Inf (v ! 1)"

text \<open>One pass of the ray caster: the edge from the previous vertex \<open>j\<close> to \<open>i\<close>.\<close>

definition ray_toggle :: "f64 \<Rightarrow> f64 \<Rightarrow> f64 list \<Rightarrow> f64 list \<Rightarrow> bool" where
  "ray_toggle x y vi vj =
     (let xi = vi ! 0; yi = vi ! 1; xj = vj ! 0; yj = vj ! 1 in
      (flt y yi \<noteq> flt y yj) \<and>
      flt x (fadd (fdiv (fmul (fsub xj xi) (fsub y yi)) (fadd (fsub yj yi) (flit (1 / 10 ^ 15)))) xi))"

fun ray_cast :: "f64 \<Rightarrow> f64 \<Rightarrow> f64 list \<Rightarrow> polygon \<Rightarrow> bool \<Rightarrow> bool" where
  "ray_cast x y vj [] inside = inside"
| "ray_cast x y vj (vi # vs) inside =
     ray_cast x y vi vs (if ray_toggle x y vi vj then \<not> inside else inside)"

definition PointInPolygon :: "f64 \<Rightarrow> f64 \<Rightarrow> polygon \<Rightarrow> bool" where
  "PointInPolygon x y vertices =
     (if length vertices < 3 then False
      else if list_ex bad_vertex vertices then False
      else ray_cast x y (last vertices) vertices False)"

fun forbidden_polys :: "f64 \<Rightarrow> f64 \<Rightarrow> obstruction_mask \<Rightarrow> bool" where
  "forbidden_polys azNorm altDeg [] = False"
| "forbidden_polys azNorm altDeg (poly # msk) =
     (if length poly < 3 then forbidden_polys azNorm altDeg msk
      else if list_ex bad_vertex poly then forbidden_polys azNorm altDeg msk
      else if PointInPolygon azNorm altDeg (map (\<lambda>p. [fMod (p ! 1) (Fin 360), p ! 0]) poly) then True
      else forbidden_polys azNorm altDeg msk)"

definition PointInForbiddenAltAz :: "f64 \<Rightarrow> f64 \<Rightarrow> obstruction_mask \<Rightarrow> bool" where
  "PointInForbiddenAltAz altDeg azDeg msk =
     (if msk = [] then False else forbidden_polys (fMod azDeg (Fin 360)) altDeg msk)"

definition slew_sample :: "f64 \<Rightarrow> f64 \<Rightarrow> f64 \<Rightarrow> f64 \<Rightarrow> int \<Rightarrow> int \<Rightarrow> f64 \<times> f64" where
  "slew_sample alt0 az0 alt1 az1 samples i =
     (let t = fdiv (i2f i) (i2f samples);
          alt = fadd alt0 (fmul t (fsub alt1 alt0));
          daz = fsub (fMod (fadd (fsub az1 az0) (Fin 540)) (Fin 360)) (Fin 180);
          az = fMod (fadd az0 (fmul t daz)) (Fin 360)
      in (alt, az))"

definition SlewPathHitsForbidden :: "f64 \<Rightarrow> f64 \<Rightarrow> f64 \<Rightarrow> f64 \<Rightarrow> obstruction_mask \<Rightarrow> int \<Rightarrow> bool" where
  "SlewPathHitsForbidden alt0 az0 alt1 az1 msk samples =
     (if msk = [] then False
      else (let n = (if samples \<le> 0 then 24 else samples) in
            list_ex (\<lambda>i. let (alt, az) = slew_sample alt0 az0 alt1 az1 n i
                         in PointInForbiddenAltAz alt az msk) (map int [0..<Suc (nat n)])))"

text \<open>Validation of a mask from a client; the error names the polygon and the vertex.\<close>

datatype mask_error = FewVertices nat | VertexShape nat nat | VertexAltitude nat nat | VertexAzimuth nat nat

fun validate_vertices :: "nat \<Rightarrow> nat \<Rightarrow> polygon \<Rightarrow> mask_error option" where
  "validate_vertices px vi [] = None"
| "validate_vertices px vi (vert # vs) =
     (if length vert \<noteq> 2 then Some (VertexShape px vi)
      else if flt (vert ! 0) (Fin (- 90)) \<or> flt (Fin 90) (vert ! 0) \<or> is_NaN (vert ! 0) then Some (VertexAltitude px vi)
      else if is_NaN (vert ! 1) then Some (VertexAzimuth px vi)
      else validate_vertices px (Suc vi) vs)"

fun validate_polys :: "nat \<Rightarrow> obstruction_mask \<Rightarrow> mask_error option" where
  "validate_polys px [] = None"
| "validate_polys px (poly # msk) =
     (if length poly < 3 then Some (FewVertices px)
      else (case validate_vertices px 0 poly of Some e \<Rightarrow> Some e | None \<Rightarrow> validate_polys (Suc px) msk))"

definition ValidateObstructionMask :: "obstruction_mask \<Rightarrow> mask_error option" where
  "ValidateObstructionMask msk = (if msk = [] then None else validate_polys 0 msk)"

section \<open>Mount limits and horizon\<close>

record mount_limits =
  ml_AltMin :: "f64 option"
  ml_AltMax :: "f64 option"
  ml_AzMin :: "f64 option"
  ml_AzMax :: "f64 option"

record horizon_point =
  hp_Az :: f64
  hp_Alt :: f64

record horizon_profile =
  hp_Points :: "horizon_point list"
  hp_Interpolation :: string

record telescope_safety =
  ts_ObstructionMask :: obstruction_mask
  ts_MountLimits :: "mount_limits option"
  ts_HorizonProfile :: "horizon_profile option"
  ts_SiteLat :: "f64 option"
  ts_SiteLon :: "f64 option"
  ts_MountAltDeg :: "f64 option"
  ts_MountAzDeg :: "f64 option"

definition normalizeAzimuth :: "f64 \<Rightarrow> f64" where
  "normalizeAzimuth azDeg =
     (let az = fMod azDeg (Fin 360) in if flt az (Fin 0) then fadd az (Fin 360) else az)"

definition normalizeAzimuthBound :: "f64 \<Rightarrow> f64" where
  "normalizeAzimuthBound azDeg = (if feq azDeg (Fin 360) then Fin 360 else normalizeAzimuth azDeg)"

text \<open>A comparison with an optional bound is false when the bound is nil.\<close>

definition below_opt :: "f64 \<Rightarrow> f64 option \<Rightarrow> bool" where
  "below_opt v b = (case b of None \<Rightarrow> False | Some m \<Rightarrow> flt v m)"

definition above_opt :: "f64 \<Rightarrow> f64 option \<Rightarrow> bool" where
  "above_opt v b = (case b of None \<Rightarrow> False | Some m \<Rightarrow> flt m v)"

definition azimuth_allowed :: "f64 \<Rightarrow> mount_limits \<Rightarrow> bool" where
  "azimuth_allowed az l =
     (case (ml_AzMin l, ml_AzMax l) of
        (Some mn, Some mx) \<Rightarrow>
          if fle (Fin 360) (fsub mx mn) then True
          else (let lo = normalizeAzimuthBound mn; hi = normalizeAzimuthBound mx in
                if fle lo hi then \<not> (flt az lo \<or> flt hi az)
                else \<not> (flt hi az \<and> flt az lo))
      | (mn, mx) \<Rightarrow>
          if below_opt az (map_option normalizeAzimuthBound mn) then False
          else \<not> above_opt az (map_option normalizeAzimuthBound mx))"

definition ValidateMountLimits :: "f64 \<Rightarrow> f64 \<Rightarrow> mount_limits option \<Rightarrow> bool" where
  "ValidateMountLimits altDeg azDeg limits =
     (case limits of None \<Rightarrow> True
      | Some l \<Rightarrow>
          if below_opt altDeg (ml_AltMin l) then False
          else if above_opt altDeg (ml_AltMax l) then False
          else azimuth_allowed (normalizeAzimuth azDeg) l)"

text \<open>One segment of the horizon, from point \<open>p\<close> to the next point \<open>q\<close>: the altitude when \<open>az\<close> is on it.\<close>

definition horizon_segment :: "f64 \<Rightarrow> horizon_point \<Rightarrow> horizon_point \<Rightarrow> f64 option" where
  "horizon_segment az p q =
     (let a0 = fMod (hp_Az p) (Fin 360); alt0 = hp_Alt p; a1 = fMod (hp_Az q) (Fin 360); alt1 = hp_Alt q in
      if fle a0 a1 then
        (if fle a0 az \<and> fle az a1 then
           (let t = (if flt (flit (1 / 10 ^ 9)) (fabs (fsub a1 a0)) then fdiv (fsub az a0) (fsub a1 a0) else Fin 0)
            in Some (fadd alt0 (fmul t (fsub alt1 alt0))))
         else None)
      else if fle a0 az \<or> fle az a1 then
        (let span = fadd (fsub (Fin 360) a0) a1;
             t = fdiv (fsub az a0) span;
             t = (if fle az a1 then fdiv (fadd (fsub (Fin 360) a0) az) span else t)
         in Some (fadd alt0 (fmul t (fsub alt1 alt0))))
      else None)"

fun horizon_scan :: "f64 \<Rightarrow> (horizon_point \<times> horizon_point) list \<Rightarrow> f64 option" where
  "horizon_scan az [] = None"
| "horizon_scan az ((p, q) # segs) =
     (case horizon_segment az p q of Some a \<Rightarrow> Some a | None \<Rightarrow> horizon_scan az segs)"

definition HorizonAltAt :: "f64 \<Rightarrow> horizon_profile option \<Rightarrow> f64" where
  "HorizonAltAt azDeg profile =
     (case profile of None \<Rightarrow> Fin (- 90)
      | Some pr \<Rightarrow>
          if hp_Points pr = [] then Fin (- 90)
          else (let az = fMod azDeg (Fin 360); pts = hp_Points pr in
                if length pts = 1 then hp_Alt (hd pts)
                else (case horizon_scan az (zip pts (rotate1 pts)) of
                    Some a \<Rightarrow> a
                  | None \<Rightarrow> hp_Alt (hd pts))))"

definition AboveHorizonProfile :: "f64 \<Rightarrow> f64 \<Rightarrow> horizon_profile option \<Rightarrow> bool" where
  "AboveHorizonProfile altDeg azDeg profile =
     (if profile = None then True else flt (HorizonAltAt azDeg profile) altDeg)"

section \<open>The safety gate\<close>

definition PassesAltAzSafety ::
  "mathlib \<Rightarrow> f64 \<Rightarrow> f64 \<Rightarrow> f64 option \<Rightarrow> telescope_safety \<Rightarrow> gotime \<Rightarrow> bool" where
  "PassesAltAzSafety M targetRA targetDec minAltitudeDeg safety now =
     (case (ts_SiteLat safety, ts_SiteLon safety) of
        (Some lat, Some lon) \<Rightarrow>
          (let (alt, az) = ComputeTargetAltAz M targetRA targetDec lat lon now in
           if below_opt alt minAltitudeDeg then False
           else if \<not> ValidateMountLimits alt az (ts_MountLimits safety) then False
           else if \<not> AboveHorizonProfile alt az (ts_HorizonProfile safety) then False
           else if ts_ObstructionMask safety \<noteq> [] \<and> PointInForbiddenAltAz alt az (ts_ObstructionMask safety)
             then False
           else (case (ts_MountAltDeg safety, ts_MountAzDeg safety) of
               (Some malt, Some maz) \<Rightarrow>
                 if ts_ObstructionMask safety \<noteq> [] then
                   \<not> SlewPathHitsForbidden malt maz alt az (ts_ObstructionMask safety) 24
                 else True
             | _ \<Rightarrow> True))
      | _ \<Rightarrow> False)"

text \<open>Parsing persisted safety data; \<open>decode\<close> is the JSON decoder at the type in question.\<close>

definition ParseObstructionMask ::
  "(string \<Rightarrow> string + obstruction_mask) \<Rightarrow> string \<Rightarrow> (string + mask_error) + obstruction_mask" where
  "ParseObstructionMask decode raw =
     (if TrimSpace raw = [] then Inr []
      else (case decode raw of
          Inl e \<Rightarrow> Inl (Inl e)
        | Inr msk \<Rightarrow> (case ValidateObstructionMask msk of Some e \<Rightarrow> Inl (Inr e) | None \<Rightarrow> Inr msk)))"

definition ParseMountLimits :: "(string \<Rightarrow> mount_limits option) \<Rightarrow> string \<Rightarrow> mount_limits option" where
  "ParseMountLimits decode raw = (if raw = [] then None else decode raw)"

definition ParseHorizonProfile :: "(string \<Rightarrow> horizon_profile option) \<Rightarrow> string \<Rightarrow> horizon_profile option" where
  "ParseHorizonProfile decode raw = (if raw = [] then None else decode raw)"

section \<open>Lemmas\<close>

lemma empty_mask [simp]:
  "PointInForbiddenAltAz alt az [] = False" "SlewPathHitsForbidden a0 z0 a1 z1 [] n = False"
  by (simp_all add: PointInForbiddenAltAz_def SlewPathHitsForbidden_def)

text \<open>The gate as a conjunction of what it checks.\<close>

lemma PassesAltAzSafety_iff:
  "PassesAltAzSafety M ra dec mn s now \<longleftrightarrow>
    (\<exists>lat lon alt az. ts_SiteLat s = Some lat \<and> ts_SiteLon s = Some lon \<and>
       ComputeTargetAltAz M ra dec lat lon now = (alt, az) \<and>
       \<not> below_opt alt mn \<and> ValidateMountLimits alt az (ts_MountLimits s) \<and>
       AboveHorizonProfile alt az (ts_HorizonProfile s) \<and>
       \<not> PointInForbiddenAltAz alt az (ts_ObstructionMask s) \<and>
       (\<forall>malt maz. ts_MountAltDeg s = Some malt \<longrightarrow> ts_MountAzDeg s = Some maz \<longrightarrow>
          \<not> SlewPathHitsForbidden malt maz alt az (ts_ObstructionMask s) 24))"
proof (cases "\<exists>lat lon. ts_SiteLat s = Some lat \<and> ts_SiteLon s = Some lon")
  case True
  then obtain lat lon where l: "ts_SiteLat s = Some lat" "ts_SiteLon s = Some lon" by blast
  obtain alt az where c: "ComputeTargetAltAz M ra dec lat lon now = (alt, az)" by fastforce
  show ?thesis
    by (cases "ts_MountAltDeg s"; cases "ts_MountAzDeg s"; auto simp: PassesAltAzSafety_def l c)
next
  case False
  then show ?thesis by (auto simp: PassesAltAzSafety_def split: option.splits)
qed

lemma forbidden_polys_Cons_bad:
  "list_ex bad_vertex p \<Longrightarrow> forbidden_polys az alt (p # m) = forbidden_polys az alt m"
  by simp

lemma validate_vertices_ok:
  "validate_vertices k i vs = None \<Longrightarrow> v \<in> set vs \<Longrightarrow>
     length v = 2 \<and> \<not> flt (v ! 0) (Fin (- 90)) \<and> \<not> flt (Fin 90) (v ! 0) \<and> \<not> is_NaN (v ! 0) \<and> \<not> is_NaN (v ! 1)"
  by (induction k i vs rule: validate_vertices.induct) (auto split: if_splits)

lemma validate_polys_ok:
  "validate_polys k m = None \<Longrightarrow> p \<in> set m \<Longrightarrow>
     3 \<le> length p \<and> (\<forall>v \<in> set p. length v = 2 \<and> \<not> flt (v ! 0) (Fin (- 90)) \<and> \<not> flt (Fin 90) (v ! 0)
        \<and> \<not> is_NaN (v ! 0) \<and> \<not> is_NaN (v ! 1))"
proof (induction k m rule: validate_polys.induct)
  case (2 k q m)
  then show ?case by (auto split: if_splits option.splits dest: validate_vertices_ok)
qed simp

text \<open>
  A rectangular polygon, its corners in turn.  For such a polygon the ray caster is exact: the
  edges along an azimuth contribute a comparison with that azimuth, the others nothing.
\<close>

definition rect_poly :: "rat \<Rightarrow> rat \<Rightarrow> rat \<Rightarrow> rat \<Rightarrow> polygon" where
  "rect_poly a0 a1 z0 z1 = [[Fin a0, Fin z0], [Fin a0, Fin z1], [Fin a1, Fin z1], [Fin a1, Fin z0]]"

lemma fround_90 [simp]: "fround 90 = Fin 90" "fround (- 90) = Fin (- 90)" "fround 180 = Fin 180"
    "fround (- 180) = Fin (- 180)" "fround 360 = Fin 360"
  by simp_all

lemma fadd_pos_nonzero:
  assumes "fround x = Fin v" "\<bar>x\<bar> \<le> 180" "1 / 1024 \<le> \<bar>x\<bar>"
  obtains w where "fadd (Fin v) (flit (1 / 10 ^ 15)) = Fin w" "w \<noteq> 0"
proof -
  have f1: "fround (1 / 2048) = Fin (1 / 2048)" using fround_exact [of 1 "- 11"] by (simp add: two_pow_def)
  have f2: "fround (- (1 / 2048)) = Fin (- (1 / 2048))" using fround_exact [of "- 1" "- 11"] by (simp add: two_pow_def)
  have f3: "fround (1 / 1024) = Fin (1 / 1024)" using fround_exact [of 1 "- 10"] by (simp add: two_pow_def)
  have f4: "fround (- (1 / 1024)) = Fin (- (1 / 1024))" using fround_exact [of "- 1" "- 10"] by (simp add: two_pow_def)
  have "(0::rat) \<le> 1 / 10 ^ 15" "(1::rat) / 10 ^ 15 \<le> 1 / 2048" by simp_all
  then obtain e where e: "flit (1 / 10 ^ 15) = Fin e" "0 \<le> e" "e \<le> 1 / 2048"
    using fround_between [of 0 "1 / 2048"] f1 by (metis fround_0)
  show thesis
  proof (cases "0 \<le> x")
    case True
    then have "1 / 1024 \<le> v" "v \<le> 180"
      using fround_between [of "1 / 1024" 180 x] f3 assms by auto
    then obtain w where "fround (v + e) = Fin w" "1 / 2048 \<le> w"
      using fround_between [of "1 / 2048" 360 "v + e"] f1 e by auto
    with e that show thesis by auto
  next
    case False
    then have "v \<le> - (1 / 1024)" "- 180 \<le> v"
      using fround_between [of "- 180" "- (1 / 1024)" x] f4 assms by auto
    then obtain w where "fround (v + e) = Fin w" "w \<le> - (1 / 2048)"
      using fround_between [of "- 360" "- (1 / 2048)" "v + e"] f2 e by auto
    with e that show thesis by auto
  qed
qed

lemma fsub_between:
  assumes "\<bar>y\<bar> \<le> 90" "\<bar>a\<bar> \<le> 90"
  obtains v where "fsub (Fin y) (Fin a) = Fin v" "fround (y - a) = Fin v"
proof -
  have "- 180 \<le> y - a" "y - a \<le> 180" using assms by linarith+
  then obtain v where "fround (y - a) = Fin v"
    using fround_between [of "- 180" 180 "y - a"] by auto
  then show thesis using that by (simp add: fsub_def)
qed

lemma ray_toggle_vertical:
  assumes "\<bar>y\<bar> \<le> 90" "\<bar>a\<bar> \<le> 90" "\<bar>b\<bar> \<le> 90" "1 / 1024 \<le> \<bar>b - a\<bar>" "fround z = Fin z"
  shows "ray_toggle (Fin x) (Fin y) [Fin z, Fin a] [Fin z, Fin b] \<longleftrightarrow> ((y < a) \<noteq> (y < b)) \<and> x < z"
proof -
  obtain v where v: "fsub (Fin y) (Fin a) = Fin v" using fsub_between assms(1,2) by blast
  obtain d where d: "fsub (Fin b) (Fin a) = Fin d" "fround (b - a) = Fin d"
    using fsub_between assms(2,3) by blast
  have "\<bar>b - a\<bar> \<le> 180" using assms(2,3) by linarith
  then obtain w where w: "fadd (Fin d) (flit (1 / 10 ^ 15)) = Fin w" "w \<noteq> 0"
    using fadd_pos_nonzero [OF d(2)] assms(4) by blast
  have z: "fsub (Fin z) (Fin z) = Fin 0" by (simp add: fsub_def)
  show ?thesis using assms(5) w by (simp add: ray_toggle_def v d z del: fadd.simps) simp
qed

lemma ray_toggle_horizontal: "\<not> ray_toggle x y [zi, a] [zj, a]"
  by (simp add: ray_toggle_def)

lemma fMod_small:
  assumes "\<bar>z\<bar> < m"
  shows "fMod (Fin z) (Fin m) = Fin z"
proof -
  have "0 < m" using assms by linarith
  then have "- 1 < z / m" "z / m < 1" using assms by (auto simp: field_simps abs_less_iff)
  then have "trunc_rat (z / m) = 0" by (auto simp: trunc_rat_def floor_eq_iff)
  then show ?thesis using assms by simp
qed

lemma PointInForbidden_rect:
  assumes "\<bar>alt\<bar> \<le> 90" "\<bar>a0\<bar> \<le> 90" "\<bar>a1\<bar> \<le> 90" "a0 + 1 / 1024 \<le> a1"
    and "0 \<le> z0" "z0 < z1" "z1 < 360" "fround z0 = Fin z0" "fround z1 = Fin z1" "\<bar>az\<bar> < 360"
  shows "PointInForbiddenAltAz (Fin alt) (Fin az) [rect_poly a0 a1 z0 z1] \<longleftrightarrow>
    a0 \<le> alt \<and> alt < a1 \<and> z0 \<le> az \<and> az < z1"
proof -
  have m: "fMod (Fin z0) (Fin 360) = Fin z0" "fMod (Fin z1) (Fin 360) = Fin z1" "fMod (Fin az) (Fin 360) = Fin az"
    using assms by (simp_all add: fMod_small del: fMod.simps)
  have up: "ray_toggle (Fin az) (Fin alt) [Fin z0, Fin a0] [Fin z0, Fin a1] \<longleftrightarrow>
      ((alt < a0) \<noteq> (alt < a1)) \<and> az < z0"
    using assms by (intro ray_toggle_vertical) auto
  have down: "ray_toggle (Fin az) (Fin alt) [Fin z1, Fin a1] [Fin z1, Fin a0] \<longleftrightarrow>
      ((alt < a1) \<noteq> (alt < a0)) \<and> az < z1"
    using assms by (intro ray_toggle_vertical) auto
  have nb: "\<not> list_ex bad_vertex [[Fin z0, Fin a0], [Fin z1, Fin a0], [Fin z1, Fin a1], [Fin z0, Fin a1]]"
    "\<not> list_ex bad_vertex (rect_poly a0 a1 z0 z1)"
    by (simp_all add: bad_vertex_def is_NaN_def is_Inf_def rect_poly_def)
  have "PointInPolygon (Fin az) (Fin alt) [[Fin z0, Fin a0], [Fin z1, Fin a0], [Fin z1, Fin a1], [Fin z0, Fin a1]]
      \<longleftrightarrow> a0 \<le> alt \<and> alt < a1 \<and> z0 \<le> az \<and> az < z1"
    using nb(1) assms(4,6) by (auto simp: PointInPolygon_def up down ray_toggle_horizontal)
  then show ?thesis
    using nb(2) by (simp add: PointInForbiddenAltAz_def m(3) rect_poly_def m(1,2) del: fMod.simps)
qed

lemma SlewPath_24_iff:
  "SlewPathHitsForbidden malt maz alt az m 24 \<longleftrightarrow>
    (\<exists>i. 0 \<le> i \<and> i \<le> 24 \<and> PointInForbiddenAltAz (fst (slew_sample malt maz alt az 24 i))
       (snd (slew_sample malt maz alt az 24 i)) m)"
proof (cases "m = []")
  case False
  have "set (map int [0..<Suc 24]) = {0..<25}"
    by (simp only: set_map set_upt image_int_atLeastLessThan) simp
  also have "\<dots> = {0..24}" by auto
  finally have "set (map int [0..<Suc 24]) = {0..24}" .
  with False show ?thesis
    by (simp add: SlewPathHitsForbidden_def list_ex_iff case_prod_beta Let_def Bex_def conj_assoc
        del: upt_Suc set_map)
qed simp

section \<open>Properties\<close>


text \<open>For a rectangular obstruction between two altitudes and two azimuths, a point is forbidden
  exactly when it is inside (lower edges included, upper edges excluded): the ray caster is exact
  despite rounding.\<close>

theorem rectangle_forbidden_iff:
  assumes "\<bar>alt\<bar> \<le> 90" "\<bar>a0\<bar> \<le> 90" "\<bar>a1\<bar> \<le> 90" "a0 + 1 / 1024 \<le> a1"
    and "0 \<le> z0" "z0 < z1" "z1 < 360" "fround z0 = Fin z0" "fround z1 = Fin z1" "0 \<le> az" "az < 360"
  shows "PointInForbiddenAltAz (Fin alt) (Fin az) [rect_poly a0 a1 z0 z1] \<longleftrightarrow>
    a0 \<le> alt \<and> alt < a1 \<and> z0 \<le> az \<and> az < z1"
  using assms by (intro PointInForbidden_rect) auto

theorem rectangle_forbidden_iff_witness:
  "PointInForbiddenAltAz (Fin 45) (Fin 335) [rect_poly 40 50 320 350]"
  using rectangle_forbidden_iff [of 45 40 50 320 350 335] by simp

text \<open>A slew across north is checked with negative azimuths, which no polygon given in 0..360
  matches: the short way from azimuth 10 to azimuth 310 at altitude 45 crosses the obstruction
  between azimuths 320 and 350, a mount standing there is in a forbidden position, and yet the
  sampled slew path reports no hit.\<close>

theorem slew_across_north_missed:
  "\<not> SlewPathHitsForbidden (Fin 45) (Fin 10) (Fin 45) (Fin 310) [rect_poly 40 50 320 350] 24 \<and>
   PointInForbiddenAltAz (Fin 45) (Fin 335) [rect_poly 40 50 320 350]"
proof -
  have "\<not> PointInForbiddenAltAz alt az [rect_poly 40 50 320 350]"
    if i: "0 \<le> i" "i \<le> 24" and s: "slew_sample (Fin 45) (Fin 10) (Fin 45) (Fin 310) 24 i = (alt, az)"
    for i alt az
  proof -
    have q: "i2f i = Fin (of_int i)" "i2f 24 = Fin 24" using i i2f_exact [of i] i2f_exact [of 24] by simp_all
    have "(of_int i :: rat) \<le> of_int 24" using i(2) by (simp only: of_int_le_iff)
    then obtain t where t: "fround (of_int i / 24) = Fin t" "0 \<le> t" "t \<le> 1"
      using fround_between [of 0 1 "of_int i / 24"] i(1) by auto
    obtain u where u: "fround (- (t * 60)) = Fin u" "- 60 \<le> u" "u \<le> 0"
      using fround_between [of "- 60" 0 "- (t * 60)"] t by auto
    obtain w where w: "fround (10 + u) = Fin w" "- 50 \<le> w" "w \<le> 10"
      using fround_between [of "- 50" 10 "10 + u"] u by auto
    have m840: "fMod (Fin 840) (Fin 360) = Fin 120" by (simp add: trunc_rat_def floor_eq_iff)
    have mw: "fMod (Fin w) (Fin 360) = Fin w" using w by (intro fMod_small) auto
    have "alt = Fin 45" "az = Fin w"
      using s by (auto simp: slew_sample_def q t u w m840 mw fsub_def simp del: fMod.simps)
    then show ?thesis using PointInForbidden_rect [of 45 40 50 320 350 w] w by simp
  qed
  then have "\<not> SlewPathHitsForbidden (Fin 45) (Fin 10) (Fin 45) (Fin 310) [rect_poly 40 50 320 350] 24"
    unfolding SlewPath_24_iff by (metis prod.collapse)
  moreover have "PointInForbiddenAltAz (Fin 45) (Fin 335) [rect_poly 40 50 320 350]"
    using PointInForbidden_rect [of 45 40 50 320 350 335] by simp
  ultimately show ?thesis by blast
qed

end
