(* ===== verification/Handoff.thy ===== *)
theory Handoff
  imports Safety
begin

text \<open>
  Handoff urgency (\<open>shared/handoff.go\<close>): how urgent the search for a task's next site is, the
  search for the next obstruction, the priority boost and the polling cadence.  The package's
  environment settings are the record \<open>handoff_config\<close>.  Durations are below 2^63 nanoseconds.
\<close>

datatype urgency = UrgencyNone | UrgencyPlanned | UrgencyObstruction | UrgencyUser | UrgencyEmergency

definition envInt :: "(string \<Rightarrow> string) \<Rightarrow> string \<Rightarrow> int \<Rightarrow> int" where
  "envInt env key def =
     (let v = env key in if v = [] then def else (case Atoi v of None \<Rightarrow> def | Some n \<Rightarrow> n))"

record handoff_config =
  DefaultHandoffLeadSeconds :: int
  UserHandoffLeadSeconds :: int
  PollNoneSeconds :: int
  PollPlannedSeconds :: int
  PollObstructionSeconds :: int
  PollUserSeconds :: int
  PollEmergencySeconds :: int
  ObstructionApproachSeconds :: int
  ObstructionSearchHorizonHours :: int
  ObstructionScanStepSeconds :: int

definition env_handoff_config :: "(string \<Rightarrow> string) \<Rightarrow> handoff_config" where
  "env_handoff_config env =
     \<lparr>DefaultHandoffLeadSeconds = envInt env ''HANDOFF_DEFAULT_LEAD_SECONDS'' 5400,
      UserHandoffLeadSeconds = envInt env ''HANDOFF_USER_LEAD_SECONDS'' 300,
      PollNoneSeconds = envInt env ''HANDOFF_POLL_NONE_SECONDS'' 3600,
      PollPlannedSeconds = envInt env ''HANDOFF_POLL_PLANNED_SECONDS'' 300,
      PollObstructionSeconds = envInt env ''HANDOFF_POLL_OBSTRUCTION_SECONDS'' 30,
      PollUserSeconds = envInt env ''HANDOFF_POLL_USER_SECONDS'' 15,
      PollEmergencySeconds = envInt env ''HANDOFF_POLL_EMERGENCY_SECONDS'' 5,
      ObstructionApproachSeconds = envInt env ''HANDOFF_OBSTRUCTION_APPROACH_SECONDS'' 1800,
      ObstructionSearchHorizonHours = envInt env ''HANDOFF_OBSTRUCTION_HORIZON_HOURS'' 48,
      ObstructionScanStepSeconds = envInt env ''HANDOFF_OBSTRUCTION_SCAN_STEP_SECONDS'' 60\<rparr>"

record handoff_task =
  ht_ID :: int
  ht_Status :: string
  ht_TargetRA :: "f64 option"
  ht_TargetDec :: "f64 option"
  ht_MinAltitudeDeg :: "f64 option"
  ht_ScheduledEndAt :: "gotime option"
  ht_UserEndAt :: "gotime option"
  ht_HandoffLeadSeconds :: "int option"
  ht_EmergencyHandoffRequestedAt :: "gotime option"
  ht_CoverageActive :: bool

definition effectiveHandoffLeadSeconds :: "handoff_config \<Rightarrow> handoff_task \<Rightarrow> int" where
  "effectiveHandoffLeadSeconds C task =
     (case ht_HandoffLeadSeconds task of
        Some n \<Rightarrow> if 0 < n then n else DefaultHandoffLeadSeconds C
      | None \<Rightarrow> DefaultHandoffLeadSeconds C)"

definition in_user_window :: "handoff_config \<Rightarrow> handoff_task \<Rightarrow> gotime \<Rightarrow> bool" where
  "in_user_window C task now =
     (case ht_UserEndAt task of None \<Rightarrow> False
      | Some e \<Rightarrow> \<not> now < e + (- UserHandoffLeadSeconds C) * second)"

definition in_scheduled_window :: "handoff_config \<Rightarrow> handoff_task \<Rightarrow> gotime \<Rightarrow> bool" where
  "in_scheduled_window C task now =
     (case ht_ScheduledEndAt task of None \<Rightarrow> False
      | Some e \<Rightarrow> (let lead = effectiveHandoffLeadSeconds C task * second in \<not> now < e + (- lead)))"

definition UrgencyForTask :: "handoff_config \<Rightarrow> handoff_task \<Rightarrow> gotime \<Rightarrow> urgency" where
  "UrgencyForTask C task now =
     (if ht_EmergencyHandoffRequestedAt task \<noteq> None then UrgencyEmergency
      else if in_user_window C task now then UrgencyUser
      else if in_scheduled_window C task now then UrgencyPlanned
      else if ht_CoverageActive task then UrgencyPlanned
      else UrgencyNone)"

definition TaskInHandoffSearchWindow :: "handoff_config \<Rightarrow> handoff_task \<Rightarrow> gotime \<Rightarrow> bool" where
  "TaskInHandoffSearchWindow C task now =
     (if ht_EmergencyHandoffRequestedAt task \<noteq> None then True
      else if in_user_window C task now then True
      else in_scheduled_window C task now)"

section \<open>The obstruction search\<close>

text \<open>
  The scan from \<open>cur\<close> in steps until the target is forbidden or the horizon \<open>tend\<close> is reached;
  it returns the first forbidden instant of the grid.  The step is positive (at least 15 s), so
  the scan ends; the guard on it makes that visible.
\<close>

function scan_forbidden :: "(gotime \<Rightarrow> bool) \<Rightarrow> gotime \<Rightarrow> duration \<Rightarrow> gotime \<Rightarrow> gotime option" where
  "scan_forbidden forbiddenAt tend stp cur =
     (if cur < tend \<and> 0 < stp then
        (let nxt = cur + stp; nxt = (if tend < nxt then tend else nxt) in
         if forbiddenAt nxt then Some nxt else scan_forbidden forbiddenAt tend stp nxt)
      else None)"
  by pat_completeness auto
termination
  by (relation "measure (\<lambda>(f, tend, stp, cur). nat (tend - cur))") auto

declare scan_forbidden.simps [simp del]

definition forbidden_at ::
  "mathlib \<Rightarrow> handoff_task \<Rightarrow> telescope_safety \<Rightarrow> obstruction_mask \<Rightarrow> f64 \<Rightarrow> f64 \<Rightarrow> f64 \<Rightarrow> f64 \<Rightarrow> gotime \<Rightarrow> bool" where
  "forbidden_at M task safety msk ra dec lat lon now =
     (let (alt, az) = ComputeTargetAltAz M ra dec lat lon now in
      if below_opt alt (ht_MinAltitudeDeg task) then True
      else if \<not> ValidateMountLimits alt az (ts_MountLimits safety) then True
      else if \<not> AboveHorizonProfile alt az (ts_HorizonProfile safety) then True
      else PointInForbiddenAltAz alt az msk)"

definition scan_step :: "handoff_config \<Rightarrow> duration" where
  "scan_step C = max 15 (ObstructionScanStepSeconds C) * second"

definition SecondsUntilObstructionLoss ::
  "handoff_config \<Rightarrow> mathlib \<Rightarrow> handoff_task \<Rightarrow> telescope_safety \<Rightarrow> gotime \<Rightarrow> obstruction_mask \<Rightarrow> f64 option" where
  "SecondsUntilObstructionLoss C M task safety from maskOverride =
     (case (ht_TargetRA task, ht_TargetDec task, ts_SiteLat safety, ts_SiteLon safety) of
        (Some ra, Some dec, Some lat, Some lon) \<Rightarrow>
          (let msk = (if maskOverride \<noteq> [] then maskOverride else ts_ObstructionMask safety) in
           if msk = [] then None
           else (let t0 = from;
                     tend = t0 + ObstructionSearchHorizonHours C * hour;
                     forbiddenAt = forbidden_at M task safety msk ra dec lat lon
                 in if forbiddenAt t0 then Some (Fin 0)
                    else (case scan_forbidden forbiddenAt tend (scan_step C) t0 of
                        Some nxt \<Rightarrow> (let sec = Seconds (nxt - t0) in
                                     Some (if flt sec (Fin 0) then Fin 0 else sec))
                      | None \<Rightarrow> Some PInf)))
      | _ \<Rightarrow> None)"

definition CombinedUrgency ::
  "handoff_config \<Rightarrow> mathlib \<Rightarrow> handoff_task \<Rightarrow> telescope_safety \<Rightarrow> gotime \<Rightarrow> obstruction_mask \<Rightarrow> urgency" where
  "CombinedUrgency C M task safety now maskOverride =
     (let base = UrgencyForTask C task now in
      if base = UrgencyEmergency \<or> base = UrgencyUser then base
      else (let eta = SecondsUntilObstructionLoss C M task safety now maskOverride in
            if (case eta of None \<Rightarrow> False
                 | Some e \<Rightarrow> e \<noteq> PInf \<and> fle e (i2f (ObstructionApproachSeconds C))) then UrgencyObstruction
            else if base = UrgencyPlanned then UrgencyPlanned
            else UrgencyNone))"

section \<open>Polling and priority\<close>

fun RecommendedPollSeconds :: "handoff_config \<Rightarrow> urgency \<Rightarrow> int" where
  "RecommendedPollSeconds C UrgencyEmergency = PollEmergencySeconds C"
| "RecommendedPollSeconds C UrgencyUser = PollUserSeconds C"
| "RecommendedPollSeconds C UrgencyObstruction = PollObstructionSeconds C"
| "RecommendedPollSeconds C UrgencyPlanned = PollPlannedSeconds C"
| "RecommendedPollSeconds C UrgencyNone = PollNoneSeconds C"

definition HandoffTaskFromNotify :: "notify_payload \<Rightarrow> handoff_task" where
  "HandoffTaskFromNotify p =
     \<lparr>ht_ID = np_TaskID p, ht_Status = ''pending'', ht_TargetRA = np_TargetRA p,
      ht_TargetDec = np_TargetDec p, ht_MinAltitudeDeg = np_MinAltitudeDeg p,
      ht_ScheduledEndAt = np_ScheduledEndAt p, ht_UserEndAt = np_UserEndAt p,
      ht_HandoffLeadSeconds = np_HandoffLeadSeconds p,
      ht_EmergencyHandoffRequestedAt = np_EmergencyHandoffRequestedAt p,
      ht_CoverageActive = np_CoverageEnabled p\<rparr>"

definition EffectiveAssignPriority :: "handoff_config \<Rightarrow> int \<Rightarrow> handoff_task \<Rightarrow> gotime \<Rightarrow> int" where
  "EffectiveAssignPriority C base task now =
     (let boost = (case UrgencyForTask C task now of
            UrgencyEmergency \<Rightarrow> 100 | UrgencyUser \<Rightarrow> 50 | UrgencyObstruction \<Rightarrow> 40 | UrgencyPlanned \<Rightarrow> 20
          | UrgencyNone \<Rightarrow> if TaskInHandoffSearchWindow C task now then 20 else 0);
          p = base - boost
      in if p < 1 then 1 else p)"

definition handoff_open :: "handoff_task \<Rightarrow> bool" where
  "handoff_open t \<longleftrightarrow> \<not> (ht_Status t \<noteq> ''pending'' \<and> ht_Status t \<noteq> ''assigned'' \<and> ht_Status t \<noteq> ''in_progress'')"

fun AnyHandoffBroadcastActive :: "handoff_config \<Rightarrow> handoff_task list \<Rightarrow> gotime \<Rightarrow> bool" where
  "AnyHandoffBroadcastActive C [] now = False"
| "AnyHandoffBroadcastActive C (t # ts) now =
     (if \<not> handoff_open t then AnyHandoffBroadcastActive C ts now
      else if TaskInHandoffSearchWindow C t now then True
      else AnyHandoffBroadcastActive C ts now)"

fun broadcast_poll :: "handoff_config \<Rightarrow> int \<Rightarrow> handoff_task list \<Rightarrow> gotime \<Rightarrow> int" where
  "broadcast_poll C best [] now = best"
| "broadcast_poll C best (t # ts) now =
     (if \<not> handoff_open t then broadcast_poll C best ts now
      else if \<not> TaskInHandoffSearchWindow C t now then broadcast_poll C best ts now
      else broadcast_poll C (min best (RecommendedPollSeconds C (UrgencyForTask C t now))) ts now)"

definition BroadcastRecommendedPollSeconds :: "handoff_config \<Rightarrow> handoff_task list \<Rightarrow> gotime \<Rightarrow> int" where
  "BroadcastRecommendedPollSeconds C tasks now = broadcast_poll C (PollNoneSeconds C) tasks now"

section \<open>The status document\<close>

record handoff_status =
  hs_TaskID :: int
  hs_TelescopeID :: string
  hs_Urgency :: urgency
  hs_RecommendedPollIntervalSeconds :: int
  hs_ScheduledEndAt :: "string option"
  hs_HandoffLeadSeconds :: int
  hs_HandoffSearchWindowStartAt :: "string option"
  hs_UserEndAt :: "string option"
  hs_EmergencyHandoffRequestedAt :: "string option"
  hs_SecondsUntilObstructionLoss :: "f64 option"

definition BuildHandoffStatusPayload ::
  "handoff_config \<Rightarrow> mathlib \<Rightarrow> (gotime \<Rightarrow> string) \<Rightarrow> handoff_task \<Rightarrow> string \<Rightarrow> telescope_safety \<Rightarrow> gotime
   \<Rightarrow> obstruction_mask \<Rightarrow> handoff_status" where
  "BuildHandoffStatusPayload C M format_rfc3339 task telescopeID safety now maskOverride =
     (let urg = CombinedUrgency C M task safety now maskOverride;
          eta = SecondsUntilObstructionLoss C M task safety now maskOverride;
          lead = effectiveHandoffLeadSeconds C task
      in \<lparr>hs_TaskID = ht_ID task, hs_TelescopeID = telescopeID, hs_Urgency = urg,
          hs_RecommendedPollIntervalSeconds = RecommendedPollSeconds C urg,
          hs_ScheduledEndAt = map_option format_rfc3339 (ht_ScheduledEndAt task),
          hs_HandoffLeadSeconds = lead,
          hs_HandoffSearchWindowStartAt =
            map_option (\<lambda>e. format_rfc3339 (e + (- lead) * second)) (ht_ScheduledEndAt task),
          hs_UserEndAt = map_option format_rfc3339 (ht_UserEndAt task),
          hs_EmergencyHandoffRequestedAt = map_option format_rfc3339 (ht_EmergencyHandoffRequestedAt task),
          hs_SecondsUntilObstructionLoss =
            (case eta of None \<Rightarrow> None | Some e \<Rightarrow> if e = PInf then None else Some e)\<rparr>)"

section \<open>Lemmas\<close>

definition grid :: "gotime \<Rightarrow> duration \<Rightarrow> gotime \<Rightarrow> nat \<Rightarrow> gotime" where
  "grid cur stp tend k = min (cur + int k * stp) tend"

lemma grid_Suc:
  assumes "0 < stp" shows "grid cur stp tend (Suc k) = grid (min (cur + stp) tend) stp tend k"
proof -
  have "0 \<le> int k * stp" using assms by simp
  then show ?thesis by (auto simp: grid_def min_def algebra_simps)
qed

lemma scan_forbidden_spec:
  assumes "0 < stp" "cur \<le> tend" "\<not> f cur"
  shows "case scan_forbidden f tend stp cur of
      None \<Rightarrow> \<forall>k. \<not> f (grid cur stp tend k)
    | Some t \<Rightarrow> \<exists>k. t = grid cur stp tend k \<and> cur \<le> t \<and> f t \<and> (\<forall>j<k. \<not> f (grid cur stp tend j))"
  using assms
proof (induction f tend stp cur rule: scan_forbidden.induct)
  case (1 f tend stp cur)
  define nxt where "nxt = min (cur + stp) tend"
  have nxt: "(if tend < cur + stp then tend else cur + stp) = nxt" by (auto simp: nxt_def)
  show ?case
  proof (cases "cur < tend")
    case False
    then have "cur = tend" using 1 by simp
    then have "grid cur stp tend k = cur" for k using 1 by (simp add: grid_def)
    moreover have "scan_forbidden f tend stp cur = None"
      using False by (simp add: scan_forbidden.simps [of f tend stp cur])
    ultimately show ?thesis using 1 by simp
  next
    case True
    have g0: "grid cur stp tend 0 = cur" using True by (simp add: grid_def)
    have g1: "grid cur stp tend (Suc k) = grid nxt stp tend k" for k
      using grid_Suc 1 by (simp add: nxt_def)
    have n: "cur \<le> nxt" "nxt \<le> tend" using 1 True by (auto simp: nxt_def)
    have gn: "grid nxt stp tend 0 = nxt" using n by (simp add: grid_def)
    have sc: "scan_forbidden f tend stp cur = (if f nxt then Some nxt else scan_forbidden f tend stp nxt)"
      using True 1 by (subst scan_forbidden.simps) (simp add: Let_def nxt)
    show ?thesis
    proof (cases "f nxt")
      case True
      with sc g0 g1 [of 0] gn n 1 show ?thesis by (auto intro!: exI [of _ "Suc 0"])
    next
      case False
      have IH: "case scan_forbidden f tend stp nxt of
          None \<Rightarrow> \<forall>k. \<not> f (grid nxt stp tend k)
        | Some t \<Rightarrow> \<exists>k. t = grid nxt stp tend k \<and> nxt \<le> t \<and> f t \<and> (\<forall>j<k. \<not> f (grid nxt stp tend j))"
        using "1.IH" [of "cur + stp" nxt] True False "1.prems" n nxt by simp
      show ?thesis
      proof (cases "scan_forbidden f tend stp nxt")
        case None
        have "\<not> f (grid cur stp tend k)" for k
          using None IH g0 g1 "1.prems" by (cases k) auto
        with None False sc show ?thesis by simp
      next
        case (Some t)
        then obtain k where k: "t = grid nxt stp tend k" "nxt \<le> t" "f t" "\<forall>j<k. \<not> f (grid nxt stp tend j)"
          using IH by auto
        have "\<forall>j<Suc k. \<not> f (grid cur stp tend j)"
          using k(4) g0 g1 "1.prems" by (auto simp: less_Suc_eq_0_disj)
        with k Some False sc g1 n show ?thesis by (auto intro!: exI [of _ "Suc k"])
      qed
    qed
  qed
qed

lemma scan_step_pos: "0 < scan_step C"
  by (simp add: scan_step_def)

text \<open>Urgency as a rank, and the boost that it earns.\<close>

fun urgency_rank :: "urgency \<Rightarrow> int" where
  "urgency_rank UrgencyNone = 0"
| "urgency_rank UrgencyPlanned = 20"
| "urgency_rank UrgencyObstruction = 40"
| "urgency_rank UrgencyUser = 50"
| "urgency_rank UrgencyEmergency = 100"

lemma UrgencyNone_window: "UrgencyForTask C t now = UrgencyNone \<Longrightarrow> \<not> TaskInHandoffSearchWindow C t now"
  by (auto simp: UrgencyForTask_def TaskInHandoffSearchWindow_def split: if_splits)

lemma EffectiveAssignPriority_rank:
  "EffectiveAssignPriority C base t now = max 1 (base - urgency_rank (UrgencyForTask C t now))"
  by (auto simp: EffectiveAssignPriority_def Let_def UrgencyNone_window split: urgency.split)

lemma windows_mono:
  assumes "now \<le> later"
  shows "in_user_window C t now \<Longrightarrow> in_user_window C t later"
    "in_scheduled_window C t now \<Longrightarrow> in_scheduled_window C t later"
  using assms by (auto simp: in_user_window_def in_scheduled_window_def split: option.splits)

lemma urgency_mono:
  "now \<le> later \<Longrightarrow> urgency_rank (UrgencyForTask C t now) \<le> urgency_rank (UrgencyForTask C t later)"
  using windows_mono [of now later C t] by (auto simp: UrgencyForTask_def)

lemma Min_insert_min: "finite A \<Longrightarrow> Min (insert (min b c) A) = Min (insert b (insert (c :: int) A))"
  by (cases "A = {}") (simp_all add: min.assoc)

lemma broadcast_poll_Min:
  "broadcast_poll C best ts now =
     Min (insert best ((\<lambda>t. RecommendedPollSeconds C (UrgencyForTask C t now)) `
       {t \<in> set ts. handoff_open t \<and> TaskInHandoffSearchWindow C t now}))"
proof (induction C best ts now rule: broadcast_poll.induct)
  case (2 C best t ts now)
  let ?f = "\<lambda>t. RecommendedPollSeconds C (UrgencyForTask C t now)"
  let ?S = "{s \<in> set ts. handoff_open s \<and> TaskInHandoffSearchWindow C s now}"
  show ?case
  proof (cases "handoff_open t \<and> TaskInHandoffSearchWindow C t now")
    case True
    then have e: "{s \<in> set (t # ts). handoff_open s \<and> TaskInHandoffSearchWindow C s now} = insert t ?S" by auto
    have "Min (insert (min best (?f t)) (?f ` ?S)) = Min (insert best (insert (?f t) (?f ` ?S)))"
      by (intro Min_insert_min) simp
    with True 2 show ?thesis unfolding e by simp
  next
    case False
    then have "{s \<in> set (t # ts). handoff_open s \<and> TaskInHandoffSearchWindow C s now} = ?S" by auto
    with False 2 show ?thesis by auto
  qed
qed simp

section \<open>Properties\<close>

text \<open>A task's assignment priority is always at least 1, is the base priority lowered by the boost
  of its urgency, and never gets less urgent as time passes.\<close>

theorem assign_priority_monotone:
  assumes "now \<le> later"
  shows "EffectiveAssignPriority C base t now = max 1 (base - urgency_rank (UrgencyForTask C t now)) \<and>
    1 \<le> EffectiveAssignPriority C base t later \<and>
    EffectiveAssignPriority C base t later \<le> EffectiveAssignPriority C base t now"
  using urgency_mono [OF assms, of C t] by (simp add: EffectiveAssignPriority_rank)

theorem assign_priority_monotone_witness:
  "EffectiveAssignPriority (env_handoff_config (\<lambda>_. [])) 60
      \<lparr>ht_ID = 1, ht_Status = ''pending'', ht_TargetRA = None, ht_TargetDec = None, ht_MinAltitudeDeg = None,
       ht_ScheduledEndAt = None, ht_UserEndAt = Some 0, ht_HandoffLeadSeconds = None,
       ht_EmergencyHandoffRequestedAt = None, ht_CoverageActive = False\<rparr> 0
   \<le> EffectiveAssignPriority (env_handoff_config (\<lambda>_. [])) 60
      \<lparr>ht_ID = 1, ht_Status = ''pending'', ht_TargetRA = None, ht_TargetDec = None, ht_MinAltitudeDeg = None,
       ht_ScheduledEndAt = None, ht_UserEndAt = Some 0, ht_HandoffLeadSeconds = None,
       ht_EmergencyHandoffRequestedAt = None, ht_CoverageActive = False\<rparr> (- (400 * second))"
  by (rule assign_priority_monotone [THEN conjunct2, THEN conjunct2]) simp


definition demo_handoff :: handoff_task where
  "demo_handoff = \<lparr>ht_ID = 1, ht_Status = ''pending'', ht_TargetRA = Some (Fin 10), ht_TargetDec = Some (Fin 20),
     ht_MinAltitudeDeg = Some (Fin 90), ht_ScheduledEndAt = None, ht_UserEndAt = None,
     ht_HandoffLeadSeconds = None, ht_EmergencyHandoffRequestedAt = None, ht_CoverageActive = False\<rparr>"

definition demo_site :: telescope_safety where
  "demo_site = \<lparr>ts_ObstructionMask = [rect_poly 0 10 20 30], ts_MountLimits = None, ts_HorizonProfile = None,
     ts_SiteLat = Some (Fin 40), ts_SiteLon = Some (Fin 50), ts_MountAltDeg = None, ts_MountAzDeg = None\<rparr>"


text \<open>The recommended broadcast poll is the smallest cadence among the open tasks in their search
  window, or the idle cadence when there is none; it is never slower than the idle cadence.\<close>

theorem broadcast_poll_is_min:
  "BroadcastRecommendedPollSeconds C tasks now =
     Min (insert (PollNoneSeconds C) ((\<lambda>t. RecommendedPollSeconds C (UrgencyForTask C t now)) `
       {t \<in> set tasks. handoff_open t \<and> TaskInHandoffSearchWindow C t now}))
   \<and> (AnyHandoffBroadcastActive C tasks now \<longleftrightarrow>
       {t \<in> set tasks. handoff_open t \<and> TaskInHandoffSearchWindow C t now} \<noteq> {})"
proof
  show "AnyHandoffBroadcastActive C tasks now \<longleftrightarrow>
       {t \<in> set tasks. handoff_open t \<and> TaskInHandoffSearchWindow C t now} \<noteq> {}"
    by (induction tasks) auto
qed (simp only: BroadcastRecommendedPollSeconds_def broadcast_poll_Min)

end
