(* ===== verification/Lanes.thy ===== *)
theory Lanes
  imports TaskModel
begin

text \<open>
  The two assignment lanes and the planner of the planned lane (\<open>shared/lanes\<close>: \<open>lane.go\<close>,
  \<open>agenda.go\<close>, \<open>planner.go\<close>).  \<open>sort.Slice\<close> is the argument \<open>srt\<close>; a node's next free instant is
  a function of its id; \<open>time.Parse\<close> is an argument of \<open>ParseWindow\<close>.
\<close>

section \<open>Lanes\<close>

datatype lane = LanePlanned | LaneInterrupt

record season_inputs =
  si_Kind :: string
  si_Urgency :: string
  si_CadenceGoalMin :: int
  si_WindowStart :: "string option"
  si_WindowEnd :: "string option"
  si_EmergencyHandoff :: bool

text \<open>The season of a campaign pack (\<open>campaign.SeasonIntent\<close>).\<close>

record season_intent =
  se_Kind :: string
  se_Urgency :: string
  se_CadenceGoalMin :: int
  se_WindowStart :: "string option"
  se_WindowEnd :: "string option"
  se_TargetDutyCycle :: "f64 option"
  se_Designation :: string
  se_BreakNotes :: string

definition no_season :: season_inputs where
  "no_season = \<lparr>si_Kind = [], si_Urgency = [], si_CadenceGoalMin = 0, si_WindowStart = None,
     si_WindowEnd = None, si_EmergencyHandoff = False\<rparr>"

definition FromPackSeason :: "season_intent option \<Rightarrow> season_inputs" where
  "FromPackSeason s =
     (case s of None \<Rightarrow> no_season
      | Some s \<Rightarrow> \<lparr>si_Kind = TrimSpace (se_Kind s), si_Urgency = TrimSpace (se_Urgency s),
          si_CadenceGoalMin = se_CadenceGoalMin s, si_WindowStart = se_WindowStart s,
          si_WindowEnd = se_WindowEnd s, si_EmergencyHandoff = False\<rparr>)"

definition ClassifyLane :: "season_inputs \<Rightarrow> lane" where
  "ClassifyLane i =
     (if si_EmergencyHandoff i then LaneInterrupt
      else (let kind = ToLower (TrimSpace (si_Kind i)) in
        if kind = ''too'' then LaneInterrupt
        else (let urg = ToLower (TrimSpace (si_Urgency i)) in
          if urg = ''elevated'' \<or> urg = ''critical'' then LaneInterrupt
          else if kind = ''continuous'' \<or> kind = ''sparse'' then LanePlanned
          else LaneInterrupt)))"

definition AlertClass :: "season_inputs \<Rightarrow> string" where
  "AlertClass i =
     (let kind = ToLower (TrimSpace (si_Kind i)) in
      if kind = ''too'' then ''too''
      else (let urg = ToLower (TrimSpace (si_Urgency i)) in
        if urg = ''critical'' then ''critical'' else if urg = ''elevated'' then ''elevated'' else ''default''))"

section \<open>Agendas\<close>

record agenda_slot =
  as_TaskID :: int
  as_CampaignID :: string
  as_NodeID :: string
  as_StartAt :: gotime
  as_EndAt :: gotime
  as_CadenceGoalMin :: int
  as_Priority :: int
  as_RA :: "f64 option"
  as_Dec :: "f64 option"

definition AgendaKey :: "string \<Rightarrow> string" where
  "AgendaKey nodeID = ''agenda:node:'' @ nodeID"

definition StandbyRosterKey :: "string \<Rightarrow> string" where
  "StandbyRosterKey alertClass = ''roster:standby:'' @ (if alertClass = [] then ''default'' else alertClass)"

definition RemainingSec :: "agenda_slot \<Rightarrow> gotime \<Rightarrow> f64" where
  "RemainingSec s now =
     (if now < as_StartAt s then Seconds (as_EndAt s - as_StartAt s)
      else if \<not> now < as_EndAt s then Fin 0
      else Seconds (as_EndAt s - now))"

fun active_remaining :: "gotime \<Rightarrow> f64 \<Rightarrow> agenda_slot list \<Rightarrow> f64" where
  "active_remaining now best [] = best"
| "active_remaining now best (s # slots) =
     (let rem = RemainingSec s now in
      if fle rem (Fin 0) then active_remaining now best slots
      else if \<not> now < as_StartAt s \<and> now < as_EndAt s then rem
      else active_remaining now (if flt best rem then rem else best) slots)"

definition ActiveRemainingSec :: "agenda_slot list \<Rightarrow> gotime \<Rightarrow> f64" where
  "ActiveRemainingSec slots now = active_remaining now (Fin 0) slots"

section \<open>The planner\<close>

record plan_task =
  pt_TaskID :: int
  pt_CampaignID :: string
  pt_Priority :: int
  pt_RA :: "f64 option"
  pt_Dec :: "f64 option"
  pt_IntegrationSec :: f64
  pt_CadenceGoalMin :: int
  pt_WindowStart :: gotime
  pt_WindowEnd :: gotime
  pt_PreferredNodes :: "string list"

definition PlanHorizonDefault :: duration where
  "PlanHorizonDefault = 6 * hour"

definition plan_less :: "plan_task \<Rightarrow> plan_task \<Rightarrow> bool" where
  "plan_less a b =
     (if pt_Priority a \<noteq> pt_Priority b then pt_Priority a < pt_Priority b else pt_TaskID a < pt_TaskID b)"

definition plan_window :: "gotime \<Rightarrow> plan_task \<Rightarrow> gotime \<times> gotime" where
  "plan_window now t =
     (let ws = (if is_zero_time (pt_WindowStart t) then now else pt_WindowStart t);
          we = pt_WindowEnd t
      in (ws, if is_zero_time we \<or> \<not> ws < we then ws + PlanHorizonDefault else we))"

definition plan_integ :: "plan_task \<Rightarrow> f64" where
  "plan_integ t = (if fle (pt_IntegrationSec t) (Fin 0) then Fin 60 else pt_IntegrationSec t)"

definition slot_duration :: "plan_task \<Rightarrow> duration" where
  "slot_duration t = f2i (fmul (plan_integ t) (Fin 1000000000))"

definition plan_cadence :: "plan_task \<Rightarrow> duration" where
  "plan_cadence t =
     (if pt_CadenceGoalMin t \<le> 0 then
        (let c = wrap64 (f2i (plan_integ t) * second) in if c < minute then minute else c)
      else wrap64 (pt_CadenceGoalMin t * minute))"

definition plan_candidates :: "string list \<Rightarrow> plan_task \<Rightarrow> string list" where
  "plan_candidates nodes t =
     (if pt_PreferredNodes t \<noteq> [] then
        (let pref = filter (\<lambda>n. n \<in> set (pt_PreferredNodes t)) nodes in if pref \<noteq> [] then pref else nodes)
      else nodes)"

definition earliest_start :: "(string \<Rightarrow> gotime) \<Rightarrow> gotime \<Rightarrow> gotime \<Rightarrow> string \<Rightarrow> gotime" where
  "earliest_start nextFree winStart now n =
     (let start = nextFree n; start = (if start < winStart then winStart else start)
      in if start < now then now else start)"

text \<open>The candidate that is free earliest; the empty id means that none fits its window.\<close>

fun pick_slot ::
  "(string \<Rightarrow> gotime) \<Rightarrow> gotime \<Rightarrow> gotime \<Rightarrow> gotime \<Rightarrow> duration \<Rightarrow> string \<times> gotime \<Rightarrow> string list \<Rightarrow> string \<times> gotime" where
  "pick_slot nextFree winStart winEnd now dur best [] = best"
| "pick_slot nextFree winStart winEnd now dur best (n # ns) =
     (let start = earliest_start nextFree winStart now n in
      pick_slot nextFree winStart winEnd now dur
        (if winEnd < start + dur then best
         else if fst best = [] \<or> start < snd best then (n, start) else best) ns)"

record plan_state =
  pl_nextFree :: "string \<Rightarrow> gotime"
  pl_out :: "agenda_slot list"
  pl_nodeIdx :: nat

definition plan_task_step :: "string list \<Rightarrow> gotime \<Rightarrow> plan_state \<Rightarrow> plan_task \<Rightarrow> plan_state" where
  "plan_task_step nodes now st t =
     (let (winStart, winEnd) = plan_window now t in
      if winEnd < now then st
      else (let cands = plan_candidates nodes t; len = length cands;
                order = map (\<lambda>i. cands ! ((pl_nodeIdx st + i) mod len)) [0..<len];
                (bestID, bestStart) =
                  pick_slot (pl_nextFree st) winStart winEnd now (slot_duration t) ([], zero_time) order
            in if bestID = [] then st
               else (let tend = bestStart + slot_duration t;
                         slot = \<lparr>as_TaskID = pt_TaskID t, as_CampaignID = pt_CampaignID t, as_NodeID = bestID,
                           as_StartAt = bestStart, as_EndAt = tend, as_CadenceGoalMin = pt_CadenceGoalMin t,
                           as_Priority = pt_Priority t, as_RA = pt_RA t, as_Dec = pt_Dec t\<rparr>;
                         next = tend + plan_cadence t;
                         next = (if next < tend then tend else next)
                     in \<lparr>pl_nextFree = (pl_nextFree st)(bestID := next),
                         pl_out = pl_out st @ [slot],
                         pl_nodeIdx = pl_nodeIdx st + 1\<rparr>)))"

definition BuildAgenda ::
  "((plan_task \<Rightarrow> plan_task \<Rightarrow> bool) \<Rightarrow> plan_task list \<Rightarrow> plan_task list) \<Rightarrow> plan_task list \<Rightarrow> string list
   \<Rightarrow> gotime \<Rightarrow> agenda_slot list" where
  "BuildAgenda srt tasks nodes now =
     (if tasks = [] \<or> nodes = [] then []
      else pl_out (foldl (plan_task_step nodes now)
             \<lparr>pl_nextFree = (\<lambda>n. if n \<in> set nodes then now else zero_time), pl_out = [], pl_nodeIdx = 0\<rparr>
             (srt plan_less tasks)))"

definition GroupAgendaByNode ::
  "((agenda_slot \<Rightarrow> agenda_slot \<Rightarrow> bool) \<Rightarrow> agenda_slot list \<Rightarrow> agenda_slot list) \<Rightarrow> agenda_slot list
   \<Rightarrow> string \<Rightarrow> agenda_slot list option" where
  "GroupAgendaByNode srt slots n =
     (let own = filter (\<lambda>s. as_NodeID s = n) slots in
      if own = [] then None else Some (srt (\<lambda>a b. as_StartAt a < as_StartAt b) own))"

text \<open>\<open>parse\<close> is \<open>time.Parse\<close> in RFC 3339, first without and then with fractional seconds.\<close>

definition parse_bound :: "(string \<Rightarrow> gotime option) \<Rightarrow> (string \<Rightarrow> gotime option) \<Rightarrow> string option \<Rightarrow> gotime" where
  "parse_bound parse parse_nano s =
     (case s of None \<Rightarrow> zero_time
      | Some str \<Rightarrow>
          if str = [] then zero_time
          else (case parse str of Some t \<Rightarrow> t
            | None \<Rightarrow> (case parse_nano str of Some t \<Rightarrow> t | None \<Rightarrow> zero_time)))"

definition ParseWindow ::
  "(string \<Rightarrow> gotime option) \<Rightarrow> (string \<Rightarrow> gotime option) \<Rightarrow> string option \<Rightarrow> string option \<Rightarrow> gotime \<Rightarrow> gotime \<times> gotime" where
  "ParseWindow parse parse_nano start tend now =
     (let ws = parse_bound parse parse_nano start; we = parse_bound parse parse_nano tend;
          ws = (if is_zero_time ws then now else ws);
          we = (if is_zero_time we then ws + PlanHorizonDefault else we)
      in (ws, we))"

section \<open>Lemmas\<close>

lemma earliest_start_ge:
  "nf n \<le> earliest_start nf ws now n" "ws \<le> earliest_start nf ws now n" "now \<le> earliest_start nf ws now n"
  by (auto simp: earliest_start_def Let_def)

lemma pick_slot_spec:
  assumes "pick_slot nf ws we now dur best cands = (b, st)"
  shows "(b, st) = best \<or> (b \<in> set cands \<and> st = earliest_start nf ws now b \<and> st + dur \<le> we)"
  using assms
proof (induction nf ws we now dur best cands rule: pick_slot.induct)
  case (2 nf ws we now dur best n ns)
  from "2.IH" [OF refl] "2.prems" show ?case by (auto simp: Let_def split: if_splits)
qed simp

lemma set_rotation:
  assumes "xs \<noteq> []"
  shows "set (map (\<lambda>i. xs ! ((k + i) mod length xs)) [0..<length xs]) \<subseteq> set xs"
  using assms by auto

lemma plan_candidates_subset: "set (plan_candidates nodes t) \<subseteq> set nodes"
  by (auto simp: plan_candidates_def Let_def)

lemma plan_candidates_nonempty: "nodes \<noteq> [] \<Longrightarrow> plan_candidates nodes t \<noteq> []"
  by (simp add: plan_candidates_def Let_def)

text \<open>What a slot owes to the task it schedules.\<close>

definition slot_for :: "string list \<Rightarrow> gotime \<Rightarrow> plan_task \<Rightarrow> agenda_slot \<Rightarrow> bool" where
  "slot_for nodes now t s \<longleftrightarrow> as_TaskID s = pt_TaskID t \<and> as_NodeID s \<in> set (plan_candidates nodes t) \<and>
     as_NodeID s \<noteq> [] \<and> now \<le> as_StartAt s \<and> fst (plan_window now t) \<le> as_StartAt s \<and>
     as_EndAt s \<le> snd (plan_window now t) \<and> as_EndAt s = as_StartAt s + slot_duration t"

definition plan_inv :: "string list \<Rightarrow> gotime \<Rightarrow> plan_task list \<Rightarrow> plan_state \<Rightarrow> bool" where
  "plan_inv nodes now ts st \<longleftrightarrow>
     (\<forall>s \<in> set (pl_out st). \<exists>t \<in> set ts. slot_for nodes now t s) \<and>
     (\<forall>s \<in> set (pl_out st). as_EndAt s \<le> pl_nextFree st (as_NodeID s)) \<and>
     sorted_wrt (\<lambda>s s'. as_NodeID s = as_NodeID s' \<longrightarrow> as_EndAt s \<le> as_StartAt s') (pl_out st) \<and>
     subseq (map as_TaskID (pl_out st)) (map pt_TaskID ts)"

text \<open>One planner step either leaves the state alone or appends one slot for the task.\<close>

lemma plan_step_cases:
  assumes "nodes \<noteq> []"
  obtains "plan_task_step nodes now st t = st"
  | slot nx where "plan_task_step nodes now st t =
        \<lparr>pl_nextFree = (pl_nextFree st)(as_NodeID slot := nx), pl_out = pl_out st @ [slot],
         pl_nodeIdx = pl_nodeIdx st + 1\<rparr>"
      "slot_for nodes now t slot" "pl_nextFree st (as_NodeID slot) \<le> as_StartAt slot" "as_EndAt slot \<le> nx"
proof -
  obtain ws we where w: "plan_window now t = (ws, we)" by fastforce
  define cands where "cands = plan_candidates nodes t"
  define order where "order = map (\<lambda>i. cands ! ((pl_nodeIdx st + i) mod length cands)) [0..<length cands]"
  obtain b start where p: "pick_slot (pl_nextFree st) ws we now (slot_duration t) ([], zero_time) order = (b, start)"
    by fastforce
  have order: "set order \<subseteq> set (plan_candidates nodes t)"
    using set_rotation [of cands] plan_candidates_nonempty [OF assms] by (simp add: order_def cands_def)
  show thesis
  proof (cases "we < now \<or> b = []")
    case True
    then have "plan_task_step nodes now st t = st"
      using p by (auto simp: plan_task_step_def w Let_def order_def cands_def)
    then show thesis by (rule that(1))
  next
    case False
    then have b: "b \<in> set order" "start = earliest_start (pl_nextFree st) ws now b" "start + slot_duration t \<le> we"
      using pick_slot_spec [OF p] by auto
    define slot where "slot = \<lparr>as_TaskID = pt_TaskID t, as_CampaignID = pt_CampaignID t, as_NodeID = b,
        as_StartAt = start, as_EndAt = start + slot_duration t, as_CadenceGoalMin = pt_CadenceGoalMin t,
        as_Priority = pt_Priority t, as_RA = pt_RA t, as_Dec = pt_Dec t\<rparr>"
    define nx where "nx = (if start + slot_duration t + plan_cadence t < start + slot_duration t
        then start + slot_duration t else start + slot_duration t + plan_cadence t)"
    have "plan_task_step nodes now st t =
        \<lparr>pl_nextFree = (pl_nextFree st)(as_NodeID slot := nx), pl_out = pl_out st @ [slot],
         pl_nodeIdx = pl_nodeIdx st + 1\<rparr>"
      using False p by (simp add: plan_task_step_def w Let_def order_def cands_def slot_def nx_def)
    moreover have "slot_for nodes now t slot"
      using b order False earliest_start_ge [where nf = "pl_nextFree st" and n = b and ws = ws and now = now]
      by (auto simp: slot_for_def slot_def w)
    moreover have "pl_nextFree st (as_NodeID slot) \<le> as_StartAt slot" "as_EndAt slot \<le> nx"
      using b(2) earliest_start_ge(1) by (auto simp: slot_def nx_def)
    ultimately show thesis by (rule that(2))
  qed
qed

lemma subseq_distinct: "subseq xs ys \<Longrightarrow> distinct ys \<Longrightarrow> distinct xs"
  by (metis subseq_conv_nths distinct_nthsI)

lemma subseq_snoc: "subseq xs ys \<Longrightarrow> subseq xs (ys @ zs)"
  using list_emb_append_mono [of "(=)" xs ys "[]" zs] by simp

lemma plan_step_inv:
  assumes "plan_inv nodes now ts st" "nodes \<noteq> []" "0 \<le> slot_duration t"
  shows "plan_inv nodes now (ts @ [t]) (plan_task_step nodes now st t)"
proof (rule plan_step_cases [OF assms(2), of now st t])
  assume "plan_task_step nodes now st t = st"
  with assms(1) show ?thesis by (auto simp: plan_inv_def intro: subseq_snoc)
next
  fix slot nx
  assume e: "plan_task_step nodes now st t =
        \<lparr>pl_nextFree = (pl_nextFree st)(as_NodeID slot := nx), pl_out = pl_out st @ [slot],
         pl_nodeIdx = pl_nodeIdx st + 1\<rparr>"
    and s: "slot_for nodes now t slot" and nf: "pl_nextFree st (as_NodeID slot) \<le> as_StartAt slot"
      "as_EndAt slot \<le> nx"
  have "as_StartAt slot \<le> as_EndAt slot" using s assms(3) by (simp add: slot_for_def)
  then have "as_EndAt r \<le> nx" if "r \<in> set (pl_out st)" "as_NodeID r = as_NodeID slot" for r
    using that assms(1) nf unfolding plan_inv_def by fastforce
  moreover have "as_EndAt r \<le> as_StartAt slot" if "r \<in> set (pl_out st)" "as_NodeID r = as_NodeID slot" for r
    using that assms(1) nf unfolding plan_inv_def by fastforce
  moreover have "subseq (map as_TaskID (pl_out st @ [slot])) (map pt_TaskID (ts @ [t]))"
    using assms(1) s by (auto simp: plan_inv_def slot_for_def intro!: list_emb_append_mono)
  ultimately show ?thesis
    using assms(1) s nf by (auto simp: plan_inv_def e sorted_wrt_append)
qed

lemma plan_fold_inv:
  assumes "plan_inv nodes now ts st" "nodes \<noteq> []" "\<forall>t \<in> set us. 0 \<le> slot_duration t"
  shows "plan_inv nodes now (ts @ us) (foldl (plan_task_step nodes now) st us)"
  using assms
proof (induction us arbitrary: ts st)
  case (Cons u us)
  from Cons.IH [OF plan_step_inv [OF Cons.prems(1,2), of u]] Cons.prems show ?case by simp
qed simp

lemma plan_inv_init: "plan_inv nodes now [] \<lparr>pl_nextFree = nf, pl_out = [], pl_nodeIdx = 0\<rparr>"
  by (simp add: plan_inv_def)

text \<open>
  The comments of \<open>RemainingSec\<close> and \<open>ActiveRemainingSec\<close> promise zero before a slot starts and a
  sum over slots; the code returns the whole length of a future slot and a maximum.
\<close>

lemma RemainingSec_future: "now < as_StartAt s \<Longrightarrow> RemainingSec s now = Seconds (as_EndAt s - as_StartAt s)"
  by (simp add: RemainingSec_def)

section \<open>Properties\<close>

text \<open>A task takes the planned lane exactly when it has no emergency handoff, its season is continuous
  or sparse and its urgency is neither elevated nor critical, upper case and surrounding space aside;
  every other task, one without a season included, takes the interrupt lane.\<close>

theorem planned_lane_iff:
  "(ClassifyLane i = LanePlanned \<longleftrightarrow>
     \<not> si_EmergencyHandoff i \<and> ToLower (TrimSpace (si_Kind i)) \<in> {''continuous'', ''sparse''} \<and>
     ToLower (TrimSpace (si_Urgency i)) \<notin> {''elevated'', ''critical''}) \<and>
   ClassifyLane (FromPackSeason None) = LaneInterrupt"
  by (auto simp: ClassifyLane_def Let_def FromPackSeason_def no_season_def TrimSpace_def ToLower_def)

text \<open>C34: The planner's agenda is sound: each slot belongs to one of the tasks and lies in that task's
  window, not before now, lasts the task's integration time, and is on one of the task's candidate
  nodes; slots of the same node never overlap and come in order; no task gets two slots.\<close>

theorem agenda_sound:
  assumes "go_sort srt" and "\<forall>t \<in> set tasks. 0 \<le> slot_duration t" and "distinct (map pt_TaskID tasks)"
  shows "(\<forall>s \<in> set (BuildAgenda srt tasks nodes now). as_NodeID s \<in> set nodes \<and> (\<exists>t \<in> set tasks. slot_for nodes now t s))
    \<and> sorted_wrt (\<lambda>s s'. as_NodeID s = as_NodeID s' \<longrightarrow> as_EndAt s \<le> as_StartAt s') (BuildAgenda srt tasks nodes now)
    \<and> distinct (map as_TaskID (BuildAgenda srt tasks nodes now))"
proof (cases "tasks = [] \<or> nodes = []")
  case True
  then show ?thesis by (simp add: BuildAgenda_def)
next
  case False
  have st: "set (srt plan_less tasks) = set tasks" by (rule go_sort.set_srt [OF assms(1)])
  have di: "distinct (map pt_TaskID (srt plan_less tasks))"
    using assms(3) go_sort.distinct_map_srt [OF assms(1)] by metis
  have inv: "plan_inv nodes now (srt plan_less tasks) (foldl (plan_task_step nodes now)
      \<lparr>pl_nextFree = (\<lambda>n. if n \<in> set nodes then now else zero_time), pl_out = [], pl_nodeIdx = 0\<rparr>
      (srt plan_less tasks))"
    using plan_fold_inv [OF plan_inv_init, of nodes "srt plan_less tasks"] False assms(2) st by simp
  have e: "BuildAgenda srt tasks nodes now = pl_out (foldl (plan_task_step nodes now)
      \<lparr>pl_nextFree = (\<lambda>n. if n \<in> set nodes then now else zero_time), pl_out = [], pl_nodeIdx = 0\<rparr>
      (srt plan_less tasks))" using False by (simp add: BuildAgenda_def)
  have slots: "\<forall>s \<in> set (BuildAgenda srt tasks nodes now). \<exists>t \<in> set tasks. slot_for nodes now t s"
    using inv unfolding plan_inv_def e st by blast
  have "as_NodeID s \<in> set nodes" if "slot_for nodes now t s" for t s
    using that plan_candidates_subset unfolding slot_for_def by blast
  moreover have "distinct (map as_TaskID (BuildAgenda srt tasks nodes now))"
    using inv subseq_distinct [OF _ di] unfolding plan_inv_def e by blast
  moreover have "sorted_wrt (\<lambda>s s'. as_NodeID s = as_NodeID s' \<longrightarrow> as_EndAt s \<le> as_StartAt s')
      (BuildAgenda srt tasks nodes now)"
    using inv unfolding plan_inv_def e by blast
  ultimately show ?thesis using slots by blast
qed

definition demo_plan_task :: "int \<Rightarrow> plan_task" where
  "demo_plan_task k = \<lparr>pt_TaskID = k, pt_CampaignID = ''c'', pt_Priority = 50, pt_RA = None, pt_Dec = None,
     pt_IntegrationSec = Fin 0, pt_CadenceGoalMin = 5, pt_WindowStart = zero_time, pt_WindowEnd = zero_time,
     pt_PreferredNodes = []\<rparr>"

lemma demo_plan_sel [simp]:
  "pt_TaskID (demo_plan_task k) = k" "pt_Priority (demo_plan_task k) = 50" "pt_PreferredNodes (demo_plan_task k) = []"
  "pt_WindowStart (demo_plan_task k) = zero_time" "pt_WindowEnd (demo_plan_task k) = zero_time"
  "pt_CadenceGoalMin (demo_plan_task k) = 5" "pt_CampaignID (demo_plan_task k) = ''c''"
  "pt_RA (demo_plan_task k) = None" "pt_Dec (demo_plan_task k) = None"
  by (simp_all add: demo_plan_task_def)

lemma demo_plan_duration: "slot_duration (demo_plan_task k) = minute"
  by (simp add: slot_duration_def plan_integ_def demo_plan_task_def fle_def trunc_rat_def int64_ok_def)

theorem agenda_sound_witness:
  "distinct (map as_TaskID (BuildAgenda SliceStable [demo_plan_task 1, demo_plan_task 2] [''n1''] 0))
   \<and> BuildAgenda SliceStable [demo_plan_task 1, demo_plan_task 2] [''n1''] 0 \<noteq> []"
proof
  show "distinct (map as_TaskID (BuildAgenda SliceStable [demo_plan_task 1, demo_plan_task 2] [''n1''] 0))"
    by (rule agenda_sound [OF stable.go_sort_axioms, THEN conjunct2, THEN conjunct2])
      (simp_all add: demo_plan_duration)
  show "BuildAgenda SliceStable [demo_plan_task 1, demo_plan_task 2] [''n1''] 0 \<noteq> []"
  proof -
    define st0 where "st0 = \<lparr>pl_nextFree = (\<lambda>n. if n \<in> {''n1''} then 0 else zero_time), pl_out = [], pl_nodeIdx = 0\<rparr>"
    have sorted: "SliceStable plan_less [demo_plan_task 1, demo_plan_task 2] = [demo_plan_task 1, demo_plan_task 2]"
      by (simp add: SliceStable_def plan_less_def)
    have w: "plan_window 0 (demo_plan_task k) = (0, 6 * hour)" for k
      by (simp add: plan_window_def is_zero_time_def PlanHorizonDefault_def)
    have c: "plan_cadence (demo_plan_task k) = 5 * minute" for k
      by (simp add: plan_cadence_def wrap64_def)
    have "pl_out (foldl (plan_task_step [''n1''] 0) st0 [demo_plan_task 1, demo_plan_task 2]) \<noteq> []"
      by (simp add: plan_task_step_def st0_def w c demo_plan_duration plan_candidates_def earliest_start_def Let_def)
    then show ?thesis by (simp add: BuildAgenda_def sorted st0_def)
  qed
qed

end
