(* ===== verification/Selector.thy ===== *)
theory Selector
  imports Safety Lanes
begin

text \<open>
  Node selection (\<open>shared/selector.go\<close>, \<open>psf.go\<close>, \<open>scarcity.go\<close>, \<open>plan_preempt.go\<close>,
  \<open>lanes/roster.go\<close>): the gates a node passes before it may observe a task, the score of an idle
  node, the preemption rule, the best node and the standby roster.
\<close>

section \<open>Node data and constants\<close>

record node_eval =
  ne_NodeID :: string
  ne_Status :: string
  ne_Power :: f64
  ne_LimitingMagnitude :: "f64 option"
  ne_CurrentTaskID :: "int option"
  ne_CurrentTaskPriority :: "int option"
  ne_EstimatedStartupMS :: int
  ne_QualityTier :: string
  ne_ReliabilityScore :: f64
  ne_MountAltDeg :: "f64 option"
  ne_MountAzDeg :: "f64 option"
  ne_SiteLat :: "f64 option"
  ne_SiteLon :: "f64 option"
  ne_MountSlewRateDegS :: "f64 option"
  ne_AvailableFilters :: "string list"
  ne_IsEmulator :: bool
  ne_ObstructionMask :: obstruction_mask
  ne_MountLimits :: "mount_limits option"
  ne_HorizonProfile :: "horizon_profile option"
  ne_ApertureMM :: "f64 option"
  ne_FocalLengthMM :: "f64 option"
  ne_PixelSizeUM :: "f64 option"
  ne_FOVWidthArcmin :: "f64 option"
  ne_FOVHeightArcmin :: "f64 option"
  ne_MountType :: "int option"
  ne_MaxStableExposureS :: "f64 option"
  ne_SiteSeeingArcsec :: "f64 option"
  ne_IdleSinceMinutes :: "f64 option"
  ne_EnabledCampaignIDs :: "string list"
  ne_PlanRemainingSec :: "f64 option"

record selector_result =
  sr_NodeID :: string
  sr_SlewTimeMs :: int
  sr_IsIdle :: bool
  sr_IsNearby :: bool
  sr_Preempting :: bool
  sr_PrevTaskID :: "int option"
  sr_Score :: int
  sr_Reason :: string

definition FOVHeadroomFactor :: f64 where "FOVHeadroomFactor = flit (12 / 10)"
definition DiffractionLimitConstant :: f64 where "DiffractionLimitConstant = Fin 116"
definition IdleSaturationMinutes :: f64 where "IdleSaturationMinutes = Fin 45"
definition ScarcityPenaltyStrength :: f64 where "ScarcityPenaltyStrength = flit (3 / 2)"
definition CohortCosineBonusWeight :: f64 where "CohortCosineBonusWeight = Fin 500"

section \<open>Optics, scarcity and preemption cost\<close>

definition DiffractionLimitArcsec :: "f64 \<Rightarrow> f64" where
  "DiffractionLimitArcsec apertureMM =
     (if fle apertureMM (Fin 0) then Fin 0 else fdiv DiffractionLimitConstant apertureMM)"

definition PredictedPSFArcsec :: "f64 \<Rightarrow> f64 \<Rightarrow> f64" where
  "PredictedPSFArcsec apertureMM siteSeeingArcsec =
     (let d = DiffractionLimitArcsec apertureMM in if flt d siteSeeingArcsec then siteSeeingArcsec else d)"

definition PlateScaleArcsecPerPx :: "f64 \<Rightarrow> f64 \<Rightarrow> f64" where
  "PlateScaleArcsecPerPx focalLengthMM pixelSizeUM =
     (if fle focalLengthMM (Fin 0) then Fin 0
      else fdiv (fmul (flit (206265 / 1000)) pixelSizeUM) focalLengthMM)"

definition IdleBonus :: "f64 \<Rightarrow> f64" where
  "IdleBonus idleMinutes =
     (if fle idleMinutes (Fin 0) then Fin 0
      else (let b = fdiv idleMinutes IdleSaturationMinutes in if flt (Fin 1) b then Fin 1 else b))"

definition ScarcityScore :: "int \<Rightarrow> f64" where
  "ScarcityScore substitutesIdle = fdiv (Fin 1) (i2f (1 + substitutesIdle))"

definition EffectivePenalty :: "int \<Rightarrow> f64 \<Rightarrow> f64" where
  "EffectivePenalty substitutesIdle idleMinutes =
     fmul (ScarcityScore substitutesIdle) (fsub (Fin 1) (IdleBonus idleMinutes))"

definition ApplyFillerPenalty :: "int \<Rightarrow> int \<Rightarrow> f64 \<Rightarrow> int" where
  "ApplyFillerPenalty baseScore substitutesIdle idleMinutes =
     (let penalty = EffectivePenalty substitutesIdle idleMinutes
      in f2i (fmul (i2f baseScore) (fadd (Fin 1) (fmul penalty ScarcityPenaltyStrength))))"

definition PlanPreemptCostMs :: "f64 \<Rightarrow> int" where
  "PlanPreemptCostMs remainingSec =
     (if fle remainingSec (Fin 0) then 0 else f2i (fmul remainingSec (Fin 1000)))"

definition EffectivePreemptThreshold :: "int \<Rightarrow> f64 \<Rightarrow> int" where
  "EffectivePreemptThreshold baseThreshold remainingSec =
     (let base = (if baseThreshold < 0 then 0 else baseThreshold) in
      if fle remainingSec (Fin 0) then base
      else (let extra = f2i (fdiv remainingSec (Fin 60)) in wrap64 (base + extra)))"

definition MayPreempt :: "int \<Rightarrow> int \<Rightarrow> f64 \<Rightarrow> bool \<Rightarrow> bool" where
  "MayPreempt priorityDiff baseThreshold remainingSec nearby =
     (if priorityDiff \<le> 0 then False
      else if nearby then
        (let need = (if flt (Fin 0) remainingSec then wrap64 (1 + f2i (fdiv remainingSec (Fin 120))) else 1)
         in need \<le> priorityDiff)
      else EffectivePreemptThreshold baseThreshold remainingSec \<le> priorityDiff)"

section \<open>Slew and score\<close>

record slew_info =
  sl_slewMs :: int
  sl_canSlew :: bool
  sl_isNearby :: bool

definition no_slew :: slew_info where
  "no_slew = \<lparr>sl_slewMs = 0, sl_canSlew = False, sl_isNearby = False\<rparr>"

definition nodeTelescopeSafety :: "node_eval \<Rightarrow> telescope_safety" where
  "nodeTelescopeSafety n =
     \<lparr>ts_ObstructionMask = ne_ObstructionMask n, ts_MountLimits = ne_MountLimits n,
      ts_HorizonProfile = ne_HorizonProfile n, ts_SiteLat = ne_SiteLat n, ts_SiteLon = ne_SiteLon n,
      ts_MountAltDeg = ne_MountAltDeg n, ts_MountAzDeg = ne_MountAzDeg n\<rparr>"

definition computeNodeSlew :: "mathlib \<Rightarrow> node_eval \<Rightarrow> task_requirements \<Rightarrow> int \<Rightarrow> gotime \<Rightarrow> slew_info" where
  "computeNodeSlew M n req slewNearbyMs now =
     (case (tr_RA req, tr_Dec req, ne_SiteLat n, ne_SiteLon n) of
        (Some ra, Some dec, Some lat, Some lon) \<Rightarrow>
          (let (targetAlt, targetAz) = ComputeTargetAltAz M ra dec lat lon now in
           case (ne_MountAltDeg n, ne_MountAzDeg n, ne_MountSlewRateDegS n) of
             (Some malt, Some maz, Some rate) \<Rightarrow>
               if fle rate (Fin 0) then no_slew
               else (let slewMs = EstimateSlewTimeMs M malt maz targetAlt targetAz (Some rate);
                         isNearby = (0 < slewNearbyMs \<and> 0 < slewMs \<and> slewMs < slewNearbyMs)
                     in \<lparr>sl_slewMs = slewMs, sl_canSlew = True, sl_isNearby = isNearby\<rparr>)
           | _ \<Rightarrow> no_slew)
      | _ \<Rightarrow> no_slew)"

text \<open>The tier factor of a score: premium sites cost less, community sites more.\<close>

definition tier_score :: "string \<Rightarrow> int \<Rightarrow> int" where
  "tier_score tier score =
     (if tier = ''premium'' then f2i (fmul (i2f score) (flit (7 / 10)))
      else if tier = ''community'' then f2i (fmul (i2f score) (flit (13 / 10)))
      else score)"

definition idleScore :: "node_eval \<Rightarrow> int \<Rightarrow> int" where
  "idleScore n slewMs =
     (let score = wrap64 (ne_EstimatedStartupMS n + slewMs);
          score = tier_score (ne_QualityTier n) score
      in f2i (fmul (i2f score) (fsub (Fin 2) (ne_ReliabilityScore n))))"

definition nodeIsIdle :: "node_eval \<Rightarrow> bool" where
  "nodeIsIdle n \<longleftrightarrow> ne_Status n = [] \<or> ne_Status n = ''idle'' \<or> ne_Status n = ''online''"

definition idleSelectorResult :: "node_eval \<Rightarrow> slew_info \<Rightarrow> string \<Rightarrow> selector_result" where
  "idleSelectorResult n slew reason =
     \<lparr>sr_NodeID = ne_NodeID n, sr_SlewTimeMs = sl_slewMs slew, sr_IsIdle = True,
      sr_IsNearby = sl_isNearby slew, sr_Preempting = False, sr_PrevTaskID = None,
      sr_Score = idleScore n (sl_slewMs slew), sr_Reason = reason\<rparr>"

definition preemptionSelectorResult :: "node_eval \<Rightarrow> slew_info \<Rightarrow> int \<Rightarrow> int \<Rightarrow> selector_result option" where
  "preemptionSelectorResult n slew taskPriority preemptThreshold =
     (case ne_CurrentTaskPriority n of
        None \<Rightarrow> Some (idleSelectorResult n slew ''idle-ish (no current task)'')
      | Some cur \<Rightarrow>
          (let priorityDiff = wrap64 (cur - taskPriority);
               planRem = (case ne_PlanRemainingSec n of None \<Rightarrow> Fin 0 | Some p \<Rightarrow> p);
               planCost = PlanPreemptCostMs planRem
           in if sl_isNearby slew then
                (if \<not> MayPreempt priorityDiff preemptThreshold planRem True then None
                 else Some \<lparr>sr_NodeID = ne_NodeID n, sr_SlewTimeMs = sl_slewMs slew, sr_IsIdle = False,
                   sr_IsNearby = True, sr_Preempting = True, sr_PrevTaskID = ne_CurrentTaskID n,
                   sr_Score = wrap64 (sl_slewMs slew + planCost), sr_Reason = ''nearby_preempt''\<rparr>)
              else if \<not> MayPreempt priorityDiff preemptThreshold planRem False then None
              else Some \<lparr>sr_NodeID = ne_NodeID n, sr_SlewTimeMs = sl_slewMs slew, sr_IsIdle = False,
                   sr_IsNearby = False, sr_Preempting = True, sr_PrevTaskID = ne_CurrentTaskID n,
                   sr_Score = tier_score (ne_QualityTier n)
                     (wrap64 (sl_slewMs slew + ne_EstimatedStartupMS n + planCost)),
                   sr_Reason = ''priority_preempt''\<rparr>))"

section \<open>Gates\<close>

definition nodeHasFilters :: "string list \<Rightarrow> string list \<Rightarrow> bool" where
  "nodeHasFilters available required =
     (if required = [] then True
      else if available = [] then False
      else list_all (\<lambda>r. r \<in> set available) required)"

text \<open>\<open>opt_lt a b\<close>: both are known and the first is below the second.\<close>

definition opt_lt :: "f64 option \<Rightarrow> f64 option \<Rightarrow> bool" where
  "opt_lt a b = (case (a, b) of (Some x, Some y) \<Rightarrow> flt x y | _ \<Rightarrow> False)"

definition passesNodeGates :: "mathlib \<Rightarrow> node_eval \<Rightarrow> task_requirements \<Rightarrow> gotime \<Rightarrow> bool" where
  "passesNodeGates M n req now =
     (if ne_IsEmulator n \<noteq> tr_AllowEmulator req then False
      else if ne_Status n = ''offline'' \<or> ne_Status n = ''error'' then False
      else if \<not> nodeHasFilters (ne_AvailableFilters n) (tr_RequiredFilters req) then False
      else if opt_lt (Some (ne_Power n)) (tr_MinPower req) then False
      else if (case tr_TargetMagnitude req of None \<Rightarrow> False
               | Some tm \<Rightarrow> (case ne_LimitingMagnitude n of None \<Rightarrow> True | Some lm \<Rightarrow> flt lm tm)) then False
      else if (case (tr_RA req, tr_Dec req) of
                 (Some ra, Some dec) \<Rightarrow>
                   if ne_SiteLat n = None \<or> ne_SiteLon n = None then True
                   else \<not> PassesAltAzSafety M ra dec (tr_MinAltitudeDeg req) (nodeTelescopeSafety n) now
               | _ \<Rightarrow> False) then False
      else if opt_lt (ne_ApertureMM n) (tr_MinApertureMM req) then False
      else if opt_lt (ne_MaxStableExposureS n) (tr_MinSubExposureS req) then False
      else if (case (ne_FocalLengthMM n, ne_PixelSizeUM n) of
                 (Some fl, Some px) \<Rightarrow>
                   (let ps = Some (PlateScaleArcsecPerPx fl px) in
                    opt_lt ps (tr_MinResolutionArcsec req) \<or> opt_lt (tr_MaxResolutionArcsec req) ps)
               | _ \<Rightarrow> False) then False
      else if (case (ne_ApertureMM n, ne_SiteSeeingArcsec n) of
                 (Some ap, Some seeing) \<Rightarrow>
                   (let predicted = Some (PredictedPSFArcsec ap seeing) in
                    opt_lt predicted (tr_MinPSFFWHMArcsec req) \<or> opt_lt (tr_MaxPSFFWHMArcsec req) predicted)
               | _ \<Rightarrow> False) then False
      else if opt_lt (ne_FOVWidthArcmin n)
                (map_option (\<lambda>w. fmul w FOVHeadroomFactor) (tr_RequiredFOVWidthArcmin req)) then False
      else if opt_lt (ne_FOVHeightArcmin n)
                (map_option (\<lambda>h. fmul h FOVHeadroomFactor) (tr_RequiredFOVHeightArcmin req)) then False
      else True)"

section \<open>Selection\<close>

definition idle_free :: "node_eval \<Rightarrow> bool" where
  "idle_free n \<longleftrightarrow> nodeIsIdle n \<and> ne_CurrentTaskID n = None"

definition SelectEligibleNodes ::
  "((selector_result \<Rightarrow> selector_result \<Rightarrow> bool) \<Rightarrow> selector_result list \<Rightarrow> selector_result list) \<Rightarrow> mathlib
   \<Rightarrow> node_eval list \<Rightarrow> task_requirements \<Rightarrow> gotime \<Rightarrow> int \<Rightarrow> selector_result list" where
  "SelectEligibleNodes srt M nodes req now limit =
     (let cands = map (\<lambda>n. idleSelectorResult n (computeNodeSlew M n req 0 now) ''idle'')
                    (filter (\<lambda>n. idle_free n \<and> passesNodeGates M n req now) nodes);
          out = srt (\<lambda>a b. sr_Score a < sr_Score b) cands
      in if 0 < limit \<and> limit < int (length out) then take (nat limit) out else out)"

text \<open>The candidate that a node offers to \<open>SelectBestNode\<close>.\<close>

definition node_candidate ::
  "mathlib \<Rightarrow> task_requirements \<Rightarrow> int \<Rightarrow> int \<Rightarrow> int \<Rightarrow> gotime \<Rightarrow> node_eval \<Rightarrow> selector_result option" where
  "node_candidate M req taskPriority preemptThreshold slewNearbyMs now n =
     (if \<not> passesNodeGates M n req now then None
      else (let slew = computeNodeSlew M n req slewNearbyMs now in
        if nodeIsIdle n \<and> ne_CurrentTaskID n = None then Some (idleSelectorResult n slew ''idle'')
        else if ne_CurrentTaskPriority n = None \<or> ne_Status n = ''busy'' \<or> ne_Status n = ''observing'' \<or>
                ne_Status n = ''uploading''
          then preemptionSelectorResult n slew taskPriority preemptThreshold
        else None))"

definition better :: "selector_result option \<Rightarrow> selector_result option \<Rightarrow> selector_result option" where
  "better best cand =
     (case cand of None \<Rightarrow> best
      | Some c \<Rightarrow> (case best of None \<Rightarrow> Some c | Some b \<Rightarrow> if sr_Score c < sr_Score b then Some c else Some b))"

definition SelectBestNode ::
  "mathlib \<Rightarrow> node_eval list \<Rightarrow> task_requirements \<Rightarrow> int \<Rightarrow> int \<Rightarrow> int \<Rightarrow> gotime \<Rightarrow> selector_result option" where
  "SelectBestNode M nodes req taskPriority preemptThreshold slewNearbyMs now =
     foldl (\<lambda>best n. better best (node_candidate M req taskPriority preemptThreshold slewNearbyMs now n)) None nodes"

definition FilterPreferredNodesMode :: "node_eval list \<Rightarrow> string list \<Rightarrow> bool \<Rightarrow> node_eval list" where
  "FilterPreferredNodesMode nodes preferred failOpen =
     (if preferred = [] \<or> nodes = [] then nodes
      else (let ids = filter (\<lambda>id. id \<noteq> []) preferred in
        if ids = [] then nodes
        else (let out = filter (\<lambda>n. ne_NodeID n \<in> set ids) nodes in
          if out = [] then (if failOpen then nodes else []) else out)))"

definition FilterPreferredNodes :: "node_eval list \<Rightarrow> string list \<Rightarrow> node_eval list" where
  "FilterPreferredNodes nodes preferred = FilterPreferredNodesMode nodes preferred True"

section \<open>The standby roster\<close>

record standby_entry =
  sb_NodeID :: string
  sb_Score :: int

definition DefaultStandbyLimit :: int where "DefaultStandbyLimit = 16"

definition standby_less :: "standby_entry \<Rightarrow> standby_entry \<Rightarrow> bool" where
  "standby_less a b =
     (if sb_Score a \<noteq> sb_Score b then sb_Score a < sb_Score b else string_less (sb_NodeID a) (sb_NodeID b))"

definition RankStandby ::
  "((standby_entry \<Rightarrow> standby_entry \<Rightarrow> bool) \<Rightarrow> standby_entry list \<Rightarrow> standby_entry list) \<Rightarrow> string list
   \<Rightarrow> (string \<Rightarrow> int option) \<Rightarrow> int \<Rightarrow> standby_entry list" where
  "RankStandby srt nodeIDs scoreFn limit =
     (let out = srt standby_less (List.map_filter
            (\<lambda>id. map_option (\<lambda>sc. \<lparr>sb_NodeID = id, sb_Score = sc\<rparr>) (scoreFn id)) nodeIDs)
      in if 0 < limit \<and> limit < int (length out) then take (nat limit) out else out)"

definition BuildStandbyFromEligible :: "selector_result list \<Rightarrow> int \<Rightarrow> standby_entry list" where
  "BuildStandbyFromEligible eligible limit =
     (let out = map (\<lambda>e. \<lparr>sb_NodeID = sr_NodeID e, sb_Score = sr_Score e\<rparr>) eligible
      in if 0 < limit \<and> limit < int (length out) then take (nat limit) out else out)"

fun roster_order :: "string set \<Rightarrow> standby_entry list \<Rightarrow> string list" where
  "roster_order seen [] = []"
| "roster_order seen (e # es) =
     (if sb_NodeID e = [] \<or> sb_NodeID e \<in> seen then roster_order seen es
      else sb_NodeID e # roster_order (insert (sb_NodeID e) seen) es)"

text \<open>\<open>byID\<close> of the source: the last node with an id wins.\<close>

definition node_by_last_id :: "node_eval list \<Rightarrow> string \<Rightarrow> node_eval option" where
  "node_by_last_id nodes nid = List.find (\<lambda>n. ne_NodeID n = nid) (rev nodes)"

definition PreferRoster :: "node_eval list \<Rightarrow> standby_entry list \<Rightarrow> node_eval list" where
  "PreferRoster nodes roster =
     (if roster = [] \<or> nodes = [] then nodes
      else (let order = roster_order {} roster in
        if order = [] then nodes
        else (let out = List.map_filter (node_by_last_id nodes) order in if out = [] then nodes else out)))"

section \<open>Lemmas\<close>

lemma nodeHasFilters_iff: "nodeHasFilters av req \<longleftrightarrow> set req \<subseteq> set av"
  by (auto simp: nodeHasFilters_def list_all_iff)

lemma passesNodeGates_safe:
  assumes "passesNodeGates M n req now"
  shows "ne_IsEmulator n = tr_AllowEmulator req" "ne_Status n \<noteq> ''offline''" "ne_Status n \<noteq> ''error''"
    "set (tr_RequiredFilters req) \<subseteq> set (ne_AvailableFilters n)"
    "tr_RA req = Some ra \<Longrightarrow> tr_Dec req = Some dec \<Longrightarrow>
       PassesAltAzSafety M ra dec (tr_MinAltitudeDeg req) (nodeTelescopeSafety n) now"
  using assms unfolding passesNodeGates_def nodeHasFilters_iff by (simp_all split: if_splits)

lemma node_candidate_gates: "node_candidate M req p th nb now n = Some c \<Longrightarrow> passesNodeGates M n req now"
  by (simp add: node_candidate_def split: if_splits)

lemma node_candidate_id: "node_candidate M req p th nb now n = Some c \<Longrightarrow> sr_NodeID c = ne_NodeID n"
  by (auto simp: node_candidate_def Let_def preemptionSelectorResult_def idleSelectorResult_def
      split: if_splits option.splits)

lemma node_candidate_preempt:
  assumes "node_candidate M req p th nb now n = Some c" "sr_Preempting c"
  obtains cur where "ne_CurrentTaskPriority n = Some cur" "sr_PrevTaskID c = ne_CurrentTaskID n"
    "MayPreempt (wrap64 (cur - p)) th (case ne_PlanRemainingSec n of None \<Rightarrow> Fin 0 | Some r \<Rightarrow> r) (sr_IsNearby c)"
  using assms
  by (auto simp: node_candidate_def Let_def preemptionSelectorResult_def idleSelectorResult_def
      split: if_splits option.splits)

lemma MayPreempt_pos: "MayPreempt d th rem nearby \<Longrightarrow> 0 < d"
  by (simp add: MayPreempt_def split: if_splits)

lemma MayPreempt_threshold:
  "MayPreempt d th (Fin 0) False \<Longrightarrow> th \<le> d"
  by (auto simp: MayPreempt_def EffectivePreemptThreshold_def split: if_splits)

text \<open>The fold of \<open>better\<close> keeps the first candidate of least score.\<close>

lemma foldl_better_None: "foldl (\<lambda>b n. better b (f n)) best ns = None \<longleftrightarrow> best = None \<and> (\<forall>n \<in> set ns. f n = None)"
  by (induction ns arbitrary: best) (auto simp: better_def split: option.splits)

lemma foldl_better_Some:
  assumes "foldl (\<lambda>b n. better b (f n)) best ns = Some r"
  shows "(best = Some r \<or> (\<exists>n \<in> set ns. f n = Some r)) \<and>
    (\<forall>b. best = Some b \<longrightarrow> sr_Score r \<le> sr_Score b) \<and> (\<forall>n \<in> set ns. \<forall>c. f n = Some c \<longrightarrow> sr_Score r \<le> sr_Score c)"
  using assms
proof (induction ns arbitrary: best)
  case (Cons n ns)
  from Cons.IH [of "better best (f n)"] Cons.prems show ?case
    by (cases "f n"; cases best) (auto simp: better_def split: if_splits)
qed simp

lemma trunc_div_bounds:
  assumes "0 \<le> r" "r \<le> 2 ^ 52" "1 \<le> k"
  obtains v where "fround (r / k) = Fin v" "0 \<le> v" "v \<le> 2 ^ 52" "f2i (Fin v) = trunc_rat v"
    "0 \<le> trunc_rat v" "trunc_rat v \<le> 2 ^ 52"
proof -
  have "fround (2 ^ 52) = Fin (2 ^ 52)" using fround_of_int [of "2 ^ 52"] by simp
  moreover have "r / k \<le> 2 ^ 52" using assms by (simp add: divide_le_eq)
  ultimately obtain v where v: "fround (r / k) = Fin v" "0 \<le> v" "v \<le> 2 ^ 52"
    using fround_between [of 0 "2 ^ 52" "r / k"] assms by auto
  have t: "0 \<le> trunc_rat v" "trunc_rat v \<le> 2 ^ 52"
    using v trunc_rat_mono [of 0 v] trunc_rat_mono [of v "2 ^ 52"] trunc_rat_of_int [of "2 ^ 52"]
    by (auto simp: trunc_rat_def)
  then have "f2i (Fin v) = trunc_rat v" by (simp add: int64_ok_def)
  with v t that show thesis by blast
qed

lemma f2i_fdiv_mono:
  assumes "0 \<le> r" "r \<le> s" "s \<le> 2 ^ 52" "1 \<le> k"
  shows "f2i (fdiv (Fin r) (Fin k)) \<le> f2i (fdiv (Fin s) (Fin k))" "0 \<le> f2i (fdiv (Fin r) (Fin k))"
    "f2i (fdiv (Fin s) (Fin k)) \<le> 2 ^ 52"
proof -
  obtain u where u: "fround (r / k) = Fin u" "f2i (Fin u) = trunc_rat u" "0 \<le> trunc_rat u"
    using trunc_div_bounds [of r k] assms by (metis order_trans)
  obtain v where v: "fround (s / k) = Fin v" "f2i (Fin v) = trunc_rat v" "trunc_rat v \<le> 2 ^ 52"
    using trunc_div_bounds [of s k] assms by (metis order_trans)
  have "r / k \<le> s / k" using assms by (simp add: divide_right_mono)
  from fround_mono [OF this] u v have "u \<le> v" by simp
  with u v assms show "f2i (fdiv (Fin r) (Fin k)) \<le> f2i (fdiv (Fin s) (Fin k))"
    "0 \<le> f2i (fdiv (Fin r) (Fin k))" "f2i (fdiv (Fin s) (Fin k)) \<le> 2 ^ 52"
    by (simp_all add: trunc_rat_mono del: f2i.simps)
qed

section \<open>Properties\<close>

text \<open>C32: The selected node is the candidate with the least score: it passes every gate (never offline,
  the requested filters present, the pointing gate passed when the task has a target), no other
  node's candidate scores lower, and no node is selected only when no node has a candidate.\<close>

theorem best_node_optimal:
  "case SelectBestNode M nodes req p th nb now of
     None \<Rightarrow> \<forall>n \<in> set nodes. node_candidate M req p th nb now n = None
   | Some r \<Rightarrow> (\<exists>n \<in> set nodes. node_candidate M req p th nb now n = Some r \<and> sr_NodeID r = ne_NodeID n \<and>
         ne_Status n \<noteq> ''offline'' \<and> set (tr_RequiredFilters req) \<subseteq> set (ne_AvailableFilters n) \<and>
         (\<forall>ra dec. tr_RA req = Some ra \<longrightarrow> tr_Dec req = Some dec \<longrightarrow>
            PassesAltAzSafety M ra dec (tr_MinAltitudeDeg req) (nodeTelescopeSafety n) now)) \<and>
       (\<forall>n \<in> set nodes. \<forall>c. node_candidate M req p th nb now n = Some c \<longrightarrow> sr_Score r \<le> sr_Score c)"
proof (cases "SelectBestNode M nodes req p th nb now")
  case None
  then have "\<forall>n \<in> set nodes. node_candidate M req p th nb now n = None"
    by (simp add: SelectBestNode_def foldl_better_None)
  with None show ?thesis by simp
next
  case (Some r)
  note opt = foldl_better_Some [OF Some [unfolded SelectBestNode_def]]
  then obtain n where n: "n \<in> set nodes" "node_candidate M req p th nb now n = Some r" by auto
  from passesNodeGates_safe [OF node_candidate_gates [OF n(2)]] node_candidate_id [OF n(2)] n opt Some
  show ?thesis by auto
qed

definition demo_node :: node_eval where
  "demo_node = \<lparr>ne_NodeID = ''n1'', ne_Status = ''idle'', ne_Power = Fin 1, ne_LimitingMagnitude = None,
     ne_CurrentTaskID = None, ne_CurrentTaskPriority = None, ne_EstimatedStartupMS = 100, ne_QualityTier = [],
     ne_ReliabilityScore = Fin 1, ne_MountAltDeg = None, ne_MountAzDeg = None, ne_SiteLat = None,
     ne_SiteLon = None, ne_MountSlewRateDegS = None, ne_AvailableFilters = [''L''], ne_IsEmulator = False,
     ne_ObstructionMask = [], ne_MountLimits = None, ne_HorizonProfile = None, ne_ApertureMM = None,
     ne_FocalLengthMM = None, ne_PixelSizeUM = None, ne_FOVWidthArcmin = None, ne_FOVHeightArcmin = None,
     ne_MountType = None, ne_MaxStableExposureS = None, ne_SiteSeeingArcsec = None, ne_IdleSinceMinutes = None,
     ne_EnabledCampaignIDs = [], ne_PlanRemainingSec = None\<rparr>"

definition demo_req :: task_requirements where
  "demo_req = \<lparr>tr_RA = None, tr_Dec = None, tr_MinAltitudeDeg = None, tr_MinPower = None,
     tr_TargetMagnitude = None, tr_RequiredFilters = [''L''], tr_AllowEmulator = False, tr_MinApertureMM = None,
     tr_MinSubExposureS = None, tr_MinResolutionArcsec = None, tr_MaxResolutionArcsec = None,
     tr_MinPSFFWHMArcsec = None, tr_MaxPSFFWHMArcsec = None, tr_RequiredFOVWidthArcmin = None,
     tr_RequiredFOVHeightArcmin = None, tr_ScienceBand = [], tr_CampaignID = [], tr_PreferredNodeIDs = [],
     tr_PreferredFailOpen = True\<rparr>"

lemma demo_node_gates: "passesNodeGates M demo_node demo_req now"
  by (simp add: passesNodeGates_def demo_node_def demo_req_def nodeHasFilters_def opt_lt_def)

theorem best_node_optimal_witness:
  "\<exists>r. SelectBestNode demo_math [demo_node] demo_req 50 10 0 0 = Some r \<and> sr_NodeID r = ''n1'' \<and> sr_IsIdle r"
proof -
  have c: "node_candidate demo_math demo_req 50 10 0 0 demo_node =
      Some (idleSelectorResult demo_node (computeNodeSlew demo_math demo_node demo_req 0 0) ''idle'')"
    by (simp add: node_candidate_def demo_node_gates) (simp add: demo_node_def nodeIsIdle_def)
  show ?thesis
    using best_node_optimal [where M = demo_math and nodes = "[demo_node]" and req = demo_req and p = 50 and th = 10
        and nb = 0 and now = 0] c
    by (auto simp: SelectBestNode_def better_def) (simp_all add: idleSelectorResult_def demo_node_def)
qed

text \<open>Preemption is guarded: a selected node that would be preempted runs a task whose priority
  number is higher (less urgent) than the new task's, by at least the threshold when the node is
  not nearby and has no planned work left, and the victim reported is the node's current task.\<close>

theorem preemption_guarded:
  assumes "SelectBestNode M nodes req p th nb now = Some r" "sr_Preempting r"
    and "\<forall>n \<in> set nodes. \<forall>cur. ne_CurrentTaskPriority n = Some cur \<longrightarrow> int64_ok (cur - p)"
  shows "\<exists>n \<in> set nodes. \<exists>cur. sr_NodeID r = ne_NodeID n \<and> ne_CurrentTaskPriority n = Some cur \<and> p < cur \<and>
    sr_PrevTaskID r = ne_CurrentTaskID n \<and>
    (ne_PlanRemainingSec n = None \<longrightarrow> \<not> sr_IsNearby r \<longrightarrow> th \<le> cur - p)"
proof -
  from foldl_better_Some [OF assms(1) [unfolded SelectBestNode_def]]
  obtain n where n: "n \<in> set nodes" "node_candidate M req p th nb now n = Some r" by auto
  obtain cur where cur: "ne_CurrentTaskPriority n = Some cur" "sr_PrevTaskID r = ne_CurrentTaskID n"
    "MayPreempt (wrap64 (cur - p)) th (case ne_PlanRemainingSec n of None \<Rightarrow> Fin 0 | Some r \<Rightarrow> r) (sr_IsNearby r)"
    using node_candidate_preempt [OF n(2) assms(2)] by blast
  have "wrap64 (cur - p) = cur - p" using assms(3) n(1) cur(1) by (intro wrap64_id) blast
  with cur n node_candidate_id [OF n(2)] MayPreempt_pos [OF cur(3)] show ?thesis
    by (intro bexI [of _ n] exI [of _ cur]) (auto dest: MayPreempt_threshold)
qed

definition demo_busy :: node_eval where
  "demo_busy = demo_node\<lparr>ne_Status := ''observing'', ne_CurrentTaskID := Some 7, ne_CurrentTaskPriority := Some 80\<rparr>"

theorem preemption_guarded_witness:
  "\<exists>r. SelectBestNode demo_math [demo_busy] demo_req 50 10 0 0 = Some r \<and> sr_Preempting r \<and> sr_PrevTaskID r = Some 7"
proof -
  have g: "passesNodeGates demo_math demo_busy demo_req 0"
    by (simp add: passesNodeGates_def demo_busy_def demo_node_def demo_req_def nodeHasFilters_def opt_lt_def)
  have s: "computeNodeSlew demo_math demo_busy demo_req 0 0 = no_slew"
    by (simp add: computeNodeSlew_def demo_req_def)
  have "\<exists>r. SelectBestNode demo_math [demo_busy] demo_req 50 10 0 0 = Some r \<and> sr_Preempting r"
    by (simp add: SelectBestNode_def node_candidate_def g s better_def)
      (simp add: demo_busy_def demo_node_def nodeIsIdle_def preemptionSelectorResult_def no_slew_def wrap64_def
        MayPreempt_def EffectivePreemptThreshold_def fle_def)
  then obtain r where r: "SelectBestNode demo_math [demo_busy] demo_req 50 10 0 0 = Some r" "sr_Preempting r" by blast
  from preemption_guarded [OF r] r show ?thesis
    by (auto simp: demo_busy_def demo_node_def int64_ok_def)
qed

text \<open>Planned work protects its node: with more planned time remaining on a node, preempting it never
  becomes easier, for a nearby node or a distant one.\<close>

theorem plan_protects:
  assumes "0 \<le> r" "r \<le> s" "s \<le> 2 ^ 52" "th \<le> 2 ^ 62" "MayPreempt d th (Fin s) nearby"
  shows "MayPreempt d th (Fin r) nearby"
proof -
  have d: "0 < d" using assms(5) by (rule MayPreempt_pos)
  have w: "wrap64 (b + f2i (fdiv (Fin x) (Fin k))) = b + f2i (fdiv (Fin x) (Fin k))"
    if "0 \<le> b" "b \<le> 2 ^ 62" "0 \<le> x" "x \<le> 2 ^ 52" "1 \<le> k" for b x k
    using f2i_fdiv_mono(2,3) [of x x k] that by (intro wrap64_id) (simp add: int64_ok_def)
  have s52: "r \<le> 2 ^ 52" "0 \<le> s" using assms by linarith+
  note m60 = f2i_fdiv_mono [OF assms(1-3), of 60]
  note m120 = f2i_fdiv_mono [OF assms(1-3), of 120]
  show ?thesis
  proof (cases nearby)
    case True
    have e: "MayPreempt d th (Fin x) True \<longleftrightarrow> (if 0 < x then 1 + f2i (fdiv (Fin x) (Fin 120)) else 1) \<le> d"
      if "0 \<le> x" "x \<le> 2 ^ 52" for x
      using d w [of 1 x 120] that by (simp add: MayPreempt_def del: f2i.simps fdiv.simps)
    show ?thesis using assms(5) True e [of r] e [of s] s52 assms m120 d
      by (simp split: if_splits del: f2i.simps fdiv.simps)
  next
    case False
    have e: "MayPreempt d th (Fin x) False \<longleftrightarrow> max 0 th + (if 0 < x then f2i (fdiv (Fin x) (Fin 60)) else 0) \<le> d"
      if "0 \<le> x" "x \<le> 2 ^ 52" for x
      using d w [of "max 0 th" x 60] that assms(4)
      by (auto simp: MayPreempt_def EffectivePreemptThreshold_def Let_def max_def simp del: f2i.simps fdiv.simps)
    show ?thesis using assms(5) False e [of r] e [of s] s52 assms m60 d
      by (simp split: if_splits del: f2i.simps fdiv.simps)
  qed
qed

theorem plan_protects_witness: "MayPreempt 30 10 (Fin 0) False"
proof -
  have f: "fround 10 = Fin 10" by simp
  have "MayPreempt 30 10 (Fin 600) False"
    by (simp add: MayPreempt_def EffectivePreemptThreshold_def trunc_rat_def wrap64_def int64_ok_def fle_def)
  from plan_protects [OF _ _ _ _ this, of 0] show ?thesis by simp
qed

end
