(* ===== verification/Cohort.thy ===== *)
theory Cohort
  imports Selector Handoff
begin

text \<open>
  Cohorts (\<open>shared/cohort/cohort.go\<close>, \<open>shared/cohort_fill.go\<close>): feature vectors of telescopes,
  their weighted similarity and per-dimension bands, the search for compatible telescopes, the
  cohort key, and the greedy fill of a cohort around an anchor.  A vector is a list of five values;
  SHA-256 and the sorting routine are arguments.
\<close>

section \<open>Vectors\<close>

type_synonym vector = "f64 list"

definition NDims :: nat where "NDims = 5"

definition DefaultWeights :: vector where
  "DefaultWeights = [flit (40 / 100), flit (20 / 100), flit (15 / 100), flit (10 / 100), flit (5 / 100)]"

definition PixelScaleMin :: f64 where "PixelScaleMin = flit (1 / 10)"
definition PixelScaleMax :: f64 where "PixelScaleMax = Fin 10"
definition FOVMin :: f64 where "FOVMin = flit (1 / 10)"
definition FOVMax :: f64 where "FOVMax = Fin 300"
definition SensitivityMax :: f64 where "SensitivityMax = Fin 1000000"

record telescope_spec =
  sp_ApertureMM :: f64
  sp_FocalLengthMM :: f64
  sp_PixelSizeUM :: f64
  sp_FOVWidthArcmin :: f64
  sp_FOVHeightArcmin :: f64
  sp_SeeingArcsec :: f64
  sp_MountType :: int
  sp_Filters :: "string list"

definition fclamp :: "f64 \<Rightarrow> f64 \<Rightarrow> f64 \<Rightarrow> f64" where
  "fclamp v lo hi = (if flt v lo then lo else if flt hi v then hi else v)"

definition ComputeVector :: "mathlib \<Rightarrow> telescope_spec \<Rightarrow> vector" where
  "ComputeVector M spec =
     (let pxScale = fmul (fdiv (sp_PixelSizeUM spec) (sp_FocalLengthMM spec)) (flit (206265 / 1000));
          pxScale = (if flt pxScale PixelScaleMin then PixelScaleMin else pxScale);
          v0 = fclamp (fdiv (fsub (m_Log M pxScale) (m_Log M PixelScaleMin))
                 (fsub (m_Log M PixelScaleMax) (m_Log M PixelScaleMin))) (Fin 0) (Fin 1);
          fovGeom = m_Sqrt M (fmul (sp_FOVWidthArcmin spec) (sp_FOVHeightArcmin spec));
          fovGeom = (if flt fovGeom FOVMin then FOVMin else fovGeom);
          v1 = fclamp (fdiv (fsub (m_Log M fovGeom) (m_Log M FOVMin))
                 (fsub (m_Log M FOVMax) (m_Log M FOVMin))) (Fin 0) (Fin 1);
          sensitivity = fdiv (fmul (sp_ApertureMM spec) (sp_ApertureMM spec)) (fmul pxScale pxScale);
          v2 = fclamp (fdiv sensitivity SensitivityMax) (Fin 0) (Fin 1);
          v3 = fclamp (fdiv (fsub (sp_SeeingArcsec spec) (flit (1 / 2))) (flit (9 / 2))) (Fin 0) (Fin 1);
          v4 = fclamp (i2f (sp_MountType spec)) (Fin 0) (Fin 1)
      in [v0, v1, v2, v3, v4])"

fun cosine_sums :: "vector \<Rightarrow> vector \<Rightarrow> vector \<Rightarrow> f64 \<times> f64 \<times> f64 \<Rightarrow> f64 \<times> f64 \<times> f64" where
  "cosine_sums (a # as) (b # bs) (w # ws) (dot, magA, magB) =
     (let wa = fmul a w; wb = fmul b w in
      cosine_sums as bs ws (fadd dot (fmul wa wb), fadd magA (fmul wa wa), fadd magB (fmul wb wb)))"
| "cosine_sums _ _ _ acc = acc"

definition WeightedCosine :: "mathlib \<Rightarrow> vector \<Rightarrow> vector \<Rightarrow> vector \<Rightarrow> f64" where
  "WeightedCosine M a b weights =
     (let (dot, magA, magB) = cosine_sums a b weights (Fin 0, Fin 0, Fin 0) in
      if feq magA (Fin 0) \<or> feq magB (Fin 0) then Fin 0
      else fdiv dot (fmul (m_Sqrt M magA) (m_Sqrt M magB)))"

definition JaccardFilterScore :: "string list \<Rightarrow> string list \<Rightarrow> f64" where
  "JaccardFilterScore a b =
     (if a = [] \<and> b = [] then Fin 1
      else (let inter = int (length (filter (\<lambda>f. f \<in> set a) b));
                union = int (length a) + int (length b) - inter
            in if union = 0 then Fin 0 else fdiv (i2f inter) (i2f union)))"

definition Compatibility :: "mathlib \<Rightarrow> vector \<Rightarrow> vector \<Rightarrow> string list \<Rightarrow> string list \<Rightarrow> vector \<Rightarrow> f64" where
  "Compatibility M aVec bVec aFilters bFilters weights =
     (let cosine = WeightedCosine M aVec bVec weights; filterScore = JaccardFilterScore aFilters bFilters
      in fadd (fmul (flit (90 / 100)) cosine) (fmul (flit (10 / 100)) filterScore))"

section \<open>Thresholds and bands\<close>

definition AdaptiveStep :: "int \<Rightarrow> f64" where
  "AdaptiveStep cohortSize =
     (if cohortSize < 3 then flit (- (5 / 100)) else if 8 < cohortSize then flit (5 / 100) else Fin 0)"

definition ClampThreshold :: "f64 \<Rightarrow> f64" where
  "ClampThreshold t =
     (if flt t (flit (1 / 2)) then flit (1 / 2) else if flt (flit (98 / 100)) t then flit (98 / 100) else t)"

definition DefaultBandWidths :: vector where
  "DefaultBandWidths = [flit (30 / 100), flit (1 / 2), flit (1 / 2), flit (30 / 100), Fin 0]"

definition BandProfiles :: "string \<Rightarrow> vector option" where
  "BandProfiles =
     [''planetary'' \<mapsto> [flit (15 / 100), flit (30 / 100), flit (40 / 100), flit (15 / 100), Fin 0],
      ''wide_field'' \<mapsto> [flit (1 / 2), flit (70 / 100), flit (60 / 100), flit (1 / 2), Fin 0]]"

definition BandWidthsFor :: "string \<Rightarrow> vector" where
  "BandWidthsFor scienceBand =
     (case BandProfiles scienceBand of Some w \<Rightarrow> w | None \<Rightarrow> DefaultBandWidths)"

text \<open>One dimension of \<open>PassesBands\<close>.\<close>

definition dim_passes :: "f64 \<Rightarrow> f64 \<Rightarrow> f64 \<Rightarrow> bool" where
  "dim_passes a c w =
     (if fle w (Fin 0) then feq a c else \<not> flt w (fabs (fsub c a)))"

fun PassesBands :: "vector \<Rightarrow> vector \<Rightarrow> vector \<Rightarrow> bool" where
  "PassesBands (a # as) (c # cs) (w # ws) = (if \<not> dim_passes a c w then False else PassesBands as cs ws)"
| "PassesBands _ _ _ = True"

definition adapt_width :: "f64 \<Rightarrow> f64 \<Rightarrow> f64" where
  "adapt_width step b =
     (if fle b (Fin 0) then b
      else (let w = fsub b step;
                w = (if flt w (flit (5 / 100)) then flit (5 / 100) else w)
            in if flt (flit (95 / 100)) w then flit (95 / 100) else w))"

definition AdaptiveBandWidth :: "vector \<Rightarrow> int \<Rightarrow> vector" where
  "AdaptiveBandWidth base cohortSize = (let step = AdaptiveStep cohortSize in map (adapt_width step) base)"

section \<open>Cohort search and key\<close>

record cohort_candidate =
  cc_TelescopeID :: string
  cc_Score :: f64

record telescope_entry =
  te_ID :: string
  te_Vector :: vector
  te_Filters :: "string list"
  te_Reliability :: f64

definition cohort_score :: "mathlib \<Rightarrow> vector \<Rightarrow> string list \<Rightarrow> vector \<Rightarrow> telescope_entry \<Rightarrow> f64" where
  "cohort_score M myVec myFilters weights other =
     fmul (Compatibility M myVec (te_Vector other) myFilters (te_Filters other) weights)
       (fadd (flit (1 / 2)) (fmul (te_Reliability other) (flit (1 / 2))))"

definition FindCohort ::
  "((cohort_candidate \<Rightarrow> cohort_candidate \<Rightarrow> bool) \<Rightarrow> cohort_candidate list \<Rightarrow> cohort_candidate list) \<Rightarrow> mathlib
   \<Rightarrow> string \<Rightarrow> vector \<Rightarrow> string list \<Rightarrow> telescope_entry list \<Rightarrow> f64 \<Rightarrow> vector \<Rightarrow> cohort_candidate list" where
  "FindCohort srt M myID myVec myFilters allTelescopes threshold weights =
     srt (\<lambda>a b. flt (cc_Score b) (cc_Score a))
       (map (\<lambda>o'. \<lparr>cc_TelescopeID = te_ID o', cc_Score = cohort_score M myVec myFilters weights o'\<rparr>)
         (filter (\<lambda>o'. te_ID o' \<noteq> myID \<and> fle threshold (cohort_score M myVec myFilters weights o')) allTelescopes))"

fun join_nul :: "string list \<Rightarrow> string" where
  "join_nul [] = []"
| "join_nul [x] = x"
| "join_nul (x # y # ys) = x @ CHR 0x00 # join_nul (y # ys)"

definition CohortHash :: "(string \<Rightarrow> string) \<Rightarrow> string list \<Rightarrow> string" where
  "CohortHash sha256_hex ids =
     (if ids = [] then [] else sha256_hex (join_nul (SliceStable string_less ids)))"

section \<open>Filling a cohort\<close>

definition of_opt :: "f64 option \<Rightarrow> f64" where
  "of_opt x = (case x of None \<Rightarrow> Fin 0 | Some v \<Rightarrow> v)"

definition specFromNode :: "node_eval \<Rightarrow> telescope_spec" where
  "specFromNode n =
     \<lparr>sp_ApertureMM = of_opt (ne_ApertureMM n), sp_FocalLengthMM = of_opt (ne_FocalLengthMM n),
      sp_PixelSizeUM = of_opt (ne_PixelSizeUM n), sp_FOVWidthArcmin = of_opt (ne_FOVWidthArcmin n),
      sp_FOVHeightArcmin = of_opt (ne_FOVHeightArcmin n), sp_SeeingArcsec = of_opt (ne_SiteSeeingArcsec n),
      sp_MountType = (case ne_MountType n of None \<Rightarrow> 0 | Some m \<Rightarrow> m), sp_Filters = ne_AvailableFilters n\<rparr>"

definition nodeByID :: "node_eval list \<Rightarrow> string \<Rightarrow> node_eval option" where
  "nodeByID nodes nodeID = List.find (\<lambda>n. ne_NodeID n = nodeID) nodes"

definition countSubstitutes :: "mathlib \<Rightarrow> node_eval list \<Rightarrow> node_eval \<Rightarrow> int" where
  "countSubstitutes M nodes n =
     (let vec = ComputeVector M (specFromNode n) in
      int (length (filter (\<lambda>other. \<not> (ne_NodeID other = ne_NodeID n \<or> \<not> nodeIsIdle other \<or> ne_CurrentTaskID other \<noteq> None)
        \<and> PassesBands vec (ComputeVector M (specFromNode other)) DefaultBandWidths) nodes)))"

text \<open>The key of a candidate at the present centroid and widths; \<open>None\<close> when it is skipped.\<close>

definition filler_key :: "mathlib \<Rightarrow> node_eval list \<Rightarrow> vector \<Rightarrow> vector \<Rightarrow> selector_result \<Rightarrow> f64 option" where
  "filler_key M nodes centroid widths cand =
     (case nodeByID nodes (sr_NodeID cand) of
        None \<Rightarrow> None
      | Some candNode \<Rightarrow>
          (let candVec = ComputeVector M (specFromNode candNode) in
           if \<not> PassesBands centroid candVec widths then None
           else (let substitutes = countSubstitutes M nodes candNode;
                     idleMinutes = of_opt (ne_IdleSinceMinutes candNode);
                     adjScore = ApplyFillerPenalty (sr_Score cand) substitutes idleMinutes;
                     cosine = WeightedCosine M centroid candVec DefaultWeights
                 in Some (fsub (i2f adjScore) (fmul cosine CohortCosineBonusWeight)))))"

fun best_filler :: "(selector_result \<Rightarrow> f64 option) \<Rightarrow> nat \<Rightarrow> (nat \<times> f64) option \<Rightarrow> selector_result list \<Rightarrow> (nat \<times> f64) option" where
  "best_filler key i best [] = best"
| "best_filler key i best (c # cs) =
     best_filler key (Suc i)
       (case key c of None \<Rightarrow> best
        | Some k \<Rightarrow> (case best of None \<Rightarrow> Some (i, k)
            | Some (bi, bk) \<Rightarrow> if flt k bk then Some (i, k) else best)) cs"

definition move_centroid :: "vector \<Rightarrow> vector \<Rightarrow> int \<Rightarrow> vector" where
  "move_centroid centroid picked memberCount =
     map2 (\<lambda>c p. fdiv (fadd (fmul c (i2f (memberCount - 1))) p) (i2f memberCount)) centroid picked"

lemma best_filler_bound:
  "best_filler key i best cs = Some (bi, bk) \<Longrightarrow> best = Some (bi, bk) \<or> (i \<le> bi \<and> bi < i + length cs)"
  by (induction key i best cs rule: best_filler.induct) (fastforce split: option.splits if_splits prod.splits)+

function fill_cohort ::
  "mathlib \<Rightarrow> node_eval list \<Rightarrow> selector_result list \<Rightarrow> selector_result list \<Rightarrow> vector \<Rightarrow> int \<Rightarrow> vector
   \<Rightarrow> selector_result list" where
  "fill_cohort M nodes result remaining widths memberCount centroid =
     (if int (length result) < CohortMaxNodes \<and> remaining \<noteq> [] then
        (let widths = AdaptiveBandWidth widths memberCount in
         case best_filler (filler_key M nodes centroid widths) 0 None remaining of
           None \<Rightarrow> result
         | Some (bestIdx, _) \<Rightarrow>
             (let picked = remaining ! bestIdx; result = result @ [picked] in
              case nodeByID nodes (sr_NodeID picked) of
                None \<Rightarrow> result
              | Some pickedNode \<Rightarrow>
                  fill_cohort M nodes result (take bestIdx remaining @ drop (Suc bestIdx) remaining) widths
                    (memberCount + 1)
                    (move_centroid centroid (ComputeVector M (specFromNode pickedNode)) (memberCount + 1))))
      else result)"
  by pat_completeness auto
termination
  by (relation "measure (\<lambda>(M, nodes, result, remaining, widths, mc, c). length remaining)")
    (auto dest!: best_filler_bound)

declare fill_cohort.simps [simp del]

definition SelectCohort ::
  "((selector_result \<Rightarrow> selector_result \<Rightarrow> bool) \<Rightarrow> selector_result list \<Rightarrow> selector_result list) \<Rightarrow> mathlib
   \<Rightarrow> node_eval list \<Rightarrow> task_requirements \<Rightarrow> gotime \<Rightarrow> selector_result list" where
  "SelectCohort srt M nodes req now =
     (case SelectEligibleNodes srt M nodes req now 0 of
        [] \<Rightarrow> []
      | anchorResult # remaining \<Rightarrow>
          (case nodeByID nodes (sr_NodeID anchorResult) of
             None \<Rightarrow> [anchorResult]
           | Some anchorNode \<Rightarrow>
               fill_cohort M nodes [anchorResult] remaining (BandWidthsFor (tr_ScienceBand req)) 1
                 (ComputeVector M (specFromNode anchorNode))))"

section \<open>Lemmas\<close>

lemma nth_split_mset: "i < length xs \<Longrightarrow> add_mset (xs ! i) (mset (take i xs @ drop (Suc i) xs)) = mset xs"
  by (metis add_mset_add_single id_take_nth_drop mset.simps(2) mset_append union_mset_add_mset_right)

lemma fill_cohort_extends:
  "\<exists>picked. fill_cohort M nodes result remaining widths mc cen = result @ picked \<and>
     mset picked \<subseteq># mset remaining \<and>
     (int (length result) \<le> CohortMaxNodes \<longrightarrow> int (length (result @ picked)) \<le> CohortMaxNodes)"
proof (induction M nodes result remaining widths mc cen rule: fill_cohort.induct)
  case (1 M nodes result remaining widths mc cen)
  let ?w = "AdaptiveBandWidth widths mc"
  let ?b = "best_filler (filler_key M nodes cen ?w) 0 None remaining"
  show ?case
  proof (cases "int (length result) < CohortMaxNodes \<and> remaining \<noteq> [] \<and> ?b \<noteq> None")
    case False
    then have "fill_cohort M nodes result remaining widths mc cen = result"
      by (subst fill_cohort.simps) (cases ?b; auto simp: Let_def)
    then show ?thesis by simp
  next
    case True
    then obtain i k where b: "?b = Some (i, k)" by auto
    then have i: "i < length remaining" using best_filler_bound by fastforce
    let ?p = "remaining ! i"
    let ?rest = "take i remaining @ drop (Suc i) remaining"
    have ms: "add_mset ?p (mset ?rest) = mset remaining" using i by (rule nth_split_mset)
    then have sub: "{#?p#} \<subseteq># mset remaining" by (metis add_mset_add_single mset_subset_eq_add_right)
    show ?thesis
    proof (cases "nodeByID nodes (sr_NodeID ?p)")
      case None
      then have "fill_cohort M nodes result remaining widths mc cen = result @ [?p]"
        using True b by (subst fill_cohort.simps) (simp add: Let_def)
      with sub True show ?thesis by (auto intro!: exI [of _ "[?p]"])
    next
      case (Some n)
      let ?c = "move_centroid cen (ComputeVector M (specFromNode n)) (mc + 1)"
      have e: "fill_cohort M nodes result remaining widths mc cen =
          fill_cohort M nodes (result @ [?p]) ?rest ?w (mc + 1) ?c"
        using True b Some by (subst fill_cohort.simps) (simp add: Let_def)
      obtain q where q: "fill_cohort M nodes (result @ [?p]) ?rest ?w (mc + 1) ?c = (result @ [?p]) @ q"
        "mset q \<subseteq># mset ?rest"
        "int (length (result @ [?p])) \<le> CohortMaxNodes \<longrightarrow> int (length ((result @ [?p]) @ q)) \<le> CohortMaxNodes"
        using "1.IH" [OF _ refl b refl refl refl Some] True by auto
      have "mset (?p # q) \<subseteq># mset remaining" using q(2) ms
        by (metis mset.simps(2) mset_subset_eq_add_mset_cancel)
      with q e True show ?thesis by (auto intro!: exI [of _ "?p # q"])
    qed
  qed
qed

lemma nodeByID_Some: "nodeByID nodes k = Some n \<Longrightarrow> n \<in> set nodes \<and> ne_NodeID n = k"
  by (auto simp: nodeByID_def find_Some_iff)

lemma eligible_set:
  assumes "go_sort srt"
  shows "mset (SelectEligibleNodes srt M nodes req now 0) =
    mset (map (\<lambda>n. idleSelectorResult n (computeNodeSlew M n req 0 now) ''idle'')
      (filter (\<lambda>n. idle_free n \<and> passesNodeGates M n req now) nodes))"
  using go_sort.srt_perm [OF assms] by (simp add: SelectEligibleNodes_def Let_def)

lemma sr_NodeID_idle [simp]: "sr_NodeID (idleSelectorResult n sl r) = ne_NodeID n"
  by (simp add: idleSelectorResult_def)

lemma sr_Score_idle [simp]: "sr_Score (idleSelectorResult n sl r) = idleScore n (sl_slewMs sl)"
  by (simp add: idleSelectorResult_def)

lemma distinct_map_filter': "distinct (map f xs) \<Longrightarrow> distinct (map f (filter P xs))"
  by (induction xs) auto

lemma SelectCohort_shape:
  "SelectCohort srt M nodes req now = [] \<and> SelectEligibleNodes srt M nodes req now 0 = [] \<or>
   (\<exists>a rest picked. SelectEligibleNodes srt M nodes req now 0 = a # rest \<and>
      SelectCohort srt M nodes req now = a # picked \<and> mset picked \<subseteq># mset rest \<and>
      int (length (a # picked)) \<le> CohortMaxNodes)"
proof (cases "SelectEligibleNodes srt M nodes req now 0")
  case Nil
  then show ?thesis by (simp add: SelectCohort_def)
next
  case (Cons a rest)
  show ?thesis
  proof (cases "nodeByID nodes (sr_NodeID a)")
    case None
    with Cons show ?thesis by (auto simp: SelectCohort_def CohortMaxNodes_def)
  next
    case (Some n)
    obtain picked where "fill_cohort M nodes [a] rest (BandWidthsFor (tr_ScienceBand req)) 1
        (ComputeVector M (specFromNode n)) = [a] @ picked" "mset picked \<subseteq># mset rest"
      "int (length [a]) \<le> CohortMaxNodes \<longrightarrow> int (length ([a] @ picked)) \<le> CohortMaxNodes"
      using fill_cohort_extends [of M nodes "[a]"] by blast
    with Cons Some show ?thesis by (auto simp: SelectCohort_def CohortMaxNodes_def)
  qed
qed

lemma Split_join_nul:
  "xs \<noteq> [] \<Longrightarrow> \<forall>x \<in> set xs. CHR 0x00 \<notin> set x \<Longrightarrow> Split (join_nul xs) (CHR 0x00) = xs"
  by (induction xs rule: join_nul.induct) (simp_all add: Split_no_sep Split_append_sep)

lemma fsub_NaN [simp]: "fsub NaN a = NaN" "fsub a NaN = NaN"
  by (cases a; simp add: fsub_def)+

lemma fmul_NaN [simp]: "fmul a NaN = NaN"
  by (cases a) auto

lemma fdiv_NaN [simp]: "fdiv a NaN = NaN"
  by (cases a) auto

lemma flt_NaN [simp]: "flt a NaN = False"
  by (cases a) auto

lemma clamp_NaN: "fclamp NaN lo hi = NaN"
  by (simp add: fclamp_def)

text \<open>The nodes a cohort may draw on.\<close>

definition eligible :: "mathlib \<Rightarrow> node_eval list \<Rightarrow> task_requirements \<Rightarrow> gotime \<Rightarrow> node_eval \<Rightarrow> bool" where
  "eligible M nodes req now n \<longleftrightarrow> n \<in> set nodes \<and> idle_free n \<and> passesNodeGates M n req now"

lemma eligible_results:
  assumes "go_sort srt"
  shows "set (SelectEligibleNodes srt M nodes req now 0) =
    (\<lambda>n. idleSelectorResult n (computeNodeSlew M n req 0 now) ''idle'') ` {n. eligible M nodes req now n}"
  using arg_cong [OF eligible_set [OF assms, of M nodes req now], of set_mset]
  by (auto simp: eligible_def)

lemma eligible_distinct:
  assumes "go_sort srt" "distinct (map ne_NodeID nodes)"
  shows "distinct (map sr_NodeID (SelectEligibleNodes srt M nodes req now 0))"
proof -
  have "mset (map sr_NodeID (SelectEligibleNodes srt M nodes req now 0)) =
      mset (map ne_NodeID (filter (\<lambda>n. idle_free n \<and> passesNodeGates M n req now) nodes))"
    using arg_cong [OF eligible_set [OF assms(1), of M nodes req now], of "image_mset sr_NodeID"]
    by (simp add: image_mset.compositionality comp_def)
  then show ?thesis using distinct_map_filter' [OF assms(2)] by (metis mset_eq_imp_distinct_iff)
qed

lemma eligible_head_least:
  assumes "go_sort srt" "SelectEligibleNodes srt M nodes req now 0 = a # rest"
    "x \<in> set (SelectEligibleNodes srt M nodes req now 0)"
  shows "sr_Score a \<le> sr_Score x"
proof -
  let ?f = "\<lambda>n. idleSelectorResult n (computeNodeSlew M n req 0 now) ''idle''"
  let ?c = "map ?f (filter (\<lambda>n. idle_free n \<and> passesNodeGates M n req now) nodes)"
  have e: "SelectEligibleNodes srt M nodes req now 0 = srt (\<lambda>a b. sr_Score a < sr_Score b) ?c"
    by (simp add: SelectEligibleNodes_def Let_def)
  have "x \<in> set ?c" using assms(3) unfolding e go_sort.set_srt [OF assms(1)] .
  moreover have "strict_weak (\<lambda>a b. sr_Score a < sr_Score b)" by (rule strict_weak_key)
  moreover have "srt (\<lambda>a b. sr_Score a < sr_Score b) ?c = a # rest" using assms(2) e by simp
  ultimately have "\<not> sr_Score x < sr_Score a" using go_sort.srt_head_least [OF assms(1)] by blast
  then show ?thesis by simp
qed

section \<open>Properties\<close>

text \<open>C33: A cohort is well formed: at most eight members with distinct ids, each an idle node without a task
  that passes every gate; it is empty only when no such node exists, and its anchor has the best
  score of all of them.\<close>

theorem cohort_sound:
  assumes "go_sort srt" and "distinct (map ne_NodeID nodes)" and "SelectCohort srt M nodes req now = R"
  shows "int (length R) \<le> CohortMaxNodes \<and> distinct (map sr_NodeID R) \<and>
    (\<forall>r \<in> set R. \<exists>n. eligible M nodes req now n \<and> sr_NodeID r = ne_NodeID n) \<and>
    (\<forall>n. eligible M nodes req now n \<longrightarrow> R \<noteq> [] \<and>
       sr_Score (hd R) \<le> idleScore n (sl_slewMs (computeNodeSlew M n req 0 now)))"
proof (cases "SelectEligibleNodes srt M nodes req now 0")
  case Nil
  then have "R = []" using assms(3) by (simp add: SelectCohort_def)
  moreover have "\<not> eligible M nodes req now n" for n
    using eligible_results [OF assms(1), of M nodes req now] Nil by simp
  ultimately show ?thesis by (simp add: CohortMaxNodes_def)
next
  case (Cons a rest)
  let ?E = "SelectEligibleNodes srt M nodes req now 0"
  obtain picked where R: "R = a # picked" and sub: "mset picked \<subseteq># mset rest"
    and len: "int (length R) \<le> CohortMaxNodes"
    using SelectCohort_shape [of srt M nodes req now] Cons assms(3) by auto
  have "mset R \<subseteq># mset ?E" using sub by (simp add: R Cons)
  then have "mset (map sr_NodeID R) \<subseteq># mset (map sr_NodeID ?E)" by (simp add: image_mset_subseteq_mono)
  then have d: "distinct (map sr_NodeID R)"
    using eligible_distinct [OF assms(1,2)] by (rule distinct_submset)
  have "set R \<subseteq> set ?E" using \<open>mset R \<subseteq># mset ?E\<close> by (metis set_mset_mono set_mset_mset)
  then have m: "\<forall>r \<in> set R. \<exists>n. eligible M nodes req now n \<and> sr_NodeID r = ne_NodeID n"
    unfolding eligible_results [OF assms(1)] by (auto dest!: subsetD)
  have "sr_Score a \<le> idleScore n (sl_slewMs (computeNodeSlew M n req 0 now))" if "eligible M nodes req now n" for n
    using eligible_head_least [OF assms(1) Cons, of "idleSelectorResult n (computeNodeSlew M n req 0 now) ''idle''"] that
    unfolding eligible_results [OF assms(1)] by auto
  with len d m show ?thesis by (simp add: R)
qed

theorem cohort_sound_witness:
  "SelectCohort SliceStable demo_math [demo_node] demo_req 0 \<noteq> []"
proof -
  have "eligible demo_math [demo_node] demo_req 0 demo_node"
    using demo_node_gates [of demo_math 0] by (simp add: eligible_def idle_free_def nodeIsIdle_def) (simp add: demo_node_def)
  moreover have "distinct (map ne_NodeID [demo_node])" by simp
  ultimately show ?thesis using cohort_sound [OF stable.go_sort_axioms _ refl, of "[demo_node]" demo_math demo_req 0] by blast
qed

text \<open>The key of a cohort depends only on its members, not on their order, and two groups of ids (free
  of NUL bytes) with the same key are the same group unless SHA-256 collides.\<close>

theorem cohort_key_canonical:
  "(mset ids = mset ids' \<longrightarrow> CohortHash sha ids = CohortHash sha ids') \<and>
   (ids \<noteq> [] \<longrightarrow> ids' \<noteq> [] \<longrightarrow> (\<forall>x \<in> set ids \<union> set ids'. CHR 0x00 \<notin> set x) \<longrightarrow>
      CohortHash sha ids = CohortHash sha ids' \<longrightarrow> mset ids = mset ids' \<or> (\<exists>m m'. m \<noteq> m' \<and> sha m = sha m'))"
proof (intro conjI impI)
  assume m: "mset ids = mset ids'"
  have "SliceStable string_less ids = SliceStable string_less ids'"
    using string_less_total by (intro SliceStable_mset_eq m) auto
  with m show "CohortHash sha ids = CohortHash sha ids'" by (auto simp: CohortHash_def)
next
  assume ne: "ids \<noteq> []" "ids' \<noteq> []" and z: "\<forall>x \<in> set ids \<union> set ids'. CHR 0x00 \<notin> set x"
    and h: "CohortHash sha ids = CohortHash sha ids'"
  let ?s = "SliceStable string_less ids" and ?s' = "SliceStable string_less ids'"
  show "mset ids = mset ids' \<or> (\<exists>m m'. m \<noteq> m' \<and> sha m = sha m')"
  proof (cases "join_nul ?s = join_nul ?s'")
    case True
    have sp: "Split (join_nul (SliceStable string_less xs)) (CHR 0x00) = SliceStable string_less xs"
      if "xs \<noteq> []" "\<forall>x \<in> set xs. CHR 0x00 \<notin> set x" for xs
      using that by (intro Split_join_nul) (simp_all only: stable.set_srt stable.srt_nil_iff not_False_eq_True)
    have "\<forall>x \<in> set ids. CHR 0x00 \<notin> set x" "\<forall>x \<in> set ids'. CHR 0x00 \<notin> set x" using z by blast+
    from sp [OF ne(1) this(1)] sp [OF ne(2) this(2)] True have "?s = ?s'" by metis
    then show ?thesis by (metis mset_SliceStable)
  next
    case False
    with h ne show ?thesis by (auto simp: CohortHash_def)
  qed
qed

theorem cohort_key_canonical_witness: "CohortHash (\<lambda>m. m) [''a'', ''b''] = CohortHash (\<lambda>m. m) [''b'', ''a'']"
  using cohort_key_canonical [of "[''a'', ''b'']" "[''b'', ''a'']" "\<lambda>m. m"] by simp

text \<open>A telescope whose optics are unknown matches every cohort: focal length and pixel size default to
  zero, their quotient is not a number, and the two dimensions it feeds (pixel scale and
  sensitivity) are never out of band, whatever the anchor.\<close>

theorem unknown_optics_in_every_band:
  assumes "ne_FocalLengthMM n = None" "ne_PixelSizeUM n = None" "m_Log M NaN = NaN"
    and "flt (Fin 0) w0" "flt (Fin 0) w2"
  shows "\<exists>v1 v3 v4. ComputeVector M (specFromNode n) = [NaN, v1, NaN, v3, v4] \<and>
    (PassesBands [a0, a1, a2, a3, a4] (ComputeVector M (specFromNode n)) [w0, w1, w2, w3, w4] \<longleftrightarrow>
       dim_passes a1 v1 w1 \<and> dim_passes a3 v3 w3 \<and> dim_passes a4 v4 w4)"
proof -
  have "\<not> fle w0 (Fin 0)" "\<not> fle w2 (Fin 0)" using assms(4,5) by (cases w0; cases w2; auto simp: fle_def)+
  then have "dim_passes a NaN w0" "dim_passes a NaN w2" for a by (simp_all add: dim_passes_def)
  moreover obtain v1 v3 v4 where "ComputeVector M (specFromNode n) = [NaN, v1, NaN, v3, v4]"
    using assms(1-3) by (simp add: ComputeVector_def specFromNode_def of_opt_def Let_def clamp_NaN)
  ultimately show ?thesis by auto
qed

theorem unknown_optics_in_every_band_witness:
  "\<exists>v1 v3 v4. ComputeVector (demo_math\<lparr>m_Log := (\<lambda>x. x)\<rparr>) (specFromNode demo_node) = [NaN, v1, NaN, v3, v4]"
proof -
  have n: "ne_FocalLengthMM demo_node = None" "ne_PixelSizeUM demo_node = None" by (simp_all add: demo_node_def)
  have "m_Log (demo_math\<lparr>m_Log := (\<lambda>x. x)\<rparr>) NaN = NaN" "flt (Fin 0) (Fin 1)" by simp_all
  from unknown_optics_in_every_band [OF n this(1) this(2) this(2)] show ?thesis by blast
qed

end
