(* ===== verification/Pack.thy ===== *)
theory Pack
  imports Lanes
begin

text \<open>
  Campaign packs (\<open>shared/campaign/pack.go\<close>): the pack's data, its validation before publication,
  the grants and the artifact it gives to piers, its science hook, and the expansion into task
  specifications.  JSON decoding is an argument; a Go map is the list of its entries in the order
  an iteration visits them; \<open>fmt4\<close> prints a value with four decimals.
\<close>

section \<open>Data\<close>

record comp_star =
  cst_RA :: f64
  cst_Dec :: f64
  cst_Mag :: "f64 option"
  cst_Band :: "string option"

record product_intent =
  pi_Mode :: string
  pi_TimeBinFrames :: int

record pier_code_intent =
  pc_Enabled :: bool
  pc_Actions :: "(string \<times> bool) list"
  pc_Artifact :: "pier_code_ref option"

record coverage_intent =
  ci_Enabled :: bool
  ci_NMain :: int
  ci_Redundancy :: bool
  ci_MaxGapMin :: int
  ci_MaxSites :: int
  ci_Mode :: string
  ci_PreferredSites :: "string list"
  ci_MinSites :: int
  ci_MinLongitudeSpanDeg :: f64

record saturation_hint =
  sh_MaxExposureSec :: "f64 option"
  sh_Strategy :: string
  sh_Notes :: string

record pack_target =
  pk_RA :: f64
  pk_Dec :: f64
  pk_Magnitude :: "f64 option"
  pk_Filters :: "string list"
  pk_ExposureSec :: f64
  pk_FrameCount :: int
  pk_CadenceGoalMin :: int
  pk_Saturation :: "saturation_hint option"

record pack =
  pack_Name :: string
  pack_TestOnly :: bool
  pack_Description :: string
  pack_HookImageRef :: string
  pack_HookPlacement :: string
  pack_CompStars :: "comp_star list"
  pack_Product :: "product_intent option"
  pack_Coverage :: "coverage_intent option"
  pack_Season :: "season_intent option"
  pack_PierCode :: "pier_code_intent option"
  pack_Targets :: "pack_target list"

record task_spec =
  sk_Name :: string
  sk_TargetRA :: f64
  sk_TargetDec :: f64
  sk_RequiredFilters :: "string list"
  sk_IntegrationTime :: f64
  sk_Budget :: f64
  sk_AllowEmulator :: bool
  sk_ProductMode :: string
  sk_TargetMagnitude :: "f64 option"

datatype pack_error = PackRequired | PackBadJSON | UnknownField string | NameRequired | TargetsRequired
  | TimeBinOnly | TimeBinFew | ProductModeInvalid | CoverageMode | CoverageSpan | SeasonKind | SeasonUrgency
  | SeasonDuty | UnknownAction string | BadArtifact pier_code_error | ArtifactURL
  | FiltersRequired nat | ExposureRange nat | FrameCountRange nat | SaturationStrategy nat
  | SaturationExposure nat | HookPlacement | HookRefRequired | HookRefForbidden | ErrHookNotApproved | NoTasks

section \<open>Keys and parsing\<close>

definition clientPackKeys :: "string list" where
  "clientPackKeys = [''name'', ''description'', ''test_only'', ''hook_image_ref'', ''hook_placement'',
     ''comp_stars'', ''product'', ''coverage'', ''season'', ''pier_code'', ''targets'']"

definition serverPackKeys :: "string list" where
  "serverPackKeys = [''coverage_plan'']"

fun check_keys :: "bool \<Rightarrow> string list \<Rightarrow> pack_error option" where
  "check_keys allowServer [] = None"
| "check_keys allowServer (k # ks) =
     (if k \<in> set clientPackKeys then check_keys allowServer ks
      else if allowServer \<and> k \<in> set serverPackKeys then check_keys allowServer ks
      else Some (UnknownField k))"

text \<open>\<open>object_keys\<close> decodes a JSON object and gives its keys; \<open>None\<close> when it is not one.\<close>

definition validatePackObjectKeys ::
  "(string \<Rightarrow> string list option) \<Rightarrow> string \<Rightarrow> bool \<Rightarrow> pack_error option" where
  "validatePackObjectKeys object_keys raw allowServerKeys =
     (if raw = [] then Some PackRequired
      else (case object_keys raw of None \<Rightarrow> Some PackBadJSON | Some ks \<Rightarrow> check_keys allowServerKeys ks))"

definition ValidateStoredPackJSON :: "(string \<Rightarrow> string list option) \<Rightarrow> string \<Rightarrow> pack_error option" where
  "ValidateStoredPackJSON object_keys raw = validatePackObjectKeys object_keys raw True"

definition ParsePack :: "(string \<Rightarrow> pack option) \<Rightarrow> string \<Rightarrow> pack_error + pack" where
  "ParsePack decode raw = (case decode raw of None \<Rightarrow> Inl PackBadJSON | Some p \<Rightarrow> Inr p)"

text \<open>\<open>decode_strict\<close> is the decoder that rejects unknown fields and trailing data.\<close>

definition CanonicalPackJSON ::
  "(string \<Rightarrow> string list option) \<Rightarrow> (string \<Rightarrow> pack option) \<Rightarrow> (pack \<Rightarrow> string) \<Rightarrow> string
   \<Rightarrow> pack_error + pack \<times> string" where
  "CanonicalPackJSON object_keys decode_strict encode raw =
     (case validatePackObjectKeys object_keys raw False of
        Some e \<Rightarrow> Inl e
      | None \<Rightarrow> (case decode_strict raw of None \<Rightarrow> Inl PackBadJSON | Some p \<Rightarrow> Inr (p, encode p)))"

section \<open>Validation\<close>

definition ValidateProduct :: "product_intent option \<Rightarrow> pack_error option" where
  "ValidateProduct intent =
     (case intent of None \<Rightarrow> None
      | Some p \<Rightarrow>
          (let mode = TrimSpace (pi_Mode p); mode = (if mode = [] then ''per_frame'' else mode) in
           if mode = ''per_frame'' \<or> mode = ''stack'' then
             (if pi_TimeBinFrames p \<noteq> 0 then Some TimeBinOnly else None)
           else if mode = ''time_bin'' then (if pi_TimeBinFrames p < 2 then Some TimeBinFew else None)
           else Some ProductModeInvalid))"

definition validate_coverage :: "coverage_intent option \<Rightarrow> pack_error option" where
  "validate_coverage cov =
     (case cov of None \<Rightarrow> None
      | Some c \<Rightarrow>
          (let mode = TrimSpace (ci_Mode c) in
           if mode \<noteq> [] \<and> mode \<noteq> ''soft'' \<and> mode \<noteq> ''hard'' then Some CoverageMode
           else if flt (ci_MinLongitudeSpanDeg c) (Fin 0) \<or> flt (Fin 360) (ci_MinLongitudeSpanDeg c)
             then Some CoverageSpan
           else None))"

definition validate_season :: "season_intent option \<Rightarrow> pack_error option" where
  "validate_season sea =
     (case sea of None \<Rightarrow> None
      | Some s \<Rightarrow>
          (let kind = TrimSpace (se_Kind s); urg = TrimSpace (se_Urgency s) in
           if kind \<noteq> [] \<and> kind \<noteq> ''continuous'' \<and> kind \<noteq> ''sparse'' \<and> kind \<noteq> ''too'' then Some SeasonKind
           else if urg \<noteq> [] \<and> urg \<noteq> ''normal'' \<and> urg \<noteq> ''elevated'' \<and> urg \<noteq> ''critical'' then Some SeasonUrgency
           else (case se_TargetDutyCycle s of None \<Rightarrow> None
             | Some d \<Rightarrow> if flt d (Fin 0) \<or> flt (Fin 1) d then Some SeasonDuty else None)))"

fun unknown_action :: "(string \<times> bool) list \<Rightarrow> string option" where
  "unknown_action [] = None"
| "unknown_action ((a, _) # es) = (if \<not> IsPierCodeAction a then Some a else unknown_action es)"

definition validate_pier_code ::
  "(string \<Rightarrow> url option) \<Rightarrow> (string \<Rightarrow> ip option) \<Rightarrow> pier_code_intent option \<Rightarrow> pack_error option" where
  "validate_pier_code parse_uri parse_ip pc =
     (case pc of None \<Rightarrow> None
      | Some c \<Rightarrow>
          (case unknown_action (pc_Actions c) of
             Some a \<Rightarrow> Some (UnknownAction a)
           | None \<Rightarrow>
               (case pc_Artifact c of None \<Rightarrow> None
                | Some r \<Rightarrow> (case ValidateRef parse_uri parse_ip (Some r) of
                    Some e \<Rightarrow> Some (BadArtifact e)
                  | None \<Rightarrow> if pr_URL r = [] then Some ArtifactURL else None))))"

definition validate_target :: "nat \<Rightarrow> pack_target \<Rightarrow> pack_error option" where
  "validate_target i t =
     (if pk_Filters t = [] then Some (FiltersRequired i)
      else if fle (pk_ExposureSec t) (Fin 0) then Some (ExposureRange i)
      else if pk_FrameCount t \<le> 0 then Some (FrameCountRange i)
      else (case pk_Saturation t of None \<Rightarrow> None
        | Some s \<Rightarrow>
            (let strat = TrimSpace (sh_Strategy s) in
             if strat \<noteq> [] \<and> strat \<noteq> ''short'' \<and> strat \<noteq> ''defocus'' \<and> strat \<noteq> ''nd'' \<and> strat \<noteq> ''manual''
               then Some (SaturationStrategy i)
             else (case sh_MaxExposureSec s of None \<Rightarrow> None
               | Some m \<Rightarrow> if flt m (pk_ExposureSec t) then Some (SaturationExposure i) else None))))"

fun validate_targets :: "nat \<Rightarrow> pack_target list \<Rightarrow> pack_error option" where
  "validate_targets i [] = None"
| "validate_targets i (t # ts) =
     (case validate_target i t of Some e \<Rightarrow> Some e | None \<Rightarrow> validate_targets (Suc i) ts)"

text \<open>The first error of a sequence of checks.\<close>

fun first_error :: "'e option list \<Rightarrow> 'e option" where
  "first_error [] = None"
| "first_error (None # es) = first_error es"
| "first_error (Some e # es) = Some e"

definition ValidatePack ::
  "(string \<Rightarrow> url option) \<Rightarrow> (string \<Rightarrow> ip option) \<Rightarrow> pack option \<Rightarrow> pack_error option" where
  "ValidatePack parse_uri parse_ip pk =
     (case pk of None \<Rightarrow> Some PackRequired
      | Some p \<Rightarrow> first_error
          [if TrimSpace (pack_Name p) = [] then Some NameRequired else None,
           if pack_Targets p = [] then Some TargetsRequired else None,
           ValidateProduct (pack_Product p),
           validate_coverage (pack_Coverage p),
           validate_season (pack_Season p),
           validate_pier_code parse_uri parse_ip (pack_PierCode p),
           validate_targets 0 (pack_Targets p)])"

section \<open>What a pack gives to piers\<close>

definition EffectivePierCodeGrants :: "pack option \<Rightarrow> grants option" where
  "EffectivePierCodeGrants pk =
     (case pk of None \<Rightarrow> None
      | Some p \<Rightarrow> (case pack_PierCode p of None \<Rightarrow> None
          | Some c \<Rightarrow>
              if \<not> pc_Enabled c then None
              else if pc_Actions c = [] then Some DefaultPierCodeGrants
              else Some (map_of (filter (\<lambda>e. IsPierCodeAction (fst e)) (pc_Actions c)))))"

definition EffectivePierCodeArtifact ::
  "(string \<Rightarrow> url option) \<Rightarrow> (string \<Rightarrow> ip option) \<Rightarrow> pack option \<Rightarrow> pier_code_ref option" where
  "EffectivePierCodeArtifact parse_uri parse_ip pk =
     (case pk of None \<Rightarrow> None
      | Some p \<Rightarrow> (case pack_PierCode p of None \<Rightarrow> None
          | Some c \<Rightarrow>
              if \<not> pc_Enabled c then None
              else (case pc_Artifact c of None \<Rightarrow> None
                | Some r \<Rightarrow> if ValidateRef parse_uri parse_ip (Some r) \<noteq> None then None else Some r)))"

definition SortedGrantList :: "(string \<times> bool) list \<Rightarrow> string list" where
  "SortedGrantList gs = SliceStable string_less (map fst (filter snd gs))"

definition NormalizedProductMode :: "product_intent option \<Rightarrow> string" where
  "NormalizedProductMode intent =
     (case intent of None \<Rightarrow> ''per_frame''
      | Some p \<Rightarrow> (let mode = TrimSpace (pi_Mode p) in if mode = [] then ''per_frame'' else mode))"

definition WantsStack :: "product_intent option \<Rightarrow> bool" where
  "WantsStack intent = (NormalizedProductMode intent = ''stack'')"

section \<open>Science hooks\<close>

definition normalizedHookPlacement :: "string \<Rightarrow> string" where
  "normalizedHookPlacement placement =
     (let placement = TrimSpace placement in if placement = [] then ''none'' else placement)"

definition HasScienceHook :: "pack option \<Rightarrow> bool" where
  "HasScienceHook pk =
     (case pk of None \<Rightarrow> False
      | Some p \<Rightarrow> if TrimSpace (pack_HookImageRef p) \<noteq> [] then True
          else normalizedHookPlacement (pack_HookPlacement p) \<noteq> ''none'')"

definition ValidateHookFields :: "pack option \<Rightarrow> pack_error option" where
  "ValidateHookFields pk =
     (case pk of None \<Rightarrow> None
      | Some p \<Rightarrow>
          if \<not> HasScienceHook pk then None
          else (let placement = normalizedHookPlacement (pack_HookPlacement p) in
            if placement \<noteq> ''none'' \<and> placement \<noteq> ''edge'' \<and> placement \<noteq> ''compute'' then Some HookPlacement
            else (let ref = TrimSpace (pack_HookImageRef p) in
              if placement \<noteq> ''none'' \<and> ref = [] then Some HookRefRequired
              else if ref \<noteq> [] \<and> placement = ''none'' then Some HookRefForbidden
              else None)))"

definition ValidateHookPublish :: "pack option \<Rightarrow> bool \<Rightarrow> pack_error option" where
  "ValidateHookPublish pk hookApproved =
     (case ValidateHookFields pk of Some e \<Rightarrow> Some e
      | None \<Rightarrow> (case pk of None \<Rightarrow> None
          | Some p \<Rightarrow> if normalizedHookPlacement (pack_HookPlacement p) = ''compute'' \<and> \<not> hookApproved
              then Some ErrHookNotApproved else None))"

section \<open>Expansion\<close>

definition spec_of :: "(f64 \<Rightarrow> string) \<Rightarrow> pack \<Rightarrow> pack_target \<Rightarrow> string \<Rightarrow> task_spec" where
  "spec_of fmt4 p t filt =
     \<lparr>sk_Name = pack_Name p @ '' ra='' @ fmt4 (pk_RA t) @ '' dec='' @ fmt4 (pk_Dec t) @ '' '' @ filt,
      sk_TargetRA = pk_RA t, sk_TargetDec = pk_Dec t, sk_RequiredFilters = [filt],
      sk_IntegrationTime = pk_ExposureSec t, sk_Budget = fmul (i2f (pk_FrameCount t)) (pk_ExposureSec t),
      sk_AllowEmulator = pack_TestOnly p, sk_ProductMode = NormalizedProductMode (pack_Product p),
      sk_TargetMagnitude = pk_Magnitude t\<rparr>"

definition expand_target :: "(f64 \<Rightarrow> string) \<Rightarrow> pack \<Rightarrow> pack_target \<Rightarrow> task_spec list" where
  "expand_target fmt4 p t =
     map (spec_of fmt4 p t) (filter (\<lambda>f. f \<noteq> []) (map TrimSpace (pk_Filters t)))"

definition ExpandPack ::
  "(string \<Rightarrow> url option) \<Rightarrow> (string \<Rightarrow> ip option) \<Rightarrow> (f64 \<Rightarrow> string) \<Rightarrow> pack option
   \<Rightarrow> pack_error + task_spec list" where
  "ExpandPack parse_uri parse_ip fmt4 pk =
     (case ValidatePack parse_uri parse_ip pk of Some e \<Rightarrow> Inl e
      | None \<Rightarrow> (case ValidateHookFields pk of Some e \<Rightarrow> Inl e
        | None \<Rightarrow> (case pk of None \<Rightarrow> Inl PackRequired
          | Some p \<Rightarrow>
              (let out = concat (map (expand_target fmt4 p) (pack_Targets p))
               in if out = [] then Inl NoTasks else Inr out))))"


section \<open>Lemmas\<close>

lemma first_error_None: "first_error es = None \<longleftrightarrow> (\<forall>e \<in> set es. e = None)"
  by (induction es rule: first_error.induct) auto

lemma check_keys_None:
  "check_keys allowServer ks = None \<longleftrightarrow>
     set ks \<subseteq> set clientPackKeys \<union> (if allowServer then set serverPackKeys else {})"
  by (induction ks) auto

lemma unknown_action_None: "unknown_action es = None \<longleftrightarrow> (\<forall>e \<in> set es. IsPierCodeAction (fst e))"
  by (induction es rule: unknown_action.induct) auto

lemma validate_targets_None:
  "validate_targets i ts = None \<Longrightarrow> t \<in> set ts \<Longrightarrow> \<exists>j. validate_target j t = None"
  by (induction i ts rule: validate_targets.induct) (auto split: option.splits)

lemma validate_target_None:
  assumes "validate_target i t = None"
  shows "pk_Filters t \<noteq> []" "\<not> fle (pk_ExposureSec t) (Fin 0)" "0 < pk_FrameCount t"
  using assms by (simp_all add: validate_target_def split: if_splits)

lemma ValidatePack_None:
  assumes "ValidatePack parse_uri parse_ip (Some p) = None"
  shows "ValidateProduct (pack_Product p) = None"
    "validate_pier_code parse_uri parse_ip (pack_PierCode p) = None"
    "validate_targets 0 (pack_Targets p) = None"
  using assms by (simp_all add: ValidatePack_def first_error_None)

lemma ValidateProduct_mode:
  "ValidateProduct intent = None \<Longrightarrow>
     NormalizedProductMode intent \<in> {''per_frame'', ''time_bin'', ''stack''}"
  by (auto simp: ValidateProduct_def NormalizedProductMode_def Let_def split: option.splits if_splits)

lemma ExpandPack_Inr:
  assumes "ExpandPack parse_uri parse_ip fmt4 (Some p) = Inr out"
  shows "ValidatePack parse_uri parse_ip (Some p) = None" "ValidateHookFields (Some p) = None"
    "out = concat (map (expand_target fmt4 p) (pack_Targets p))" "out \<noteq> []"
  using assms by (auto simp: ExpandPack_def Let_def split: option.splits if_splits)

lemma set_expand_target:
  "sp \<in> set (expand_target fmt4 p t) \<longleftrightarrow>
     (\<exists>g \<in> set (pk_Filters t). TrimSpace g \<noteq> [] \<and> sp = spec_of fmt4 p t (TrimSpace g))"
  by (auto simp: expand_target_def)

lemma length_expand_target:
  "length (expand_target fmt4 p t) = length (filter (\<lambda>g. TrimSpace g \<noteq> []) (pk_Filters t))"
  by (simp add: expand_target_def filter_map o_def)

section \<open>Properties\<close>

text \<open>C39: a pack that expands gives exactly one task per non-blank filter of each of its targets:
  each task names that one trimmed filter, exposes for the target's time, has the budget
  frame count times exposure of a positive frame count and exposure, runs on emulators only for
  test packs and has one of the three product modes; every non-blank filter has its task.\<close>

theorem pack_expansion:
  assumes "ExpandPack parse_uri parse_ip fmt4 (Some p) = Inr out"
  shows "length out = (\<Sum>t \<leftarrow> pack_Targets p. length (filter (\<lambda>g. TrimSpace g \<noteq> []) (pk_Filters t))) \<and>
    (\<forall>sp \<in> set out. \<exists>t \<in> set (pack_Targets p). \<exists>g \<in> set (pk_Filters t).
        sk_RequiredFilters sp = [TrimSpace g] \<and> TrimSpace g \<noteq> [] \<and>
        sk_IntegrationTime sp = pk_ExposureSec t \<and> \<not> fle (pk_ExposureSec t) (Fin 0) \<and>
        0 < pk_FrameCount t \<and> sk_Budget sp = fmul (i2f (pk_FrameCount t)) (pk_ExposureSec t) \<and>
        sk_AllowEmulator sp = pack_TestOnly p \<and>
        sk_ProductMode sp \<in> {''per_frame'', ''time_bin'', ''stack''}) \<and>
    (\<forall>t \<in> set (pack_Targets p). \<forall>g \<in> set (pk_Filters t).
        TrimSpace g \<noteq> [] \<longrightarrow> spec_of fmt4 p t (TrimSpace g) \<in> set out) \<and>
    out \<noteq> []"
proof (intro conjI)
  note ex = ExpandPack_Inr [OF assms]
  note v = ValidatePack_None [OF ex(1)]
  show "length out = (\<Sum>t \<leftarrow> pack_Targets p. length (filter (\<lambda>g. TrimSpace g \<noteq> []) (pk_Filters t)))"
    unfolding ex(3) by (simp add: length_concat o_def length_expand_target)
  show "\<forall>t \<in> set (pack_Targets p). \<forall>g \<in> set (pk_Filters t).
        TrimSpace g \<noteq> [] \<longrightarrow> spec_of fmt4 p t (TrimSpace g) \<in> set out"
    unfolding ex(3) by (auto simp: set_expand_target)
  show "out \<noteq> []" by (rule ex(4))
  show "\<forall>sp \<in> set out. \<exists>t \<in> set (pack_Targets p). \<exists>g \<in> set (pk_Filters t).
        sk_RequiredFilters sp = [TrimSpace g] \<and> TrimSpace g \<noteq> [] \<and>
        sk_IntegrationTime sp = pk_ExposureSec t \<and> \<not> fle (pk_ExposureSec t) (Fin 0) \<and>
        0 < pk_FrameCount t \<and> sk_Budget sp = fmul (i2f (pk_FrameCount t)) (pk_ExposureSec t) \<and>
        sk_AllowEmulator sp = pack_TestOnly p \<and>
        sk_ProductMode sp \<in> {''per_frame'', ''time_bin'', ''stack''}"
  proof
    fix sp assume "sp \<in> set out"
    then obtain t g where t: "t \<in> set (pack_Targets p)" "g \<in> set (pk_Filters t)" "TrimSpace g \<noteq> []"
      "sp = spec_of fmt4 p t (TrimSpace g)" unfolding ex(3) by (auto simp: set_expand_target)
    note tv = validate_target_None [OF someI_ex [OF validate_targets_None [OF v(3) t(1)]]]
    from t tv(2,3) ValidateProduct_mode [OF v(1)]
    show "\<exists>t \<in> set (pack_Targets p). \<exists>g \<in> set (pk_Filters t).
        sk_RequiredFilters sp = [TrimSpace g] \<and> TrimSpace g \<noteq> [] \<and>
        sk_IntegrationTime sp = pk_ExposureSec t \<and> \<not> fle (pk_ExposureSec t) (Fin 0) \<and>
        0 < pk_FrameCount t \<and> sk_Budget sp = fmul (i2f (pk_FrameCount t)) (pk_ExposureSec t) \<and>
        sk_AllowEmulator sp = pack_TestOnly p \<and>
        sk_ProductMode sp \<in> {''per_frame'', ''time_bin'', ''stack''}"
      by (intro bexI [where x = t] bexI [where x = g]) (simp_all add: spec_of_def)
  qed
qed

definition demo_target :: pack_target where
  "demo_target = \<lparr>pk_RA = Fin 10, pk_Dec = Fin 20, pk_Magnitude = None, pk_Filters = [''V'', '' '', '' R ''],
     pk_ExposureSec = Fin 30, pk_FrameCount = 4, pk_CadenceGoalMin = 0, pk_Saturation = None\<rparr>"

definition demo_pack :: pack where
  "demo_pack = \<lparr>pack_Name = ''M31'', pack_TestOnly = False, pack_Description = [], pack_HookImageRef = [],
     pack_HookPlacement = [], pack_CompStars = [], pack_Product = None, pack_Coverage = None,
     pack_Season = None,
     pack_PierCode = Some \<lparr>pc_Enabled = True, pc_Actions = [(''read_frame'', True)], pc_Artifact = None\<rparr>,
     pack_Targets = [demo_target]\<rparr>"

lemma demo_trim [simp]:
  "TrimSpace ''V'' = ''V''" "TrimSpace '' R '' = ''R''" "TrimSpace '' '' = []" "TrimSpace ''M31'' = ''M31''"
  "TrimSpace [] = []"
  by (simp_all add: TrimSpace_def is_space_def)

lemma demo_pack_expands:
  "ExpandPack (\<lambda>_. None) (\<lambda>_. None) (\<lambda>_. []) (Some demo_pack) =
     Inr [spec_of (\<lambda>_. []) demo_pack demo_target ''V'', spec_of (\<lambda>_. []) demo_pack demo_target ''R'']"
  by (simp add: ExpandPack_def ValidatePack_def demo_pack_def demo_target_def ValidateProduct_def
      validate_coverage_def validate_season_def validate_pier_code_def validate_target_def
      IsPierCodeAction_def PierCodeActions_def action_names ValidateHookFields_def HasScienceHook_def
      normalizedHookPlacement_def expand_target_def Let_def)

theorem pack_expansion_witness:
  "length [spec_of (\<lambda>_. []) demo_pack demo_target ''V'', spec_of (\<lambda>_. []) demo_pack demo_target ''R'']
     = (\<Sum>t \<leftarrow> pack_Targets demo_pack. length (filter (\<lambda>g. TrimSpace g \<noteq> []) (pk_Filters t)))"
  by (rule pack_expansion [OF demo_pack_expands, THEN conjunct1])

text \<open>A pier gets grants only from a pack that enables pier code; they are menu actions, an
  action is granted only when the pack lists it as true or gives no list and the menu's default
  grants it; and an artifact is given only when it passes the reference check.\<close>

theorem pier_code_grants_gated:
  "(EffectivePierCodeGrants (Some p) \<noteq> None \<longleftrightarrow> (\<exists>c. pack_PierCode p = Some c \<and> pc_Enabled c)) \<and>
   (\<forall>c g a. pack_PierCode p = Some c \<longrightarrow> EffectivePierCodeGrants (Some p) = Some g \<longrightarrow>
      distinct (map fst (pc_Actions c)) \<longrightarrow>
      (GrantAllows g a \<longleftrightarrow> IsPierCodeAction a \<and>
         ((a, True) \<in> set (pc_Actions c) \<or> pc_Actions c = [] \<and> DefaultPierCodeGrants a = Some True))) \<and>
   (\<forall>r. EffectivePierCodeArtifact parse_uri parse_ip (Some p) = Some r \<longrightarrow>
      (\<exists>c. pack_PierCode p = Some c \<and> pc_Enabled c \<and> pc_Artifact c = Some r) \<and>
      ValidateRef parse_uri parse_ip (Some r) = None)"
proof (intro conjI allI impI)
  show "EffectivePierCodeGrants (Some p) \<noteq> None \<longleftrightarrow> (\<exists>c. pack_PierCode p = Some c \<and> pc_Enabled c)"
    by (simp add: EffectivePierCodeGrants_def split: option.splits)
next
  fix c g a
  assume c: "pack_PierCode p = Some c" and g: "EffectivePierCodeGrants (Some p) = Some g"
    and d: "distinct (map fst (pc_Actions c))"
  have d': "distinct (map fst (filter (\<lambda>e. IsPierCodeAction (fst e)) (pc_Actions c)))"
    using d by (rule distinct_map_filter)
  show "GrantAllows g a \<longleftrightarrow> IsPierCodeAction a \<and>
     ((a, True) \<in> set (pc_Actions c) \<or> pc_Actions c = [] \<and> DefaultPierCodeGrants a = Some True)"
    using c g d' by (auto simp: EffectivePierCodeGrants_def GrantAllows_def split: if_splits)
next
  fix r assume "EffectivePierCodeArtifact parse_uri parse_ip (Some p) = Some r"
  then show "\<exists>c. pack_PierCode p = Some c \<and> pc_Enabled c \<and> pc_Artifact c = Some r"
    and "ValidateRef parse_uri parse_ip (Some r) = None"
    by (auto simp: EffectivePierCodeArtifact_def split: option.splits if_splits)
qed

theorem pier_code_grants_gated_witness:
  "\<exists>g. EffectivePierCodeGrants (Some demo_pack) = Some g \<and> GrantAllows g ''read_frame'' \<and>
     \<not> GrantAllows g ''board_post''"
proof -
  obtain g where g: "EffectivePierCodeGrants (Some demo_pack) = Some g"
    by (simp add: EffectivePierCodeGrants_def demo_pack_def)
  have c: "pack_PierCode demo_pack = Some \<lparr>pc_Enabled = True, pc_Actions = [(''read_frame'', True)],
      pc_Artifact = None\<rparr>" by (simp add: demo_pack_def)
  have "GrantAllows g a \<longleftrightarrow> IsPierCodeAction a \<and> a = ''read_frame''" for a
    using pier_code_grants_gated [of demo_pack "\<lambda>_. None" "\<lambda>_. None"] c g by auto
  then show ?thesis using g by (simp add: IsPierCodeAction_def PierCodeActions_def action_names)
qed

text \<open>Publishing accepts a pack's science hook exactly when it has none, or an edge hook with an
  image, or a compute hook with an image that an operator has approved.\<close>

theorem hook_publish_iff:
  "ValidateHookPublish (Some p) approved = None \<longleftrightarrow>
     (let placement = normalizedHookPlacement (pack_HookPlacement p);
          image = TrimSpace (pack_HookImageRef p)
      in if image = [] then placement = ''none''
         else placement = ''edge'' \<or> placement = ''compute'' \<and> approved)"
  by (auto simp: ValidateHookPublish_def ValidateHookFields_def HasScienceHook_def Let_def
      split: option.splits if_splits)

end
