(* ===== verification/Store.thy ===== *)
theory Store
  imports Cohort Pack Handoff Wire
begin

text \<open>
  The state the orchestrator works on: the Postgres tables it reads and writes, the Redis keys, the
  messages handed to the MQTT broker, and the batched Redis pipeline (\<open>shared/models.go\<close>, the
  queries of \<open>cmd/orchestrator\<close>, \<open>migrations/\<close>).  A table is the list of its rows.  Each access to a
  service consumes one \<open>outcome\<close>: it succeeds, fails with no effect, or takes effect and still
  reports an error (a lost reply).  Expiry times of Redis keys, logs and metrics are not modelled.
\<close>

section \<open>Tables\<close>

text \<open>The columns of \<open>tasks\<close> that the orchestrator only reads.\<close>

record task_columns =
  tc_name :: string
  tc_integration_time :: "f64 option"
  tc_min_power :: "f64 option"
  tc_target_magnitude :: "f64 option"
  tc_required_filters :: "string list"
  tc_target_ra :: "f64 option"
  tc_target_dec :: "f64 option"
  tc_min_altitude_deg :: "f64 option"
  tc_allow_emulator :: bool
  tc_min_aperture_mm :: "f64 option"
  tc_min_sub_exposure_s :: "f64 option"
  tc_min_resolution_arcsec :: "f64 option"
  tc_max_resolution_arcsec :: "f64 option"
  tc_min_psf_fwhm_arcsec :: "f64 option"
  tc_max_psf_fwhm_arcsec :: "f64 option"
  tc_required_fov_width_arcmin :: "f64 option"
  tc_required_fov_height_arcmin :: "f64 option"
  tc_science_band :: "string option"
  tc_user_end_at :: "gotime option"
  tc_emergency_handoff_requested_at :: "gotime option"

record task_row =
  tk_id :: int
  tk_status :: string
  tk_assigned :: "string option"
  tk_priority :: int
  tk_failure_count :: int
  tk_last_attempt :: "gotime option"
  tk_scheduled_end :: "gotime option"
  tk_handoff_lead :: "int option"
  tk_campaign :: "string option"
  tk_columns :: task_columns
  tk_updated :: gotime

record assignment_row =
  ta_task :: int
  ta_node :: string
  ta_role :: string
  ta_status :: string
  ta_lease :: "gotime option"
  ta_updated :: gotime

record campaign_row =
  ca_id :: string
  ca_status :: string
  ca_pack :: string
  ca_pier_code_disabled :: bool

definition ta_active :: "assignment_row \<Rightarrow> bool" where
  "ta_active r \<longleftrightarrow> ta_status r = ''assigned'' \<or> ta_status r = ''in_progress''"

section \<open>Redis\<close>

definition RedisNodeState :: string where "RedisNodeState = ''node_state:%s''"
definition RedisNodeMeta :: string where "RedisNodeMeta = ''node_meta:%s''"
definition RedisQueuedTasks :: string where "RedisQueuedTasks = ''tasks:queued''"
definition RedisQueuedPlanned :: string where "RedisQueuedPlanned = ''tasks:queued:planned''"
definition RedisInflightTasks :: string where "RedisInflightTasks = ''tasks:inflight''"
definition RedisActiveTasks :: string where "RedisActiveTasks = ''tasks:active''"
definition RedisActiveNodes :: string where "RedisActiveNodes = ''nodes:active''"

lemmas redis_names = RedisNodeState_def RedisNodeMeta_def RedisQueuedTasks_def RedisQueuedPlanned_def
  RedisInflightTasks_def RedisActiveTasks_def RedisActiveNodes_def

text \<open>
  Sorted sets of task ids, hashes, sets, and sorted sets of strings (agendas and rosters); a
  sorted set of strings is the list of its members with their scores.
\<close>

record redis =
  rd_zset :: "string \<Rightarrow> zset"
  rd_hash :: "string \<Rightarrow> redis_hash"
  rd_set :: "string \<Rightarrow> string list"
  rd_rank :: "string \<Rightarrow> (string \<times> int) list"

datatype redis_cmd = CZAdd string int int | CZRem string int
  | CHSet string "(string \<times> string) list" | CHDel string "string list"
  | CDel string | CZAddS string string int | CSAdd string string | CSRem string string

definition rank_add :: "(string \<times> int) list \<Rightarrow> string \<Rightarrow> int \<Rightarrow> (string \<times> int) list" where
  "rank_add z m s = filter (\<lambda>p. fst p \<noteq> m) z @ [(m, s)]"

fun redis_step :: "redis \<Rightarrow> redis_cmd \<Rightarrow> redis" where
  "redis_step r (CZAdd key m s) = r\<lparr>rd_zset := (rd_zset r)(key := ZAdd (rd_zset r key) m s)\<rparr>"
| "redis_step r (CZRem key m) = r\<lparr>rd_zset := (rd_zset r)(key := ZRem (rd_zset r key) m)\<rparr>"
| "redis_step r (CHSet key fs) = r\<lparr>rd_hash := (rd_hash r)(key := HSet (rd_hash r key) fs)\<rparr>"
| "redis_step r (CHDel key ks) = r\<lparr>rd_hash := (rd_hash r)(key := HDel (rd_hash r key) ks)\<rparr>"
| "redis_step r (CDel key) = r\<lparr>rd_zset := (rd_zset r)(key := []), rd_hash := (rd_hash r)(key := []),
     rd_set := (rd_set r)(key := []), rd_rank := (rd_rank r)(key := [])\<rparr>"
| "redis_step r (CZAddS key m s) = r\<lparr>rd_rank := (rd_rank r)(key := rank_add (rd_rank r key) m s)\<rparr>"
| "redis_step r (CSAdd key m) = r\<lparr>rd_set := (rd_set r)(key := List.insert m (rd_set r key))\<rparr>"
| "redis_step r (CSRem key m) = r\<lparr>rd_set := (rd_set r)(key := removeAll m (rd_set r key))\<rparr>"

definition redis_run :: "redis_cmd list \<Rightarrow> redis \<Rightarrow> redis" where
  "redis_run cs r = foldl redis_step r cs"

section \<open>The whole state\<close>

datatype outcome = Done | Failed | Lost

record world =
  w_tasks :: "task_row list"
  w_assignments :: "assignment_row list"
  w_campaigns :: "campaign_row list"
  w_redis :: redis
  w_pipe :: "redis_cmd list"
  w_sent :: "(string \<times> string) list"
  w_faults :: "outcome list"

text \<open>The outcome of the next access; when the list is used up, everything succeeds.\<close>

definition next_outcome :: "world \<Rightarrow> outcome \<times> world" where
  "next_outcome w = (case w_faults w of [] \<Rightarrow> (Done, w) | f # fs \<Rightarrow> (f, w\<lparr>w_faults := fs\<rparr>))"

text \<open>One Redis command or pipeline, its error reported as \<open>True\<close>.\<close>

definition redis_exec :: "redis_cmd list \<Rightarrow> world \<Rightarrow> bool \<times> world" where
  "redis_exec cs w =
     (case next_outcome w of (oc, w) \<Rightarrow>
        (oc \<noteq> Done, if oc = Failed then w else w\<lparr>w_redis := redis_run cs (w_redis w)\<rparr>))"

text \<open>One statement \<open>UPDATE tasks\<close> or \<open>UPDATE task_assignments\<close> outside a transaction.\<close>

definition exec_tasks :: "(task_row \<Rightarrow> bool) \<Rightarrow> (task_row \<Rightarrow> task_row) \<Rightarrow> world \<Rightarrow> bool \<times> world" where
  "exec_tasks p f w =
     (case next_outcome w of (oc, w) \<Rightarrow>
        (oc \<noteq> Done, if oc = Failed then w else w\<lparr>w_tasks := fst (sql_update p f (w_tasks w))\<rparr>))"

definition exec_assignments ::
  "(assignment_row \<Rightarrow> bool) \<Rightarrow> (assignment_row \<Rightarrow> assignment_row) \<Rightarrow> world \<Rightarrow> bool \<times> world" where
  "exec_assignments p f w =
     (case next_outcome w of (oc, w) \<Rightarrow>
        (oc \<noteq> Done, if oc = Failed then w
           else w\<lparr>w_assignments := fst (sql_update p f (w_assignments w))\<rparr>))"

section \<open>Services\<close>

text \<open>
  What the program calls and this development does not define: sorting, elementary functions,
  encoders and decoders, the signing key and the environment's configuration.
\<close>

record lease_config =
  lc_TTL :: duration
  lc_Interval :: duration
  lc_BackoffBase :: duration
  lc_MaxFailures :: int

record assign_payload =
  ap_TaskID :: int
  ap_CampaignID :: string
  ap_Priority :: int
  ap_Name :: string
  ap_IntegrationTime :: f64
  ap_RequiredFilters :: "string list"
  ap_TargetRA :: "f64 option"
  ap_TargetDec :: "f64 option"
  ap_MinAltitudeDeg :: "f64 option"
  ap_HandoffUrgency :: string
  ap_ScheduledEndAt :: "string option"
  ap_PierCodeGrants :: grants
  ap_PierCode :: "pier_code_ref option"
  ap_PierCodeDisabled :: bool

record preempt_payload =
  pp_PrevTaskID :: int
  pp_NewTask :: assign_payload

datatype command_payload = AssignTask assign_payload | PreemptTask preempt_payload

text \<open>The two blocks that \<open>applyCoverageFromPack\<close> decodes from a pack.\<close>

record coverage_block =
  cb_Enabled :: bool
  cb_Mode :: string

record coverage_plan_block =
  cp_Primary :: "string list"
  cp_Redundant :: "string list"

record services =
  sv_math :: mathlib
  sv_sort_sel :: "(selector_result \<Rightarrow> selector_result \<Rightarrow> bool) \<Rightarrow> selector_result list \<Rightarrow> selector_result list"
  sv_sort_plan :: "(plan_task \<Rightarrow> plan_task \<Rightarrow> bool) \<Rightarrow> plan_task list \<Rightarrow> plan_task list"
  sv_sort_slot :: "(agenda_slot \<Rightarrow> agenda_slot \<Rightarrow> bool) \<Rightarrow> agenda_slot list \<Rightarrow> agenda_slot list"
  sv_sort_standby :: "(standby_entry \<Rightarrow> standby_entry \<Rightarrow> bool) \<Rightarrow> standby_entry list \<Rightarrow> standby_entry list"
  sv_hmac :: "string \<Rightarrow> string \<Rightarrow> string"
  sv_format_time :: "gotime \<Rightarrow> string"
  sv_parse_time :: "string \<Rightarrow> gotime option"
  sv_parse_nano :: "string \<Rightarrow> gotime option"
  sv_parse_float :: "string \<Rightarrow> f64 option"
  sv_format_f0 :: "f64 \<Rightarrow> string"
  sv_format_float :: "f64 \<Rightarrow> string"
  sv_parse_strings :: "string \<Rightarrow> string list option"
  sv_marshal_strings :: "string list \<Rightarrow> string"
  sv_decode_mask :: "string \<Rightarrow> string + obstruction_mask"
  sv_decode_mount :: "string \<Rightarrow> mount_limits option"
  sv_decode_horizon :: "string \<Rightarrow> horizon_profile option"
  sv_decode_pack :: "string \<Rightarrow> pack option"
  sv_decode_coverage :: "string \<Rightarrow> (coverage_block option \<times> coverage_plan_block option) option"
  sv_parse_uri :: "string \<Rightarrow> url option"
  sv_parse_ip :: "string \<Rightarrow> ip option"
  sv_marshal_payload :: "command_payload \<Rightarrow> string option"
  sv_marshal_command :: "command \<Rightarrow> string option"
  sv_marshal_slot :: "agenda_slot \<Rightarrow> string option"
  sv_marshal_mask :: "obstruction_mask \<Rightarrow> string"
  sv_marshal_mount :: "mount_limits \<Rightarrow> string"
  sv_marshal_horizon :: "horizon_profile \<Rightarrow> string"
  sv_secret :: string
  sv_dev_mode :: bool
  sv_handoff :: handoff_config
  sv_lease :: lease_config
  sv_PreemptThreshold :: int
  sv_SlewNearbyMs :: int

section \<open>Lemmas\<close>

lemma next_outcome_keeps [simp]:
  assumes "next_outcome w = (oc, w')"
  shows "w_tasks w' = w_tasks w" "w_assignments w' = w_assignments w" "w_campaigns w' = w_campaigns w"
    "w_redis w' = w_redis w" "w_pipe w' = w_pipe w" "w_sent w' = w_sent w"
  using assms by (auto simp: next_outcome_def split: list.splits)

lemma redis_exec_keeps:
  assumes "redis_exec cs w = (e, w')"
  shows "w_tasks w' = w_tasks w" "w_assignments w' = w_assignments w" "w_campaigns w' = w_campaigns w"
    "w_pipe w' = w_pipe w" "w_sent w' = w_sent w"
    "w_redis w' = w_redis w \<or> w_redis w' = redis_run cs (w_redis w)"
    "\<not> e \<Longrightarrow> w_redis w' = redis_run cs (w_redis w)"
  using assms by (auto simp: redis_exec_def split: prod.splits if_splits)

lemma exec_tasks_keeps:
  assumes "exec_tasks p f w = (e, w')"
  shows "w_assignments w' = w_assignments w" "w_campaigns w' = w_campaigns w"
    "w_redis w' = w_redis w" "w_pipe w' = w_pipe w" "w_sent w' = w_sent w"
    "w_tasks w' = w_tasks w \<or> w_tasks w' = fst (sql_update p f (w_tasks w))"
    "\<not> e \<Longrightarrow> w_tasks w' = fst (sql_update p f (w_tasks w))"
  using assms by (auto simp: exec_tasks_def split: prod.splits if_splits)

lemma exec_assignments_keeps:
  assumes "exec_assignments p f w = (e, w')"
  shows "w_tasks w' = w_tasks w" "w_campaigns w' = w_campaigns w"
    "w_redis w' = w_redis w" "w_pipe w' = w_pipe w" "w_sent w' = w_sent w"
    "w_assignments w' = w_assignments w \<or> w_assignments w' = fst (sql_update p f (w_assignments w))"
    "\<not> e \<Longrightarrow> w_assignments w' = fst (sql_update p f (w_assignments w))"
  using assms by (auto simp: exec_assignments_def split: prod.splits if_splits)

lemma no_faults [simp]: "w_faults w = [] \<Longrightarrow> next_outcome w = (Done, w)"
  by (simp add: next_outcome_def)

lemma redis_key_distinct [simp]:
  "RedisQueuedTasks \<noteq> RedisQueuedPlanned" "RedisQueuedPlanned \<noteq> RedisQueuedTasks"
  "RedisQueuedTasks \<noteq> RedisInflightTasks" "RedisInflightTasks \<noteq> RedisQueuedTasks"
  "RedisQueuedTasks \<noteq> RedisActiveTasks" "RedisActiveTasks \<noteq> RedisQueuedTasks"
  "RedisQueuedPlanned \<noteq> RedisInflightTasks" "RedisInflightTasks \<noteq> RedisQueuedPlanned"
  "RedisInflightTasks \<noteq> RedisActiveTasks" "RedisActiveTasks \<noteq> RedisInflightTasks"
  "RedisQueuedPlanned \<noteq> RedisActiveTasks" "RedisActiveTasks \<noteq> RedisQueuedPlanned"
  by (simp_all add: redis_names)


text \<open>An instance, for examples.\<close>

definition demo_services :: services where
  "demo_services = \<lparr>sv_math = demo_math, sv_sort_sel = SliceStable, sv_sort_plan = SliceStable,
     sv_sort_slot = SliceStable, sv_sort_standby = SliceStable, sv_hmac = (\<lambda>k m. k @ m),
     sv_format_time = (\<lambda>_. ''t''), sv_parse_time = (\<lambda>_. Some 0), sv_parse_nano = (\<lambda>_. None),
     sv_parse_float = (\<lambda>s. if s = ''1'' then Some (Fin 1) else None), sv_format_f0 = (\<lambda>_. ''1''),
     sv_format_float = (\<lambda>_. ''1''), sv_parse_strings = (\<lambda>s. if s = ''[c1]'' then Some [''c1''] else None),
     sv_marshal_strings = (\<lambda>_. ''[c1]''), sv_decode_mask = (\<lambda>_. Inl []), sv_decode_mount = (\<lambda>_. None),
     sv_decode_horizon = (\<lambda>_. None), sv_decode_pack = (\<lambda>_. None), sv_decode_coverage = (\<lambda>_. None),
     sv_parse_uri = (\<lambda>_. None), sv_parse_ip = (\<lambda>_. None), sv_marshal_payload = (\<lambda>_. Some ''p''),
     sv_marshal_command = (\<lambda>c. Some (cmd_Type c)), sv_marshal_slot = (\<lambda>s. Some (Itoa (as_TaskID s))),
     sv_marshal_mask = (\<lambda>_. ''m''), sv_marshal_mount = (\<lambda>_. ''l''), sv_marshal_horizon = (\<lambda>_. ''h''),
     sv_secret = ''k'', sv_dev_mode = False, sv_handoff = env_handoff_config (\<lambda>_. []),
     sv_lease = \<lparr>lc_TTL = 15 * minute, lc_Interval = minute, lc_BackoffBase = 2 * minute, lc_MaxFailures = 5\<rparr>,
     sv_PreemptThreshold = 10, sv_SlewNearbyMs = 5000\<rparr>"

definition demo_columns :: task_columns where
  "demo_columns = \<lparr>tc_name = ''M31'', tc_integration_time = None, tc_min_power = None, tc_target_magnitude = None,
     tc_required_filters = [], tc_target_ra = None, tc_target_dec = None, tc_min_altitude_deg = None,
     tc_allow_emulator = False, tc_min_aperture_mm = None, tc_min_sub_exposure_s = None,
     tc_min_resolution_arcsec = None, tc_max_resolution_arcsec = None, tc_min_psf_fwhm_arcsec = None,
     tc_max_psf_fwhm_arcsec = None, tc_required_fov_width_arcmin = None,
     tc_required_fov_height_arcmin = None, tc_science_band = None, tc_user_end_at = None,
     tc_emergency_handoff_requested_at = None\<rparr>"

definition demo_task :: "int \<Rightarrow> task_row" where
  "demo_task i = \<lparr>tk_id = i, tk_status = TaskStatusPending, tk_assigned = None, tk_priority = 5,
     tk_failure_count = 0, tk_last_attempt = None, tk_scheduled_end = None, tk_handoff_lead = None,
     tk_campaign = None, tk_columns = demo_columns, tk_updated = 0\<rparr>"

definition demo_world :: world where
  "demo_world = \<lparr>w_tasks = [demo_task 1], w_assignments = [], w_campaigns = [],
     w_redis = \<lparr>rd_zset = (\<lambda>_. []), rd_hash = (\<lambda>_. []), rd_set = (\<lambda>_. []), rd_rank = (\<lambda>_. [])\<rparr>,
     w_pipe = [], w_sent = [], w_faults = []\<rparr>"

end
