(* ===== verification/Lease.thy ===== *)
theory Lease
  imports Store
begin

text \<open>
  The lease and retry policy (\<open>cmd/orchestrator/orchestrator_reclaim.go\<close>, its pure helpers): how long a
  lease runs, the exponential backoff after a lost lease, and what a lost lease does to its task.
  The shift in \<open>backoffWindow\<close> wraps as it does on a 64-bit integer.
\<close>

definition leaseConfigFromEnv :: "(string \<Rightarrow> duration \<Rightarrow> duration) \<Rightarrow> (string \<Rightarrow> int \<Rightarrow> int) \<Rightarrow> lease_config" where
  "leaseConfigFromEnv env_duration env_int =
     \<lparr>lc_TTL = env_duration ''TASK_LEASE_TTL'' (15 * minute),
      lc_Interval = env_duration ''TASK_RECLAIM_INTERVAL'' (60 * second),
      lc_BackoffBase = env_duration ''TASK_RECLAIM_BACKOFF_BASE'' (2 * minute),
      lc_MaxFailures = env_int ''TASK_MAX_FAILURES'' 5\<rparr>"

text \<open>\<open>envDuration\<close>: an unset or unreadable variable gives the default.\<close>

definition envDuration ::
  "(string \<Rightarrow> string) \<Rightarrow> (string \<Rightarrow> duration option) \<Rightarrow> string \<Rightarrow> duration \<Rightarrow> duration" where
  "envDuration env parse_duration key def =
     (let v = env key in if v = [] then def
      else (case parse_duration v of None \<Rightarrow> def | Some d \<Rightarrow> d))"

definition leaseExpiry :: "lease_config \<Rightarrow> gotime \<Rightarrow> gotime" where
  "leaseExpiry C now = now + (if lc_TTL C \<le> 0 then 15 * minute else lc_TTL C)"

definition backoffWindowCap :: duration where
  "backoffWindowCap = 30 * minute"

definition backoffWindow :: "duration \<Rightarrow> int \<Rightarrow> duration" where
  "backoffWindow base failureCount =
     (if base \<le> 0 then 0
      else (let failureCount = (if failureCount < 0 then 0 else failureCount) in
        if failureCount > 20 then backoffWindowCap
        else (let w = wrap64 (base * 2 ^ nat failureCount) in
          if w \<le> 0 \<or> w > backoffWindowCap then backoffWindowCap else w)))"

definition taskInBackoff :: "gotime \<Rightarrow> duration \<Rightarrow> int \<Rightarrow> gotime \<Rightarrow> bool" where
  "taskInBackoff lastAttempt base failureCount now =
     (if is_zero_time lastAttempt then False
      else (let w = backoffWindow base failureCount in
        if w \<le> 0 then False else now - lastAttempt < w))"

definition leaseExpired :: "gotime \<Rightarrow> gotime \<Rightarrow> bool" where
  "leaseExpired leaseExpiresAt now \<longleftrightarrow> \<not> is_zero_time leaseExpiresAt \<and> leaseExpiresAt < now"

definition leaseReclaimTerminal :: "int \<Rightarrow> int \<Rightarrow> bool" where
  "leaseReclaimTerminal failureCount maxFailures \<longleftrightarrow> maxFailures > 0 \<and> failureCount \<ge> maxFailures"

record reclaim_action =
  ra_RequeueTask :: bool
  ra_TerminalExpire :: bool

definition no_action :: reclaim_action where
  "no_action = \<lparr>ra_RequeueTask = False, ra_TerminalExpire = False\<rparr>"

definition decideReclaim :: "int \<Rightarrow> int \<Rightarrow> int \<Rightarrow> reclaim_action" where
  "decideReclaim activeAssigneesLeft newFailureCount maxFailures =
     (if activeAssigneesLeft > 0 then no_action
      else if leaseReclaimTerminal newFailureCount maxFailures then no_action\<lparr>ra_TerminalExpire := True\<rparr>
      else no_action\<lparr>ra_RequeueTask := True\<rparr>)"

section \<open>Lemmas\<close>

lemma backoffWindow_range: "0 < base \<Longrightarrow> 0 < backoffWindow base n \<and> backoffWindow base n \<le> backoffWindowCap"
  by (simp add: backoffWindow_def Let_def backoffWindowCap_def)

lemma backoffWindow_exact:
  assumes "0 < base" "base < 2 ^ 43"
  shows "backoffWindow base n = (if n \<le> 20 then min (base * 2 ^ nat n) backoffWindowCap else backoffWindowCap)"
proof (cases "n \<le> 20")
  case True
  define k where "k = nat (if n < 0 then 0 else n)"
  have k: "k \<le> 20" "nat n = k" using True by (auto simp: k_def)
  have "base * 2 ^ k \<le> base * 2 ^ 20"
    using k(1) assms(1) by (intro mult_left_mono power_increasing) auto
  also have "\<dots> < 2 ^ 63" using assms(2) by simp
  finally have less: "base * 2 ^ k < 2 ^ 63" .
  have pos: "0 < base * 2 ^ k" using assms(1) by simp
  with less have "int64_ok (base * 2 ^ k)" unfolding int64_ok_def
    by (intro conjI order_trans [of "- (2 ^ 63)" 0 "base * 2 ^ k"]) simp_all
  then have w: "wrap64 (base * 2 ^ k) = base * 2 ^ k" by (rule wrap64_id)
  have "backoffWindow base n = (if base * 2 ^ k \<le> 0 \<or> backoffWindowCap < base * 2 ^ k
      then backoffWindowCap else base * 2 ^ k)"
    using True assms(1) unfolding backoffWindow_def Let_def k_def [symmetric] w by simp
  with pos True k show ?thesis by (simp add: min_def)
next
  case False
  then show ?thesis using assms(1) by (simp add: backoffWindow_def)
qed

section \<open>Properties\<close>

text \<open>For every base between a millisecond and two to the 43 nanoseconds (about 2.4 hours) the
  backoff after n lost leases is the base times two to the n, capped at thirty minutes: it never
  decreases with n, and a task is in backoff exactly until that window after its last attempt ends.\<close>

theorem backoff_capped_exponential:
  assumes "millisecond \<le> base" "base < 2 ^ 43" "0 \<le> n"
  shows "backoffWindow base n = min (base * 2 ^ nat n) (30 * minute) \<and>
    backoffWindow base n \<le> backoffWindow base (n + 1) \<and>
    (\<not> is_zero_time t \<longrightarrow>
      (taskInBackoff t base n now \<longleftrightarrow> now < t + min (base * 2 ^ nat n) (30 * minute)))"
proof -
  have exact: "backoffWindow base m = min (base * 2 ^ nat m) (30 * minute)" if "0 \<le> m" for m
  proof (cases "m \<le> 20")
    case True
    then show ?thesis using assms by (simp add: backoffWindow_exact backoffWindowCap_def)
  next
    case False
    then have "(2::int) ^ 21 \<le> 2 ^ nat m" by (intro power_increasing) auto
    then have "millisecond * 2 ^ 21 \<le> base * 2 ^ nat m" using assms(1) by (intro mult_mono) auto
    then show ?thesis using False assms by (simp add: backoffWindow_exact backoffWindowCap_def)
  qed
  have e: "backoffWindow base n = min (base * 2 ^ nat n) (30 * minute)" by (rule exact [OF assms(3)])
  have "base * 2 ^ nat n \<le> base * 2 ^ nat (n + 1)"
    using assms by (intro mult_left_mono power_increasing) auto
  then have "backoffWindow base n \<le> backoffWindow base (n + 1)"
    using assms(3) by (simp add: exact min_le_iff_disj)
  moreover have "0 < backoffWindow base n" using backoffWindow_range [of base n] assms(1) by simp
  then have "\<not> is_zero_time t \<longrightarrow>
      (taskInBackoff t base n now \<longleftrightarrow> now < t + min (base * 2 ^ nat n) (30 * minute))"
    unfolding e [symmetric] taskInBackoff_def by (auto simp: Let_def)
  ultimately show ?thesis using e by blast
qed

theorem backoff_capped_exponential_witness:
  "backoffWindow (2 * minute) 3 = 16 * minute \<and> taskInBackoff 0 (2 * minute) 3 (15 * minute)
     \<and> \<not> taskInBackoff 0 (2 * minute) 3 (16 * minute)"
  using backoff_capped_exponential [of "2 * minute" 3 0 "15 * minute"]
    backoff_capped_exponential [of "2 * minute" 3 0 "16 * minute"]
  by (simp add: is_zero_time_def zero_time_def)

text \<open>The guard on the shift is not enough for a larger base: with a base of two to the 44
  nanoseconds plus one (about 4.9 hours) and twenty lost leases the shift wraps to about one
  millisecond, far below the cap it should reach.\<close>

theorem backoff_shift_wraps:
  "backoffWindow (2 ^ 44 + 1) 20 = 2 ^ 20 \<and> backoffWindow (2 ^ 44 + 1) 20 < backoffWindow (2 ^ 44 + 1) 19"
  by (simp add: backoffWindow_def wrap64_def backoffWindowCap_def)

end
