(* ===== verification/Payload.thy ===== *)
theory Payload
  imports Lease
begin

text \<open>
  Loading a task for assignment (\<open>orchestrator_pg.go\<close>: \<open>fetchTaskNotifyPayload\<close> and the pack readers;
  \<open>orchestrator_lanes.go\<close>: the season of a payload).
\<close>

section \<open>Reading the campaign pack\<close>

definition applyPierCodeFromPack :: "services \<Rightarrow> notify_payload \<Rightarrow> string \<Rightarrow> notify_payload" where
  "applyPierCodeFromPack S p packJSON =
     (if packJSON = [] then p
      else (case ParsePack (sv_decode_pack S) packJSON of
          Inl _ \<Rightarrow> p
        | Inr pk \<Rightarrow> p\<lparr>np_PierCodeGrants :=
              (case EffectivePierCodeGrants (Some pk) of None \<Rightarrow> Map.empty | Some g \<Rightarrow> g),
            np_PierCode := EffectivePierCodeArtifact (sv_parse_uri S) (sv_parse_ip S) (Some pk)\<rparr>))"

definition applyCoverageFromPack :: "services \<Rightarrow> notify_payload \<Rightarrow> string \<Rightarrow> notify_payload" where
  "applyCoverageFromPack S p packJSON =
     (if packJSON = [] then p
      else (case sv_decode_coverage S packJSON of
          None \<Rightarrow> p
        | Some (cov, plan) \<Rightarrow>
            (case cov of None \<Rightarrow> p
             | Some c \<Rightarrow>
                 if \<not> cb_Enabled c then p
                 else (let p = p\<lparr>np_CoverageEnabled := True,
                         np_CoverageHardMode := EqualFold (TrimSpace (cb_Mode c)) ''hard''\<rparr> in
                   case plan of None \<Rightarrow> p
                   | Some pl \<Rightarrow> p\<lparr>np_CoveragePrimary := cp_Primary pl, np_CoverageRedundant := cp_Redundant pl\<rparr>))))"

definition max_target_cadence :: "int \<Rightarrow> pack_target list \<Rightarrow> int" where
  "max_target_cadence c ts = foldl (\<lambda>c t. if pk_CadenceGoalMin t > c then pk_CadenceGoalMin t else c) c ts"

definition applySeasonFromPack :: "services \<Rightarrow> notify_payload \<Rightarrow> string \<Rightarrow> notify_payload" where
  "applySeasonFromPack S p packJSON =
     (if packJSON = [] then p
      else (case ParsePack (sv_decode_pack S) packJSON of
          Inl _ \<Rightarrow> p
        | Inr pk \<Rightarrow> (case pack_Season pk of None \<Rightarrow> p
            | Some s \<Rightarrow>
                (let i = FromPackSeason (Some s);
                     c = si_CadenceGoalMin i;
                     c = (if c \<le> 0 then max_target_cadence c (pack_Targets pk) else c)
                 in p\<lparr>np_SeasonKind := si_Kind i, np_SeasonUrgency := si_Urgency i,
                      np_SeasonCadenceGoalMin := c, np_SeasonWindowStart := si_WindowStart i,
                      np_SeasonWindowEnd := si_WindowEnd i\<rparr>))))"

definition seasonInputsFromPayload :: "notify_payload \<Rightarrow> season_inputs" where
  "seasonInputsFromPayload p =
     \<lparr>si_Kind = np_SeasonKind p, si_Urgency = np_SeasonUrgency p,
      si_CadenceGoalMin = np_SeasonCadenceGoalMin p, si_WindowStart = np_SeasonWindowStart p,
      si_WindowEnd = np_SeasonWindowEnd p,
      si_EmergencyHandoff = (np_EmergencyHandoffRequestedAt p \<noteq> None)\<rparr>"

section \<open>Loading a task\<close>

definition blank_payload :: notify_payload where
  "blank_payload =
     \<lparr>np_TaskID = 0, np_Priority = 0, np_Name = [], np_MinPower = None, np_TargetMagnitude = None,
      np_RequiredFilters = [], np_IntegrationTime = None, np_TargetRA = None, np_TargetDec = None,
      np_MinAltitudeDeg = None, np_AllowEmulator = False, np_MinApertureMM = None,
      np_MinSubExposureS = None, np_MinResolutionArcsec = None, np_MaxResolutionArcsec = None,
      np_MinPSFFWHMArcsec = None, np_MaxPSFFWHMArcsec = None, np_RequiredFOVWidthArcmin = None,
      np_RequiredFOVHeightArcmin = None, np_ScienceBand = [], np_CampaignID = [], np_CreatedAt = [],
      np_ScheduledEndAt = None, np_UserEndAt = None, np_HandoffLeadSeconds = None,
      np_EmergencyHandoffRequestedAt = None, np_CoverageEnabled = False, np_CoveragePrimary = [],
      np_CoverageRedundant = [], np_CoverageHardMode = False, np_SeasonKind = [], np_SeasonUrgency = [],
      np_SeasonCadenceGoalMin = 0, np_SeasonWindowStart = None, np_SeasonWindowEnd = None,
      np_PierCodeGrants = Map.empty, np_PierCodeDisabled = False, np_PierCode = None\<rparr>"

text \<open>The columns that the query scans into the payload, and those it copies after the checks.\<close>

definition payload_of_row :: "task_row \<Rightarrow> notify_payload" where
  "payload_of_row t =
     (let c = tk_columns t in blank_payload
      \<lparr>np_TaskID := tk_id t, np_Name := tc_name c, np_Priority := tk_priority t,
       np_MinApertureMM := tc_min_aperture_mm c, np_MinSubExposureS := tc_min_sub_exposure_s c,
       np_MinResolutionArcsec := tc_min_resolution_arcsec c,
       np_MaxResolutionArcsec := tc_max_resolution_arcsec c,
       np_MinPSFFWHMArcsec := tc_min_psf_fwhm_arcsec c, np_MaxPSFFWHMArcsec := tc_max_psf_fwhm_arcsec c,
       np_RequiredFOVWidthArcmin := tc_required_fov_width_arcmin c,
       np_RequiredFOVHeightArcmin := tc_required_fov_height_arcmin c,
       np_ScienceBand := (case tc_science_band c of None \<Rightarrow> [] | Some b \<Rightarrow> b),
       np_IntegrationTime := tc_integration_time c, np_MinPower := tc_min_power c,
       np_RequiredFilters := tc_required_filters c, np_TargetRA := tc_target_ra c,
       np_TargetDec := tc_target_dec c, np_MinAltitudeDeg := tc_min_altitude_deg c,
       np_AllowEmulator := tc_allow_emulator c,
       np_CampaignID := (case tk_campaign t of None \<Rightarrow> [] | Some c \<Rightarrow> c),
       np_ScheduledEndAt := tk_scheduled_end t, np_UserEndAt := tc_user_end_at c,
       np_HandoffLeadSeconds := tk_handoff_lead t,
       np_EmergencyHandoffRequestedAt := tc_emergency_handoff_requested_at c\<rparr>)"

text \<open>The campaign of the \<open>LEFT JOIN\<close>.\<close>

definition campaign_of :: "world \<Rightarrow> task_row \<Rightarrow> campaign_row option" where
  "campaign_of w t =
     (case tk_campaign t of None \<Rightarrow> None | Some c \<Rightarrow> sql_find (\<lambda>r. ca_id r = c) (w_campaigns w))"

datatype fetch_task_error = QueryFailed | NoRows

definition hydrate :: "services \<Rightarrow> campaign_row option \<Rightarrow> task_row \<Rightarrow> notify_payload" where
  "hydrate S cam t =
     (let packJSON = (case cam of None \<Rightarrow> ''{}'' | Some c \<Rightarrow> ca_pack c);
          disabled = (case cam of None \<Rightarrow> False | Some c \<Rightarrow> ca_pier_code_disabled c)
      in (applyPierCodeFromPack S (applySeasonFromPack S (applyCoverageFromPack S (payload_of_row t) packJSON)
            packJSON) packJSON)\<lparr>np_PierCodeDisabled := disabled\<rparr>)"

text \<open>The guards after the read: the retry backoff and the campaign's status.\<close>

definition row_in_backoff :: "services \<Rightarrow> gotime \<Rightarrow> task_row \<Rightarrow> bool" where
  "row_in_backoff S now t =
     (case tk_last_attempt t of None \<Rightarrow> False
      | Some l \<Rightarrow> taskInBackoff l (lc_BackoffBase (sv_lease S)) (tk_failure_count t) now)"

definition row_campaign_allows :: "campaign_row option \<Rightarrow> bool" where
  "row_campaign_allows cam = AllowsAssign (case cam of None \<Rightarrow> [] | Some c \<Rightarrow> ca_status c)"

text \<open>The result is the payload, if the task may be assigned now, and whether it stays queued.\<close>

definition fetch_row ::
  "services \<Rightarrow> gotime \<Rightarrow> campaign_row option \<Rightarrow> task_row \<Rightarrow> notify_payload option \<times> bool" where
  "fetch_row S now cam t =
     (if \<not> TaskAssignable (tk_status t) (tk_assigned t) then (None, False)
      else if row_in_backoff S now t then (None, True)
      else if \<not> row_campaign_allows cam then (None, True)
      else (Some (hydrate S cam t), False))"

definition fetchTaskNotifyPayload ::
  "services \<Rightarrow> gotime \<Rightarrow> int \<Rightarrow> world \<Rightarrow> (fetch_task_error + notify_payload option \<times> bool) \<times> world" where
  "fetchTaskNotifyPayload S now taskID w =
     (case next_outcome w of (oc, w) \<Rightarrow>
        if oc \<noteq> Done then (Inl QueryFailed, w)
        else (case sql_find (\<lambda>r. tk_id r = taskID) (w_tasks w) of
            None \<Rightarrow> (Inl NoRows, w)
          | Some t \<Rightarrow> (Inr (fetch_row S now (campaign_of w t) t), w)))"

section \<open>Lemmas\<close>

lemma snd_fetch: "snd (fetchTaskNotifyPayload S now taskID w) = snd (next_outcome w)"
proof (cases "next_outcome w")
  case (Pair oc w1)
  then show ?thesis by (simp add: fetchTaskNotifyPayload_def split: option.split)
qed

lemma fetch_keeps:
  assumes "fetchTaskNotifyPayload S now taskID w = (r, w')"
  shows "w_tasks w' = w_tasks w" "w_assignments w' = w_assignments w" "w_campaigns w' = w_campaigns w"
    "w_redis w' = w_redis w" "w_pipe w' = w_pipe w" "w_sent w' = w_sent w"
proof -
  have "next_outcome w = (fst (next_outcome w), w')" using snd_fetch [of S now taskID w] assms by (metis prod.collapse snd_conv)
  then show "w_tasks w' = w_tasks w" "w_assignments w' = w_assignments w" "w_campaigns w' = w_campaigns w"
    "w_redis w' = w_redis w" "w_pipe w' = w_pipe w" "w_sent w' = w_sent w" by simp_all
qed

lemma apply_keeps:
  "np_TaskID (applyPierCodeFromPack S p js) = np_TaskID p"
  "np_Priority (applyPierCodeFromPack S p js) = np_Priority p"
  "np_TargetMagnitude (applyPierCodeFromPack S p js) = np_TargetMagnitude p"
  "np_CampaignID (applyPierCodeFromPack S p js) = np_CampaignID p"
  "np_TaskID (applySeasonFromPack S p js) = np_TaskID p"
  "np_Priority (applySeasonFromPack S p js) = np_Priority p"
  "np_TargetMagnitude (applySeasonFromPack S p js) = np_TargetMagnitude p"
  "np_CampaignID (applySeasonFromPack S p js) = np_CampaignID p"
  "np_TaskID (applyCoverageFromPack S p js) = np_TaskID p"
  "np_Priority (applyCoverageFromPack S p js) = np_Priority p"
  "np_TargetMagnitude (applyCoverageFromPack S p js) = np_TargetMagnitude p"
  "np_CampaignID (applyCoverageFromPack S p js) = np_CampaignID p"
  by (simp_all add: applyPierCodeFromPack_def applySeasonFromPack_def applyCoverageFromPack_def Let_def
      split: option.split sum.split prod.split)

lemma hydrate_keeps:
  "np_TaskID (hydrate S cam t) = tk_id t" "np_Priority (hydrate S cam t) = tk_priority t"
  "np_TargetMagnitude (hydrate S cam t) = None"
  "np_CampaignID (hydrate S cam t) = (case tk_campaign t of None \<Rightarrow> [] | Some c \<Rightarrow> c)"
  by (simp_all add: hydrate_def Let_def apply_keeps payload_of_row_def blank_payload_def)

lemma fetch_Some:
  assumes "fetchTaskNotifyPayload S now taskID w = (Inr (Some p, rq), w')"
  obtains t where "t \<in> set (w_tasks w)" "tk_id t = taskID" "TaskAssignable (tk_status t) (tk_assigned t)"
    "p = hydrate S (campaign_of w t) t" "\<not> rq"
    "row_campaign_allows (campaign_of w t)" "\<not> row_in_backoff S now t"
proof -
  obtain oc w1 where o: "next_outcome w = (oc, w1)" by force
  then have t1: "w_tasks w1 = w_tasks w" "w_campaigns w1 = w_campaigns w" by simp_all
  have cam: "campaign_of w1 t = campaign_of w t" for t unfolding campaign_of_def t1 ..
  from assms o obtain t where t: "sql_find (\<lambda>r. tk_id r = taskID) (w_tasks w1) = Some t"
    by (auto simp: fetchTaskNotifyPayload_def split: if_splits option.splits)
  show thesis
  proof (rule that [of t])
    show "t \<in> set (w_tasks w)" "tk_id t = taskID" using sql_find_Some [OF t] t1 by auto
    have eq: "fetch_row S now (campaign_of w t) t = (Some p, rq)"
      using assms o t cam by (simp add: fetchTaskNotifyPayload_def split: if_splits)
    then show "TaskAssignable (tk_status t) (tk_assigned t)" "p = hydrate S (campaign_of w t) t" "\<not> rq"
      "row_campaign_allows (campaign_of w t)" "\<not> row_in_backoff S now t"
      by (auto simp: fetch_row_def split: if_splits)
  qed
qed

end
