(* ===== verification/NodeCache.thy ===== *)
theory NodeCache
  imports Payload Selector
begin

text \<open>
  The node cache in Redis: filling it from the telescopes table (\<open>orchestrator_pg.go\<close>: \<open>warmCache\<close>),
  reading it back as node evaluations (\<open>orchestrator_assign.go\<close>: \<open>fetchAllNodeEvals\<close> and its parsers;
  \<open>orchestrator_lanes.go\<close>: \<open>attachPlanRemaining\<close>, \<open>loadStandbyRoster\<close>).  A hash that does not exist is
  the empty one, and a missing field reads as the empty string, as in a Go map.
\<close>

definition state_key :: "string \<Rightarrow> string" where
  "state_key nodeID = sprintf_s RedisNodeState [nodeID]"

definition meta_key :: "string \<Rightarrow> string" where
  "meta_key nodeID = sprintf_s RedisNodeMeta [nodeID]"

section \<open>Parsing fields\<close>

definition redisInt :: "redis_hash \<Rightarrow> string \<Rightarrow> int \<Rightarrow> int" where
  "redisInt values key fallback = (case Atoi (hget values key) of None \<Rightarrow> fallback | Some v \<Rightarrow> v)"

definition redisIntPtr :: "redis_hash \<Rightarrow> string \<Rightarrow> int option" where
  "redisIntPtr values key =
     (let v = hget values key in if v = [] \<or> v = ''<nil>'' then None else Atoi v)"

definition redisFloat :: "services \<Rightarrow> redis_hash \<Rightarrow> string \<Rightarrow> f64 \<Rightarrow> f64" where
  "redisFloat S values key fallback =
     (case sv_parse_float S (hget values key) of None \<Rightarrow> fallback | Some v \<Rightarrow> v)"

definition redisFloatPtr :: "services \<Rightarrow> redis_hash \<Rightarrow> string \<Rightarrow> f64 option" where
  "redisFloatPtr S values key =
     (let v = hget values key in if v = [] then None else sv_parse_float S v)"

definition positiveFloatPtr :: "services \<Rightarrow> redis_hash \<Rightarrow> string \<Rightarrow> f64 option" where
  "positiveFloatPtr S values key =
     (case redisFloatPtr S values key of None \<Rightarrow> None
      | Some n \<Rightarrow> if fle n (Fin 0) then None else Some n)"

text \<open>\<open>Duration.Minutes\<close>: whole minutes and nanoseconds are converted separately.\<close>

definition Minutes :: "duration \<Rightarrow> f64" where
  "Minutes d = (let m = sgn d * (\<bar>d\<bar> div minute); ns = d - m * minute
                in fadd (i2f m) (fdiv (i2f ns) (Fin 60000000000)))"

definition idleMinutes :: "services \<Rightarrow> string \<Rightarrow> gotime \<Rightarrow> f64 option" where
  "idleMinutes S value now =
     (if value = [] then None
      else (case sv_parse_time S value of None \<Rightarrow> None
        | Some ts \<Rightarrow> (let mins = Minutes (now - ts) in Some (if flt mins (Fin 0) then Fin 0 else mins))))"

definition redisStrings :: "services \<Rightarrow> string \<Rightarrow> string list" where
  "redisStrings S value =
     (if value = [] then [] else (case sv_parse_strings S value of None \<Rightarrow> [] | Some v \<Rightarrow> v))"

text \<open>The limits and whether they are readable.\<close>

definition parseMountLimits :: "services \<Rightarrow> string \<Rightarrow> mount_limits option \<times> bool" where
  "parseMountLimits S raw =
     (if TrimSpace raw = [] then (None, True)
      else (let limits = ParseMountLimits (sv_decode_mount S) raw in (limits, limits \<noteq> None)))"

definition parseHorizonProfile :: "services \<Rightarrow> string \<Rightarrow> horizon_profile option \<times> bool" where
  "parseHorizonProfile S raw =
     (if TrimSpace raw = [] then (None, True)
      else (let profile = ParseHorizonProfile (sv_decode_horizon S) raw in (profile, profile \<noteq> None)))"

section \<open>Reading the fleet\<close>

text \<open>The evaluation of one node; a node without state or with unreadable safety data is left out.\<close>

definition eval_fields ::
  "services \<Rightarrow> gotime \<Rightarrow> string \<Rightarrow> redis_hash \<Rightarrow> redis_hash \<Rightarrow> mount_limits option \<Rightarrow> horizon_profile option
   \<Rightarrow> obstruction_mask \<Rightarrow> node_eval" where
  "eval_fields S now nodeID state meta limits profile msk =
     \<lparr>ne_NodeID = nodeID, ne_Status = hget state ''status'', ne_Power = redisFloat S meta ''power'' (Fin 0),
      ne_LimitingMagnitude = redisFloatPtr S meta ''limiting_magnitude'',
      ne_CurrentTaskID = redisIntPtr state ''current_task_id'',
      ne_CurrentTaskPriority = redisIntPtr state ''current_task_priority'',
      ne_EstimatedStartupMS = redisInt state ''estimated_startup_ms'' 0,
      ne_QualityTier = hget meta ''quality_tier'',
      ne_ReliabilityScore = redisFloat S meta ''reliability_score'' (Fin 0),
      ne_MountAltDeg = redisFloatPtr S state ''mount_alt_deg'',
      ne_MountAzDeg = redisFloatPtr S state ''mount_az_deg'',
      ne_SiteLat = redisFloatPtr S meta ''site_lat'', ne_SiteLon = redisFloatPtr S meta ''site_lon'',
      ne_MountSlewRateDegS = redisFloatPtr S meta ''mount_slew_rate_deg_s'',
      ne_AvailableFilters = redisStrings S (hget meta ''available_filters''),
      ne_IsEmulator = (hget meta ''is_emulator'' = ''true'' \<or> hget meta ''is_emulator'' = ''1''
          \<or> HasPrefix nodeID ''emu_''),
      ne_ObstructionMask = msk, ne_MountLimits = limits, ne_HorizonProfile = profile,
      ne_ApertureMM = redisFloatPtr S meta ''aperture_mm'',
      ne_FocalLengthMM = redisFloatPtr S meta ''focal_length_mm'',
      ne_PixelSizeUM = redisFloatPtr S meta ''pixel_size_um'',
      ne_FOVWidthArcmin = redisFloatPtr S meta ''fov_width_arcmin'',
      ne_FOVHeightArcmin = redisFloatPtr S meta ''fov_height_arcmin'',
      ne_MountType = redisIntPtr meta ''mount_type'',
      ne_MaxStableExposureS = redisFloatPtr S meta ''max_stable_exposure_s'',
      ne_SiteSeeingArcsec = redisFloatPtr S meta ''median_seeing_arcsec'',
      ne_IdleSinceMinutes = idleMinutes S (hget state ''idle_since'') now,
      ne_EnabledCampaignIDs = redisStrings S (hget meta ''enabled_campaign_ids''),
      ne_PlanRemainingSec = positiveFloatPtr S state ''plan_remaining_sec''\<rparr>"

definition eval_node :: "services \<Rightarrow> gotime \<Rightarrow> redis \<Rightarrow> string \<Rightarrow> node_eval option" where
  "eval_node S now r nodeID =
     (let state = rd_hash r (state_key nodeID); meta = rd_hash r (meta_key nodeID) in
      if state = [] then None
      else (case parseMountLimits S (hget meta ''mount_limits'') of (limits, ok1) \<Rightarrow>
        if \<not> ok1 then None
        else (case parseHorizonProfile S (hget meta ''horizon_profile'') of (profile, ok2) \<Rightarrow>
          if \<not> ok2 then None
          else (case ParseObstructionMask (sv_decode_mask S) (hget meta ''obstruction_mask'') of
              Inl _ \<Rightarrow> None
            | Inr msk \<Rightarrow> Some (eval_fields S now nodeID state meta limits profile msk)))))"

definition fetchAllNodeEvals :: "services \<Rightarrow> gotime \<Rightarrow> world \<Rightarrow> node_eval list option \<times> world" where
  "fetchAllNodeEvals S now w =
     (case next_outcome w of (oc, w) \<Rightarrow>
        if oc \<noteq> Done then (None, w)
        else (let members = rd_set (w_redis w) RedisActiveNodes in
          if members = [] then (Some [], w)
          else (case next_outcome w of (oc, w) \<Rightarrow>
            if oc \<noteq> Done then (None, w)
            else (Some (List.map_filter (eval_node S now (w_redis w)) members), w))))"

definition filterNodesByCampaign :: "node_eval list \<Rightarrow> string \<Rightarrow> node_eval list" where
  "filterNodesByCampaign nodes campaignID =
     (if campaignID = [] then nodes
      else filter (\<lambda>n. NodeServesCampaign (ne_EnabledCampaignIDs n) campaignID) nodes)"

definition findNodeEval :: "node_eval list \<Rightarrow> string \<Rightarrow> node_eval option" where
  "findNodeEval nodes nodeID = List.find (\<lambda>n. ne_NodeID n = nodeID) nodes"

section \<open>Planned work and standby rosters\<close>

fun attachPlanRemaining :: "services \<Rightarrow> node_eval list \<Rightarrow> world \<Rightarrow> node_eval list \<times> world" where
  "attachPlanRemaining S [] w = ([], w)"
| "attachPlanRemaining S (n # ns) w =
     (if ne_PlanRemainingSec n \<noteq> None then
        (case attachPlanRemaining S ns w of (ns', w) \<Rightarrow> (n # ns', w))
      else (case next_outcome w of (oc, w) \<Rightarrow>
        let v = hget (rd_hash (w_redis w) (state_key (ne_NodeID n))) ''plan_remaining_sec'';
            n' = (if oc \<noteq> Done \<or> v = [] then n
                  else (case sv_parse_float S v of None \<Rightarrow> n
                    | Some sec \<Rightarrow> if fle sec (Fin 0) then n else n\<lparr>ne_PlanRemainingSec := Some sec\<rparr>))
        in (case attachPlanRemaining S ns w of (ns', w) \<Rightarrow> (n' # ns', w))))"

definition rank_less :: "string \<times> int \<Rightarrow> string \<times> int \<Rightarrow> bool" where
  "rank_less p q \<longleftrightarrow> snd p < snd q \<or> (snd p = snd q \<and> string_less (fst p) (fst q))"

definition rank_range :: "(string \<times> int) list \<Rightarrow> nat \<Rightarrow> (string \<times> int) list" where
  "rank_range z n = take n (SliceStable rank_less z)"

definition loadStandbyRoster :: "string \<Rightarrow> world \<Rightarrow> standby_entry list \<times> world" where
  "loadStandbyRoster alertClass w =
     (case next_outcome w of (oc, w) \<Rightarrow>
        (if oc \<noteq> Done then []
         else map (\<lambda>(m, sc). \<lparr>sb_NodeID = m, sb_Score = sc\<rparr>)
           (rank_range (rd_rank (w_redis w) (StandbyRosterKey alertClass)) (nat DefaultStandbyLimit)), w))"


section \<open>Filling the cache\<close>

record telescope_row =
  te_id :: string
  te_active :: bool
  te_power :: f64
  te_limiting_magnitude :: "f64 option"
  te_filters :: string
  te_is_emulator :: bool
  te_reliability :: f64
  te_aperture_mm :: "f64 option"
  te_focal_length_mm :: "f64 option"
  te_pixel_size_um :: "f64 option"
  te_site_latitude :: "f64 option"
  te_site_longitude :: "f64 option"
  te_fov_width_arcmin :: "f64 option"
  te_fov_height_arcmin :: "f64 option"
  te_mount_type :: "int option"
  te_median_seeing_arcsec :: "f64 option"
  te_max_stable_exposure_s :: "f64 option"
  te_obstruction_mask :: string
  te_mount_limits :: string
  te_horizon_profile :: string
  te_enabled_campaign_ids :: "string list"

text \<open>A field written only when it is not NULL, or only when its text is not empty.\<close>

definition opt_field :: "('a \<Rightarrow> string) \<Rightarrow> string \<Rightarrow> 'a option \<Rightarrow> (string \<times> string) list" where
  "opt_field enc key v = (case v of None \<Rightarrow> [] | Some x \<Rightarrow> [(key, enc x)])"

definition text_field :: "string \<Rightarrow> string \<Rightarrow> (string \<times> string) list" where
  "text_field key v = (if v = [] then [] else [(key, v)])"

text \<open>go-redis writes a boolean as 1 or 0.\<close>

definition redis_bool :: "bool \<Rightarrow> string" where
  "redis_bool b = (if b then ''1'' else ''0'')"

definition warm_fields :: "services \<Rightarrow> telescope_row \<Rightarrow> (string \<times> string) list" where
  "warm_fields S t =
     (let fl = opt_field (sv_format_float S) in
      [(''node_id'', te_id t), (''power'', sv_format_float S (te_power t))]
      @ fl ''limiting_magnitude'' (te_limiting_magnitude t)
      @ [(''is_emulator'', redis_bool (te_is_emulator t)),
         (''reliability_score'', sv_format_float S (te_reliability t)), (''quality_tier'', ''standard'')]
      @ fl ''aperture_mm'' (te_aperture_mm t) @ fl ''focal_length_mm'' (te_focal_length_mm t)
      @ fl ''pixel_size_um'' (te_pixel_size_um t) @ fl ''site_lat'' (te_site_latitude t)
      @ fl ''site_lon'' (te_site_longitude t) @ fl ''fov_width_arcmin'' (te_fov_width_arcmin t)
      @ fl ''fov_height_arcmin'' (te_fov_height_arcmin t)
      @ opt_field Itoa ''mount_type'' (te_mount_type t)
      @ fl ''median_seeing_arcsec'' (te_median_seeing_arcsec t)
      @ fl ''max_stable_exposure_s'' (te_max_stable_exposure_s t)
      @ text_field ''available_filters'' (te_filters t)
      @ text_field ''obstruction_mask'' (te_obstruction_mask t)
      @ text_field ''mount_limits'' (te_mount_limits t)
      @ text_field ''horizon_profile'' (te_horizon_profile t)
      @ (if te_enabled_campaign_ids t = [] then []
         else [(''enabled_campaign_ids'', sv_marshal_strings S (te_enabled_campaign_ids t))]))"

definition warm_cmds :: "services \<Rightarrow> telescope_row \<Rightarrow> redis_cmd list" where
  "warm_cmds S t = map (\<lambda>f. CHSet (meta_key (te_id t)) [f]) (warm_fields S t)"

definition warmCache :: "services \<Rightarrow> telescope_row list \<Rightarrow> world \<Rightarrow> world" where
  "warmCache S telescopes w =
     (case next_outcome w of (oc, w) \<Rightarrow>
        if oc \<noteq> Done then w
        else snd (redis_exec (concat (map (warm_cmds S) (filter te_active telescopes))) w))"

section \<open>Lemmas\<close>

lemma sprintf_prefix [simp]:
  "state_key n = ''node_state:'' @ n" "meta_key n = ''node_meta:'' @ n"
  by (simp_all add: state_key_def meta_key_def redis_names)

lemma redis_run_HSet:
  "rd_hash (redis_run (map (\<lambda>f. CHSet key [f]) fs) r) = (rd_hash r)(key := HSet (rd_hash r key) fs)"
proof (induction fs arbitrary: r)
  case (Cons f fs)
  have "rd_hash (redis_run (map (\<lambda>f. CHSet key [f]) (f # fs)) r)
      = rd_hash (redis_run (map (\<lambda>f. CHSet key [f]) fs) (redis_step r (CHSet key [f])))"
    by (simp add: redis_run_def)
  then show ?case unfolding Cons by (cases f) simp
qed (simp add: redis_run_def)

lemma redis_run_append: "redis_run (cs @ ds) r = redis_run ds (redis_run cs r)"
  by (simp add: redis_run_def)

lemma eval_node_Some:
  assumes "eval_node S now r nodeID = Some n"
  obtains limits profile msk where
    "n = eval_fields S now nodeID (rd_hash r (state_key nodeID)) (rd_hash r (meta_key nodeID)) limits profile msk"
    "rd_hash r (state_key nodeID) \<noteq> []"
    "parseMountLimits S (hget (rd_hash r (meta_key nodeID)) ''mount_limits'') = (limits, True)"
    "parseHorizonProfile S (hget (rd_hash r (meta_key nodeID)) ''horizon_profile'') = (profile, True)"
    "ParseObstructionMask (sv_decode_mask S) (hget (rd_hash r (meta_key nodeID)) ''obstruction_mask'') = Inr msk"
  using assms unfolding eval_node_def Let_def
  by (auto split: if_splits prod.splits sum.splits)

lemma fetch_evals_Some:
  assumes "fetchAllNodeEvals S now w = (Some ns, w')" "n \<in> set ns"
  shows "ne_NodeID n \<in> set (rd_set (w_redis w) RedisActiveNodes)"
    "eval_node S now (w_redis w) (ne_NodeID n) = Some n"
proof -
  obtain oc w1 where o1: "next_outcome w = (oc, w1)" by force
  obtain oc2 w2 where o2: "next_outcome w1 = (oc2, w2)" by force
  from assms o1 o2 have "n \<in> set (List.map_filter (eval_node S now (w_redis w)) (rd_set (w_redis w) RedisActiveNodes))"
    by (auto simp: fetchAllNodeEvals_def Let_def split: if_splits)
  then obtain m where m: "m \<in> set (rd_set (w_redis w) RedisActiveNodes)" "eval_node S now (w_redis w) m = Some n"
    by (auto simp: List.map_filter_def)
  from m(2) have "ne_NodeID n = m" by (rule eval_node_Some) (simp add: eval_fields_def)
  with m show "ne_NodeID n \<in> set (rd_set (w_redis w) RedisActiveNodes)"
    "eval_node S now (w_redis w) (ne_NodeID n) = Some n" by auto
qed

lemma snd_fetch_evals_keeps:
  assumes "fetchAllNodeEvals S now w = (r, w')"
  shows "w_tasks w' = w_tasks w" "w_assignments w' = w_assignments w" "w_campaigns w' = w_campaigns w"
    "w_redis w' = w_redis w" "w_pipe w' = w_pipe w" "w_sent w' = w_sent w"
proof -
  obtain oc w1 where o1: "next_outcome w = (oc, w1)" by force
  obtain oc2 w2 where o2: "next_outcome w1 = (oc2, w2)" by force
  have "w' = w1 \<or> w' = w2" using assms o1 o2 by (auto simp: fetchAllNodeEvals_def Let_def split: if_splits)
  then show "w_tasks w' = w_tasks w" "w_assignments w' = w_assignments w" "w_campaigns w' = w_campaigns w"
    "w_redis w' = w_redis w" "w_pipe w' = w_pipe w" "w_sent w' = w_sent w" using o1 o2 by auto
qed

lemma attach_keeps:
  "attachPlanRemaining S ns w = (ns', w') \<Longrightarrow>
     w_tasks w' = w_tasks w \<and> w_assignments w' = w_assignments w \<and> w_campaigns w' = w_campaigns w \<and>
     w_redis w' = w_redis w \<and> w_pipe w' = w_pipe w \<and> w_sent w' = w_sent w \<and>
     map ne_NodeID ns' = map ne_NodeID ns"
proof (induction S ns w arbitrary: ns' w' rule: attachPlanRemaining.induct)
  case (2 S n ns w)
  obtain oc w1 where o1: "next_outcome w = (oc, w1)" by force
  obtain a wa where a: "attachPlanRemaining S ns w = (a, wa)" by force
  obtain b wb where b: "attachPlanRemaining S ns w1 = (b, wb)" by force
  show ?case
  proof (cases "ne_PlanRemainingSec n \<noteq> None")
    case True
    from "2.IH"(1) [OF True a] "2.prems" True a show ?thesis by auto
  next
    case False
    from "2.IH"(2) [OF False o1 [symmetric]] b o1 have IH: "w_tasks wb = w_tasks w \<and> w_assignments wb = w_assignments w \<and>
      w_campaigns wb = w_campaigns w \<and> w_redis wb = w_redis w \<and> w_pipe wb = w_pipe w \<and> w_sent wb = w_sent w \<and>
      map ne_NodeID b = map ne_NodeID ns" by auto
    show ?thesis using "2.prems" False IH o1 b by (auto simp: Let_def split: option.splits if_splits)
  qed
qed simp

lemma roster_keeps:
  assumes "loadStandbyRoster c w = (r, w')"
  shows "w_tasks w' = w_tasks w" "w_assignments w' = w_assignments w" "w_campaigns w' = w_campaigns w"
    "w_redis w' = w_redis w" "w_pipe w' = w_pipe w" "w_sent w' = w_sent w"
proof -
  obtain oc w1 where o1: "next_outcome w = (oc, w1)" by force
  with assms have "w' = w1" by (simp add: loadStandbyRoster_def)
  with o1 show "w_tasks w' = w_tasks w" "w_assignments w' = w_assignments w" "w_campaigns w' = w_campaigns w"
    "w_redis w' = w_redis w" "w_pipe w' = w_pipe w" "w_sent w' = w_sent w" by simp_all
qed


section \<open>The cache after a refresh\<close>

lemma map_of_opt_field [simp]:
  "map_of (rev (opt_field enc key v)) k = (if k = key then map_option enc v else None)"
  by (cases v) (simp_all add: opt_field_def)

lemma map_of_text_field [simp]:
  "map_of (rev (text_field key v)) k = (if k = key \<and> v \<noteq> [] then Some v else None)"
  by (simp add: text_field_def)

lemma hget_HSet: "hget (HSet h fs) k = (case map_of (rev fs) k of None \<Rightarrow> hget h k | Some v \<Rightarrow> v)"
  by (simp add: hget_def map_of_HSet map_add_def split: option.split)

lemma rd_hash_warm:
  assumes "t \<in> set ts" "distinct (map te_id ts)"
  shows "rd_hash (redis_run (concat (map (warm_cmds S) ts)) r) (meta_key (te_id t)) =
    HSet (rd_hash r (meta_key (te_id t))) (warm_fields S t)"
  using assms
proof (induction ts arbitrary: r)
  case (Cons a ts)
  have other: "rd_hash (redis_run (concat (map (warm_cmds S) us)) r') key = rd_hash r' key"
    if "\<forall>u \<in> set us. key \<noteq> meta_key (te_id u)" for us r' key
    using that
  proof (induction us arbitrary: r')
    case (Cons u us)
    then show ?case by (simp add: redis_run_append warm_cmds_def redis_run_HSet del: sprintf_prefix)
  qed (simp add: redis_run_def)
  show ?case
  proof (cases "t = a")
    case True
    have "\<forall>u \<in> set ts. meta_key (te_id t) \<noteq> meta_key (te_id u)" using True Cons.prems(2) by auto
    then show ?thesis unfolding True
      by (simp add: redis_run_append other del: sprintf_prefix)
        (simp add: warm_cmds_def redis_run_HSet)
  next
    case False
    with Cons.prems(1) have "t \<in> set ts" by simp
    moreover from this have "te_id t \<noteq> te_id a" using Cons.prems(2) by (metis distinct.simps(2) image_eqI list.map(2) list.set_map)
    ultimately have "t \<in> set ts" "te_id t \<noteq> te_id a" by simp_all
    then show ?thesis using Cons.IH [of "redis_run (warm_cmds S a) r"] Cons.prems(2)
      by (simp add: redis_run_append) (simp add: warm_cmds_def redis_run_HSet)
  qed
qed simp

lemma rd_hash_warmCache:
  assumes "t \<in> set ts" "te_active t" "distinct (map te_id ts)" "w_faults w = []"
  shows "rd_hash (w_redis (warmCache S ts w)) (meta_key (te_id t)) =
    HSet (rd_hash (w_redis w) (meta_key (te_id t))) (warm_fields S t)"
  using assms rd_hash_warm [of t "filter te_active ts" S "w_redis w"]
  by (simp add: warmCache_def redis_exec_def distinct_map_filter del: sprintf_prefix)

text \<open>What a field of the hash holds after a refresh: NULL and empty columns leave the old value.\<close>

lemma hget_warm_fixed:
  "hget (HSet h (warm_fields S t)) ''power'' = sv_format_float S (te_power t)"
  "hget (HSet h (warm_fields S t)) ''reliability_score'' = sv_format_float S (te_reliability t)"
  "hget (HSet h (warm_fields S t)) ''is_emulator'' = redis_bool (te_is_emulator t)"
  unfolding hget_HSet warm_fields_def Let_def by (simp_all add: map_add_def)

lemma hget_warm_site_lat:
  "hget (HSet h (warm_fields S t)) ''site_lat'' =
     (case te_site_latitude t of None \<Rightarrow> hget h ''site_lat'' | Some v \<Rightarrow> sv_format_float S v)"
  unfolding hget_HSet warm_fields_def Let_def
  by (cases "te_site_latitude t") (simp_all add: map_add_def)

lemma hget_warm_site_lon:
  "hget (HSet h (warm_fields S t)) ''site_lon'' =
     (case te_site_longitude t of None \<Rightarrow> hget h ''site_lon'' | Some v \<Rightarrow> sv_format_float S v)"
  unfolding hget_HSet warm_fields_def Let_def
  by (cases "te_site_longitude t") (simp_all add: map_add_def)

lemma hget_warm_aperture_mm:
  "hget (HSet h (warm_fields S t)) ''aperture_mm'' =
     (case te_aperture_mm t of None \<Rightarrow> hget h ''aperture_mm'' | Some v \<Rightarrow> sv_format_float S v)"
  unfolding hget_HSet warm_fields_def Let_def
  by (cases "te_aperture_mm t") (simp_all add: map_add_def)

lemma hget_warm_focal_length_mm:
  "hget (HSet h (warm_fields S t)) ''focal_length_mm'' =
     (case te_focal_length_mm t of None \<Rightarrow> hget h ''focal_length_mm'' | Some v \<Rightarrow> sv_format_float S v)"
  unfolding hget_HSet warm_fields_def Let_def
  by (cases "te_focal_length_mm t") (simp_all add: map_add_def)

lemma hget_warm_limiting_magnitude:
  "hget (HSet h (warm_fields S t)) ''limiting_magnitude'' =
     (case te_limiting_magnitude t of None \<Rightarrow> hget h ''limiting_magnitude'' | Some v \<Rightarrow> sv_format_float S v)"
  unfolding hget_HSet warm_fields_def Let_def
  by (cases "te_limiting_magnitude t") (simp_all add: map_add_def)

lemma hget_warm_available_filters:
  "hget (HSet h (warm_fields S t)) ''available_filters'' = (if te_filters t = [] then hget h ''available_filters'' else te_filters t)"
  unfolding hget_HSet warm_fields_def Let_def
  by (simp add: map_add_def)

lemma hget_warm_obstruction_mask:
  "hget (HSet h (warm_fields S t)) ''obstruction_mask'' = (if te_obstruction_mask t = [] then hget h ''obstruction_mask'' else te_obstruction_mask t)"
  unfolding hget_HSet warm_fields_def Let_def
  by (simp add: map_add_def)

lemma hget_warm_mount_limits:
  "hget (HSet h (warm_fields S t)) ''mount_limits'' = (if te_mount_limits t = [] then hget h ''mount_limits'' else te_mount_limits t)"
  unfolding hget_HSet warm_fields_def Let_def
  by (simp add: map_add_def)

lemma hget_warm_horizon_profile:
  "hget (HSet h (warm_fields S t)) ''horizon_profile'' = (if te_horizon_profile t = [] then hget h ''horizon_profile'' else te_horizon_profile t)"
  unfolding hget_HSet warm_fields_def Let_def
  by (simp add: map_add_def)

lemma hget_warm_enabled:
  "hget (HSet h (warm_fields S t)) ''enabled_campaign_ids'' =
     (if te_enabled_campaign_ids t = [] then hget h ''enabled_campaign_ids''
      else sv_marshal_strings S (te_enabled_campaign_ids t))"
  unfolding hget_HSet warm_fields_def Let_def
  by (simp add: map_add_def)

lemmas hget_warm = hget_warm_fixed hget_warm_site_lat hget_warm_site_lon hget_warm_aperture_mm
  hget_warm_focal_length_mm hget_warm_limiting_magnitude hget_warm_available_filters
  hget_warm_obstruction_mask hget_warm_mount_limits hget_warm_horizon_profile hget_warm_enabled


section \<open>Properties\<close>

text \<open>C40: every node that the fleet read returns is active and has a state, and its safety data is
  readable: a non-blank mask, mount-limit or horizon text that does not decode, or a mask that is not
  valid, keeps the node out; it is never read as an unrestricted node.\<close>

theorem fleet_fails_closed:
  assumes "fetchAllNodeEvals S now w = (Some ns, w')" "n \<in> set ns"
    "meta = rd_hash (w_redis w) (meta_key (ne_NodeID n))"
  shows "ne_NodeID n \<in> set (rd_set (w_redis w) RedisActiveNodes) \<and>
    rd_hash (w_redis w) (state_key (ne_NodeID n)) \<noteq> [] \<and>
    (TrimSpace (hget meta ''obstruction_mask'') \<noteq> [] \<longrightarrow>
      sv_decode_mask S (hget meta ''obstruction_mask'') = Inr (ne_ObstructionMask n) \<and>
      ValidateObstructionMask (ne_ObstructionMask n) = None) \<and>
    (TrimSpace (hget meta ''mount_limits'') \<noteq> [] \<longrightarrow>
      (\<exists>l. sv_decode_mount S (hget meta ''mount_limits'') = Some l \<and> ne_MountLimits n = Some l)) \<and>
    (TrimSpace (hget meta ''horizon_profile'') \<noteq> [] \<longrightarrow>
      (\<exists>h. sv_decode_horizon S (hget meta ''horizon_profile'') = Some h \<and> ne_HorizonProfile n = Some h))"
proof -
  note ev = fetch_evals_Some [OF assms(1,2)]
  from ev(2) obtain limits profile msk where
    n: "n = eval_fields S now (ne_NodeID n) (rd_hash (w_redis w) (state_key (ne_NodeID n))) meta limits profile msk"
    and st: "rd_hash (w_redis w) (state_key (ne_NodeID n)) \<noteq> []"
    and l: "parseMountLimits S (hget meta ''mount_limits'') = (limits, True)"
    and h: "parseHorizonProfile S (hget meta ''horizon_profile'') = (profile, True)"
    and m: "ParseObstructionMask (sv_decode_mask S) (hget meta ''obstruction_mask'') = Inr msk"
    unfolding assms(3) by (rule eval_node_Some) blast
  have f: "ne_ObstructionMask n = msk" "ne_MountLimits n = limits" "ne_HorizonProfile n = profile"
    by (subst n, simp add: eval_fields_def)+
  have "TrimSpace (hget meta ''obstruction_mask'') \<noteq> [] \<longrightarrow>
      sv_decode_mask S (hget meta ''obstruction_mask'') = Inr (ne_ObstructionMask n) \<and>
      ValidateObstructionMask (ne_ObstructionMask n) = None"
    unfolding f using m by (auto simp: ParseObstructionMask_def split: sum.splits option.splits if_splits)
  moreover have "TrimSpace (hget meta ''mount_limits'') \<noteq> [] \<longrightarrow>
      (\<exists>l. sv_decode_mount S (hget meta ''mount_limits'') = Some l \<and> ne_MountLimits n = Some l)"
    unfolding f using l by (auto simp: parseMountLimits_def ParseMountLimits_def Let_def split: if_splits)
  moreover have "TrimSpace (hget meta ''horizon_profile'') \<noteq> [] \<longrightarrow>
      (\<exists>h. sv_decode_horizon S (hget meta ''horizon_profile'') = Some h \<and> ne_HorizonProfile n = Some h)"
    unfolding f using h by (auto simp: parseHorizonProfile_def ParseHorizonProfile_def Let_def split: if_splits)
  ultimately show ?thesis using ev(1) st by (intro conjI)
qed

definition row_floats :: "telescope_row \<Rightarrow> f64 list" where
  "row_floats t = [te_power t, te_reliability t] @ concat (map (\<lambda>v. case v of None \<Rightarrow> [] | Some x \<Rightarrow> [x])
     [te_limiting_magnitude t, te_aperture_mm t, te_focal_length_mm t, te_site_latitude t, te_site_longitude t])"

definition readable :: "services \<Rightarrow> f64 \<Rightarrow> bool" where
  "readable S x \<longleftrightarrow> sv_format_float S x \<noteq> [] \<and> sv_parse_float S (sv_format_float S x) = Some x"

lemma redisFloatPtr_warm:
  assumes "hget h key = (case v of None \<Rightarrow> [] | Some x \<Rightarrow> sv_format_float S x)" "\<forall>x. v = Some x \<longrightarrow> readable S x"
  shows "redisFloatPtr S h key = v"
  using assms by (cases v) (simp_all add: redisFloatPtr_def readable_def)

text \<open>After a refresh from the telescopes table a node without earlier metadata is read back as
  its row says (power, reliability, magnitude limit, optics, site, campaigns, emulator flag), given
  that the float printer and the list encoder are inverted by their parsers on the row's values.\<close>

theorem warm_cache_roundtrip:
  assumes "t \<in> set ts" "te_active t" "distinct (map te_id ts)" "w_faults w = []"
    and "rd_hash (w_redis w) (meta_key (te_id t)) = []"
    and "\<forall>x \<in> set (row_floats t). readable S x"
    and "sv_marshal_strings S (te_enabled_campaign_ids t) \<noteq> []"
    and "sv_parse_strings S (sv_marshal_strings S (te_enabled_campaign_ids t)) = Some (te_enabled_campaign_ids t)"
    and "eval_node S now (w_redis (warmCache S ts w)) (te_id t) = Some n"
  shows "ne_NodeID n = te_id t \<and> ne_Power n = te_power t \<and> ne_ReliabilityScore n = te_reliability t \<and>
    ne_LimitingMagnitude n = te_limiting_magnitude t \<and> ne_ApertureMM n = te_aperture_mm t \<and>
    ne_FocalLengthMM n = te_focal_length_mm t \<and> ne_SiteLat n = te_site_latitude t \<and>
    ne_SiteLon n = te_site_longitude t \<and> ne_EnabledCampaignIDs n = te_enabled_campaign_ids t \<and>
    ne_IsEmulator n = (te_is_emulator t \<or> HasPrefix (te_id t) ''emu_'')"
proof -
  define h where "h = HSet [] (warm_fields S t)"
  have meta: "rd_hash (w_redis (warmCache S ts w)) (meta_key (te_id t)) = h"
    unfolding h_def using rd_hash_warmCache [OF assms(1-4)] assms(5) by metis
  obtain st limits profile msk where n: "n = eval_fields S now (te_id t) st h limits profile msk"
    using assms(9) unfolding meta [symmetric] by (rule eval_node_Some) blast
  have r: "\<forall>x. v = Some x \<longrightarrow> readable S x" if "v \<in> {te_limiting_magnitude t, te_aperture_mm t,
      te_focal_length_mm t, te_site_latitude t, te_site_longitude t}" for v
    using that assms(6) by (auto simp: row_floats_def)
  have e [simp]: "hget [] k = []" for k by (simp add: hget_def)
  have fl: "redisFloatPtr S h ''limiting_magnitude'' = te_limiting_magnitude t"
    "redisFloatPtr S h ''aperture_mm'' = te_aperture_mm t"
    "redisFloatPtr S h ''focal_length_mm'' = te_focal_length_mm t"
    "redisFloatPtr S h ''site_lat'' = te_site_latitude t" "redisFloatPtr S h ''site_lon'' = te_site_longitude t"
    unfolding h_def by (rule redisFloatPtr_warm, simp only: hget_warm e, rule r, simp)+
  have pw: "readable S (te_power t)" "readable S (te_reliability t)" using assms(6) by (simp_all add: row_floats_def)
  have "redisFloat S h ''power'' (Fin 0) = te_power t" "redisFloat S h ''reliability_score'' (Fin 0) = te_reliability t"
    using pw unfolding redisFloat_def h_def hget_warm readable_def by simp_all
  moreover have "redisStrings S (hget h ''enabled_campaign_ids'') = te_enabled_campaign_ids t"
    using assms(7,8) unfolding h_def hget_warm e redisStrings_def by simp
  moreover have "hget h ''is_emulator'' = ''true'' \<or> hget h ''is_emulator'' = ''1'' \<longleftrightarrow> te_is_emulator t"
    unfolding h_def hget_warm by (simp add: redis_bool_def)
  ultimately show ?thesis unfolding n eval_fields_def by (simp add: fl) blast
qed

definition demo_telescope :: telescope_row where
  "demo_telescope = \<lparr>te_id = ''n1'', te_active = True, te_power = Fin 1, te_limiting_magnitude = None,
     te_filters = [], te_is_emulator = False, te_reliability = Fin 1, te_aperture_mm = Some (Fin 1),
     te_focal_length_mm = None, te_pixel_size_um = None, te_site_latitude = Some (Fin 1),
     te_site_longitude = None, te_fov_width_arcmin = None, te_fov_height_arcmin = None,
     te_mount_type = None, te_median_seeing_arcsec = None, te_max_stable_exposure_s = None,
     te_obstruction_mask = [], te_mount_limits = [], te_horizon_profile = [],
     te_enabled_campaign_ids = [''c1'']\<rparr>"

text \<open>A world in which node \<open>n1\<close> is active and idle.\<close>

definition demo_fleet :: world where
  "demo_fleet = demo_world\<lparr>w_redis := (w_redis demo_world)
     \<lparr>rd_set := (\<lambda>_. [])(RedisActiveNodes := [''n1'']),
      rd_hash := (\<lambda>_. [])(''node_state:n1'' := [(''status'', ''idle'')])\<rparr>\<rparr>"

lemma demo_warm_eval:
  "\<exists>n. eval_node demo_services 0 (w_redis (warmCache demo_services [demo_telescope] demo_fleet)) ''n1'' = Some n"
proof -
  define r where "r = w_redis (warmCache demo_services [demo_telescope] demo_fleet)"
  have a: "w_faults demo_fleet = []" "te_id demo_telescope = ''n1''" "te_active demo_telescope"
    by (simp_all add: demo_fleet_def demo_world_def demo_telescope_def)
  have "rd_hash r ''node_state:n1'' = [(''status'', ''idle'')]"
    using a by (simp add: r_def warmCache_def redis_exec_def warm_cmds_def redis_run_HSet)
      (simp add: demo_fleet_def demo_world_def)
  moreover have "hget (rd_hash r ''node_meta:n1'') k = []"
    if "k \<in> {''mount_limits'', ''horizon_profile'', ''obstruction_mask''}" for k
  proof -
    have "rd_hash r ''node_meta:n1'' = HSet [] (warm_fields demo_services demo_telescope)"
      using a rd_hash_warmCache [of demo_telescope "[demo_telescope]" demo_fleet demo_services]
      by (simp add: r_def demo_fleet_def)
    then show ?thesis using that by (auto simp: hget_warm) (simp_all add: demo_telescope_def hget_def)
  qed
  ultimately show ?thesis unfolding r_def [symmetric]
    by (simp add: eval_node_def parseMountLimits_def parseHorizonProfile_def ParseObstructionMask_def TrimSpace_def)
qed

theorem warm_cache_roundtrip_witness:
  "\<exists>n. eval_node demo_services 0 (w_redis (warmCache demo_services [demo_telescope] demo_fleet)) ''n1'' = Some n
     \<and> ne_EnabledCampaignIDs n = [''c1''] \<and> ne_SiteLat n = Some (Fin 1)"
proof -
  obtain n where n: "eval_node demo_services 0
      (w_redis (warmCache demo_services [demo_telescope] demo_fleet)) (te_id demo_telescope) = Some n"
    using demo_warm_eval by (auto simp: demo_telescope_def)
  have "ne_EnabledCampaignIDs n = te_enabled_campaign_ids demo_telescope \<and> ne_SiteLat n = te_site_latitude demo_telescope"
    using warm_cache_roundtrip [OF _ _ _ _ _ _ _ _ n]
    by (auto simp: demo_telescope_def demo_services_def demo_fleet_def demo_world_def row_floats_def readable_def)
  then show ?thesis using n by (auto simp: demo_telescope_def)
qed

theorem fleet_fails_closed_witness:
  "\<exists>ns w' n. fetchAllNodeEvals demo_services 0 demo_fleet = (Some ns, w') \<and> n \<in> set ns \<and>
     ne_NodeID n \<in> set (rd_set (w_redis demo_fleet) RedisActiveNodes)"
proof -
  have e: "\<exists>n. eval_node demo_services 0 (w_redis demo_fleet) ''n1'' = Some n"
    by (simp add: eval_node_def demo_fleet_def demo_world_def hget_def parseMountLimits_def
        parseHorizonProfile_def ParseObstructionMask_def TrimSpace_def)
  then obtain n where n: "eval_node demo_services 0 (w_redis demo_fleet) ''n1'' = Some n" ..
  have f: "fetchAllNodeEvals demo_services 0 demo_fleet = (Some [n], demo_fleet)"
    using n by (simp add: fetchAllNodeEvals_def demo_fleet_def demo_world_def List.map_filter_def)
  show ?thesis using f fleet_fails_closed [OF f _ refl, of n] by auto
qed

text \<open>A refresh never withdraws what a column no longer says: when an operator has emptied the
  list of enabled campaigns, or cleared the obstruction mask, the node keeps the old value in the
  cache and goes on being offered the campaigns it has left.\<close>

theorem refresh_keeps_withdrawn_campaigns:
  assumes "t \<in> set ts" "te_active t" "distinct (map te_id ts)" "w_faults w = []"
  shows "(te_enabled_campaign_ids t = [] \<longrightarrow>
      hget (rd_hash (w_redis (warmCache S ts w)) (meta_key (te_id t))) ''enabled_campaign_ids''
        = hget (rd_hash (w_redis w) (meta_key (te_id t))) ''enabled_campaign_ids'') \<and>
    (te_obstruction_mask t = [] \<longrightarrow>
      hget (rd_hash (w_redis (warmCache S ts w)) (meta_key (te_id t))) ''obstruction_mask''
        = hget (rd_hash (w_redis w) (meta_key (te_id t))) ''obstruction_mask'')"
  unfolding rd_hash_warmCache [OF assms] hget_warm by simp_all


theorem refresh_keeps_withdrawn_campaigns_witness:
  "hget (rd_hash (w_redis (warmCache demo_services [demo_telescope\<lparr>te_enabled_campaign_ids := []\<rparr>]
      (demo_fleet\<lparr>w_redis := (w_redis demo_fleet)\<lparr>rd_hash := (\<lambda>_. [(''enabled_campaign_ids'', ''[c1]'')])\<rparr>\<rparr>)))
      (meta_key ''n1'')) ''enabled_campaign_ids'' = ''[c1]''"
  using refresh_keeps_withdrawn_campaigns [of "demo_telescope\<lparr>te_enabled_campaign_ids := []\<rparr>"
      "[demo_telescope\<lparr>te_enabled_campaign_ids := []\<rparr>]"
      "demo_fleet\<lparr>w_redis := (w_redis demo_fleet)\<lparr>rd_hash := (\<lambda>_. [(''enabled_campaign_ids'', ''[c1]'')])\<rparr>\<rparr>"
      demo_services]
  by (simp add: demo_telescope_def demo_fleet_def demo_world_def hget_def)

end
