(* ===== verification/Assign.thy ===== *)
theory Assign
  imports NodeCache
begin

text \<open>
  One assignment (\<open>cmd/orchestrator/orchestrator_assign.go\<close>): the side effects as the Go interface
  \<open>assignExec\<close>, a record of functions over the state; \<open>assignOnce\<close> over any such record; the Postgres
  statements, Redis moves and MQTT publish of \<open>pgRedisExec\<close>; and the locale of laws the client relies on.
  \<open>now\<close> is the clock, read once per call.
\<close>

section \<open>Queues\<close>

definition enqueueByLane :: "int \<Rightarrow> int \<Rightarrow> lane \<Rightarrow> world \<Rightarrow> world" where
  "enqueueByLane taskID priority l w =
     (if taskID \<le> 0 then w
      else (let key = (if l = LanePlanned then RedisQueuedPlanned else RedisQueuedTasks)
            in snd (redis_exec [CZAdd key taskID priority] w)))"

definition enqueueQueuedTask :: "int \<Rightarrow> int \<Rightarrow> world \<Rightarrow> world" where
  "enqueueQueuedTask taskID priority w = enqueueByLane taskID priority LaneInterrupt w"

definition pipe_add :: "redis_cmd list \<Rightarrow> world \<Rightarrow> world" where
  "pipe_add cs w = w\<lparr>w_pipe := w_pipe w @ cs\<rparr>"

definition queued_to_inflight :: "int \<Rightarrow> int \<Rightarrow> redis_cmd list" where
  "queued_to_inflight taskID priority =
     [CZRem RedisQueuedTasks taskID, CZRem RedisActiveTasks taskID, CZAdd RedisInflightTasks taskID priority]"

definition moveQueuedToInflight :: "int \<Rightarrow> int \<Rightarrow> world \<Rightarrow> world" where
  "moveQueuedToInflight taskID priority w = pipe_add (queued_to_inflight taskID priority) w"

definition inflight_to_queued :: "int \<Rightarrow> int \<Rightarrow> redis_cmd list" where
  "inflight_to_queued taskID priority =
     [CZRem RedisInflightTasks taskID, CZAdd RedisQueuedTasks taskID priority]"

definition moveInflightToQueued :: "int \<Rightarrow> int \<Rightarrow> world \<Rightarrow> world" where
  "moveInflightToQueued taskID priority w = pipe_add (inflight_to_queued taskID priority) w"

section \<open>Postgres statements\<close>

datatype db_error = DbError

text \<open>The claim's compare-and-set, and the primary row of the same transaction.\<close>

definition claimable :: "int \<Rightarrow> task_row \<Rightarrow> bool" where
  "claimable taskID t \<longleftrightarrow> tk_id t = taskID \<and> tk_status t = TaskStatusPending \<and> tk_assigned t = None"

definition claim_row :: "gotime \<Rightarrow> string \<Rightarrow> task_row \<Rightarrow> task_row" where
  "claim_row now node t = t\<lparr>tk_assigned := Some node, tk_status := TaskStatusAssigned,
     tk_last_attempt := Some now, tk_updated := now\<rparr>"

definition assignment_key :: "int \<Rightarrow> string \<Rightarrow> assignment_row \<Rightarrow> bool" where
  "assignment_key taskID node r \<longleftrightarrow> ta_task r = taskID \<and> ta_node r = node"

definition new_assignment :: "int \<Rightarrow> string \<Rightarrow> string \<Rightarrow> gotime \<Rightarrow> gotime \<Rightarrow> assignment_row" where
  "new_assignment taskID node role lease now =
     \<lparr>ta_task = taskID, ta_node = node, ta_role = role, ta_status = ''assigned'',
      ta_lease = Some lease, ta_updated = now\<rparr>"

definition upsert_primary :: "gotime \<Rightarrow> int \<Rightarrow> string \<Rightarrow> gotime \<Rightarrow> assignment_row list \<Rightarrow> assignment_row list" where
  "upsert_primary now taskID node lease rs =
     (if sql_exists (assignment_key taskID node) rs
      then fst (sql_update (assignment_key taskID node)
        (\<lambda>r. r\<lparr>ta_role := ''primary'', ta_status := ''assigned'', ta_lease := Some lease, ta_updated := now\<rparr>) rs)
      else rs @ [new_assignment taskID node ''primary'' lease now])"

definition persistTaskAssignment ::
  "services \<Rightarrow> gotime \<Rightarrow> int \<Rightarrow> string \<Rightarrow> world \<Rightarrow> (db_error + bool) \<times> world" where
  "persistTaskAssignment S now taskID node w =
     (if node = [] \<or> taskID \<le> 0 then (Inr False, w)
      else (case next_outcome w of (oc, w) \<Rightarrow>
        if oc = Failed then (Inl DbError, w)
        else (case sql_update (claimable taskID) (claim_row now node) (w_tasks w) of (tasks', n) \<Rightarrow>
          if n = 0 then (Inr False, w)
          else (let w' = w\<lparr>w_tasks := tasks',
                  w_assignments := upsert_primary now taskID node (leaseExpiry (sv_lease S) now) (w_assignments w)\<rparr>
                in (if oc = Lost then Inl DbError else Inr True, w')))))"

text \<open>The other statements report whether they failed.\<close>

definition insert_if_absent :: "assignment_row \<Rightarrow> assignment_row list \<Rightarrow> assignment_row list" where
  "insert_if_absent r rs = (if sql_exists (assignment_key (ta_task r) (ta_node r)) rs then rs else rs @ [r])"

definition insertCohortAssignment :: "services \<Rightarrow> gotime \<Rightarrow> int \<Rightarrow> string \<Rightarrow> world \<Rightarrow> bool \<times> world" where
  "insertCohortAssignment S now taskID node w =
     (if node = [] \<or> taskID \<le> 0 then (False, w)
      else (case next_outcome w of (oc, w) \<Rightarrow>
        (oc \<noteq> Done, if oc = Failed then w
           else w\<lparr>w_assignments := insert_if_absent
             (new_assignment taskID node ''cohort'' (leaseExpiry (sv_lease S) now) now) (w_assignments w)\<rparr>)))"

definition held_by :: "int \<Rightarrow> string \<Rightarrow> task_row \<Rightarrow> bool" where
  "held_by taskID node t \<longleftrightarrow> tk_id t = taskID \<and> (tk_assigned t = None \<or> tk_assigned t = Some node)
     \<and> (tk_status t = TaskStatusAssigned \<or> tk_status t = TaskStatusInProgress)"

definition unassign_row :: "gotime \<Rightarrow> task_row \<Rightarrow> task_row" where
  "unassign_row now t = t\<lparr>tk_assigned := None, tk_status := TaskStatusPending, tk_updated := now\<rparr>"

definition release_row :: "gotime \<Rightarrow> assignment_row \<Rightarrow> assignment_row" where
  "release_row now r = r\<lparr>ta_status := ''released'', ta_updated := now\<rparr>"

definition clearTaskAssignment :: "gotime \<Rightarrow> int \<Rightarrow> string \<Rightarrow> world \<Rightarrow> bool \<times> world" where
  "clearTaskAssignment now taskID node w =
     (if taskID \<le> 0 then (False, w)
      else (case exec_tasks (held_by taskID node) (unassign_row now) w of (err, w) \<Rightarrow>
        if err then (True, w)
        else exec_assignments (\<lambda>r. assignment_key taskID node r \<and> ta_active r) (release_row now) w))"

definition releaseCohortAssignment :: "gotime \<Rightarrow> int \<Rightarrow> string \<Rightarrow> world \<Rightarrow> bool \<times> world" where
  "releaseCohortAssignment now taskID node w =
     (if taskID \<le> 0 then (False, w)
      else exec_assignments (\<lambda>r. assignment_key taskID node r \<and> ta_role r = ''cohort'' \<and> ta_active r)
        (release_row now) w)"

section \<open>Publishing\<close>

definition safeFloat64 :: "f64 option \<Rightarrow> f64" where
  "safeFloat64 v = (case v of None \<Rightarrow> Fin 0 | Some x \<Rightarrow> x)"

definition urgency_text :: "urgency \<Rightarrow> string" where
  "urgency_text u = (case u of UrgencyNone \<Rightarrow> ''none'' | UrgencyPlanned \<Rightarrow> ''planned''
     | UrgencyObstruction \<Rightarrow> ''obstruction'' | UrgencyUser \<Rightarrow> ''user'' | UrgencyEmergency \<Rightarrow> ''emergency'')"

definition assignPayloadFromNotify :: "services \<Rightarrow> gotime \<Rightarrow> notify_payload \<Rightarrow> assign_payload" where
  "assignPayloadFromNotify S now p =
     (let urg = UrgencyForTask (sv_handoff S) (HandoffTaskFromNotify p) now in
      \<lparr>ap_TaskID = np_TaskID p, ap_CampaignID = np_CampaignID p, ap_Priority = np_Priority p,
       ap_Name = np_Name p, ap_IntegrationTime = safeFloat64 (np_IntegrationTime p),
       ap_RequiredFilters = np_RequiredFilters p, ap_TargetRA = np_TargetRA p,
       ap_TargetDec = np_TargetDec p, ap_MinAltitudeDeg = np_MinAltitudeDeg p,
       ap_HandoffUrgency = (if urg \<noteq> UrgencyNone then urgency_text urg else []),
       ap_ScheduledEndAt = map_option (sv_format_time S) (np_ScheduledEndAt p),
       ap_PierCodeGrants = np_PierCodeGrants p, ap_PierCode = np_PierCode p,
       ap_PierCodeDisabled = np_PierCodeDisabled p\<rparr>)"

definition assign_command ::
  "services \<Rightarrow> gotime \<Rightarrow> notify_payload \<Rightarrow> selector_result \<Rightarrow> sign_error + command" where
  "assign_command S now p sel =
     (let assign = assignPayloadFromNotify S now p;
          seal = SealCommand (sv_hmac S) (sv_format_time S) (sv_marshal_payload S) now (sv_secret S) (sv_dev_mode S)
      in (case (sr_Preempting sel, sr_PrevTaskID sel) of
          (True, Some prev) \<Rightarrow>
            seal ''preempt_task'' (sr_NodeID sel) (PreemptTask \<lparr>pp_PrevTaskID = prev, pp_NewTask = assign\<rparr>)
        | _ \<Rightarrow> seal ''assign_task'' (sr_NodeID sel) (AssignTask assign)))"

definition publishTaskAssignment ::
  "services \<Rightarrow> gotime \<Rightarrow> notify_payload \<Rightarrow> selector_result \<Rightarrow> world \<Rightarrow> bool \<times> world" where
  "publishTaskAssignment S now p sel w =
     (case assign_command S now p sel of
        Inl _ \<Rightarrow> (True, w)
      | Inr cmd \<Rightarrow> (case sv_marshal_command S cmd of
          None \<Rightarrow> (True, w)
        | Some bytes \<Rightarrow> (case next_outcome w of (oc, w) \<Rightarrow>
            (oc \<noteq> Done, if oc = Failed then w
               else w\<lparr>w_sent := w_sent w @ [(sprintf_s TopicCommands [sr_NodeID sel], bytes)]\<rparr>))))"


section \<open>The side effects of an assignment\<close>

text \<open>The Go interface: one function per method; an error result is \<open>True\<close>.\<close>

record 's assign_exec =
  ex_ClaimPrimary :: "int \<Rightarrow> string \<Rightarrow> 's \<Rightarrow> (db_error + bool) \<times> 's"
  ex_RecordCohort :: "int \<Rightarrow> string \<Rightarrow> 's \<Rightarrow> bool \<times> 's"
  ex_ReleaseCohort :: "int \<Rightarrow> string \<Rightarrow> 's \<Rightarrow> bool \<times> 's"
  ex_ReleasePreempted :: "int \<Rightarrow> string \<Rightarrow> 's \<Rightarrow> bool \<times> 's"
  ex_PublishAssign :: "notify_payload \<Rightarrow> selector_result \<Rightarrow> 's \<Rightarrow> bool \<times> 's"
  ex_NodeBusy :: "string \<Rightarrow> int \<Rightarrow> int \<Rightarrow> 's \<Rightarrow> 's"
  ex_PreemptedTaskToQueued :: "int \<Rightarrow> int \<Rightarrow> 's \<Rightarrow> 's"
  ex_TaskToInflight :: "int \<Rightarrow> int \<Rightarrow> 's \<Rightarrow> 's"
  ex_Requeue :: "int \<Rightarrow> int \<Rightarrow> 's \<Rightarrow> 's"
  ex_Flush :: "'s \<Rightarrow> 's"

text \<open>The publishing loop: the number of members already delivered when one fails.\<close>

fun deliver ::
  "'s assign_exec \<Rightarrow> notify_payload \<Rightarrow> nat \<Rightarrow> selector_result list \<Rightarrow> 's \<Rightarrow> nat option \<times> 's" where
  "deliver X p i [] s = (None, s)"
| "deliver X p i (sel # rest) s =
     (let s = (if i > 0 then snd (ex_RecordCohort X (np_TaskID p) (sr_NodeID sel) s) else s) in
      case ex_PublishAssign X p sel s of (err, s) \<Rightarrow>
        if err then (Some i, if i > 0 then snd (ex_ReleaseCohort X (np_TaskID p) (sr_NodeID sel) s) else s)
        else deliver X p (Suc i) rest s)"

fun mark_busy :: "'s assign_exec \<Rightarrow> notify_payload \<Rightarrow> selector_result list \<Rightarrow> 's \<Rightarrow> 's" where
  "mark_busy X p [] s = s"
| "mark_busy X p (sel # rest) s = mark_busy X p rest (ex_NodeBusy X (sr_NodeID sel) (np_TaskID p) (np_Priority p) s)"

text \<open>The loop after all commands are out: victims are released and requeued, nodes marked busy.\<close>

definition settle_one :: "'s assign_exec \<Rightarrow> notify_payload \<Rightarrow> selector_result \<Rightarrow> 's \<Rightarrow> 's" where
  "settle_one X p sel s =
     (let s = (case (sr_Preempting sel, sr_PrevTaskID sel) of
          (True, Some prev) \<Rightarrow> ex_PreemptedTaskToQueued X prev (np_Priority p)
              (snd (ex_ReleasePreempted X prev (sr_NodeID sel) s))
        | _ \<Rightarrow> s)
      in ex_NodeBusy X (sr_NodeID sel) (np_TaskID p) (np_Priority p) s)"

fun settle :: "'s assign_exec \<Rightarrow> notify_payload \<Rightarrow> selector_result list \<Rightarrow> 's \<Rightarrow> 's" where
  "settle X p [] s = s"
| "settle X p (sel # rest) s = settle X p rest (settle_one X p sel s)"

definition finish_assign :: "'s assign_exec \<Rightarrow> notify_payload \<Rightarrow> 's \<Rightarrow> 's" where
  "finish_assign X p s = ex_Flush X (ex_TaskToInflight X (np_TaskID p) (np_Priority p) s)"

definition assignOnce ::
  "'s assign_exec \<Rightarrow> notify_payload \<Rightarrow> selector_result list \<Rightarrow> 's \<Rightarrow> string list option \<times> 's" where
  "assignOnce X p assignments s =
     (case assignments of
        [] \<Rightarrow> (None, ex_Requeue X (np_TaskID p) (np_Priority p) s)
      | primary # _ \<Rightarrow>
          (case ex_ClaimPrimary X (np_TaskID p) (sr_NodeID primary) s of
             (Inl _, s) \<Rightarrow> (None, ex_Requeue X (np_TaskID p) (np_Priority p) s)
           | (Inr False, s) \<Rightarrow> (None, s)
           | (Inr True, s) \<Rightarrow>
               (case deliver X p 0 assignments s of
                  (Some i, s) \<Rightarrow> (None, finish_assign X p (mark_busy X p (take i assignments) s))
                | (None, s) \<Rightarrow> (Some (map sr_NodeID assignments), finish_assign X p (settle X p assignments s)))))"

section \<open>The production side effects\<close>

definition node_busy_cmds :: "string \<Rightarrow> int \<Rightarrow> int \<Rightarrow> redis_cmd list" where
  "node_busy_cmds nodeID taskID priority =
     [CHSet (state_key nodeID) [(''status'', ''busy''), (''current_task_id'', Itoa taskID),
        (''current_task_priority'', Itoa priority)],
      CHDel (state_key nodeID) [''idle_since'']]"

definition flush :: "world \<Rightarrow> world" where
  "flush w = (snd (redis_exec (w_pipe w) w))\<lparr>w_pipe := []\<rparr>"

definition pgRedisExec :: "services \<Rightarrow> gotime \<Rightarrow> world assign_exec" where
  "pgRedisExec S now =
     \<lparr>ex_ClaimPrimary = persistTaskAssignment S now,
      ex_RecordCohort = insertCohortAssignment S now,
      ex_ReleaseCohort = releaseCohortAssignment now,
      ex_ReleasePreempted = clearTaskAssignment now,
      ex_PublishAssign = publishTaskAssignment S now,
      ex_NodeBusy = (\<lambda>nodeID taskID priority. pipe_add (node_busy_cmds nodeID taskID priority)),
      ex_PreemptedTaskToQueued = moveInflightToQueued,
      ex_TaskToInflight = moveQueuedToInflight,
      ex_Requeue = (\<lambda>taskID priority. enqueueByLane taskID priority LaneInterrupt),
      ex_Flush = flush\<rparr>"

section \<open>The interface\<close>

text \<open>
  What \<open>assignOnce\<close> relies on: \<open>sent\<close> are the messages handed over, \<open>addressee\<close> the node of one;
  \<open>free\<close> says that a task can be claimed and \<open>owned\<close> that a node holds it.
\<close>

locale assign_exec_laws =
  fixes X :: "'s assign_exec"
    and sent :: "'s \<Rightarrow> 'm list"
    and addressee :: "'m \<Rightarrow> string"
    and free :: "int \<Rightarrow> 's \<Rightarrow> bool"
    and owned :: "int \<Rightarrow> string \<Rightarrow> 's \<Rightarrow> bool"
  assumes claim_sent: "ex_ClaimPrimary X t n s = (r, s') \<Longrightarrow> sent s' = sent s"
    and claim_true: "ex_ClaimPrimary X t n s = (Inr True, s') \<Longrightarrow> free t s \<and> owned t n s'"
    and record_sent: "sent (snd (ex_RecordCohort X t n s)) = sent s"
    and record_owned: "owned u m s \<Longrightarrow> owned u m (snd (ex_RecordCohort X t n s))"
    and release_sent: "sent (snd (ex_ReleaseCohort X t n s)) = sent s"
    and release_owned: "owned u m s \<Longrightarrow> owned u m (snd (ex_ReleaseCohort X t n s))"
    and preempt_sent: "sent (snd (ex_ReleasePreempted X t n s)) = sent s"
    and preempt_owned: "u \<noteq> t \<Longrightarrow> owned u m s \<Longrightarrow> owned u m (snd (ex_ReleasePreempted X t n s))"
    and publish_sent: "ex_PublishAssign X p sel s = (err, s') \<Longrightarrow>
      (err \<and> sent s' = sent s) \<or> (\<exists>m. sent s' = sent s @ [m] \<and> addressee m = sr_NodeID sel)"
    and publish_owned: "owned u m s \<Longrightarrow> owned u m (snd (ex_PublishAssign X p sel s))"
    and redis_sent: "sent (ex_NodeBusy X n t pr s) = sent s" "sent (ex_PreemptedTaskToQueued X t pr s) = sent s"
      "sent (ex_TaskToInflight X t pr s) = sent s" "sent (ex_Requeue X t pr s) = sent s" "sent (ex_Flush X s) = sent s"
    and redis_owned: "owned u m (ex_NodeBusy X n t pr s) = owned u m s"
      "owned u m (ex_PreemptedTaskToQueued X t pr s) = owned u m s"
      "owned u m (ex_TaskToInflight X t pr s) = owned u m s"
      "owned u m (ex_Requeue X t pr s) = owned u m s" "owned u m (ex_Flush X s) = owned u m s"
begin

lemma deliver_sent:
  "deliver X p i sels s = (r, s') \<Longrightarrow> \<exists>ms k. sent s' = sent s @ ms \<and>
     map addressee ms = map sr_NodeID (take k sels) \<and> (r = None \<longrightarrow> k = length sels) \<and>
     (\<forall>j. r = Some j \<longrightarrow> i \<le> j \<and> j - i < length sels \<and> (k = j - i \<or> k = Suc (j - i)))"
proof (induction sels arbitrary: i s)
  case Nil
  then show ?case by (intro exI [of _ "[]"] exI [of _ 0]) auto
next
  case (Cons sel rest)
  define s1 where "s1 = (if i > 0 then snd (ex_RecordCohort X (np_TaskID p) (sr_NodeID sel) s) else s)"
  have sent1: "sent s1 = sent s" by (simp add: s1_def record_sent)
  obtain err s2 where pub: "ex_PublishAssign X p sel s1 = (err, s2)" by force
  show ?case
  proof (cases err)
    case True
    with Cons.prems pub have r: "r = Some i" "sent s' = sent s2"
      by (auto simp: s1_def [symmetric] release_sent split: if_splits)
    from publish_sent [OF pub] consider "sent s2 = sent s" | m where "sent s2 = sent s @ [m]" "addressee m = sr_NodeID sel"
      using sent1 by auto
    then show ?thesis
    proof cases
      case 1
      with r show ?thesis by (intro exI [of _ "[]"] exI [of _ 0]) simp
    next
      case 2
      with r show ?thesis by (intro exI [of _ "[m]"] exI [of _ 1]) simp
    qed
  next
    case False
    then obtain m where m: "sent s2 = sent s @ [m]" "addressee m = sr_NodeID sel"
      using publish_sent [OF pub] sent1 by auto
    from Cons.prems pub False have "deliver X p (Suc i) rest s2 = (r, s')" by (simp add: s1_def [symmetric])
    from Cons.IH [OF this] obtain ms k where IH: "sent s' = sent s2 @ ms"
      "map addressee ms = map sr_NodeID (take k rest)" "r = None \<longrightarrow> k = length rest"
      "\<forall>j. r = Some j \<longrightarrow> Suc i \<le> j \<and> j - Suc i < length rest \<and> (k = j - Suc i \<or> k = Suc (j - Suc i))" by blast
    have "sent s' = sent s @ (m # ms)" "map addressee (m # ms) = map sr_NodeID (take (Suc k) (sel # rest))"
      using IH m by simp_all
    moreover have "r = None \<longrightarrow> Suc k = length (sel # rest)" using IH(3) by simp
    moreover have "\<forall>j. r = Some j \<longrightarrow> i \<le> j \<and> j - i < length (sel # rest) \<and> (Suc k = j - i \<or> Suc k = Suc (j - i))"
      using IH(4) by force
    ultimately show ?thesis by blast
  qed
qed

lemma deliver_owned: "owned u m s \<Longrightarrow> owned u m (snd (deliver X p i sels s))"
proof (induction sels arbitrary: i s)
  case (Cons sel rest)
  define s1 where "s1 = (if i > 0 then snd (ex_RecordCohort X (np_TaskID p) (sr_NodeID sel) s) else s)"
  have o1: "owned u m s1" using Cons.prems by (simp add: s1_def record_owned)
  obtain err s2 where pub: "ex_PublishAssign X p sel s1 = (err, s2)" by force
  then have o2: "owned u m s2" using publish_owned [OF o1, of p sel] by simp
  show ?case using pub o2 Cons.IH [OF o2] by (simp add: s1_def [symmetric] release_owned)
qed simp

lemma mark_busy_keeps: "sent (mark_busy X p sels s) = sent s" "owned u m (mark_busy X p sels s) = owned u m s"
  by (induction sels arbitrary: s) (simp_all add: redis_sent redis_owned)

lemma settle_one_sent: "sent (settle_one X p sel s) = sent s"
  by (simp add: settle_one_def redis_sent preempt_sent split: bool.split option.split)

lemma settle_sent: "sent (settle X p sels s) = sent s"
  by (induction sels arbitrary: s) (simp_all add: settle_one_sent)

lemma settle_one_owned:
  "sr_PrevTaskID sel \<noteq> Some u \<Longrightarrow> owned u m s \<Longrightarrow> owned u m (settle_one X p sel s)"
  by (auto simp: settle_one_def redis_owned preempt_owned split: bool.split option.split)

lemma settle_owned:
  "\<forall>sel \<in> set sels. sr_PrevTaskID sel \<noteq> Some u \<Longrightarrow> owned u m s \<Longrightarrow> owned u m (settle X p sels s)"
  by (induction sels arbitrary: s) (simp_all add: settle_one_owned)

lemma finish_keeps: "sent (finish_assign X p s) = sent s" "owned u m (finish_assign X p s) = owned u m s"
  by (simp_all add: finish_assign_def redis_sent redis_owned)

text \<open>The contract of one assignment.\<close>

lemma assignOnce_contract:
  assumes a: "assignOnce X p sels s = (r, s')"
  obtains (nothing) "sent s' = sent s" "r = None"
  | (claimed) ms k where "free (np_TaskID p) s" "sels \<noteq> []" "sent s' = sent s @ ms"
      "map addressee ms = map sr_NodeID (take k sels)"
      "r \<noteq> None \<Longrightarrow> k = length sels \<and> r = Some (map sr_NodeID sels)"
      "\<forall>sel \<in> set sels. sr_PrevTaskID sel \<noteq> Some (np_TaskID p) \<Longrightarrow> owned (np_TaskID p) (sr_NodeID (hd sels)) s'"
proof (cases sels)
  case Nil
  with a have "sent s' = sent s \<and> r = None" by (auto simp: assignOnce_def redis_sent)
  then show thesis by (elim conjE) (rule nothing)
next
  case (Cons primary rest)
  obtain c s1 where c: "ex_ClaimPrimary X (np_TaskID p) (sr_NodeID primary) s = (c, s1)" by force
  have sent1: "sent s1 = sent s" by (rule claim_sent [OF c])
  show thesis
  proof (cases "c = Inr True")
    case False
    then have "sent s' = sent s \<and> r = None" using a c sent1 Cons
      by (cases c; cases "c = Inr False") (auto simp: assignOnce_def redis_sent)
    then show thesis by (elim conjE) (rule nothing)
  next
    case True
    then have claim: "free (np_TaskID p) s" "owned (np_TaskID p) (sr_NodeID primary) s1"
      using claim_true [of "np_TaskID p" "sr_NodeID primary" s s1] c by auto
    obtain d s2 where d: "deliver X p 0 sels s1 = (d, s2)" by force
    from deliver_sent [OF d] sent1 obtain ms k where ms: "sent s2 = sent s @ ms"
      "map addressee ms = map sr_NodeID (take k sels)" "d = None \<longrightarrow> k = length sels" by auto
    have o2: "owned (np_TaskID p) (sr_NodeID primary) s2"
      using deliver_owned [OF claim(2), of p 0 sels] d by simp
    have hd: "sels \<noteq> []" "hd sels = primary" using Cons by simp_all
    show thesis
    proof (cases d)
      case None
      then have res: "r = Some (map sr_NodeID sels)" "s' = finish_assign X p (settle X p sels s2)"
        using a c True d Cons by (auto simp: assignOnce_def)
      show thesis
        by (rule claimed [OF claim(1) hd(1)])
          (use res ms None o2 hd in \<open>auto simp: finish_keeps settle_sent settle_owned\<close>)
    next
      case (Some i)
      then have res: "r = None" "s' = finish_assign X p (mark_busy X p (take i sels) s2)"
        using a c True d Cons by (auto simp: assignOnce_def)
      show thesis
        by (rule claimed [OF claim(1) hd(1)])
          (use res ms o2 hd in \<open>auto simp: finish_keeps mark_busy_keeps\<close>)
    qed
  qed
qed

end


section \<open>The production side effects obey the interface\<close>

definition world_free :: "int \<Rightarrow> world \<Rightarrow> bool" where
  "world_free t w \<longleftrightarrow> (\<exists>r \<in> set (w_tasks w). claimable t r)"

definition world_owned :: "int \<Rightarrow> string \<Rightarrow> world \<Rightarrow> bool" where
  "world_owned t n w \<longleftrightarrow>
     (\<exists>r \<in> set (w_tasks w). tk_id r = t \<and> tk_status r = TaskStatusAssigned \<and> tk_assigned r = Some n)"

definition addressee :: "string \<times> string \<Rightarrow> string" where
  "addressee m = TrimPrefix (fst m) ''/commands/''"

lemma world_owned_tasks: "w_tasks w' = w_tasks w \<Longrightarrow> world_owned t n w' = world_owned t n w"
  by (simp add: world_owned_def)

lemma persist_cases:
  assumes "persistTaskAssignment S now t n w = (r, w')"
  shows "w_sent w' = w_sent w" "w_redis w' = w_redis w" "w_pipe w' = w_pipe w" "w_campaigns w' = w_campaigns w"
    "(w_tasks w' = w_tasks w \<and> w_assignments w' = w_assignments w \<and> r \<noteq> Inr True) \<or>
     (t > 0 \<and> n \<noteq> [] \<and> world_free t w \<and> r \<noteq> Inr False \<and>
      w_tasks w' = fst (sql_update (claimable t) (claim_row now n) (w_tasks w)) \<and>
      w_assignments w' = upsert_primary now t n (leaseExpiry (sv_lease S) now) (w_assignments w))"
proof -
  obtain oc w1 where o: "next_outcome w = (oc, w1)" by force
  have fr: "snd (sql_update (claimable t) (claim_row now n) (w_tasks w)) \<noteq> 0 \<Longrightarrow> world_free t w"
    by (auto simp: sql_update_none world_free_def)
  obtain ts k where u: "sql_update (claimable t) (claim_row now n) (w_tasks w) = (ts, k)" by force
  note r = assms [unfolded persistTaskAssignment_def o prod.case]
  show "w_sent w' = w_sent w" "w_redis w' = w_redis w" "w_pipe w' = w_pipe w" "w_campaigns w' = w_campaigns w"
    using r o u by (auto simp: Let_def split: if_splits prod.splits)
  show "(w_tasks w' = w_tasks w \<and> w_assignments w' = w_assignments w \<and> r \<noteq> Inr True) \<or>
     (t > 0 \<and> n \<noteq> [] \<and> world_free t w \<and> r \<noteq> Inr False \<and>
      w_tasks w' = fst (sql_update (claimable t) (claim_row now n) (w_tasks w)) \<and>
      w_assignments w' = upsert_primary now t n (leaseExpiry (sv_lease S) now) (w_assignments w))"
    using r o u fr by (auto simp: Let_def split: if_splits prod.splits)
qed

lemma insert_cohort_keeps:
  assumes "insertCohortAssignment S now t n w = (e, w')"
  shows "w_sent w' = w_sent w" "w_tasks w' = w_tasks w" "w_redis w' = w_redis w" "w_pipe w' = w_pipe w"
    "w_campaigns w' = w_campaigns w"
    "w_assignments w' = w_assignments w \<or> w_assignments w' =
       insert_if_absent (new_assignment t n ''cohort'' (leaseExpiry (sv_lease S) now) now) (w_assignments w)"
  using assms by (auto simp: insertCohortAssignment_def split: prod.splits if_splits)

lemma release_cohort_keeps:
  assumes "releaseCohortAssignment now t n w = (e, w')"
  shows "w_sent w' = w_sent w" "w_tasks w' = w_tasks w" "w_redis w' = w_redis w" "w_pipe w' = w_pipe w"
    "w_campaigns w' = w_campaigns w"
    "w_assignments w' = w_assignments w \<or> w_assignments w' = fst (sql_update
       (\<lambda>r. assignment_key t n r \<and> ta_role r = ''cohort'' \<and> ta_active r) (release_row now) (w_assignments w))"
  using assms by (auto simp: releaseCohortAssignment_def exec_assignments_def split: prod.splits if_splits)

lemma clear_keeps:
  assumes "clearTaskAssignment now t n w = (e, w')"
  shows "w_sent w' = w_sent w" "w_redis w' = w_redis w" "w_pipe w' = w_pipe w" "w_campaigns w' = w_campaigns w"
    "w_tasks w' = w_tasks w \<or> w_tasks w' = fst (sql_update (held_by t n) (unassign_row now) (w_tasks w))"
    "w_assignments w' = w_assignments w \<or> w_assignments w' = fst (sql_update
       (\<lambda>r. assignment_key t n r \<and> ta_active r) (release_row now) (w_assignments w))"
  using assms by (auto simp: clearTaskAssignment_def exec_assignments_def exec_tasks_def split: prod.splits if_splits)

lemma publish_keeps:
  assumes "publishTaskAssignment S now p sel w = (e, w')"
  shows "w_tasks w' = w_tasks w" "w_assignments w' = w_assignments w" "w_redis w' = w_redis w"
    "w_pipe w' = w_pipe w" "w_campaigns w' = w_campaigns w"
    "(e \<and> w_sent w' = w_sent w) \<or> (\<exists>b. w_sent w' = w_sent w @ [(sprintf_s TopicCommands [sr_NodeID sel], b)])"
  using assms by (auto simp: publishTaskAssignment_def split: prod.splits sum.splits option.splits if_splits)

lemma enqueue_keeps:
  "w_tasks (enqueueByLane t pr l w) = w_tasks w" "w_assignments (enqueueByLane t pr l w) = w_assignments w"
  "w_campaigns (enqueueByLane t pr l w) = w_campaigns w" "w_sent (enqueueByLane t pr l w) = w_sent w"
  "w_pipe (enqueueByLane t pr l w) = w_pipe w"
  using redis_exec_keeps [OF prod.collapse [symmetric]] by (simp_all add: enqueueByLane_def Let_def)

lemma pipe_keeps [simp]:
  "w_tasks (pipe_add cs w) = w_tasks w" "w_assignments (pipe_add cs w) = w_assignments w"
  "w_campaigns (pipe_add cs w) = w_campaigns w" "w_sent (pipe_add cs w) = w_sent w"
  "w_redis (pipe_add cs w) = w_redis w"
  by (simp_all add: pipe_add_def)

lemma flush_keeps [simp]:
  "w_tasks (flush w) = w_tasks w" "w_assignments (flush w) = w_assignments w"
  "w_campaigns (flush w) = w_campaigns w" "w_sent (flush w) = w_sent w"
  using redis_exec_keeps [OF prod.collapse [symmetric]] by (simp_all add: flush_def)

lemma claim_owned:
  assumes "world_free t w" "w_tasks w' = fst (sql_update (claimable t) (claim_row now n) (w_tasks w))"
  shows "world_owned t n w'"
proof -
  obtain r where r: "r \<in> set (w_tasks w)" "claimable t r" using assms(1) by (auto simp: world_free_def)
  have "claim_row now n r \<in> set (w_tasks w')" unfolding assms(2) set_sql_update using r by force
  then show ?thesis unfolding world_owned_def
    using r(2) by (intro bexI [of _ "claim_row now n r"]) (auto simp: claim_row_def claimable_def)
qed

lemma clear_owned:
  assumes "world_owned u m w" "u \<noteq> t"
    "w_tasks w' = w_tasks w \<or> w_tasks w' = fst (sql_update (held_by t n) (unassign_row now) (w_tasks w))"
  shows "world_owned u m w'"
proof -
  obtain r where r: "r \<in> set (w_tasks w)" "tk_id r = u" "tk_status r = TaskStatusAssigned" "tk_assigned r = Some m"
    using assms(1) by (auto simp: world_owned_def)
  have "\<not> held_by t n r" using r(2) assms(2) by (simp add: held_by_def)
  then have "r \<in> set (w_tasks w')" using assms(3) r(1) by (auto simp: set_sql_update image_iff)
  with r show ?thesis unfolding world_owned_def by blast
qed

lemma addressee_command [simp]: "addressee (sprintf_s TopicCommands [n], b) = n"
  using TrimPrefix_append [of "''/commands/''" n] by (simp add: addressee_def TopicCommands_def)

interpretation pg: assign_exec_laws "pgRedisExec S now" w_sent addressee world_free world_owned
proof unfold_locales
  fix t n s r s' assume "ex_ClaimPrimary (pgRedisExec S now) t n s = (r, s')"
  then have c: "persistTaskAssignment S now t n s = (r, s')" by (simp add: pgRedisExec_def)
  show "w_sent s' = w_sent s" by (rule persist_cases(1) [OF c])
next
  fix t n s s' assume "ex_ClaimPrimary (pgRedisExec S now) t n s = (Inr True, s')"
  then have c: "persistTaskAssignment S now t n s = (Inr True, s')" by (simp add: pgRedisExec_def)
  show "world_free t s \<and> world_owned t n s'" using persist_cases(5) [OF c] claim_owned by blast
next
  fix p sel s err s' assume "ex_PublishAssign (pgRedisExec S now) p sel s = (err, s')"
  then have "publishTaskAssignment S now p sel s = (err, s')" by (simp add: pgRedisExec_def)
  from publish_keeps(6) [OF this] show "(err \<and> w_sent s' = w_sent s) \<or>
      (\<exists>m. w_sent s' = w_sent s @ [m] \<and> addressee m = sr_NodeID sel)" using addressee_command by blast
next
  fix u m t n s assume "u \<noteq> t" "world_owned u m s"
  then show "world_owned u m (snd (ex_ReleasePreempted (pgRedisExec S now) t n s))"
    using clear_owned clear_keeps(5) [OF prod.collapse [symmetric]] by (simp add: pgRedisExec_def) blast
next
  fix t n s
  show "w_sent (snd (ex_RecordCohort (pgRedisExec S now) t n s)) = w_sent s"
    using insert_cohort_keeps(1) [OF prod.collapse [symmetric]] by (simp add: pgRedisExec_def)
  show "w_sent (snd (ex_ReleaseCohort (pgRedisExec S now) t n s)) = w_sent s"
    using release_cohort_keeps(1) [OF prod.collapse [symmetric]] by (simp add: pgRedisExec_def)
  show "w_sent (snd (ex_ReleasePreempted (pgRedisExec S now) t n s)) = w_sent s"
    using clear_keeps(1) [OF prod.collapse [symmetric]] by (simp add: pgRedisExec_def)
  fix u m assume o: "world_owned u m s"
  show "world_owned u m (snd (ex_RecordCohort (pgRedisExec S now) t n s))"
    using o world_owned_tasks [OF insert_cohort_keeps(2) [OF prod.collapse [symmetric]]]
    by (simp add: pgRedisExec_def)
  show "world_owned u m (snd (ex_ReleaseCohort (pgRedisExec S now) t n s))"
    using o world_owned_tasks [OF release_cohort_keeps(2) [OF prod.collapse [symmetric]]]
    by (simp add: pgRedisExec_def)
  fix p sel
  show "world_owned u m (snd (ex_PublishAssign (pgRedisExec S now) p sel s))"
    using o world_owned_tasks [OF publish_keeps(1) [OF prod.collapse [symmetric]]]
    by (simp add: pgRedisExec_def)
next
  fix n t pr s
  show "w_sent (ex_NodeBusy (pgRedisExec S now) n t pr s) = w_sent s"
    "w_sent (ex_PreemptedTaskToQueued (pgRedisExec S now) t pr s) = w_sent s"
    "w_sent (ex_TaskToInflight (pgRedisExec S now) t pr s) = w_sent s"
    "w_sent (ex_Requeue (pgRedisExec S now) t pr s) = w_sent s"
    "w_sent (ex_Flush (pgRedisExec S now) s) = w_sent s"
    by (simp_all add: pgRedisExec_def enqueue_keeps moveInflightToQueued_def moveQueuedToInflight_def)
  fix u m
  show "world_owned u m (ex_NodeBusy (pgRedisExec S now) n t pr s) = world_owned u m s"
    "world_owned u m (ex_PreemptedTaskToQueued (pgRedisExec S now) t pr s) = world_owned u m s"
    "world_owned u m (ex_TaskToInflight (pgRedisExec S now) t pr s) = world_owned u m s"
    "world_owned u m (ex_Requeue (pgRedisExec S now) t pr s) = world_owned u m s"
    "world_owned u m (ex_Flush (pgRedisExec S now) s) = world_owned u m s"
    by (simp_all add: pgRedisExec_def enqueue_keeps moveInflightToQueued_def moveQueuedToInflight_def world_owned_def)
qed


section \<open>An assignment as a sequence of steps\<close>

text \<open>A relation that contains every side effect contains, closed under iteration, the assignment.\<close>

definition exec_in :: "'s assign_exec \<Rightarrow> ('s \<Rightarrow> 's \<Rightarrow> bool) \<Rightarrow> bool" where
  "exec_in X R \<longleftrightarrow>
     (\<forall>t n s. R s (snd (ex_ClaimPrimary X t n s)) \<and> R s (snd (ex_RecordCohort X t n s)) \<and>
        R s (snd (ex_ReleaseCohort X t n s)) \<and> R s (snd (ex_ReleasePreempted X t n s))) \<and>
     (\<forall>p sel s. R s (snd (ex_PublishAssign X p sel s))) \<and>
     (\<forall>n t pr s. R s (ex_NodeBusy X n t pr s) \<and> R s (ex_PreemptedTaskToQueued X t pr s) \<and>
        R s (ex_TaskToInflight X t pr s) \<and> R s (ex_Requeue X t pr s) \<and> R s (ex_Flush X s))"

lemma exec_inD:
  assumes "exec_in X R"
  shows "R\<^sup>*\<^sup>* s (snd (ex_ClaimPrimary X t n s))" "R\<^sup>*\<^sup>* s (snd (ex_RecordCohort X t n s))"
    "R\<^sup>*\<^sup>* s (snd (ex_ReleaseCohort X t n s))" "R\<^sup>*\<^sup>* s (snd (ex_ReleasePreempted X t n s))"
    "R\<^sup>*\<^sup>* s (snd (ex_PublishAssign X p sel s))" "R\<^sup>*\<^sup>* s (ex_NodeBusy X n t pr s)"
    "R\<^sup>*\<^sup>* s (ex_PreemptedTaskToQueued X t pr s)" "R\<^sup>*\<^sup>* s (ex_TaskToInflight X t pr s)"
    "R\<^sup>*\<^sup>* s (ex_Requeue X t pr s)" "R\<^sup>*\<^sup>* s (ex_Flush X s)"
  using assms unfolding exec_in_def by blast+

lemma deliver_steps: "exec_in X R \<Longrightarrow> R\<^sup>*\<^sup>* s (snd (deliver X p i sels s))"
proof (induction sels arbitrary: i s)
  case (Cons sel rest)
  define s1 where "s1 = (if i > 0 then snd (ex_RecordCohort X (np_TaskID p) (sr_NodeID sel) s) else s)"
  have 1: "R\<^sup>*\<^sup>* s s1" using exec_inD(2) [OF Cons.prems] by (simp add: s1_def)
  obtain err s2 where pub: "ex_PublishAssign X p sel s1 = (err, s2)" by force
  have 2: "R\<^sup>*\<^sup>* s1 s2" using exec_inD(5) [OF Cons.prems, of s1 p sel] pub by simp
  have "R\<^sup>*\<^sup>* s2 (snd (deliver X p i (sel # rest) s))"
    using pub exec_inD(3) [OF Cons.prems] Cons.IH [OF Cons.prems] by (simp add: s1_def [symmetric])
  with 1 2 show ?case by simp
qed simp

lemma mark_busy_steps: "exec_in X R \<Longrightarrow> R\<^sup>*\<^sup>* s (mark_busy X p sels s)"
proof (induction sels arbitrary: s)
  case (Cons sel rest)
  from rtranclp_trans [OF exec_inD(6) [OF Cons.prems] Cons.IH [OF Cons.prems]] show ?case by simp
qed simp

lemma settle_one_steps: "exec_in X R \<Longrightarrow> R\<^sup>*\<^sup>* s (settle_one X p sel s)"
  using rtranclp_trans [OF rtranclp_trans [OF exec_inD(4) exec_inD(7)] exec_inD(6), of X R] exec_inD(6) [of X R]
  by (simp add: settle_one_def split: bool.split option.split)

lemma settle_steps: "exec_in X R \<Longrightarrow> R\<^sup>*\<^sup>* s (settle X p sels s)"
proof (induction sels arbitrary: s)
  case (Cons sel rest)
  from rtranclp_trans [OF settle_one_steps [OF Cons.prems] Cons.IH [OF Cons.prems]] show ?case by simp
qed simp

lemma finish_steps: "exec_in X R \<Longrightarrow> R\<^sup>*\<^sup>* s (finish_assign X p s)"
  unfolding finish_assign_def by (blast intro: exec_inD rtranclp_trans)

lemma assignOnce_steps:
  assumes R: "exec_in X R" shows "R\<^sup>*\<^sup>* s (snd (assignOnce X p sels s))"
proof (cases sels)
  case Nil
  then show ?thesis using exec_inD(9) [OF R] by (simp add: assignOnce_def)
next
  case (Cons primary rest)
  obtain c s1 where c: "ex_ClaimPrimary X (np_TaskID p) (sr_NodeID primary) s = (c, s1)" by force
  have 1: "R\<^sup>*\<^sup>* s s1" using exec_inD(1) [OF R, of s "np_TaskID p" "sr_NodeID primary"] c by simp
  obtain d s2 where d: "deliver X p 0 sels s1 = (d, s2)" by force
  have 2: "R\<^sup>*\<^sup>* s1 s2" using deliver_steps [OF R, of s1 p 0 sels] d by simp
  consider (err) e where "c = Inl e" | (no) "c = Inr False" | (yes) "c = Inr True" by (cases c) auto
  then show ?thesis
  proof cases
    case err
    then show ?thesis using c Cons rtranclp_trans [OF 1 exec_inD(9) [OF R]] by (simp add: assignOnce_def)
  next
    case no
    then show ?thesis using c Cons 1 by (simp add: assignOnce_def)
  next
    case yes
    have "snd (assignOnce X p sels s) = (case d of Some i \<Rightarrow> finish_assign X p (mark_busy X p (take i sels) s2)
        | None \<Rightarrow> finish_assign X p (settle X p sels s2))"
      using c yes d Cons
      by (simp add: assignOnce_def del: deliver.simps settle.simps mark_busy.simps take_Cons split: option.split)
    then have "R\<^sup>*\<^sup>* s2 (snd (assignOnce X p sels s))"
      using rtranclp_trans [OF mark_busy_steps [OF R] finish_steps [OF R]]
        rtranclp_trans [OF settle_steps [OF R] finish_steps [OF R]]
      by (simp split: option.split)
    with 1 2 show ?thesis by simp
  qed
qed

text \<open>The primary key of \<open>tasks\<close> is one of the things no side effect touches.\<close>

definition same_ids :: "world \<Rightarrow> world \<Rightarrow> bool" where
  "same_ids w w' \<longleftrightarrow> map tk_id (w_tasks w') = map tk_id (w_tasks w)"

lemma rows_keep_id [simp]: "tk_id (claim_row now n r) = tk_id r" "tk_id (unassign_row now r) = tk_id r"
  by (simp_all add: claim_row_def unassign_row_def)

lemma same_ids_update [simp]:
  "map tk_id (fst (sql_update P (claim_row now n) ts)) = map tk_id ts"
  "map tk_id (fst (sql_update P (unassign_row now) ts)) = map tk_id ts"
  by (simp_all add: map_key_sql_update)

lemma pg_same_ids: "exec_in (pgRedisExec S now) same_ids"
proof -
  have "same_ids w (snd (persistTaskAssignment S now t n w))" for t n w
    using persist_cases(5) [OF prod.collapse [symmetric], of S now t n w]
    by (auto simp: same_ids_def)
  moreover have "same_ids w (snd (clearTaskAssignment now t n w))" for t n w
    using clear_keeps(5) [OF prod.collapse [symmetric], of now t n w] by (auto simp: same_ids_def)
  ultimately show ?thesis
    by (simp add: exec_in_def pgRedisExec_def same_ids_def insert_cohort_keeps [OF prod.collapse [symmetric]]
        release_cohort_keeps [OF prod.collapse [symmetric]] publish_keeps [OF prod.collapse [symmetric]]
        enqueue_keeps moveInflightToQueued_def moveQueuedToInflight_def)
qed

lemma assign_same_ids: "assignOnce (pgRedisExec S now) p sels w = (r, w') \<Longrightarrow> map tk_id (w_tasks w') = map tk_id (w_tasks w)"
proof -
  assume a: "assignOnce (pgRedisExec S now) p sels w = (r, w')"
  have "same_ids\<^sup>*\<^sup>* w w'" using assignOnce_steps [OF pg_same_ids, of w S now p sels] a by simp
  then show ?thesis by (induction rule: rtranclp_induct) (simp_all add: same_ids_def)
qed

lemma owned_not_free:
  assumes "distinct (map tk_id (w_tasks w))" "world_owned t n w" shows "\<not> world_free t w"
proof
  assume "world_free t w"
  then obtain r where r: "r \<in> set (w_tasks w)" "tk_id r = t" "tk_assigned r = None"
    by (auto simp: world_free_def claimable_def)
  obtain q where q: "q \<in> set (w_tasks w)" "tk_id q = t" "tk_assigned q = Some n"
    using assms(2) by (auto simp: world_owned_def)
  have "r = q" using unique_key [OF assms(1) r(1) q(1)] r q by simp
  with r q show False by simp
qed


section \<open>Properties\<close>

text \<open>C1: whatever fails on the way, an assignment hands commands to MQTT only for a task that was
  pending and unassigned when its claim ran; they go to the chosen nodes in order, without gaps;
  afterwards the task is held by the first chosen node (the claim is never rolled back, given that
  the task is not its own victim), and a reported success means that every node got its command.\<close>

theorem assign_dispatch_contract:
  assumes "assignOnce (pgRedisExec S now) p sels w = (r, w')"
  shows "(w_sent w' \<noteq> w_sent w \<longrightarrow> world_free (np_TaskID p) w) \<and>
    (\<exists>ms k. w_sent w' = w_sent w @ ms \<and> map addressee ms = map sr_NodeID (take k sels)) \<and>
    (w_sent w' \<noteq> w_sent w \<longrightarrow> (\<forall>sel \<in> set sels. sr_PrevTaskID sel \<noteq> Some (np_TaskID p)) \<longrightarrow>
      world_owned (np_TaskID p) (sr_NodeID (hd sels)) w') \<and>
    (r \<noteq> None \<longrightarrow> r = Some (map sr_NodeID sels) \<and>
      (\<exists>ms. w_sent w' = w_sent w @ ms \<and> map addressee ms = map sr_NodeID sels))"
proof -
  from pg.assignOnce_contract [OF assms] consider
    (nothing) "w_sent w' = w_sent w" "r = None"
  | (claimed) ms k where "world_free (np_TaskID p) w" "w_sent w' = w_sent w @ ms"
      "map addressee ms = map sr_NodeID (take k sels)"
      "r \<noteq> None \<Longrightarrow> k = length sels \<and> r = Some (map sr_NodeID sels)"
      "\<forall>sel \<in> set sels. sr_PrevTaskID sel \<noteq> Some (np_TaskID p) \<Longrightarrow>
        world_owned (np_TaskID p) (sr_NodeID (hd sels)) w'" by metis
  note cs = this
  have "w_sent w' \<noteq> w_sent w \<longrightarrow> world_free (np_TaskID p) w" using cs by cases auto
  moreover have "\<exists>ms k. w_sent w' = w_sent w @ ms \<and> map addressee ms = map sr_NodeID (take k sels)"
    using cs
  proof cases
    case nothing
    then show ?thesis by (intro exI [of _ "[]"] exI [of _ 0]) simp
  next
    case (claimed ms k)
    then show ?thesis by blast
  qed
  moreover have "w_sent w' \<noteq> w_sent w \<longrightarrow> (\<forall>sel \<in> set sels. sr_PrevTaskID sel \<noteq> Some (np_TaskID p)) \<longrightarrow>
      world_owned (np_TaskID p) (sr_NodeID (hd sels)) w'" using cs by cases auto
  moreover have "r \<noteq> None \<longrightarrow> r = Some (map sr_NodeID sels) \<and>
      (\<exists>ms. w_sent w' = w_sent w @ ms \<and> map addressee ms = map sr_NodeID sels)" using cs by cases auto
  ultimately show ?thesis by (intro conjI)
qed


definition demo_payload :: notify_payload where
  "demo_payload = blank_payload\<lparr>np_TaskID := 1, np_Priority := 5\<rparr>"

definition demo_sel :: "string \<Rightarrow> selector_result" where
  "demo_sel n = \<lparr>sr_NodeID = n, sr_SlewTimeMs = 0, sr_IsIdle = True, sr_IsNearby = True,
     sr_Preempting = False, sr_PrevTaskID = None, sr_Score = 0, sr_Reason = []\<rparr>"

lemma demo_fields [simp]:
  "sr_NodeID (demo_sel n) = n" "sr_Preempting (demo_sel n) = False" "sr_PrevTaskID (demo_sel n) = None"
  "np_TaskID demo_payload = 1" "np_Priority demo_payload = 5"
  by (simp_all add: demo_sel_def demo_payload_def)

lemma demo_command:
  "\<exists>cmd. assign_command demo_services 0 demo_payload (demo_sel n) = Inr cmd \<and>
     sv_marshal_command demo_services cmd = Some ''assign_task''"
  by (simp add: assign_command_def demo_services_def SealCommand_def SignCommandPayload_def
      TrimSpace_def is_space_def Let_def)

lemma demo_publish:
  assumes "w_faults w = []"
  shows "publishTaskAssignment demo_services 0 demo_payload (demo_sel n) w =
     (False, w\<lparr>w_sent := w_sent w @ [(''/commands/'' @ n, ''assign_task'')]\<rparr>)"
  using demo_command [of n] assms by (auto simp: publishTaskAssignment_def TopicCommands_def)

definition demo_claimed :: world where
  "demo_claimed = demo_world\<lparr>w_tasks := [claim_row 0 ''n1'' (demo_task 1)],
     w_assignments := [new_assignment 1 ''n1'' ''primary'' (15 * minute) 0]\<rparr>"

lemma demo_claim:
  "persistTaskAssignment demo_services 0 1 ''n1'' demo_world = (Inr True, demo_claimed)"
  by (simp add: persistTaskAssignment_def demo_claimed_def demo_world_def sql_update_def claimable_def demo_task_def
      upsert_primary_def sql_exists_def leaseExpiry_def demo_services_def)

lemma demo_assign:
  "\<exists>w'. assignOnce (pgRedisExec demo_services 0) demo_payload [demo_sel ''n1''] demo_world = (Some [''n1''], w') \<and>
     w_sent w' = [(''/commands/n1'', ''assign_task'')]"
proof -
  have f: "w_faults demo_claimed = []" "w_sent demo_claimed = []" by (simp_all add: demo_claimed_def demo_world_def)
  show ?thesis
    by (simp add: assignOnce_def pgRedisExec_def demo_claim demo_publish f finish_assign_def settle_one_def
        moveQueuedToInflight_def)
qed

theorem assign_dispatch_contract_witness:
  "world_free 1 demo_world"
proof -
  obtain w' where a: "assignOnce (pgRedisExec demo_services 0) demo_payload [demo_sel ''n1''] demo_world = (Some [''n1''], w')"
    "w_sent w' = [(''/commands/n1'', ''assign_task'')]" using demo_assign by blast
  show ?thesis using assign_dispatch_contract [OF a(1)] a(2) by (simp add: demo_world_def)
qed


text \<open>A node whose earlier row for the task has expired or been released is not recorded again
  when it is chosen as a cohort member: the insert leaves the inactive row as it is, so the node is
  sent the command and has no active assignment, the row that its uploads are checked against.\<close>

theorem stale_cohort_row_stays_inactive:
  assumes "distinct (map (\<lambda>r. (ta_task r, ta_node r)) (w_assignments w))"
    and "q \<in> set (w_assignments w)" "assignment_key t n q" "\<not> ta_active q"
    and "insertCohortAssignment S now t n w = (err, w')"
  shows "w_assignments w' = w_assignments w \<and> (\<forall>r \<in> set (w_assignments w'). assignment_key t n r \<longrightarrow> \<not> ta_active r)"
proof -
  have "sql_exists (assignment_key t n) (w_assignments w)" using assms(2,3) by (auto simp: sql_exists_iff)
  then have same: "w_assignments w' = w_assignments w"
    using insert_cohort_keeps(6) [OF assms(5)] by (auto simp: insert_if_absent_def new_assignment_def)
  have "r = q" if "r \<in> set (w_assignments w)" "assignment_key t n r" for r
    using unique_key [OF assms(1) that(1) assms(2)] that(2) assms(3) by (simp add: assignment_key_def)
  with assms(4) same show ?thesis by auto
qed

theorem stale_cohort_row_stays_inactive_witness:
  "w_assignments (snd (insertCohortAssignment demo_services 0 1 ''n1''
       (demo_world\<lparr>w_assignments := [(new_assignment 1 ''n1'' ''primary'' 0 0)\<lparr>ta_status := ''expired''\<rparr>]\<rparr>)))
     = [(new_assignment 1 ''n1'' ''primary'' 0 0)\<lparr>ta_status := ''expired''\<rparr>]"
  using stale_cohort_row_stays_inactive [where q = "(new_assignment 1 ''n1'' ''primary'' 0 0)\<lparr>ta_status := ''expired''\<rparr>"
      and t = 1 and n = "''n1''" and S = demo_services and now = 0 and
      w = "demo_world\<lparr>w_assignments := [(new_assignment 1 ''n1'' ''primary'' 0 0)\<lparr>ta_status := ''expired''\<rparr>]\<rparr>",
      OF _ _ _ _ prod.collapse [symmetric]]
  by (simp add: new_assignment_def assignment_key_def ta_active_def)


section \<open>Preemption\<close>

lemma quiet_ops:
  assumes "w_faults w = []"
  shows "w_faults (snd (persistTaskAssignment S now t n w)) = []"
    "w_faults (snd (clearTaskAssignment now t n w)) = []"
    "w_faults (snd (publishTaskAssignment S now p sel w)) = []"
  using assms
  by (auto simp: persistTaskAssignment_def clearTaskAssignment_def publishTaskAssignment_def exec_tasks_def
      exec_assignments_def Let_def split: prod.split sum.split option.split)

lemma quiet_flush: "w_faults w = [] \<Longrightarrow> w_redis (flush w) = redis_run (w_pipe w) (w_redis w)"
  by (simp add: flush_def redis_exec_def)

text \<open>The Redis commands of an assignment to one node that preempts \<open>v\<close>.\<close>

definition preempt_cmds :: "int \<Rightarrow> int \<Rightarrow> string \<Rightarrow> int \<Rightarrow> redis_cmd list" where
  "preempt_cmds t pr n v = inflight_to_queued v pr @ node_busy_cmds n t pr @ queued_to_inflight t pr"

lemma preempt_redis:
  assumes a: "assignOnce (pgRedisExec S now) p [sel] w = (Some ids, w')"
    and q: "w_faults w = []" "w_pipe w = []" and v: "sr_Preempting sel" "sr_PrevTaskID sel = Some v"
  shows "w_redis w' = redis_run (preempt_cmds (np_TaskID p) (np_Priority p) (sr_NodeID sel) v) (w_redis w)"
proof -
  let ?t = "np_TaskID p" and ?pr = "np_Priority p" and ?n = "sr_NodeID sel"
  obtain c s1 where c: "persistTaskAssignment S now ?t ?n w = (c, s1)" by force
  obtain e s2 where e: "publishTaskAssignment S now p sel s1 = (e, s2)" by force
  obtain d s3 where d: "clearTaskAssignment now v ?n s2 = (d, s3)" by force
  have ok: "c = Inr True" "\<not> e"
    using a c e by (auto simp: assignOnce_def pgRedisExec_def split: sum.splits bool.splits if_splits)
  have w': "w' = flush (pipe_add (queued_to_inflight ?t ?pr) (pipe_add (node_busy_cmds ?n ?t ?pr)
      (pipe_add (inflight_to_queued v ?pr) s3)))"
    using a c e d ok v
    by (auto simp: assignOnce_def pgRedisExec_def finish_assign_def settle_one_def moveQueuedToInflight_def
        moveInflightToQueued_def)
  have f: "w_faults s3 = []" using quiet_ops q(1) c e d by (metis snd_conv)
  have s3: "w_pipe s3 = []" "w_redis s3 = w_redis w"
    using q(2) persist_cases(2,3) [OF c] publish_keeps(3,4) [OF e] clear_keeps(2,3) [OF d] by simp_all
  show ?thesis unfolding w' using f s3 by (simp add: quiet_flush pipe_add_def preempt_cmds_def)
qed

text \<open>A preempted task goes back to the interrupt queue under the priority of the task that
  displaced it, not its own, so it competes at once on equal terms with its preemptor's class; the
  preemptor is in flight and the victim no longer is.\<close>

theorem preempted_task_takes_preemptor_priority:
  assumes "assignOnce (pgRedisExec S now) p [sel] w = (Some ids, w')"
    and "w_faults w = []" "w_pipe w = []" "sr_Preempting sel" "sr_PrevTaskID sel = Some v" "v \<noteq> np_TaskID p"
  shows "(v, np_Priority p) \<in> set (rd_zset (w_redis w') RedisQueuedTasks)
    \<and> (\<forall>s. (v, s) \<in> set (rd_zset (w_redis w') RedisQueuedTasks) \<longrightarrow> s = np_Priority p)
    \<and> v \<notin> zmembers (rd_zset (w_redis w') RedisInflightTasks)
    \<and> np_TaskID p \<in> zmembers (rd_zset (w_redis w') RedisInflightTasks)
    \<and> np_TaskID p \<notin> zmembers (rd_zset (w_redis w') RedisQueuedTasks)"
  unfolding preempt_redis [OF assms(1-5)] using assms(6)
  by (auto simp: redis_run_def preempt_cmds_def inflight_to_queued_def node_busy_cmds_def queued_to_inflight_def
      ZRem_def ZAdd_def zmembers_def del: sprintf_prefix)

definition demo_preempt :: selector_result where
  "demo_preempt = (demo_sel ''n1'')\<lparr>sr_Preempting := True, sr_PrevTaskID := Some 2\<rparr>"

theorem preempted_task_takes_preemptor_priority_witness:
  "\<exists>ids w'. assignOnce (pgRedisExec demo_services 0) demo_payload [demo_preempt] demo_world = (Some ids, w') \<and>
     (2, 5) \<in> set (rd_zset (w_redis w') RedisQueuedTasks)"
proof -
  have f: "w_faults demo_claimed = []" by (simp add: demo_claimed_def demo_world_def)
  have n: "sr_NodeID demo_preempt = ''n1''" "sr_Preempting demo_preempt" "sr_PrevTaskID demo_preempt = Some 2"
    by (simp_all add: demo_preempt_def)
  obtain s2 where p: "publishTaskAssignment demo_services 0 demo_payload demo_preempt demo_claimed = (False, s2)"
    using f by (simp add: publishTaskAssignment_def assign_command_def demo_services_def SealCommand_def n
        SignCommandPayload_def TrimSpace_def is_space_def Let_def)
  obtain w' where a: "assignOnce (pgRedisExec demo_services 0) demo_payload [demo_preempt] demo_world = (Some [''n1''], w')"
    using p by (simp add: assignOnce_def pgRedisExec_def demo_claim n)
  have "(2, np_Priority demo_payload) \<in> set (rd_zset (w_redis w') RedisQueuedTasks)"
    using preempted_task_takes_preemptor_priority [OF a _ _ n(2,3)] by (simp add: demo_world_def)
  with a show ?thesis by auto
qed

end
