(* ===== verification/Drain.thy ===== *)
theory Drain
  imports Assign
begin

text \<open>
  The two ways into an assignment (\<open>orchestrator_assign.go\<close>): the notification of a new task and the
  loop that drains the interrupt queue; the selection ladder and \<open>assignTask\<close> they share; the recovery
  of pending tasks at start-up (\<open>orchestrator_pg.go\<close>) and the coverage session roll
  (\<open>orchestrator_coverage.go\<close>).
\<close>

section \<open>Selection\<close>

definition selectOn ::
  "services \<Rightarrow> node_eval list \<Rightarrow> task_requirements \<Rightarrow> int \<Rightarrow> gotime \<Rightarrow> selector_result list" where
  "selectOn S pool req priority now =
     (case SelectCohort (sv_sort_sel S) (sv_math S) pool req now of
        [] \<Rightarrow> (case SelectBestNode (sv_math S) pool req priority (sv_PreemptThreshold S) (sv_SlewNearbyMs S) now of
            None \<Rightarrow> [] | Some sel \<Rightarrow> [sel])
      | as \<Rightarrow> as)"

definition selectAssignments ::
  "services \<Rightarrow> node_eval list \<Rightarrow> node_eval list \<Rightarrow> nat \<Rightarrow> task_requirements \<Rightarrow> int \<Rightarrow> gotime
   \<Rightarrow> selector_result list" where
  "selectAssignments S nodes selectPool rosterLen req priority now =
     (let assignments = selectOn S selectPool req priority now in
      if assignments = [] \<and> rosterLen > 0 \<and> length selectPool < length nodes
      then selectOn S nodes req priority now else assignments)"

section \<open>Assigning one task\<close>

definition rollCoverageSession :: "gotime \<Rightarrow> int \<Rightarrow> world \<Rightarrow> world" where
  "rollCoverageSession now taskID w =
     snd (exec_tasks
       (\<lambda>t. tk_id t = taskID \<and> tk_status t \<noteq> TaskStatusCompleted \<and> tk_status t \<noteq> TaskStatusSuperseded)
       (\<lambda>t. t\<lparr>tk_scheduled_end := Some (now + 4 * hour), tk_handoff_lead := Some 5400, tk_updated := now\<rparr>) w)"

definition assign_pool :: "notify_payload \<Rightarrow> node_eval list \<Rightarrow> node_eval list" where
  "assign_pool p nodes =
     (let req = RequirementsFromNotify p in
      if tr_PreferredNodeIDs req \<noteq> []
      then FilterPreferredNodesMode nodes (tr_PreferredNodeIDs req) (tr_PreferredFailOpen req) else nodes)"

definition assignTask :: "services \<Rightarrow> gotime \<Rightarrow> notify_payload \<Rightarrow> world \<Rightarrow> world" where
  "assignTask S now payload w =
     (let p = payload\<lparr>np_Priority :=
            EffectiveAssignPriority (sv_handoff S) (np_Priority payload) (HandoffTaskFromNotify payload) now\<rparr>
      in case fetchAllNodeEvals S now w of
           (None, w) \<Rightarrow> enqueueByLane (np_TaskID p) (np_Priority p) LaneInterrupt w
         | (Some nodes, w) \<Rightarrow>
             (case attachPlanRemaining S (filterNodesByCampaign nodes (np_CampaignID p)) w of (nodes, w) \<Rightarrow>
                let nodes = assign_pool p nodes in
                case loadStandbyRoster (AlertClass (seasonInputsFromPayload p)) w of (roster, w) \<Rightarrow>
                  let assignments = selectAssignments S nodes (PreferRoster nodes roster) (length roster)
                        (RequirementsFromNotify p) (np_Priority p) now
                  in case assignOnce (pgRedisExec S now) p assignments (w\<lparr>w_pipe := []\<rparr>) of (ids, w) \<Rightarrow>
                    (case ids of
                       Some (_ # _) \<Rightarrow>
                         if np_CoverageEnabled p then rollCoverageSession now (np_TaskID p) w else w
                     | _ \<Rightarrow> w)))"

section \<open>The entry points\<close>

text \<open>The notification carries the task id and priority; everything else is loaded again.\<close>

definition handleTaskNotification :: "services \<Rightarrow> gotime \<Rightarrow> notify_payload \<Rightarrow> world \<Rightarrow> world" where
  "handleTaskNotification S now payload w =
     (case fetchTaskNotifyPayload S now (np_TaskID payload) w of
        (Inl _, w) \<Rightarrow> w
      | (Inr (None, requeue), w) \<Rightarrow>
          if requeue then enqueueByLane (np_TaskID payload) (np_Priority payload) LanePlanned w else w
      | (Inr (Some loaded, _), w) \<Rightarrow>
          if ClassifyLane (seasonInputsFromPayload loaded) = LanePlanned
          then enqueueByLane (np_TaskID loaded) (np_Priority loaded) LanePlanned w
          else assignTask S now loaded w)"

text \<open>One turn of the drain loop: nothing to do when the queue is empty or Redis fails.\<close>

definition zpopmin :: "string \<Rightarrow> world \<Rightarrow> (int \<times> int) option \<times> world" where
  "zpopmin key w =
     (case next_outcome w of (oc, w) \<Rightarrow>
        (case ZPopMin (rd_zset (w_redis w) key) of
           None \<Rightarrow> (None, w)
         | Some (m, z) \<Rightarrow>
             (if oc = Done then Some m else None,
              if oc = Failed then w
              else w\<lparr>w_redis := (w_redis w)\<lparr>rd_zset := (rd_zset (w_redis w))(key := z)\<rparr>\<rparr>)))"

definition drain_turn :: "services \<Rightarrow> gotime \<Rightarrow> world \<Rightarrow> world" where
  "drain_turn S now w =
     (case zpopmin RedisQueuedTasks w of
        (None, w) \<Rightarrow> w
      | (Some (taskID, priority), w) \<Rightarrow>
          (case fetchTaskNotifyPayload S now taskID w of
             (Inl _, w) \<Rightarrow> w
           | (Inr (payload, requeue), w) \<Rightarrow>
               if requeue then enqueueQueuedTask taskID priority w
               else (case payload of None \<Rightarrow> w | Some p \<Rightarrow> assignTask S now p w)))"

text \<open>The queries' order by priority does not matter: the rows are added to a sorted set.\<close>

definition recoverPendingTasks :: "world \<Rightarrow> nat \<times> world" where
  "recoverPendingTasks w =
     (case next_outcome w of (oc, w) \<Rightarrow>
        if oc \<noteq> Done then (0, w)
        else (let rows = filter (\<lambda>t. tk_status t = TaskStatusPending \<and> tk_assigned t = None) (w_tasks w)
          in (length rows,
              snd (redis_exec (map (\<lambda>t. CZAdd RedisQueuedTasks (tk_id t) (tk_priority t)) rows) w))))"


section \<open>Lemmas\<close>

lemma selectOn_nodes:
  assumes "go_sort (sv_sort_sel S)" "r \<in> set (selectOn S pool req priority now)"
  shows "\<exists>n \<in> set pool. sr_NodeID r = ne_NodeID n \<and> passesNodeGates (sv_math S) n req now"
proof (cases "SelectCohort (sv_sort_sel S) (sv_math S) pool req now = []")
  case True
  then have "SelectBestNode (sv_math S) pool req priority (sv_PreemptThreshold S) (sv_SlewNearbyMs S) now = Some r"
    using assms(2) unfolding selectOn_def True list.case
    by (cases "SelectBestNode (sv_math S) pool req priority (sv_PreemptThreshold S) (sv_SlewNearbyMs S) now") simp_all
  from foldl_better_Some [OF this [unfolded SelectBestNode_def]] obtain n where
    "n \<in> set pool" "node_candidate (sv_math S) req priority (sv_PreemptThreshold S) (sv_SlewNearbyMs S) now n = Some r"
    by auto
  then show ?thesis using node_candidate_gates node_candidate_id by blast
next
  case False
  then have "r \<in> set (SelectCohort (sv_sort_sel S) (sv_math S) pool req now)"
    using assms(2) by (auto simp: selectOn_def split: list.splits)
  moreover have "set (SelectCohort (sv_sort_sel S) (sv_math S) pool req now)
      \<subseteq> set (SelectEligibleNodes (sv_sort_sel S) (sv_math S) pool req now 0)"
    using SelectCohort_shape [of "sv_sort_sel S" "sv_math S" pool req now]
    by (auto dest: mset_subset_eqD)
  ultimately obtain n where "eligible (sv_math S) pool req now n" "sr_NodeID r = ne_NodeID n"
    using eligible_results [OF assms(1), of "sv_math S" pool req now] by auto
  then show ?thesis by (auto simp: eligible_def)
qed

lemma node_by_last_id_Some: "node_by_last_id nodes k = Some n \<Longrightarrow> n \<in> set nodes"
  by (auto simp: node_by_last_id_def find_Some_iff) (metis nth_mem set_rev length_rev)

lemma PreferRoster_subset: "set (PreferRoster nodes roster) \<subseteq> set nodes"
  by (auto simp: PreferRoster_def Let_def List.map_filter_def dest: node_by_last_id_Some split: if_splits)

lemma selectAssignments_nodes:
  assumes "go_sort (sv_sort_sel S)" "r \<in> set (selectAssignments S nodes (PreferRoster nodes roster) k req priority now)"
  shows "\<exists>n \<in> set nodes. sr_NodeID r = ne_NodeID n \<and> passesNodeGates (sv_math S) n req now"
proof -
  from assms(2) consider "r \<in> set (selectOn S (PreferRoster nodes roster) req priority now)"
    | "r \<in> set (selectOn S nodes req priority now)"
    by (auto simp: selectAssignments_def Let_def split: if_splits)
  then show ?thesis
    using selectOn_nodes [OF assms(1)] PreferRoster_subset [of nodes roster] by cases blast+
qed

lemma assign_pool_subset: "set (assign_pool p nodes) \<subseteq> set nodes"
  by (auto simp: assign_pool_def Let_def FilterPreferredNodesMode_def split: if_splits)

text \<open>Only the planned work of a node differs after \<open>attachPlanRemaining\<close>; the gates do not read it.\<close>

lemma attach_rel:
  "attachPlanRemaining S ns w = (ns', w') \<Longrightarrow> n' \<in> set ns' \<Longrightarrow>
     \<exists>n \<in> set ns. \<exists>x. n' = n\<lparr>ne_PlanRemainingSec := x\<rparr>"
proof (induction S ns w arbitrary: ns' w' rule: attachPlanRemaining.induct)
  case (2 S n ns w)
  have self: "\<exists>x. n = n\<lparr>ne_PlanRemainingSec := x\<rparr>" by (rule exI [of _ "ne_PlanRemainingSec n"]) simp
  obtain oc w1 where o1: "next_outcome w = (oc, w1)" by force
  obtain a wa where a: "attachPlanRemaining S ns w = (a, wa)" by force
  obtain b wb where b: "attachPlanRemaining S ns w1 = (b, wb)" by force
  show ?case
  proof (cases "ne_PlanRemainingSec n \<noteq> None")
    case True
    then have "ns' = n # a" using "2.prems"(1) a by simp
    then show ?thesis using "2.IH"(1) [OF True a] "2.prems"(2) self by auto
  next
    case False
    then obtain m where m: "ns' = m # b" "\<exists>x. m = n\<lparr>ne_PlanRemainingSec := x\<rparr>"
      using "2.prems"(1) o1 b self by (auto simp: Let_def split: option.splits if_splits)
    have "n' \<in> set b \<Longrightarrow> \<exists>n \<in> set ns. \<exists>x. n' = n\<lparr>ne_PlanRemainingSec := x\<rparr>"
      using "2.IH"(2) [OF False o1 [symmetric]] b by auto
    then show ?thesis using m "2.prems"(2) by auto
  qed
qed simp

lemma gates_plan [simp]:
  "passesNodeGates M (n\<lparr>ne_PlanRemainingSec := x\<rparr>) req now = passesNodeGates M n req now"
  by (simp add: passesNodeGates_def nodeTelescopeSafety_def cong: option.case_cong if_cong)

lemma eval_node_id: "eval_node S now r k = Some n \<Longrightarrow> ne_NodeID n = k"
  by (erule eval_node_Some) (simp add: eval_fields_def)

text \<open>What a node must be to receive a command of an assignment that starts in a given world.\<close>

definition may_receive :: "services \<Rightarrow> gotime \<Rightarrow> notify_payload \<Rightarrow> world \<Rightarrow> string \<Rightarrow> bool" where
  "may_receive S now p w k \<longleftrightarrow>
     k \<in> set (rd_set (w_redis w) RedisActiveNodes) \<and>
     (\<exists>n. eval_node S now (w_redis w) k = Some n \<and> NodeServesCampaign (ne_EnabledCampaignIDs n) (np_CampaignID p) \<and>
        passesNodeGates (sv_math S) n (RequirementsFromNotify p) now)"

lemma rollCoverage_keeps:
  "w_sent (rollCoverageSession now t w) = w_sent w" "w_assignments (rollCoverageSession now t w) = w_assignments w"
  "w_redis (rollCoverageSession now t w) = w_redis w" "w_campaigns (rollCoverageSession now t w) = w_campaigns w"
  using exec_tasks_keeps [OF prod.collapse [symmetric]] by (simp_all add: rollCoverageSession_def)

lemma requirements_priority [simp]: "RequirementsFromNotify (p\<lparr>np_Priority := x\<rparr>) = RequirementsFromNotify p"
  by (simp add: RequirementsFromNotify_def)

text \<open>An assignment is one \<open>assignOnce\<close> over nodes that may receive its commands, or no command at all.\<close>

lemma assignTask_cases:
  obtains (requeued) w1 pr where "assignTask S now p w = enqueueByLane (np_TaskID p) pr LaneInterrupt w1"
    "w_tasks w1 = w_tasks w" "w_assignments w1 = w_assignments w" "w_campaigns w1 = w_campaigns w"
    "w_redis w1 = w_redis w" "w_sent w1 = w_sent w"
  | (ran) q sels w1 r w2 where "assignOnce (pgRedisExec S now) q sels w1 = (r, w2)"
    "np_TaskID q = np_TaskID p" "w_tasks w1 = w_tasks w" "w_assignments w1 = w_assignments w"
    "w_campaigns w1 = w_campaigns w" "w_redis w1 = w_redis w" "w_sent w1 = w_sent w" "w_pipe w1 = []"
    "assignTask S now p w = w2 \<or> assignTask S now p w = rollCoverageSession now (np_TaskID p) w2"
    "go_sort (sv_sort_sel S) \<Longrightarrow> \<forall>sel \<in> set sels. may_receive S now p w (sr_NodeID sel)"
proof -
  define q where "q = p\<lparr>np_Priority :=
    EffectiveAssignPriority (sv_handoff S) (np_Priority p) (HandoffTaskFromNotify p) now\<rparr>"
  have q: "np_TaskID q = np_TaskID p" "np_CampaignID q = np_CampaignID p"
    "RequirementsFromNotify q = RequirementsFromNotify p" by (simp_all add: q_def)
  obtain ons w1 where f: "fetchAllNodeEvals S now w = (ons, w1)" by force
  note k1 = snd_fetch_evals_keeps [OF f]
  show thesis
  proof (cases ons)
    case None
    have "assignTask S now p w = enqueueByLane (np_TaskID p) (np_Priority q) LaneInterrupt w1"
      using f None q by (simp add: assignTask_def q_def [symmetric])
    then show thesis by (rule requeued) (simp_all add: k1)
  next
    case (Some ns)
    obtain ns2 w2 where a: "attachPlanRemaining S (filterNodesByCampaign ns (np_CampaignID q)) w1 = (ns2, w2)" by force
    note k2 = attach_keeps [OF a]
    define pool where "pool = assign_pool q ns2"
    obtain roster w3 where l: "loadStandbyRoster (AlertClass (seasonInputsFromPayload q)) w2 = (roster, w3)" by force
    note k3 = roster_keeps [OF l]
    define sels where "sels = selectAssignments S pool (PreferRoster pool roster) (length roster)
      (RequirementsFromNotify q) (np_Priority q) now"
    obtain r w4 where e: "assignOnce (pgRedisExec S now) q sels (w3\<lparr>w_pipe := []\<rparr>) = (r, w4)" by force
    have eq: "assignTask S now p w = w4 \<or> assignTask S now p w = rollCoverageSession now (np_TaskID p) w4"
      using f Some a l e unfolding q(1) [symmetric]
      by (simp add: assignTask_def q_def [symmetric] pool_def [symmetric] sels_def [symmetric] Let_def
          split: option.split list.split)
    have "may_receive S now p w (sr_NodeID sel)" if go: "go_sort (sv_sort_sel S)" and sel: "sel \<in> set sels" for sel
    proof -
      from selectAssignments_nodes [OF go sel [unfolded sels_def]] obtain n where
        n: "n \<in> set pool" "sr_NodeID sel = ne_NodeID n" "passesNodeGates (sv_math S) n (RequirementsFromNotify p) now"
        using q by auto
      then have "n \<in> set ns2" using assign_pool_subset unfolding pool_def by blast
      from attach_rel [OF a this] obtain m x where m: "m \<in> set (filterNodesByCampaign ns (np_CampaignID p))"
        "n = m\<lparr>ne_PlanRemainingSec := x\<rparr>" using q by auto
      have mn: "m \<in> set ns" "NodeServesCampaign (ne_EnabledCampaignIDs m) (np_CampaignID p)"
        using m(1) by (auto simp: filterNodesByCampaign_def NodeServesCampaign_iff split: if_splits)
      from fetch_evals_Some [OF f [unfolded Some] mn(1)] n m(2) mn(2) show ?thesis
        by (auto simp: may_receive_def)
    qed
    then show thesis
      by (intro ran [OF e q(1) _ _ _ _ _ _ eq]) (use k1 k2 k3 in auto)
  qed
qed

section \<open>Properties\<close>



text \<open>A world in which task 1 is pending, asks for an emulator-free node, and node \<open>n1\<close> is idle.\<close>

lemma demo_may_receive:
  "may_receive demo_services 0 demo_payload demo_fleet ''n1''"
proof -
  have n: "eval_node demo_services 0 (w_redis demo_fleet) ''n1'' = Some (eval_fields demo_services 0 ''n1''
      [(''status'', ''idle'')] [] None None [])"
    by (simp add: eval_node_def demo_fleet_def demo_world_def hget_def parseMountLimits_def
        parseHorizonProfile_def ParseObstructionMask_def TrimSpace_def)
  show ?thesis
    by (simp add: may_receive_def n demo_payload_def blank_payload_def NodeServesCampaign_def
        passesNodeGates_def eval_fields_def RequirementsFromNotify_def hget_def nodeHasFilters_def opt_lt_def
        HasPrefix_def redisFloatPtr_def) (simp add: demo_fleet_def)
qed


text \<open>When the load of a popped task fails, the drain loop has already removed it from the
  interrupt queue and does not put it back: a task that is pending and unassigned in Postgres is in no
  queue any more, and only a restart of the orchestrator or a new notification brings it back.\<close>

theorem drain_drops_task_on_failed_load:
  assumes "w_faults w = Done # Failed # fs" "ZPopMin (rd_zset (w_redis w) RedisQueuedTasks) = Some ((t, pr), z)"
    and "t \<notin> zmembers (rd_zset (w_redis w) RedisQueuedPlanned)" "t \<notin> zmembers (rd_zset (w_redis w) RedisInflightTasks)"
  shows "w_tasks (drain_turn S now w) = w_tasks w \<and>
    (\<forall>key \<in> {RedisQueuedTasks, RedisQueuedPlanned, RedisInflightTasks}.
       t \<notin> zmembers (rd_zset (w_redis (drain_turn S now w)) key))"
proof -
  have z: "z = ZRem (rd_zset (w_redis w) RedisQueuedTasks) t" using ZPopMin_Some(2) [OF assms(2)] by simp
  have d: "drain_turn S now w = w\<lparr>w_faults := fs, w_redis := (w_redis w)
      \<lparr>rd_zset := (rd_zset (w_redis w))(RedisQueuedTasks := z)\<rparr>\<rparr>"
    using assms(1,2) by (simp add: drain_turn_def zpopmin_def next_outcome_def fetchTaskNotifyPayload_def)
  show ?thesis unfolding d using assms(3,4) by (simp add: z)
qed

theorem drain_drops_task_on_failed_load_witness:
  "\<exists>w. tk_status (hd (w_tasks (drain_turn demo_services 0 w))) = TaskStatusPending \<and>
     tk_id (hd (w_tasks (drain_turn demo_services 0 w))) = 1 \<and>
     1 \<notin> zmembers (rd_zset (w_redis (drain_turn demo_services 0 w)) RedisQueuedTasks)"
proof -
  define w where "w = demo_world\<lparr>w_faults := [Done, Failed],
    w_redis := (w_redis demo_world)\<lparr>rd_zset := (\<lambda>_. [])(RedisQueuedTasks := [(1, 5)])\<rparr>\<rparr>"
  have p: "ZPopMin (rd_zset (w_redis w) RedisQueuedTasks) = Some ((1, 5), [])"
    by (simp add: w_def demo_world_def ZPopMin_def ZSorted_def SliceStable_def ZRem_def)
  have "w_tasks (drain_turn demo_services 0 w) = w_tasks w \<and>
    (\<forall>key \<in> {RedisQueuedTasks, RedisQueuedPlanned, RedisInflightTasks}.
       1 \<notin> zmembers (rd_zset (w_redis (drain_turn demo_services 0 w)) key))"
    by (rule drain_drops_task_on_failed_load [OF _ p, where fs = "[]"])
      (simp_all add: w_def demo_world_def zmembers_def)
  then show ?thesis by (intro exI [of _ w]) (simp add: w_def demo_world_def demo_task_def)
qed

lemma redis_run_ZAdd_key:
  "rd_zset (redis_run (map (\<lambda>t. CZAdd key (f t) (g t)) ts) r) =
     (rd_zset r)(key := foldl (\<lambda>z t. ZAdd z (f t) (g t)) (rd_zset r key) ts)"
  by (induction ts arbitrary: r) (simp_all add: redis_run_def)

lemma foldl_ZAdd:
  "distinct (map f ts) \<Longrightarrow> p \<in> set (foldl (\<lambda>z t. ZAdd z (f t) (g t)) z ts) \<longleftrightarrow>
     (p \<in> set z \<and> fst p \<notin> f ` set ts) \<or> p \<in> (\<lambda>t. (f t, g t)) ` set ts"
proof (induction ts arbitrary: z)
  case (Cons t ts)
  then show ?case by (auto simp: set_ZAdd)
qed simp

text \<open>Start-up recovery queues exactly what can be assigned: after it every pending unassigned
  task is in the interrupt queue under its own priority, and it adds nothing else.\<close>

theorem recovery_exact:
  assumes "w_faults w = []" "distinct (map tk_id (w_tasks w))"
  shows "(t, pr) \<in> set (rd_zset (w_redis (snd (recoverPendingTasks w))) RedisQueuedTasks) \<longleftrightarrow>
    (\<exists>r \<in> set (w_tasks w). claimable t r \<and> tk_priority r = pr) \<or>
    (t, pr) \<in> set (rd_zset (w_redis w) RedisQueuedTasks) \<and> \<not> world_free t w"
proof -
  let ?rows = "filter (\<lambda>t. tk_status t = TaskStatusPending \<and> tk_assigned t = None) (w_tasks w)"
  have d: "distinct (map tk_id ?rows)" using assms(2) by (rule distinct_map_filter')
  have "rd_zset (w_redis (snd (recoverPendingTasks w))) RedisQueuedTasks =
      foldl (\<lambda>z t. ZAdd z (tk_id t) (tk_priority t)) (rd_zset (w_redis w) RedisQueuedTasks) ?rows"
    using assms(1) by (simp add: recoverPendingTasks_def redis_exec_def Let_def redis_run_ZAdd_key)
  then show ?thesis using foldl_ZAdd [OF d, of "(t, pr)" tk_priority] by (auto simp: claimable_def world_free_def)
qed

theorem recovery_exact_witness:
  "(1, 5) \<in> set (rd_zset (w_redis (snd (recoverPendingTasks demo_world))) RedisQueuedTasks)"
  using recovery_exact [of demo_world 1 5] by (simp add: demo_world_def claimable_def demo_task_def)

text \<open>The magnitude a task asks for never reaches the selector: the load of a task leaves the
  target magnitude of the payload empty whatever its column says, so the sky-quality gate, which would
  keep a faint target off a site that cannot see it, is always open in production.\<close>

theorem target_magnitude_never_gates:
  assumes "fetchTaskNotifyPayload S now t w = (Inr (Some p, rq), w')"
  shows "tr_TargetMagnitude (RequirementsFromNotify p) = None"
  by (rule fetch_Some [OF assms]) (simp add: RequirementsFromNotify_def hydrate_keeps)

theorem target_magnitude_never_gates_witness:
  "\<exists>p. fst (fetchTaskNotifyPayload demo_services 0 1 (demo_world
       \<lparr>w_tasks := [(demo_task 1)\<lparr>tk_columns := demo_columns\<lparr>tc_target_magnitude := Some (Fin 1)\<rparr>\<rparr>]\<rparr>)) = Inr (Some p, False)
     \<and> tr_TargetMagnitude (RequirementsFromNotify p) = None"
proof -
  let ?t = "(demo_task 1)\<lparr>tk_columns := demo_columns\<lparr>tc_target_magnitude := Some (Fin 1)\<rparr>\<rparr>"
  let ?w = "demo_world\<lparr>w_tasks := [?t]\<rparr>"
  have f: "fetchTaskNotifyPayload demo_services 0 1 ?w = (Inr (Some (hydrate demo_services None ?t), False), ?w)"
    by (simp add: fetchTaskNotifyPayload_def demo_world_def sql_find_def demo_task_def fetch_row_def
        TaskAssignable_def row_in_backoff_def row_campaign_allows_def campaign_of_def AllowsAssign_def)
  from target_magnitude_never_gates [OF f] show ?thesis using f by simp
qed

end
