(* ===== verification/PlannerLoop.thy ===== *)
theory PlannerLoop
  imports Drain
begin

text \<open>
  The planned lane (\<open>cmd/orchestrator/orchestrator_lanes.go\<close>): one tick of the planner, which loads the
  first tasks of the planned queue, builds the agendas of the active nodes and writes them to Redis,
  and the refresh of the standby rosters.  The agendas of distinct nodes go to distinct keys, so the
  order in which Go iterates over the map of nodes does not matter; here it is the order of the slots.
\<close>

section \<open>Standby rosters\<close>

definition NodeStatusIdle :: string where "NodeStatusIdle = ''idle''"
definition NodeStatusOnline :: string where "NodeStatusOnline = ''online''"
definition NodeStatusOffline :: string where "NodeStatusOffline = ''offline''"
definition NodeStatusBusy :: string where "NodeStatusBusy = ''busy''"

lemmas node_status_names = NodeStatusIdle_def NodeStatusOnline_def NodeStatusOffline_def NodeStatusBusy_def

text \<open>One node's row: its start-up time, when its status counts as idle.\<close>

definition standby_row :: "redis_hash \<Rightarrow> int option" where
  "standby_row h =
     (let status = hget h ''status''; s = hget h ''estimated_startup_ms'';
          startup = (if s = [] then 5000 else (case Atoi s of None \<Rightarrow> 5000 | Some n \<Rightarrow> n))
      in if status = [] \<or> status = NodeStatusIdle \<or> status = NodeStatusOnline then Some startup else None)"

fun standby_rows :: "string list \<Rightarrow> world \<Rightarrow> (string \<times> int) list \<times> world" where
  "standby_rows [] w = ([], w)"
| "standby_rows (nid # ids) w =
     (case next_outcome w of (oc, w) \<Rightarrow>
        let r = (if oc \<noteq> Done then None else standby_row (rd_hash (w_redis w) (state_key nid)))
        in (case standby_rows ids w of (rows, w) \<Rightarrow>
          ((case r of None \<Rightarrow> rows | Some n \<Rightarrow> (nid, n) # rows), w)))"

definition roster_classes :: "string list" where
  "roster_classes = [''too'', ''critical'', ''elevated'', ''default'']"

definition roster_cmds :: "standby_entry list \<Rightarrow> string \<Rightarrow> redis_cmd list" where
  "roster_cmds roster cls =
     CDel (StandbyRosterKey cls) #
     map (\<lambda>(i, e). CZAddS (StandbyRosterKey cls) (sb_NodeID e) (int i)) (enumerate 0 roster)"

definition refreshStandbyRosters :: "services \<Rightarrow> world \<Rightarrow> bool \<times> world" where
  "refreshStandbyRosters S w =
     (case next_outcome w of (oc, w) \<Rightarrow>
        if oc \<noteq> Done then (True, w)
        else (let nodeIDs = rd_set (w_redis w) RedisActiveNodes in
          if nodeIDs = [] then (False, w)
          else (case standby_rows nodeIDs w of (idle, w) \<Rightarrow>
            let roster = RankStandby (sv_sort_standby S) (map fst idle) (map_of (rev idle)) DefaultStandbyLimit
            in redis_exec (concat (map (roster_cmds roster) roster_classes)) w)))"

section \<open>One tick of the planner\<close>

text \<open>The task of a loaded payload, as the planner takes it.\<close>

definition plan_task_of :: "services \<Rightarrow> gotime \<Rightarrow> int \<Rightarrow> notify_payload \<Rightarrow> plan_task" where
  "plan_task_of S now taskID p =
     (let (ws, we) = ParseWindow (sv_parse_time S) (sv_parse_nano S) (np_SeasonWindowStart p)
            (np_SeasonWindowEnd p) now;
          integ = (case np_IntegrationTime p of None \<Rightarrow> Fin 60
            | Some x \<Rightarrow> if flt (Fin 0) x then x else Fin 60)
      in \<lparr>pt_TaskID = taskID, pt_CampaignID = np_CampaignID p, pt_Priority = np_Priority p,
          pt_RA = np_TargetRA p, pt_Dec = np_TargetDec p, pt_IntegrationSec = integ,
          pt_CadenceGoalMin = np_SeasonCadenceGoalMin p, pt_WindowStart = ws, pt_WindowEnd = we,
          pt_PreferredNodes = (if np_CoverageEnabled p then np_CoveragePrimary p @ np_CoverageRedundant p else [])\<rparr>)"

text \<open>The loop over the queue's members: which of them become tasks to plan.\<close>

definition load_planned :: "services \<Rightarrow> gotime \<Rightarrow> int \<Rightarrow> world \<Rightarrow> plan_task option \<times> world" where
  "load_planned S now taskID w =
     (case fetchTaskNotifyPayload S now taskID w of
        (Inl _, w) \<Rightarrow> (None, snd (redis_exec [CZRem RedisQueuedPlanned taskID] w))
      | (Inr (None, requeue), w) \<Rightarrow>
          (None, if requeue then w else snd (redis_exec [CZRem RedisQueuedPlanned taskID] w))
      | (Inr (Some p, _), w) \<Rightarrow>
          if ClassifyLane (seasonInputsFromPayload p) = LaneInterrupt
          then (None, enqueueByLane taskID (np_Priority p) LaneInterrupt
                  (snd (redis_exec [CZRem RedisQueuedPlanned taskID] w)))
          else (Some (plan_task_of S now taskID p), w))"

fun load_all :: "services \<Rightarrow> gotime \<Rightarrow> int list \<Rightarrow> world \<Rightarrow> plan_task list \<times> world" where
  "load_all S now [] w = ([], w)"
| "load_all S now (t # ts) w =
     (case load_planned S now t w of (r, w) \<Rightarrow>
      case load_all S now ts w of (rs, w) \<Rightarrow>
        ((case r of None \<Rightarrow> rs | Some pt \<Rightarrow> pt # rs), w))"

definition slot_cmd :: "services \<Rightarrow> string \<Rightarrow> agenda_slot \<Rightarrow> redis_cmd list" where
  "slot_cmd S key s =
     (case sv_marshal_slot S s of None \<Rightarrow> [] | Some m \<Rightarrow> [CZAddS key m (as_StartAt s div 1000000000)])"

definition node_agenda_cmds :: "services \<Rightarrow> gotime \<Rightarrow> string \<Rightarrow> agenda_slot list \<Rightarrow> redis_cmd list" where
  "node_agenda_cmds S now nodeID slots =
     (let rem = ActiveRemainingSec slots now in
      CDel (AgendaKey nodeID) # concat (map (slot_cmd S (AgendaKey nodeID)) slots) @
      [if flt (Fin 0) rem then CHSet (state_key nodeID) [(''plan_remaining_sec'', sv_format_f0 S rem)]
       else CHDel (state_key nodeID) [''plan_remaining_sec'']])"

definition agenda_cmds :: "services \<Rightarrow> gotime \<Rightarrow> agenda_slot list \<Rightarrow> redis_cmd list" where
  "agenda_cmds S now slots =
     concat (map (\<lambda>n. case GroupAgendaByNode (sv_sort_slot S) slots n of None \<Rightarrow> []
        | Some ss \<Rightarrow> node_agenda_cmds S now n ss) (remdups (map as_NodeID slots)))"

definition runPlannerOnce :: "services \<Rightarrow> gotime \<Rightarrow> world \<Rightarrow> bool \<times> world" where
  "runPlannerOnce S now w =
     (case next_outcome w of (oc, w) \<Rightarrow>
        if oc \<noteq> Done then (True, w)
        else (let members = take 64 (ZSorted (rd_zset (w_redis w) RedisQueuedPlanned)) in
          if members = [] then refreshStandbyRosters S w
          else (case next_outcome w of (oc, w) \<Rightarrow>
            let nodeIDs = (if oc \<noteq> Done then [] else rd_set (w_redis w) RedisActiveNodes) in
            if nodeIDs = [] then (False, w)
            else (case load_all S now (map fst members) w of (tasks, w) \<Rightarrow>
              let slots = BuildAgenda (sv_sort_plan S) tasks nodeIDs now in
              if slots = [] then refreshStandbyRosters S w
              else (case redis_exec (agenda_cmds S now slots @
                       map (\<lambda>t. CZRem RedisQueuedPlanned (pt_TaskID t)) tasks) w of (err, w) \<Rightarrow>
                if err then (True, w) else refreshStandbyRosters S w)))))"

section \<open>What a tick does to the queues\<close>

lemma zrun_mem:
  assumes "CDel K \<notin> set cs" "(\<forall>s. CZAdd K m s \<notin> set cs) \<or> CZRem K m \<notin> set cs"
  shows "m \<in> zmembers (rd_zset (redis_run cs r) K) \<longleftrightarrow>
    m \<in> zmembers (rd_zset r K) \<and> CZRem K m \<notin> set cs \<or> (\<exists>s. CZAdd K m s \<in> set cs)"
  using assms
proof (induction cs arbitrary: r)
  case Nil
  then show ?case by (simp add: redis_run_def)
next
  case (Cons c cs)
  have run: "redis_run (c # cs) r = redis_run cs (redis_step r c)" by (simp add: redis_run_def)
  have "m \<in> zmembers (rd_zset (redis_run cs (redis_step r c)) K) \<longleftrightarrow>
      m \<in> zmembers (rd_zset (redis_step r c) K) \<and> CZRem K m \<notin> set cs \<or> (\<exists>s. CZAdd K m s \<in> set cs)"
    by (rule Cons.IH) (use Cons.prems in auto)
  moreover have "m \<in> zmembers (rd_zset (redis_step r c) K) \<longleftrightarrow>
      m \<in> zmembers (rd_zset r K) \<and> c \<noteq> CZRem K m \<or> (\<exists>s. c = CZAdd K m s)"
    using Cons.prems(1) by (cases c) auto
  ultimately show ?case unfolding run using Cons.prems(2) by auto
qed

text \<open>What the tick decides about one member of the queue.\<close>

datatype verdict = VDrop | VKeep | VPromote int | VPlan plan_task

definition planner_verdict :: "services \<Rightarrow> gotime \<Rightarrow> world \<Rightarrow> int \<Rightarrow> verdict" where
  "planner_verdict S now w t =
     (case sql_find (\<lambda>r. tk_id r = t) (w_tasks w) of
        None \<Rightarrow> VDrop
      | Some r \<Rightarrow> (case fetch_row S now (campaign_of w r) r of
          (None, requeue) \<Rightarrow> if requeue then VKeep else VDrop
        | (Some p, _) \<Rightarrow>
            if ClassifyLane (seasonInputsFromPayload p) = LaneInterrupt then VPromote (np_Priority p)
            else VPlan (plan_task_of S now t p)))"

definition verdict_cmds :: "int \<Rightarrow> verdict \<Rightarrow> redis_cmd list" where
  "verdict_cmds t v = (case v of
      VDrop \<Rightarrow> [CZRem RedisQueuedPlanned t]
    | VPromote p \<Rightarrow> CZRem RedisQueuedPlanned t # (if t \<le> 0 then [] else [CZAdd RedisQueuedTasks t p])
    | _ \<Rightarrow> [])"

definition verdict_plan :: "verdict \<Rightarrow> plan_task option" where
  "verdict_plan v = (case v of VPlan pt \<Rightarrow> Some pt | _ \<Rightarrow> None)"

definition with_redis :: "redis_cmd list \<Rightarrow> world \<Rightarrow> world" where
  "with_redis cs w = w\<lparr>w_redis := redis_run cs (w_redis w)\<rparr>"

lemma with_redis_simps [simp]:
  "with_redis [] w = w" "with_redis cs (with_redis ds w) = with_redis (ds @ cs) w"
  "w_faults (with_redis cs w) = w_faults w" "w_redis (with_redis cs w) = redis_run cs (w_redis w)"
  "w_tasks (with_redis cs w) = w_tasks w" "w_campaigns (with_redis cs w) = w_campaigns w"
  by (simp_all add: with_redis_def redis_run_def)

lemma verdict_with_redis [simp]: "planner_verdict S now (with_redis cs w) t = planner_verdict S now w t"
proof -
  have "campaign_of (with_redis cs w) r = campaign_of w r" for r
    unfolding campaign_of_def with_redis_simps ..
  then show ?thesis unfolding planner_verdict_def with_redis_simps by presburger
qed

lemma quiet_redis: "w_faults w = [] \<Longrightarrow> redis_exec cs w = (False, with_redis cs w)"
  by (simp add: redis_exec_def with_redis_def)

lemma load_planned_quiet:
  assumes "w_faults w = []"
  shows "load_planned S now t w =
    (verdict_plan (planner_verdict S now w t), with_redis (verdict_cmds t (planner_verdict S now w t)) w)"
proof (cases "sql_find (\<lambda>r. tk_id r = t) (w_tasks w)")
  case None
  then show ?thesis using assms
    by (simp add: load_planned_def fetchTaskNotifyPayload_def planner_verdict_def verdict_plan_def verdict_cmds_def quiet_redis)
next
  case (Some r)
  obtain x requeue where f: "fetch_row S now (campaign_of w r) r = (x, requeue)" by force
  have load: "fetchTaskNotifyPayload S now t w = (Inr (x, requeue), w)"
    using assms Some f by (simp add: fetchTaskNotifyPayload_def)
  show ?thesis
  proof (cases x)
    case None
    have "planner_verdict S now w t = (if requeue then VKeep else VDrop)"
      using Some f None by (simp add: planner_verdict_def)
    then show ?thesis using load None
      by (cases requeue) (simp_all add: load_planned_def verdict_plan_def verdict_cmds_def quiet_redis [OF assms])
  next
    case (Some p)
    have v: "planner_verdict S now w t =
        (if ClassifyLane (seasonInputsFromPayload p) = LaneInterrupt then VPromote (np_Priority p)
         else VPlan (plan_task_of S now t p))"
      using \<open>sql_find _ _ = _\<close> f Some by (simp add: planner_verdict_def)
    have q: "w_faults (with_redis cs w) = []" for cs using assms by simp
    show ?thesis using load Some
      by (cases "ClassifyLane (seasonInputsFromPayload p) = LaneInterrupt")
        (simp_all add: v load_planned_def verdict_plan_def verdict_cmds_def quiet_redis [OF assms]
          quiet_redis [OF q] enqueueByLane_def Let_def)
  qed
qed

lemma load_all_quiet:
  assumes "w_faults w = []"
  shows "load_all S now ts w = (List.map_filter (\<lambda>t. verdict_plan (planner_verdict S now w t)) ts,
    with_redis (concat (map (\<lambda>t. verdict_cmds t (planner_verdict S now w t)) ts)) w)"
  using assms
proof (induction ts arbitrary: w)
  case (Cons t ts)
  then show ?case
    by (simp add: load_planned_quiet map_filter_simps split: option.split)
qed (simp add: map_filter_simps)

lemma verdict_plan_id: "verdict_plan (planner_verdict S now w t) = Some pt \<Longrightarrow> pt_TaskID pt = t"
  by (auto simp: verdict_plan_def planner_verdict_def plan_task_of_def
      split: option.splits prod.splits if_splits verdict.splits)

text \<open>The commands that touch neither queue.\<close>

definition off_queues :: "redis_cmd list \<Rightarrow> bool" where
  "off_queues cs \<longleftrightarrow> (\<forall>K \<in> {RedisQueuedPlanned, RedisQueuedTasks}. CDel K \<notin> set cs \<and>
     (\<forall>m. CZRem K m \<notin> set cs) \<and> (\<forall>m s. CZAdd K m s \<notin> set cs))"

lemma off_queues_concat: "(\<And>x. x \<in> set xs \<Longrightarrow> off_queues (f x)) \<Longrightarrow> off_queues (concat (map f xs))"
  by (auto simp: off_queues_def)

lemma queue_key_forms [simp]:
  "AgendaKey n \<noteq> RedisQueuedPlanned" "AgendaKey n \<noteq> RedisQueuedTasks"
  "RedisQueuedPlanned \<noteq> AgendaKey n" "RedisQueuedTasks \<noteq> AgendaKey n"
  "StandbyRosterKey c \<noteq> RedisQueuedPlanned" "StandbyRosterKey c \<noteq> RedisQueuedTasks"
  "RedisQueuedPlanned \<noteq> StandbyRosterKey c" "RedisQueuedTasks \<noteq> StandbyRosterKey c"
  by (simp_all add: AgendaKey_def StandbyRosterKey_def redis_names)

lemma off_roster: "off_queues (concat (map (roster_cmds roster) cs))"
  by (rule off_queues_concat) (auto simp: off_queues_def roster_cmds_def)

lemma off_slots: "off_queues (concat (map (slot_cmd S key) slots))"
  by (rule off_queues_concat) (auto simp: off_queues_def slot_cmd_def split: option.split)

lemma off_agenda: "off_queues (agenda_cmds S now slots)"
  unfolding agenda_cmds_def
proof (rule off_queues_concat)
  fix n show "off_queues (case GroupAgendaByNode (sv_sort_slot S) slots n of None \<Rightarrow> []
      | Some ss \<Rightarrow> node_agenda_cmds S now n ss)"
    using off_slots [of S "AgendaKey n"]
    by (auto simp: off_queues_def node_agenda_cmds_def Let_def split: option.split)
qed

lemma standby_rows_quiet: "w_faults w = [] \<Longrightarrow> \<exists>rows. standby_rows ids w = (rows, w)"
  by (induction ids) auto

lemma refresh_quiet:
  assumes "w_faults w = []"
  obtains cs where "refreshStandbyRosters S w = (False, with_redis cs w)" "off_queues cs"
proof (cases "rd_set (w_redis w) RedisActiveNodes = []")
  case True
  show thesis by (rule that [of "[]"]) (use assms True in \<open>simp_all add: refreshStandbyRosters_def off_queues_def\<close>)
next
  case False
  obtain rows where rows: "standby_rows (rd_set (w_redis w) RedisActiveNodes) w = (rows, w)"
    using standby_rows_quiet [OF assms] by blast
  show thesis
    by (rule that [OF _ off_roster]) (use assms False rows in \<open>simp add: refreshStandbyRosters_def Let_def quiet_redis\<close>)
qed

text \<open>The members a tick looks at, and the agenda it builds.\<close>

definition tick_ids :: "world \<Rightarrow> int list" where
  "tick_ids w = map fst (take 64 (ZSorted (rd_zset (w_redis w) RedisQueuedPlanned)))"

definition tick_slots :: "services \<Rightarrow> gotime \<Rightarrow> world \<Rightarrow> agenda_slot list" where
  "tick_slots S now w = BuildAgenda (sv_sort_plan S)
     (List.map_filter (\<lambda>t. verdict_plan (planner_verdict S now w t)) (tick_ids w))
     (rd_set (w_redis w) RedisActiveNodes) now"

lemma runPlannerOnce_quiet:
  assumes q: "w_faults w = []" and nodes: "rd_set (w_redis w) RedisActiveNodes \<noteq> []" and ids: "tick_ids w \<noteq> []"
  obtains off cs where "off_queues off" "off_queues cs" "runPlannerOnce S now w = (False, with_redis
    (concat (map (\<lambda>t. verdict_cmds t (planner_verdict S now w t)) (tick_ids w)) @ off @
     (if tick_slots S now w = [] then []
      else map (CZRem RedisQueuedPlanned)
        (filter (\<lambda>t. verdict_plan (planner_verdict S now w t) \<noteq> None) (tick_ids w))) @ cs) w)"
proof -
  let ?v = "\<lambda>t. verdict_plan (planner_verdict S now w t)"
  let ?cs = "concat (map (\<lambda>t. verdict_cmds t (planner_verdict S now w t)) (tick_ids w))"
  let ?w = "with_redis ?cs w"
  have q1: "w_faults ?w = []" using q by simp
  have ne: "take 64 (ZSorted (rd_zset (w_redis w) RedisQueuedPlanned)) \<noteq> []" using ids by (simp add: tick_ids_def)
  have load: "load_all S now (map fst (take 64 (ZSorted (rd_zset (w_redis w) RedisQueuedPlanned)))) w =
      (List.map_filter ?v (tick_ids w), ?w)" using load_all_quiet [OF q] by (simp add: tick_ids_def)
  have rems: "map (\<lambda>t. CZRem RedisQueuedPlanned (pt_TaskID t)) (List.map_filter ?v ts) =
      map (CZRem RedisQueuedPlanned) (filter (\<lambda>t. ?v t \<noteq> None) ts)" for ts
    by (induction ts) (auto simp: map_filter_simps verdict_plan_id split: option.split)
  show thesis
  proof (cases "tick_slots S now w = []")
    case True
    obtain cs where cs: "refreshStandbyRosters S ?w = (False, with_redis cs ?w)" "off_queues cs"
      using refresh_quiet [OF q1] by blast
    have "runPlannerOnce S now w = refreshStandbyRosters S ?w"
      unfolding runPlannerOnce_def using q ne load nodes True by (simp add: tick_slots_def Let_def)
    then show thesis using cs True by (intro that [of "[]" cs]) (simp_all add: off_queues_def)
  next
    case False
    let ?w2 = "with_redis (agenda_cmds S now (tick_slots S now w) @
      map (CZRem RedisQueuedPlanned) (filter (\<lambda>t. ?v t \<noteq> None) (tick_ids w))) ?w"
    have q2: "w_faults ?w2 = []" using q by simp
    obtain cs where cs: "refreshStandbyRosters S ?w2 = (False, with_redis cs ?w2)" "off_queues cs"
      using refresh_quiet [OF q2] by blast
    have "runPlannerOnce S now w = refreshStandbyRosters S ?w2"
      unfolding runPlannerOnce_def using q q1 ne load nodes False
      by (simp add: tick_slots_def Let_def quiet_redis [OF q1] rems)
    then have run: "runPlannerOnce S now w = (False, with_redis (?cs @ (agenda_cmds S now (tick_slots S now w) @
      map (CZRem RedisQueuedPlanned) (filter (\<lambda>t. ?v t \<noteq> None) (tick_ids w))) @ cs) w)"
      using cs(1) by simp
    show thesis by (rule that [OF off_agenda cs(2)]) (use run False in simp)
  qed
qed

lemma in_verdict_cmds:
  "CDel K \<notin> set (verdict_cmds t v)"
  "CZRem RedisQueuedPlanned m \<in> set (verdict_cmds t v) \<longleftrightarrow> m = t \<and> (v = VDrop \<or> (\<exists>p. v = VPromote p))"
  "CZAdd RedisQueuedPlanned m s \<notin> set (verdict_cmds t v)"
  "CZRem RedisQueuedTasks m \<notin> set (verdict_cmds t v)"
  "CZAdd RedisQueuedTasks m s \<in> set (verdict_cmds t v) \<longleftrightarrow> m = t \<and> 0 < t \<and> v = VPromote s"
  by (auto simp: verdict_cmds_def split: verdict.split)

text \<open>C9: one tick of the planner, with no fault, treats the planned queue exactly so.  Of the first 64
  members, those that are no longer assignable leave it, those in backoff or of a campaign that is not
  active stay, those that have become interrupt work move to the interrupt queue; and if the agenda is
  not empty, every other one leaves it, whether or not the agenda has a slot for it: a task without a
  slot is then in no queue and in no agenda.\<close>

theorem planner_queue_exact:
  assumes "w_faults w = []" "rd_set (w_redis w) RedisActiveNodes \<noteq> []" "tick_ids w \<noteq> []"
    and "runPlannerOnce S now w = (e, w')"
  shows "\<not> e \<and>
    (t \<in> zmembers (rd_zset (w_redis w') RedisQueuedPlanned) \<longleftrightarrow>
       t \<in> zmembers (rd_zset (w_redis w) RedisQueuedPlanned) \<and>
       (t \<notin> set (tick_ids w) \<or> planner_verdict S now w t = VKeep \<or>
        tick_slots S now w = [] \<and> (\<exists>pt. planner_verdict S now w t = VPlan pt))) \<and>
    (t \<in> zmembers (rd_zset (w_redis w') RedisQueuedTasks) \<longleftrightarrow>
       t \<in> zmembers (rd_zset (w_redis w) RedisQueuedTasks) \<or>
       t \<in> set (tick_ids w) \<and> 0 < t \<and> (\<exists>p. planner_verdict S now w t = VPromote p))"
proof -
  let ?V = "planner_verdict S now w"
  obtain off cs where off: "off_queues off" "off_queues cs" and run: "runPlannerOnce S now w = (False, with_redis
    (concat (map (\<lambda>t. verdict_cmds t (?V t)) (tick_ids w)) @ off @
     (if tick_slots S now w = [] then []
      else map (CZRem RedisQueuedPlanned) (filter (\<lambda>t. verdict_plan (?V t) \<noteq> None) (tick_ids w))) @ cs) w)"
    (is "_ = (False, with_redis ?cmds w)")
    using runPlannerOnce_quiet [OF assms(1-3)] by blast
  have e: "\<not> e" "w_redis w' = redis_run ?cmds (w_redis w)" using run assms(4) by simp_all
  have plan: "verdict_plan (?V u) \<noteq> None \<longleftrightarrow> (\<exists>pt. ?V u = VPlan pt)" for u
    by (auto simp: verdict_plan_def split: verdict.split)
  have "t \<in> zmembers (rd_zset (redis_run ?cmds (w_redis w)) RedisQueuedPlanned) \<longleftrightarrow>
      t \<in> zmembers (rd_zset (w_redis w) RedisQueuedPlanned) \<and> CZRem RedisQueuedPlanned t \<notin> set ?cmds \<or>
      (\<exists>s. CZAdd RedisQueuedPlanned t s \<in> set ?cmds)"
    by (rule zrun_mem) (use off in \<open>auto simp: off_queues_def in_verdict_cmds\<close>)
  moreover have "CZAdd RedisQueuedPlanned t s \<notin> set ?cmds" for s
    using off by (auto simp: off_queues_def in_verdict_cmds)
  moreover have "CZRem RedisQueuedPlanned t \<in> set ?cmds \<longleftrightarrow> t \<in> set (tick_ids w) \<and>
      (?V t = VDrop \<or> (\<exists>p. ?V t = VPromote p) \<or> tick_slots S now w \<noteq> [] \<and> (\<exists>pt. ?V t = VPlan pt))"
  proof -
    have "CZRem RedisQueuedPlanned t \<in> set (map (CZRem RedisQueuedPlanned)
        (filter (\<lambda>t. verdict_plan (?V t) \<noteq> None) (tick_ids w))) \<longleftrightarrow>
        t \<in> set (tick_ids w) \<and> (\<exists>pt. ?V t = VPlan pt)" unfolding plan by (auto simp: image_iff)
    moreover have "CZRem RedisQueuedPlanned t \<notin> set off" "CZRem RedisQueuedPlanned t \<notin> set cs"
      using off by (auto simp: off_queues_def)
    moreover have "CZRem RedisQueuedPlanned t \<in> set (concat (map (\<lambda>t. verdict_cmds t (?V t)) (tick_ids w))) \<longleftrightarrow>
        t \<in> set (tick_ids w) \<and> (?V t = VDrop \<or> (\<exists>p. ?V t = VPromote p))" by (auto simp: in_verdict_cmds)
    ultimately show ?thesis by (simp del: set_map set_concat) blast
  qed
  ultimately have planned: "t \<in> zmembers (rd_zset (w_redis w') RedisQueuedPlanned) \<longleftrightarrow>
      t \<in> zmembers (rd_zset (w_redis w) RedisQueuedPlanned) \<and> (t \<notin> set (tick_ids w) \<or> ?V t = VKeep \<or>
        tick_slots S now w = [] \<and> (\<exists>pt. ?V t = VPlan pt))"
    unfolding e(2) by (cases "?V t") auto
  have "t \<in> zmembers (rd_zset (redis_run ?cmds (w_redis w)) RedisQueuedTasks) \<longleftrightarrow>
      t \<in> zmembers (rd_zset (w_redis w) RedisQueuedTasks) \<and> CZRem RedisQueuedTasks t \<notin> set ?cmds \<or>
      (\<exists>s. CZAdd RedisQueuedTasks t s \<in> set ?cmds)"
    by (rule zrun_mem) (use off in \<open>auto simp: off_queues_def in_verdict_cmds\<close>)
  moreover have "CZRem RedisQueuedTasks t \<notin> set ?cmds"
    using off by (auto simp: off_queues_def in_verdict_cmds)
  moreover have "(\<exists>s. CZAdd RedisQueuedTasks t s \<in> set ?cmds) \<longleftrightarrow>
      t \<in> set (tick_ids w) \<and> 0 < t \<and> (\<exists>p. ?V t = VPromote p)"
    using off by (auto simp: off_queues_def in_verdict_cmds)
  ultimately show ?thesis using e planned by simp
qed

text \<open>Two tasks of a sparse season; the exposure of the second is longer than the planning window.\<close>

definition sparse_pack :: pack where
  "sparse_pack = demo_pack\<lparr>pack_Season := Some \<lparr>se_Kind = ''sparse'', se_Urgency = [], se_CadenceGoalMin = 5,
     se_WindowStart = None, se_WindowEnd = None, se_TargetDutyCycle = None, se_Designation = [],
     se_BreakNotes = []\<rparr>, pack_PierCode := None\<rparr>"

definition planner_services :: services where
  "planner_services = demo_services\<lparr>sv_decode_pack := (\<lambda>_. Some sparse_pack)\<rparr>"

definition long_task :: task_row where
  "long_task = (demo_task 2)\<lparr>tk_columns := demo_columns\<lparr>tc_integration_time := Some (Fin 36000)\<rparr>\<rparr>"

definition planner_world :: world where
  "planner_world = demo_world\<lparr>w_tasks := [demo_task 1, long_task],
     w_redis := (w_redis demo_world)\<lparr>rd_zset := (\<lambda>_. [])(RedisQueuedPlanned := [(1, 5), (2, 5)]),
       rd_set := (\<lambda>_. [])(RedisActiveNodes := [''n1''])\<rparr>\<rparr>"

definition sparse_plan :: "int \<Rightarrow> f64 \<Rightarrow> plan_task" where
  "sparse_plan t x = \<lparr>pt_TaskID = t, pt_CampaignID = [], pt_Priority = 5, pt_RA = None, pt_Dec = None,
     pt_IntegrationSec = x, pt_CadenceGoalMin = 5, pt_WindowStart = 0, pt_WindowEnd = 6 * hour,
     pt_PreferredNodes = []\<rparr>"

lemma demo_verdicts:
  "planner_verdict planner_services 0 planner_world 1 = VPlan (sparse_plan 1 (Fin 60))"
  "planner_verdict planner_services 0 planner_world 2 = VPlan (sparse_plan 2 (Fin 36000))"
  by (simp_all add: planner_verdict_def planner_world_def sql_find_def fetch_row_def demo_task_def long_task_def
      demo_columns_def campaign_of_def TaskAssignable_def status_names row_in_backoff_def row_campaign_allows_def
      AllowsAssign_def hydrate_def payload_of_row_def blank_payload_def applyCoverageFromPack_def planner_services_def
      demo_services_def applySeasonFromPack_def ParsePack_def sparse_pack_def FromPackSeason_def demo_pack_def
      applyPierCodeFromPack_def EffectivePierCodeGrants_def EffectivePierCodeArtifact_def
      seasonInputsFromPayload_def ClassifyLane_def TrimSpace_def is_space_def ToLower_def lower_char_def
      plan_task_of_def ParseWindow_def parse_bound_def is_zero_time_def zero_time_def PlanHorizonDefault_def
      sparse_plan_def NormalizeTaskStatus_def)

lemma demo_tick:
  "tick_ids planner_world = [1, 2]" "rd_set (w_redis planner_world) RedisActiveNodes = [''n1'']"
  "w_faults planner_world = []" "rd_zset (w_redis planner_world) RedisQueuedPlanned = [(1, 5), (2, 5)]"
  by (simp_all add: tick_ids_def planner_world_def demo_world_def ZSorted_def SliceStable_def zless_def
      Itoa_def digits10.simps digit_char_def)

lemma demo_durations: "slot_duration (sparse_plan 1 (Fin 60)) = minute"
  "slot_duration (sparse_plan 2 (Fin 36000)) = 10 * hour"
  by (simp_all add: slot_duration_def plan_integ_def sparse_plan_def fle_def trunc_rat_def int64_ok_def)

lemma demo_slots: "\<exists>s. tick_slots planner_services 0 planner_world = [s] \<and> as_TaskID s = 1"
proof -
  define st0 where "st0 = \<lparr>pl_nextFree = (\<lambda>n. if n \<in> {''n1''} then 0 else zero_time), pl_out = [], pl_nodeIdx = 0\<rparr>"
  let ?ts = "[sparse_plan 1 (Fin 60), sparse_plan 2 (Fin 36000)]"
  have ts: "List.map_filter (\<lambda>t. verdict_plan (planner_verdict planner_services 0 planner_world t)) [1, 2] = ?ts"
    by (simp add: map_filter_simps demo_verdicts verdict_plan_def)
  have sorted: "SliceStable plan_less ?ts = ?ts" by (simp add: SliceStable_def plan_less_def sparse_plan_def)
  have w: "plan_window 0 (sparse_plan t x) = (0, 6 * hour)" for t x
    by (simp add: plan_window_def is_zero_time_def PlanHorizonDefault_def sparse_plan_def zero_time_def)
  have c: "plan_cadence (sparse_plan t x) = 5 * minute" for t x
    by (simp add: plan_cadence_def wrap64_def sparse_plan_def)
  have "\<exists>s. pl_out (foldl (plan_task_step [''n1''] 0) st0 ?ts) = [s] \<and> as_TaskID s = 1"
    by (simp add: plan_task_step_def st0_def w c demo_durations plan_candidates_def earliest_start_def Let_def)
      (simp add: sparse_plan_def)
  moreover have "sv_sort_plan planner_services = SliceStable" by (simp add: planner_services_def demo_services_def)
  ultimately show ?thesis unfolding tick_slots_def demo_tick ts by (simp add: BuildAgenda_def sorted st0_def)
qed

theorem planner_queue_exact_witness:
  "2 \<in> zmembers (rd_zset (w_redis planner_world) RedisQueuedPlanned) \<and>
   2 \<notin> zmembers (rd_zset (w_redis (snd (runPlannerOnce planner_services 0 planner_world))) RedisQueuedPlanned) \<and>
   2 \<notin> as_TaskID ` set (tick_slots planner_services 0 planner_world)"
proof -
  obtain s where s: "tick_slots planner_services 0 planner_world = [s]" "as_TaskID s = 1" using demo_slots by blast
  show ?thesis
    using planner_queue_exact [of planner_world planner_services 0 _ _ 2, OF _ _ _ prod.collapse [symmetric]] s
    by (simp add: demo_tick demo_verdicts zmembers_def)
qed

end
