(* ===== verification/TaskApi.thy ===== *)
theory TaskApi
  imports PlannerLoop
begin

text \<open>
  The task endpoints of the API server (\<open>cmd/apiserver/tasks.go\<close>, \<open>task_ids.go\<close>, \<open>ownership.go\<close>,
  \<open>researcher.go\<close>, \<open>upload_assign.go\<close>, \<open>handoff.go\<close>, \<open>budget.go\<close>, \<open>redis_sync.go\<close>): creation, editing by
  supersession, completion, handoff fields, upload authorisation and budget debits, on the tables that
  the orchestrator works on.  A handler takes the decoded request body, the caller's identity and one
  reading of the clock, and returns the HTTP response.  UUIDs are parsed by a parameter and drawn by
  the caller of the model.
\<close>

section \<open>State\<close>

text \<open>The columns of \<open>tasks\<close> that only the API uses, by task.\<close>

record task_extra =
  tx_task :: int
  tx_public_id :: string
  tx_budget :: "f64 option"
  tx_earned :: f64
  tx_developer :: "string option"
  tx_original_spec :: "string option"
  tx_product_mode :: string

text \<open>A request's \<open>Task\<close> (\<open>models.go\<close>); absent fields decode to zero values.\<close>

record api_task =
  at_PublicID :: string
  at_Name :: string
  at_Priority :: int
  at_IntegrationTime :: f64
  at_NormalizedIntegrationBudgetS :: f64
  at_NormalizedIntegrationEarnedS :: f64
  at_MinPower :: f64
  at_TargetMagnitude :: "f64 option"
  at_RequiredFilters :: "string list"
  at_TargetRA :: f64
  at_TargetDec :: f64
  at_MinAltitudeDeg :: f64
  at_ScienceBand :: string
  at_MaxPSFFWHMArcsec :: f64
  at_MinPSFFWHMArcsec :: f64
  at_MinApertureMM :: f64
  at_MinSubExposureS :: f64
  at_MinResolutionArcsec :: f64
  at_MaxResolutionArcsec :: f64
  at_FOVWidthArcmin :: f64
  at_FOVHeightArcmin :: f64
  at_AllowEmulator :: bool
  at_ProductMode :: string
  at_CampaignID :: string
  at_DeveloperUserID :: "string option"
  at_OriginalSpec :: "string option"

record revision_row =
  rv_old_public_id :: string
  rv_new_public_id :: string
  rv_old_task_id :: int
  rv_new_task_id :: int
  rv_actor :: "string option"
  rv_patch :: api_task

record event_row =
  ev_user :: string
  ev_kind :: string
  ev_type :: string
  ev_message :: string
  ev_campaign :: string
  ev_task :: "int option"

text \<open>The owner column of \<open>campaigns\<close>, the approval column of \<open>users\<close>, aperture and quantum efficiency of
  \<open>telescopes\<close>, and the sequence of \<open>tasks.id\<close>.\<close>

record api_state =
  as_world :: world
  as_extra :: "task_extra list"
  as_revisions :: "revision_row list"
  as_events :: "event_row list"
  as_next_id :: int
  as_owner :: "string \<rightharpoonup> string"
  as_approved :: "string \<rightharpoonup> bool"
  as_optics :: "string \<rightharpoonup> f64 option \<times> f64 option"

text \<open>Who calls: the user of a JWT, or a device with the telescope it is bound to.\<close>

record api_caller =
  cl_user :: "string option"
  cl_device :: "string option"

record response =
  rs_code :: int
  rs_body :: "(string \<times> string) list"

definition writeError :: "int \<Rightarrow> string \<Rightarrow> response" where
  "writeError code msg = \<lparr>rs_code = code, rs_body = [(''error'', msg)]\<rparr>"

text \<open>A read, and a statement or transaction that reports the number of its rows.\<close>

definition api_outcome :: "api_state \<Rightarrow> outcome \<times> api_state" where
  "api_outcome s = (case next_outcome (as_world s) of (oc, w) \<Rightarrow> (oc, s\<lparr>as_world := w\<rparr>))"

definition api_read :: "(api_state \<Rightarrow> 'a) \<Rightarrow> api_state \<Rightarrow> (db_error + 'a) \<times> api_state" where
  "api_read f s = (case api_outcome s of (oc, s) \<Rightarrow> (if oc = Done then Inr (f s) else Inl DbError, s))"

definition api_exec :: "(api_state \<Rightarrow> api_state \<times> 'a) \<Rightarrow> api_state \<Rightarrow> (db_error + 'a) \<times> api_state" where
  "api_exec f s =
     (case api_outcome s of (oc, s) \<Rightarrow>
        if oc = Failed then (Inl DbError, s)
        else (case f s of (s', n) \<Rightarrow> (if oc = Lost then Inl DbError else Inr n, s')))"

definition on_world :: "(world \<Rightarrow> 'a \<times> world) \<Rightarrow> api_state \<Rightarrow> 'a \<times> api_state" where
  "on_world f s = (case f (as_world s) of (x, w) \<Rightarrow> (x, s\<lparr>as_world := w\<rparr>))"

definition update_tasks :: "(task_row \<Rightarrow> bool) \<Rightarrow> (task_row \<Rightarrow> task_row) \<Rightarrow> api_state \<Rightarrow> api_state \<times> nat" where
  "update_tasks p f s =
     (case sql_update p f (w_tasks (as_world s)) of (ts, n) \<Rightarrow>
        (s\<lparr>as_world := (as_world s)\<lparr>w_tasks := ts\<rparr>\<rparr>, n))"

definition update_assignments ::
  "(assignment_row \<Rightarrow> bool) \<Rightarrow> (assignment_row \<Rightarrow> assignment_row) \<Rightarrow> api_state \<Rightarrow> api_state \<times> nat" where
  "update_assignments p f s =
     (case sql_update p f (w_assignments (as_world s)) of (ts, n) \<Rightarrow>
        (s\<lparr>as_world := (as_world s)\<lparr>w_assignments := ts\<rparr>\<rparr>, n))"

definition task_by_id :: "int \<Rightarrow> api_state \<Rightarrow> task_row option" where
  "task_by_id i s = sql_find (\<lambda>t. tk_id t = i) (w_tasks (as_world s))"

definition extra_by_id :: "int \<Rightarrow> api_state \<Rightarrow> task_extra option" where
  "extra_by_id i s = sql_find (\<lambda>x. tx_task x = i) (as_extra s)"

section \<open>Task references\<close>

datatype ref_error = RefMissing | RefInvalid | RefNotFound | RefDb

definition lookupTaskByPublicID :: "string \<Rightarrow> api_state \<Rightarrow> (ref_error + int \<times> string) \<times> api_state" where
  "lookupTaskByPublicID pid s =
     (case api_read (\<lambda>s. sql_find (\<lambda>x. tx_public_id x = pid) (as_extra s)) s of
        (Inl e, s) \<Rightarrow> (Inl RefDb, s)
      | (Inr None, s) \<Rightarrow> (Inl RefNotFound, s)
      | (Inr (Some x), s) \<Rightarrow> (Inr (tx_task x, tx_public_id x), s))"

text \<open>A UUID names a public id, a number the internal one.\<close>

definition resolveTaskRef ::
  "(string \<Rightarrow> string option) \<Rightarrow> string \<Rightarrow> api_state \<Rightarrow> (ref_error + int \<times> string) \<times> api_state" where
  "resolveTaskRef uuid_parse ref s =
     (if ref = [] then (Inl RefMissing, s)
      else (case uuid_parse ref of
          Some u \<Rightarrow> lookupTaskByPublicID u s
        | None \<Rightarrow> (case Atoi ref of
            Some i \<Rightarrow> (case api_read (extra_by_id i) s of
                (Inl e, s) \<Rightarrow> (Inl RefDb, s)
              | (Inr None, s) \<Rightarrow> (Inl RefNotFound, s)
              | (Inr (Some x), s) \<Rightarrow> (Inr (i, tx_public_id x), s))
          | None \<Rightarrow> (Inl RefInvalid, s))))"

section \<open>Ownership\<close>

datatype auth_error = AuthTaskNotFound | AuthForbidden | AuthOther | AuthNotAssigned | AuthTerminal

definition isResearcherApproved :: "string \<Rightarrow> api_state \<Rightarrow> bool option \<times> api_state" where
  "isResearcherApproved u s =
     (if u = [] then (None, s)
      else (case api_read (\<lambda>s. as_approved s u) s of
          (Inl e, s) \<Rightarrow> (None, s)
        | (Inr r, s) \<Rightarrow> (r, s)))"

definition requireApprovedResearcher :: "api_caller \<Rightarrow> api_state \<Rightarrow> auth_error option \<times> api_state" where
  "requireApprovedResearcher c s =
     (case cl_user c of
        None \<Rightarrow> (Some AuthOther, s)
      | Some u \<Rightarrow>
          if u = [] then (Some AuthOther, s)
          else (case isResearcherApproved u s of
              (None, s) \<Rightarrow> (Some AuthOther, s)
            | (Some ok, s) \<Rightarrow> (if ok then None else Some AuthOther, s)))"

text \<open>The campaign's creator or the developer who created the task.\<close>

definition owns_task :: "string \<Rightarrow> int \<Rightarrow> api_state \<Rightarrow> bool" where
  "owns_task u i s =
     (\<exists>t\<in>set (w_tasks (as_world s)). tk_id t = i \<and>
        ((case tk_campaign t of None \<Rightarrow> False | Some c \<Rightarrow> as_owner s c = Some u)
         \<or> (case extra_by_id i s of None \<Rightarrow> False | Some x \<Rightarrow> tx_developer x = Some u)))"

definition authorizeResearcherTask :: "api_caller \<Rightarrow> int \<Rightarrow> api_state \<Rightarrow> auth_error option \<times> api_state" where
  "authorizeResearcherTask c i s =
     (case requireApprovedResearcher c s of
        (Some e, s) \<Rightarrow> (Some e, s)
      | (None, s) \<Rightarrow>
          (case cl_user c of
             None \<Rightarrow> (Some AuthForbidden, s)
           | Some u \<Rightarrow>
               (case api_read (\<lambda>s. (task_by_id i s \<noteq> None, owns_task u i s)) s of
                  (Inl e, s) \<Rightarrow> (Some AuthOther, s)
                | (Inr (found, allowed), s) \<Rightarrow>
                    (if \<not> found then Some AuthTaskNotFound
                     else if \<not> allowed then Some AuthForbidden else None, s))))"

definition access_denied :: "auth_error \<Rightarrow> response" where
  "access_denied e =
     (if e = AuthTaskNotFound then writeError 404 ''Task not found'' else writeError 403 ''Task access denied'')"

section \<open>Creating a task\<close>

definition nullFloat :: "f64 \<Rightarrow> f64 option" where
  "nullFloat v = (if feq v (Fin 0) then None else Some v)"

definition nullString :: "string \<Rightarrow> string option" where
  "nullString v = (if v = [] then None else Some v)"

definition nullStringPtr :: "string option \<Rightarrow> string option" where
  "nullStringPtr v = (case v of None \<Rightarrow> None | Some x \<Rightarrow> nullString x)"

definition nullJSON :: "string option \<Rightarrow> string option" where
  "nullJSON raw = nullStringPtr raw"

definition defaultProductMode :: "string \<Rightarrow> string" where
  "defaultProductMode m = (if m = [] then ''per_frame'' else m)"

definition columns_of :: "api_task \<Rightarrow> task_columns" where
  "columns_of t =
     \<lparr>tc_name = at_Name t, tc_integration_time = Some (at_IntegrationTime t),
      tc_min_power = Some (at_MinPower t), tc_target_magnitude = at_TargetMagnitude t,
      tc_required_filters = at_RequiredFilters t, tc_target_ra = Some (at_TargetRA t),
      tc_target_dec = Some (at_TargetDec t), tc_min_altitude_deg = Some (at_MinAltitudeDeg t),
      tc_allow_emulator = at_AllowEmulator t, tc_min_aperture_mm = nullFloat (at_MinApertureMM t),
      tc_min_sub_exposure_s = nullFloat (at_MinSubExposureS t),
      tc_min_resolution_arcsec = nullFloat (at_MinResolutionArcsec t),
      tc_max_resolution_arcsec = nullFloat (at_MaxResolutionArcsec t),
      tc_min_psf_fwhm_arcsec = nullFloat (at_MinPSFFWHMArcsec t),
      tc_max_psf_fwhm_arcsec = nullFloat (at_MaxPSFFWHMArcsec t),
      tc_required_fov_width_arcmin = nullFloat (at_FOVWidthArcmin t),
      tc_required_fov_height_arcmin = nullFloat (at_FOVHeightArcmin t),
      tc_science_band = nullString (at_ScienceBand t), tc_user_end_at = None,
      tc_emergency_handoff_requested_at = None\<rparr>"

definition new_task_row :: "gotime \<Rightarrow> int \<Rightarrow> string option \<Rightarrow> api_task \<Rightarrow> task_row" where
  "new_task_row now i campaign t =
     \<lparr>tk_id = i, tk_status = ''pending'', tk_assigned = None, tk_priority = at_Priority t,
      tk_failure_count = 0, tk_last_attempt = None, tk_scheduled_end = None, tk_handoff_lead = None,
      tk_campaign = campaign, tk_columns = columns_of t, tk_updated = now\<rparr>"

definition insert_task ::
  "gotime \<Rightarrow> string option \<Rightarrow> (int \<Rightarrow> task_extra) \<Rightarrow> api_task \<Rightarrow> api_state \<Rightarrow> api_state \<times> int" where
  "insert_task now campaign x t s =
     (let i = as_next_id s; w = as_world s in
      (s\<lparr>as_world := w\<lparr>w_tasks := w_tasks w @ [new_task_row now i campaign t]\<rparr>,
         as_extra := as_extra s @ [x i], as_next_id := i + 1\<rparr>, i))"

definition handleCreateTask ::
  "gotime \<Rightarrow> string \<Rightarrow> api_caller \<Rightarrow> string + api_task \<Rightarrow> api_state \<Rightarrow> response \<times> api_state" where
  "handleCreateTask now pid c body s =
     (case body of
        Inl e \<Rightarrow> (writeError 400 (''Invalid JSON: '' @ e), s)
      | Inr t \<Rightarrow>
          if at_Name t = [] then (writeError 400 ''name is required'', s)
          else (case api_exec (insert_task now None
              (\<lambda>i. \<lparr>tx_task = i, tx_public_id = pid, tx_budget = nullFloat (at_NormalizedIntegrationBudgetS t),
                    tx_earned = Fin 0, tx_developer = nullStringPtr (cl_user c), tx_original_spec = None,
                    tx_product_mode = ''per_frame''\<rparr>) t) s of
            (Inl e, s) \<Rightarrow> (writeError 500 ''Database error'', s)
          | (Inr i, s) \<Rightarrow> (\<lparr>rs_code = 200, rs_body = [(''id'', pid)]\<rparr>, s)))"

section \<open>Editing a task\<close>

text \<open>
  The driver scans a NULL column into a Go value that is not a pointer only as an error: the load of
  the row fails when one of these columns is NULL.
\<close>

definition existing_task :: "int \<Rightarrow> api_state \<Rightarrow> api_task option" where
  "existing_task i s =
     (case (task_by_id i s, extra_by_id i s) of
        (Some t, Some x) \<Rightarrow>
          (let c = tk_columns t in
           case (tc_integration_time c, tx_budget x, tc_min_power c, tc_target_ra c, tc_target_dec c,
                 tc_min_altitude_deg c) of
             (Some it, Some bud, Some pw, Some ra, Some dec, Some alt) \<Rightarrow>
               (case (tc_min_aperture_mm c, tc_min_sub_exposure_s c, tc_min_resolution_arcsec c,
                      tc_max_resolution_arcsec c, tc_min_psf_fwhm_arcsec c, tc_max_psf_fwhm_arcsec c,
                      tc_required_fov_width_arcmin c, tc_required_fov_height_arcmin c, tc_science_band c) of
                  (Some ap, Some sub, Some minr, Some maxr, Some minp, Some maxp, Some fw, Some fh, Some band) \<Rightarrow>
                    Some \<lparr>at_PublicID = tx_public_id x, at_Name = tc_name c, at_Priority = tk_priority t,
                      at_IntegrationTime = it, at_NormalizedIntegrationBudgetS = bud,
                      at_NormalizedIntegrationEarnedS = tx_earned x, at_MinPower = pw,
                      at_TargetMagnitude = tc_target_magnitude c, at_RequiredFilters = tc_required_filters c,
                      at_TargetRA = ra, at_TargetDec = dec, at_MinAltitudeDeg = alt, at_ScienceBand = band,
                      at_MaxPSFFWHMArcsec = maxp, at_MinPSFFWHMArcsec = minp, at_MinApertureMM = ap,
                      at_MinSubExposureS = sub, at_MinResolutionArcsec = minr, at_MaxResolutionArcsec = maxr,
                      at_FOVWidthArcmin = fw, at_FOVHeightArcmin = fh,
                      at_AllowEmulator = tc_allow_emulator c, at_ProductMode = tx_product_mode x,
                      at_CampaignID = (case tk_campaign t of None \<Rightarrow> [] | Some c \<Rightarrow> c),
                      at_DeveloperUserID = tx_developer x, at_OriginalSpec = tx_original_spec x\<rparr>
                | _ \<Rightarrow> None)
           | _ \<Rightarrow> None)
      | _ \<Rightarrow> None)"

definition pick_float :: "f64 \<Rightarrow> f64 \<Rightarrow> f64" where
  "pick_float new old = (if feq new (Fin 0) then old else new)"

definition pick_list :: "'a list \<Rightarrow> 'a list \<Rightarrow> 'a list" where
  "pick_list new old = (if new = [] then old else new)"

definition applyTaskPatch :: "api_task \<Rightarrow> api_task \<Rightarrow> api_task" where
  "applyTaskPatch dst patch = dst
     \<lparr>at_Name := pick_list (at_Name patch) (at_Name dst),
      at_Priority := (if at_Priority patch \<noteq> 0 then at_Priority patch else at_Priority dst),
      at_IntegrationTime := pick_float (at_IntegrationTime patch) (at_IntegrationTime dst),
      at_NormalizedIntegrationBudgetS :=
        pick_float (at_NormalizedIntegrationBudgetS patch) (at_NormalizedIntegrationBudgetS dst),
      at_MinPower := pick_float (at_MinPower patch) (at_MinPower dst),
      at_TargetMagnitude := (case at_TargetMagnitude patch of None \<Rightarrow> at_TargetMagnitude dst | Some m \<Rightarrow> Some m),
      at_RequiredFilters := pick_list (at_RequiredFilters patch) (at_RequiredFilters dst),
      at_TargetRA := pick_float (at_TargetRA patch) (at_TargetRA dst),
      at_TargetDec := pick_float (at_TargetDec patch) (at_TargetDec dst),
      at_MinAltitudeDeg := pick_float (at_MinAltitudeDeg patch) (at_MinAltitudeDeg dst),
      at_ScienceBand := pick_list (at_ScienceBand patch) (at_ScienceBand dst),
      at_MaxPSFFWHMArcsec := pick_float (at_MaxPSFFWHMArcsec patch) (at_MaxPSFFWHMArcsec dst),
      at_MinPSFFWHMArcsec := pick_float (at_MinPSFFWHMArcsec patch) (at_MinPSFFWHMArcsec dst),
      at_MinApertureMM := pick_float (at_MinApertureMM patch) (at_MinApertureMM dst),
      at_MinSubExposureS := pick_float (at_MinSubExposureS patch) (at_MinSubExposureS dst),
      at_MinResolutionArcsec := pick_float (at_MinResolutionArcsec patch) (at_MinResolutionArcsec dst),
      at_MaxResolutionArcsec := pick_float (at_MaxResolutionArcsec patch) (at_MaxResolutionArcsec dst),
      at_FOVWidthArcmin := pick_float (at_FOVWidthArcmin patch) (at_FOVWidthArcmin dst),
      at_FOVHeightArcmin := pick_float (at_FOVHeightArcmin patch) (at_FOVHeightArcmin dst),
      at_AllowEmulator := (at_AllowEmulator patch \<or> at_AllowEmulator dst)\<rparr>"

definition supersede_row :: "gotime \<Rightarrow> task_row \<Rightarrow> task_row" where
  "supersede_row now t = t\<lparr>tk_status := ''superseded'', tk_updated := now\<rparr>"

text \<open>The transaction: insert the edited copy, retire the old row, record the revision.\<close>

definition supersede ::
  "gotime \<Rightarrow> string \<Rightarrow> string option \<Rightarrow> int \<Rightarrow> api_task \<Rightarrow> api_task \<Rightarrow> api_state \<Rightarrow> api_state \<times> int" where
  "supersede now pid actor oldid patch t s =
     (case insert_task now (nullString (at_CampaignID t))
        (\<lambda>i. \<lparr>tx_task = i, tx_public_id = pid, tx_budget = nullFloat (at_NormalizedIntegrationBudgetS t),
              tx_earned = at_NormalizedIntegrationEarnedS t, tx_developer = nullStringPtr (at_DeveloperUserID t),
              tx_original_spec = nullJSON (at_OriginalSpec t),
              tx_product_mode = defaultProductMode (at_ProductMode t)\<rparr>) t s of (s, i) \<Rightarrow>
      case update_tasks (\<lambda>r. tk_id r = oldid) (supersede_row now) s of (s, _) \<Rightarrow>
        (s\<lparr>as_revisions := as_revisions s @ [\<lparr>rv_old_public_id = at_PublicID t, rv_new_public_id = pid,
             rv_old_task_id = oldid, rv_new_task_id = i, rv_actor = actor, rv_patch = patch\<rparr>]\<rparr>, i))"

definition editable :: "task_row \<Rightarrow> bool" where
  "editable t \<longleftrightarrow> tk_status t = ''pending'' \<and> tk_assigned t = None"

definition patch_task ::
  "gotime \<Rightarrow> string \<Rightarrow> api_caller \<Rightarrow> api_task \<Rightarrow> int \<Rightarrow> api_state \<Rightarrow> response \<times> api_state" where
  "patch_task now pid c patch i s =
     (case api_read (task_by_id i) s of
        (Inl e, s) \<Rightarrow> (writeError 404 ''Task not found'', s)
      | (Inr None, s) \<Rightarrow> (writeError 404 ''Task not found'', s)
      | (Inr (Some t), s) \<Rightarrow>
          if \<not> editable t then (writeError 409 ''Only unassigned pending tasks can be edited'', s)
          else (case api_read (existing_task i) s of
              (Inl e, s) \<Rightarrow> (writeError 500 ''Database error'', s)
            | (Inr None, s) \<Rightarrow> (writeError 500 ''Database error'', s)
            | (Inr (Some old), s) \<Rightarrow>
                (case api_exec (supersede now pid (nullStringPtr (cl_user c)) i patch (applyTaskPatch old patch)) s of
                   (Inl e, s) \<Rightarrow> (writeError 500 ''Database error'', s)
                 | (Inr new, s) \<Rightarrow>
                     (\<lparr>rs_code = 200, rs_body = [(''id'', pid), (''supersedes_id'', at_PublicID old),
                        (''internal_id_old'', Itoa i), (''internal_id_new'', Itoa new)]\<rparr>, s))))"

definition handlePatchTask ::
  "(string \<Rightarrow> string option) \<Rightarrow> gotime \<Rightarrow> string \<Rightarrow> api_caller \<Rightarrow> string \<Rightarrow> string + api_task \<Rightarrow> api_state \<Rightarrow>
   response \<times> api_state" where
  "handlePatchTask uuid_parse now pid c ref body s =
     (case body of
        Inl e \<Rightarrow> (writeError 400 (''Invalid JSON: '' @ e), s)
      | Inr patch \<Rightarrow>
          (case resolveTaskRef uuid_parse ref s of
             (Inl e, s) \<Rightarrow> (writeError 404 ''Task not found'', s)
           | (Inr (i, _), s) \<Rightarrow>
               (case authorizeResearcherTask c i s of
                  (Some e, s) \<Rightarrow> (access_denied e, s)
                | (None, s) \<Rightarrow> patch_task now pid c patch i s)))"

section \<open>Completing a task\<close>

text \<open>Every node that holds the task, by an assignment row or by the task's own column.\<close>

definition task_nodes :: "int \<Rightarrow> world \<Rightarrow> string list" where
  "task_nodes i w =
     filter (\<lambda>n. n \<noteq> []) (remdups
       (map ta_node (filter (\<lambda>r. ta_task r = i) (w_assignments w))
        @ concat (map (\<lambda>t. case tk_assigned t of None \<Rightarrow> [] | Some n \<Rightarrow> if TrimSpace n = [] then [] else [n])
            (filter (\<lambda>t. tk_id t = i) (w_tasks w)))))"

definition idle_cmds :: "string \<Rightarrow> redis_cmd list" where
  "idle_cmds node =
     [CHDel (state_key node) [''current_task_id'', ''current_task_priority'', ''idle_since''],
      CHSet (state_key node) [(''status'', NodeStatusIdle)]]"

fun clear_nodes :: "int \<Rightarrow> string list \<Rightarrow> world \<Rightarrow> world" where
  "clear_nodes i [] w = w"
| "clear_nodes i (n # ns) w =
     clear_nodes i ns
       (case next_outcome w of (oc, w) \<Rightarrow>
          if oc \<noteq> Done then w
          else if map_of (rd_hash (w_redis w) (state_key n)) ''current_task_id'' \<noteq> Some (Itoa i) then w
          else snd (redis_exec (idle_cmds n) w))"

definition clearNodeAssignmentForTask :: "int \<Rightarrow> world \<Rightarrow> world" where
  "clearNodeAssignmentForTask i w =
     (if i \<le> 0 then w
      else (case next_outcome w of (oc, w) \<Rightarrow> if oc \<noteq> Done then w else clear_nodes i (task_nodes i w) w))"

definition complete_row :: "gotime \<Rightarrow> task_row \<Rightarrow> task_row" where
  "complete_row now t = t\<lparr>tk_status := TaskStatusCompleted, tk_updated := now\<rparr>"

definition open_task :: "task_row \<Rightarrow> bool" where
  "open_task t \<longleftrightarrow> tk_status t \<in> {TaskStatusPending, TaskStatusAssigned, TaskStatusInProgress}"

definition finish_assignment :: "gotime \<Rightarrow> assignment_row \<Rightarrow> assignment_row" where
  "finish_assignment now r = r\<lparr>ta_status := ''completed'', ta_updated := now\<rparr>"

definition complete_task :: "gotime \<Rightarrow> int \<Rightarrow> api_state \<Rightarrow> response \<times> api_state" where
  "complete_task now i s =
     (case api_exec (update_tasks (\<lambda>t. tk_id t = i \<and> open_task t) (complete_row now)) s of
        (Inl e, s) \<Rightarrow> (writeError 500 ''Database error'', s)
      | (Inr n, s) \<Rightarrow>
          if n = 0 then (writeError 409 ''Task is not open for completion'', s)
          else (case api_exec (update_assignments (\<lambda>r. ta_task r = i \<and> ta_active r) (finish_assignment now)) s of
                  (_, s) \<Rightarrow>
                    (\<lparr>rs_code = 200, rs_body = [(''message'', ''Task completed'')]\<rparr>,
                     s\<lparr>as_world := clearNodeAssignmentForTask i (as_world s)\<rparr>)))"

definition handleCompleteTask ::
  "(string \<Rightarrow> string option) \<Rightarrow> gotime \<Rightarrow> api_caller \<Rightarrow> string \<Rightarrow> api_state \<Rightarrow> response \<times> api_state" where
  "handleCompleteTask uuid_parse now c ref s =
     (case resolveTaskRef uuid_parse ref s of
        (Inl e, s) \<Rightarrow> (writeError 400 ''Invalid task ID'', s)
      | (Inr (i, _), s) \<Rightarrow>
          (case authorizeResearcherTask c i s of
             (Some e, s) \<Rightarrow> (access_denied e, s)
           | (None, s) \<Rightarrow> complete_task now i s))"

section \<open>Handoff\<close>

definition handoff_of_row :: "task_row \<Rightarrow> handoff_task" where
  "handoff_of_row t =
     (let c = tk_columns t in
      \<lparr>ht_ID = tk_id t, ht_Status = tk_status t, ht_TargetRA = tc_target_ra c, ht_TargetDec = tc_target_dec c,
       ht_MinAltitudeDeg = tc_min_altitude_deg c, ht_ScheduledEndAt = tk_scheduled_end t,
       ht_UserEndAt = tc_user_end_at c, ht_HandoffLeadSeconds = tk_handoff_lead t,
       ht_EmergencyHandoffRequestedAt = tc_emergency_handoff_requested_at c,
       ht_CoverageActive = False\<rparr>)"

text \<open>The result is the error, or whether any handoff is active and the recommended poll interval.\<close>

definition handleHandoffBroadcast ::
  "services \<Rightarrow> gotime \<Rightarrow> api_state \<Rightarrow> (response + bool \<times> int option) \<times> api_state" where
  "handleHandoffBroadcast S now s =
     (case api_read (\<lambda>s. map handoff_of_row (filter open_task (w_tasks (as_world s)))) s of
        (Inl e, s) \<Rightarrow> (Inl (writeError 500 ''database error''), s)
      | (Inr ts, s) \<Rightarrow>
          (let active = AnyHandoffBroadcastActive (sv_handoff S) ts now in
           (Inr (active, if active then Some (BroadcastRecommendedPollSeconds (sv_handoff S) ts now) else None), s)))"

definition set_columns :: "gotime \<Rightarrow> (task_columns \<Rightarrow> task_columns) \<Rightarrow> task_row \<Rightarrow> task_row" where
  "set_columns now f t = t\<lparr>tk_columns := f (tk_columns t), tk_updated := now\<rparr>"

definition upload_closed :: "string \<Rightarrow> bool" where
  "upload_closed status \<longleftrightarrow>
     ToLower (TrimSpace status) \<in> {''completed'', ''cancelled'', ''failed'', ''expired''}"

definition lookupTaskAssignmentAuth ::
  "string \<Rightarrow> int \<Rightarrow> api_state \<Rightarrow> (db_error + bool \<times> bool) \<times> api_state" where
  "lookupTaskAssignmentAuth telescope i =
     api_read (\<lambda>s. let rs = w_assignments (as_world s) in
       (sql_exists (\<lambda>r. ta_task r = i \<and> ta_node r = telescope \<and> ta_active r) rs,
        sql_exists (\<lambda>r. ta_task r = i) rs))"

definition legacy_holder :: "string \<Rightarrow> string option \<Rightarrow> auth_error option" where
  "legacy_holder telescope assigned =
     (case assigned of None \<Rightarrow> Some AuthNotAssigned
      | Some n \<Rightarrow> if TrimSpace n = [] \<or> n \<noteq> telescope then Some AuthNotAssigned else None)"

definition validateUploadAssignment :: "string \<Rightarrow> int \<Rightarrow> api_state \<Rightarrow> auth_error option \<times> api_state" where
  "validateUploadAssignment telescope i s =
     (if telescope = [] then (Some AuthOther, s)
      else if i \<le> 0 then (Some AuthTaskNotFound, s)
      else (case api_read (task_by_id i) s of
          (Inl e, s) \<Rightarrow> (Some AuthOther, s)
        | (Inr None, s) \<Rightarrow> (Some AuthTaskNotFound, s)
        | (Inr (Some t), s) \<Rightarrow>
            if upload_closed (tk_status t) then (Some AuthTerminal, s)
            else (case lookupTaskAssignmentAuth telescope i s of
                (Inl e, s) \<Rightarrow> (Some AuthOther, s)
              | (Inr (authorized, joinHasRows), s) \<Rightarrow>
                  (if authorized then None
                   else if joinHasRows then Some AuthNotAssigned
                   else legacy_holder telescope (tk_assigned t), s))))"

definition authorizeEmergencyHandoff :: "api_caller \<Rightarrow> int \<Rightarrow> api_state \<Rightarrow> auth_error option \<times> api_state" where
  "authorizeEmergencyHandoff c i s =
     (case cl_device c of
        Some telescope \<Rightarrow>
          if telescope = [] then (Some AuthForbidden, s) else validateUploadAssignment telescope i s
      | None \<Rightarrow> authorizeResearcherTask c i s)"

definition handleEmergencyHandoff :: "gotime \<Rightarrow> api_caller \<Rightarrow> string \<Rightarrow> api_state \<Rightarrow> response \<times> api_state" where
  "handleEmergencyHandoff now c idStr s =
     (case Atoi idStr of
        None \<Rightarrow> (writeError 400 ''Invalid task ID'', s)
      | Some i \<Rightarrow>
          (case authorizeEmergencyHandoff c i s of
             (Some e, s) \<Rightarrow> (access_denied e, s)
           | (None, s) \<Rightarrow>
               (case api_exec (update_tasks (\<lambda>t. tk_id t = i)
                   (set_columns now (\<lambda>c. c\<lparr>tc_emergency_handoff_requested_at := Some now\<rparr>))) s of
                  (Inl e, s) \<Rightarrow> (writeError 500 ''database error'', s)
                | (Inr n, s) \<Rightarrow>
                    (if n = 0 then writeError 404 ''Task not found''
                     else \<lparr>rs_code = 200, rs_body = [(''message'', ''Emergency handoff recorded'')]\<rparr>, s))))"

definition parseOptionalTime :: "services \<Rightarrow> string option \<Rightarrow> gotime option" where
  "parseOptionalTime S v =
     (case v of None \<Rightarrow> None | Some x \<Rightarrow> if x = [] then None else sv_parse_time S x)"

record handoff_body =
  hb_ScheduledEndAt :: "string option"
  hb_UserEndAt :: "string option"
  hb_HandoffLeadSeconds :: "int option"
  hb_ClearEmergency :: bool

definition coalesce :: "'a option \<Rightarrow> 'a option \<Rightarrow> 'a option" where
  "coalesce new old = (case new of None \<Rightarrow> old | Some x \<Rightarrow> Some x)"

definition handoff_row :: "services \<Rightarrow> gotime \<Rightarrow> handoff_body \<Rightarrow> task_row \<Rightarrow> task_row" where
  "handoff_row S now b t = (set_columns now (\<lambda>c. c
       \<lparr>tc_user_end_at := coalesce (parseOptionalTime S (hb_UserEndAt b)) (tc_user_end_at c),
        tc_emergency_handoff_requested_at :=
          (if hb_ClearEmergency b then None else tc_emergency_handoff_requested_at c)\<rparr>) t)
     \<lparr>tk_scheduled_end := coalesce (parseOptionalTime S (hb_ScheduledEndAt b)) (tk_scheduled_end t),
      tk_handoff_lead := coalesce (hb_HandoffLeadSeconds b) (tk_handoff_lead t)\<rparr>"

definition handleUpdateTaskHandoff ::
  "services \<Rightarrow> gotime \<Rightarrow> api_caller \<Rightarrow> string \<Rightarrow> string + handoff_body \<Rightarrow> api_state \<Rightarrow> response \<times> api_state" where
  "handleUpdateTaskHandoff S now c idStr body s =
     (case Atoi idStr of
        None \<Rightarrow> (writeError 400 ''Invalid task ID'', s)
      | Some i \<Rightarrow> (case body of
          Inl e \<Rightarrow> (writeError 400 ''invalid JSON'', s)
        | Inr b \<Rightarrow> (case authorizeResearcherTask c i s of
            (Some e, s) \<Rightarrow> (access_denied e, s)
          | (None, s) \<Rightarrow> (case api_exec (update_tasks (\<lambda>t. tk_id t = i) (handoff_row S now b)) s of
              (Inl e, s) \<Rightarrow> (writeError 500 ''database error'', s)
            | (Inr n, s) \<Rightarrow>
                (\<lparr>rs_code = 200, rs_body = [(''message'', ''Handoff fields updated'')]\<rparr>, s)))))"

section \<open>Integration budgets\<close>

definition DRefMM :: f64 where "DRefMM = Fin 2000"
definition QERef :: f64 where "QERef = Fin 1"

definition CHw :: "f64 \<Rightarrow> f64 \<Rightarrow> f64" where
  "CHw apertureMM qe =
     (if fle apertureMM (Fin 0) then Fin 0
      else (let qe = (if fle qe (Fin 0) then QERef else qe); ratio = fdiv apertureMM DRefMM
            in fmul (fmul ratio ratio) (fdiv qe QERef)))"

definition float_or_0 :: "f64 option \<Rightarrow> f64" where
  "float_or_0 v = (case v of None \<Rightarrow> Fin 0 | Some x \<Rightarrow> x)"

definition campaign_of_task :: "int \<Rightarrow> api_state \<Rightarrow> string option" where
  "campaign_of_task i s = (case task_by_id i s of None \<Rightarrow> None | Some t \<Rightarrow> tk_campaign t)"

definition emitResearcherEvent :: "event_row \<Rightarrow> api_state \<Rightarrow> api_state" where
  "emitResearcherEvent e s =
     (if ev_user e = [] \<or> ev_message e = [] then s
      else snd (api_exec (\<lambda>s. (s\<lparr>as_events := as_events s @ [e]\<rparr>, ())) s))"

definition emitCampaignUpdate :: "string \<Rightarrow> string \<Rightarrow> string \<Rightarrow> int option \<Rightarrow> api_state \<Rightarrow> api_state" where
  "emitCampaignUpdate cid type msg task s =
     (case api_read (\<lambda>s. as_owner s cid) s of
        (Inr (Some u), s) \<Rightarrow>
          emitResearcherEvent \<lparr>ev_user = u, ev_kind = ''update'', ev_type = type, ev_message = msg, ev_campaign = cid, ev_task = task\<rparr> s
      | (_, s) \<Rightarrow> s)"

definition emitTaskBudgetComplete :: "int \<Rightarrow> api_state \<Rightarrow> api_state" where
  "emitTaskBudgetComplete i s =
     (case api_read (campaign_of_task i) s of
        (Inr (Some cid), s) \<Rightarrow>
          if cid = [] then s
          else emitCampaignUpdate cid ''task.budget_complete'' ''Task normalized integration budget reached'' (Some i) s
      | (_, s) \<Rightarrow> s)"

definition finished_task :: "task_row \<Rightarrow> bool" where
  "finished_task t \<longleftrightarrow> tk_status t = ''completed'' \<or> tk_status t = ''superseded''"

definition update_campaigns ::
  "(campaign_row \<Rightarrow> bool) \<Rightarrow> (campaign_row \<Rightarrow> campaign_row) \<Rightarrow> api_state \<Rightarrow> api_state \<times> nat" where
  "update_campaigns p f s =
     (case sql_update p f (w_campaigns (as_world s)) of (cs, n) \<Rightarrow>
        (s\<lparr>as_world := (as_world s)\<lparr>w_campaigns := cs\<rparr>\<rparr>, n))"

definition maybeCompleteCampaign :: "int \<Rightarrow> api_state \<Rightarrow> api_state" where
  "maybeCompleteCampaign i s =
     (case api_read (campaign_of_task i) s of
        (Inr (Some cid), s) \<Rightarrow>
          if cid = [] then s
          else (case api_read (\<lambda>s. sql_count (\<lambda>t. tk_campaign t = Some cid \<and> \<not> finished_task t)
                   (w_tasks (as_world s))) s of
              (Inl e, s) \<Rightarrow> s
            | (Inr n, s) \<Rightarrow>
                if n > 0 then s
                else (case api_exec (update_campaigns (\<lambda>c. ca_id c = cid \<and> ca_status c = ''active'')
                          (\<lambda>c. c\<lparr>ca_status := ''completed''\<rparr>)) s of
                    (Inl e, s) \<Rightarrow> s
                  | (Inr m, s) \<Rightarrow>
                      if m = 0 then s
                      else emitCampaignUpdate cid ''campaign.completed'' ''All campaign task budgets earned'' None s))
      | (_, s) \<Rightarrow> s)"

definition set_earned :: "int \<Rightarrow> f64 \<Rightarrow> task_extra \<Rightarrow> task_extra" where
  "set_earned i e x = (if tx_task x = i then x\<lparr>tx_earned := e\<rparr> else x)"

definition credit :: "gotime \<Rightarrow> int \<Rightarrow> f64 \<Rightarrow> api_state \<Rightarrow> api_state \<times> nat" where
  "credit now i earned s =
     update_tasks (\<lambda>t. tk_id t = i) (\<lambda>t. t\<lparr>tk_updated := now\<rparr>)
       (s\<lparr>as_extra := map (set_earned i earned) (as_extra s)\<rparr>)"

definition complete_on_budget :: "gotime \<Rightarrow> int \<Rightarrow> api_state \<Rightarrow> bool \<times> api_state" where
  "complete_on_budget now i s =
     (case api_exec (update_tasks (\<lambda>t. tk_id t = i \<and> \<not> finished_task t)
         (\<lambda>t. t\<lparr>tk_status := ''completed'', tk_updated := now\<rparr>)) s of
        (Inl e, s) \<Rightarrow> (False, s)
      | (Inr n, s) \<Rightarrow>
          (True, if n > 0 then maybeCompleteCampaign i (emitTaskBudgetComplete i s) else s))"

text \<open>The result tells whether the call reports success.\<close>

definition applyTaskBudgetDebit ::
  "gotime \<Rightarrow> int option \<Rightarrow> string \<Rightarrow> f64 \<Rightarrow> bool \<Rightarrow> api_state \<Rightarrow> bool \<times> api_state" where
  "applyTaskBudgetDebit now task telescope exptime stackEligible s =
     (case task of
        None \<Rightarrow> (True, s)
      | Some i \<Rightarrow>
          if i = 0 \<or> \<not> stackEligible \<or> fle exptime (Fin 0) then (True, s)
          else (case api_read (\<lambda>s. as_optics s telescope) s of
              (Inl e, s) \<Rightarrow> (False, s)
            | (Inr None, s) \<Rightarrow> (True, s)
            | (Inr (Some (ap, qe)), s) \<Rightarrow>
                (let delta = fmul exptime (CHw (float_or_0 ap) (float_or_0 qe)) in
                 if fle delta (Fin 0) then (True, s)
                 else (case api_read (extra_by_id i) s of
                     (Inl e, s) \<Rightarrow> (False, s)
                   | (Inr None, s) \<Rightarrow> (False, s)
                   | (Inr (Some x), s) \<Rightarrow>
                       (let earned = fadd (tx_earned x) delta in
                        case api_exec (credit now i earned) s of
                          (Inl e, s) \<Rightarrow> (False, s)
                        | (Inr n, s) \<Rightarrow>
                            (case tx_budget x of
                               None \<Rightarrow> (True, s)
                             | Some b \<Rightarrow>
                                 if flt (Fin 0) b \<and> fle b earned then complete_on_budget now i s
                                 else (True, s)))))))"

end
