(* ===== verification/CoveragePlan.thy ===== *)
theory CoveragePlan
  imports TaskApi
begin

text \<open>
  Continuous coverage: the greedy choice of sites (\<open>shared/coverage/plan.go\<close>, \<open>factors.go\<close>) and the
  loop of the orchestrator that renews the plans (\<open>orchestrator_coverage.go\<close>).  A factor is a function of a
  site, the target and the sites chosen already; weather and forecasts come from a service and are
  part of the candidate sites.
\<close>

section \<open>Intent, sites and factors\<close>

definition DefaultIntent :: coverage_intent where
  "DefaultIntent = \<lparr>ci_Enabled = False, ci_NMain = 1, ci_Redundancy = False, ci_MaxGapMin = 45, ci_MaxSites = 8,
     ci_Mode = ''soft'', ci_PreferredSites = [], ci_MinSites = 0, ci_MinLongitudeSpanDeg = Fin 0\<rparr>"

definition NormalizeIntent :: "coverage_intent \<Rightarrow> coverage_intent" where
  "NormalizeIntent i =
     (let mode = TrimSpace (ToLower (ci_Mode i))
      in i\<lparr>ci_NMain := (if ci_NMain i \<le> 0 then 1 else ci_NMain i),
           ci_MaxGapMin := (if ci_MaxGapMin i \<le> 0 then 45 else ci_MaxGapMin i),
           ci_MaxSites := (if ci_MaxSites i \<le> 0 then 8 else ci_MaxSites i),
           ci_Mode := (if mode = [] then ''soft'' else mode)\<rparr>)"

definition IsHard :: "coverage_intent \<Rightarrow> bool" where
  "IsHard i = EqualFold (TrimSpace (ci_Mode i)) ''hard''"

record site =
  si_TelescopeID :: string
  si_Lat :: f64
  si_Lon :: f64
  si_CohortScore :: f64
  si_Reliability :: f64
  si_Weather :: f64
  si_IsEmulator :: bool

type_synonym factor = "site \<Rightarrow> f64 \<Rightarrow> f64 \<Rightarrow> site list \<Rightarrow> f64"

definition GeometryFactor :: factor where
  "GeometryFactor s ra dec already =
     (if already = [] then Fin 1
      else (let mean = fdiv (foldl (\<lambda>acc a. fadd acc (si_Lon a)) (Fin 0) already) (i2f (int (length already)));
                d = fabs (fsub (si_Lon s) mean);
                d = (if flt (Fin 180) d then fsub (Fin 360) d else d)
            in fdiv d (Fin 180)))"

definition factor_weight :: "f64 \<Rightarrow> f64" where
  "factor_weight w = (if fle w (Fin 0) then Fin 1 else w)"

definition CohortFactor :: "f64 \<Rightarrow> factor" where
  "CohortFactor w s ra dec already = fmul (si_CohortScore s) (factor_weight w)"

definition WeatherFactor :: "f64 \<Rightarrow> factor" where
  "WeatherFactor w s ra dec already =
     fmul (if fle (si_Weather s) (Fin 0) then Fin (1 / 2) else si_Weather s) (factor_weight w)"

definition ReliabilityFactor :: "f64 \<Rightarrow> factor" where
  "ReliabilityFactor w s ra dec already =
     fmul (if fle (si_Reliability s) (Fin 0) then Fin (1 / 2) else si_Reliability s) (factor_weight w)"

definition DefaultFactors :: "factor list" where
  "DefaultFactors = [GeometryFactor, CohortFactor (Fin 1), WeatherFactor (Fin 1), ReliabilityFactor (Fin 1)]"

text \<open>\<open>fetch\<close> is the clearness the forecast service reports for a position.\<close>

definition EnrichWeather :: "(f64 \<Rightarrow> f64 \<Rightarrow> f64) \<Rightarrow> site list \<Rightarrow> site list" where
  "EnrichWeather fetch = map (\<lambda>s.
     if feq (si_Lat s) (Fin 0) \<and> feq (si_Lon s) (Fin 0) then s\<lparr>si_Weather := Fin (1 / 2)\<rparr>
     else (let c = fetch (si_Lat s) (si_Lon s) in s\<lparr>si_Weather := (if fle c (Fin 0) then Fin (1 / 2) else c)\<rparr>))"

section \<open>Picking sites\<close>

definition site_score ::
  "coverage_intent \<Rightarrow> factor list \<Rightarrow> f64 \<Rightarrow> f64 \<Rightarrow> site list \<Rightarrow> site \<Rightarrow> f64" where
  "site_score intent factors ra dec ctx s =
     (let score = foldl (\<lambda>acc f. fadd acc (f s ra dec ctx)) (Fin 0) factors
      in if \<not> IsHard intent \<and> si_TelescopeID s \<in> set (ci_PreferredSites intent) then fadd score (Fin 2) else score)"

text \<open>The scan for the best remaining site that is not a duplicate; a score must exceed the best so far.\<close>

fun best_site :: "(site \<Rightarrow> f64) \<Rightarrow> string set \<Rightarrow> nat \<Rightarrow> site list \<Rightarrow> f64 \<Rightarrow> nat option \<Rightarrow> nat option" where
  "best_site score dups i [] bestScore bestIdx = bestIdx"
| "best_site score dups i (s # ss) bestScore bestIdx =
     (if si_TelescopeID s \<in> dups then best_site score dups (Suc i) ss bestScore bestIdx
      else if flt bestScore (score s) then best_site score dups (Suc i) ss (score s) (Some i)
      else best_site score dups (Suc i) ss bestScore bestIdx)"

definition remove_at :: "nat \<Rightarrow> 'a list \<Rightarrow> 'a list" where
  "remove_at i xs = take i xs @ drop (Suc i) xs"

fun pick_sites ::
  "coverage_intent \<Rightarrow> (site list \<Rightarrow> site \<Rightarrow> f64) \<Rightarrow> nat \<Rightarrow> site list \<Rightarrow> site list \<Rightarrow> site list \<Rightarrow> site list" where
  "pick_sites intent score 0 already remaining chosen = chosen"
| "pick_sites intent score (Suc n) already remaining chosen =
     (if remaining = [] \<or> \<not> int (length already + length chosen) < ci_MaxSites intent then chosen
      else (case best_site (score (already @ chosen)) (si_TelescopeID ` set (already @ chosen)) 0 remaining NInf None of
          None \<Rightarrow> chosen
        | Some i \<Rightarrow> pick_sites intent score n already (remove_at i remaining) (chosen @ [remaining ! i])))"

definition site_pool :: "coverage_intent \<Rightarrow> site list \<Rightarrow> bool \<Rightarrow> site list" where
  "site_pool intent sites allowEmulator =
     (let pool = filter (\<lambda>s. \<not> (si_IsEmulator s \<and> \<not> allowEmulator)) sites;
          pref = filter (\<lambda>i. i \<noteq> []) (ci_PreferredSites intent)
      in if IsHard intent \<and> ci_PreferredSites intent \<noteq> []
         then filter (\<lambda>s. si_TelescopeID s \<in> set pref) pool else pool)"

section \<open>Longitudes\<close>

definition float_less :: "f64 \<Rightarrow> f64 \<Rightarrow> bool" where
  "float_less a b \<longleftrightarrow> flt a b \<or> (is_NaN a \<and> \<not> is_NaN b)"

definition norm_lon :: "f64 \<Rightarrow> f64" where
  "norm_lon lon = (let n = fMod lon (Fin 360) in if flt n (Fin 0) then fadd n (Fin 360) else n)"

fun max_gap :: "f64 \<Rightarrow> f64 list \<Rightarrow> f64" where
  "max_gap g (a # b # xs) = max_gap (if flt g (fsub b a) then fsub b a else g) (b # xs)"
| "max_gap g _ = g"

definition CircularLonSpanDeg :: "f64 list \<Rightarrow> f64" where
  "CircularLonSpanDeg lons =
     (if length lons \<le> 1 then Fin 0
      else (let ns = SliceStable float_less (map norm_lon lons);
                g = max_gap (Fin 0) ns;
                wrap = fsub (fadd (hd ns) (Fin 360)) (last ns);
                g = (if flt g wrap then wrap else g);
                span = fsub (Fin 360) g
            in if flt span (Fin 0) then Fin 0 else span))"

section \<open>Plan and gates\<close>

record coverage_plan =
  pl_Primary :: "site list"
  pl_Redundant :: "site list"
  pl_CoverageH :: f64
  pl_MaxGapMin :: f64
  pl_LongitudeSpanDeg :: f64
  pl_GateStatus :: string
  pl_GateReasons :: "string list"
  pl_MeetsEstimatedGap :: "bool option"

definition worseGate :: "string \<Rightarrow> bool \<Rightarrow> string" where
  "worseGate cur hard = (if hard then ''failed'' else if cur = ''failed'' then ''failed'' else ''degraded'')"

fun unique_from :: "string set \<Rightarrow> string list \<Rightarrow> string list" where
  "unique_from seen [] = []"
| "unique_from seen (s # ss) =
     (if s = [] \<or> s \<in> seen then unique_from seen ss else s # unique_from (insert s seen) ss)"

definition uniqueStrings :: "string list \<Rightarrow> string list" where
  "uniqueStrings ss = unique_from {} ss"

definition EvaluateGates :: "coverage_intent \<Rightarrow> coverage_plan \<Rightarrow> coverage_plan" where
  "EvaluateGates intent plan =
     (let intent = NormalizeIntent intent; hard = IsHard intent in
      if \<not> ci_Enabled intent then plan\<lparr>pl_GateStatus := ''ok'', pl_GateReasons := []\<rparr>
      else (let nSites = int (length (pl_Primary plan) + length (pl_Redundant plan));
                minSites = (if ci_MinSites intent \<le> 0 then ci_NMain intent else ci_MinSites intent);
                (reasons, status) = (pl_GateReasons plan, ''ok'');
                (reasons, status) =
                  (if nSites < minSites then (reasons @ [''min_sites not met''], worseGate status hard)
                   else (reasons, status));
                (reasons, status) =
                  (if flt (Fin 0) (ci_MinLongitudeSpanDeg intent) \<and>
                      flt (fadd (pl_LongitudeSpanDeg plan) (flit (1 / 10 ^ 9))) (ci_MinLongitudeSpanDeg intent)
                   then (reasons @ [''min_longitude_span_deg not met''], worseGate status hard)
                   else (reasons, status));
                (reasons, status) =
                  (if pl_MeetsEstimatedGap plan = Some False
                   then (reasons @ [''estimated_max_gap_min exceeds intent''], worseGate status hard)
                   else (reasons, status));
                (reasons, status) =
                  (if nSites = 0 then (reasons @ [''no sites selected''], ''failed'') else (reasons, status))
            in plan\<lparr>pl_GateStatus := status, pl_GateReasons := uniqueStrings reasons\<rparr>))"

definition empty_plan :: coverage_plan where
  "empty_plan = \<lparr>pl_Primary = [], pl_Redundant = [], pl_CoverageH = Fin 0, pl_MaxGapMin = Fin 0,
     pl_LongitudeSpanDeg = Fin 0, pl_GateStatus = ''ok'', pl_GateReasons = [], pl_MeetsEstimatedGap = None\<rparr>"

definition redundant_count :: "coverage_intent \<Rightarrow> nat" where
  "redundant_count intent =
     (let nRed = f2i (fCeil (fmul (Fin (1 / 2)) (i2f (ci_NMain intent)))) in nat (if nRed < 1 then 1 else nRed))"

definition plan_estimates :: "coverage_intent \<Rightarrow> coverage_plan \<Rightarrow> coverage_plan" where
  "plan_estimates intent plan =
     (let all = pl_Primary plan @ pl_Redundant plan;
          n = i2f (int (length all));
          span = CircularLonSpanDeg (map si_Lon all);
          h = fMin (Fin 24) (fmul (fmul (Fin 24) (fdiv span (Fin 360))) n);
          h = (if flt h (fmul n (Fin 3)) then fMin (Fin 24) (fmul n (Fin 3)) else h);
          gap = fMax (Fin 0) (fdiv (fmul (fsub (Fin 24) h) (Fin 60)) (i2f (max 1 (int (length all)))))
      in plan\<lparr>pl_LongitudeSpanDeg := span, pl_CoverageH := h, pl_MaxGapMin := gap,
              pl_MeetsEstimatedGap := Some (fle gap (i2f (ci_MaxGapMin intent)))\<rparr>)"

definition GreedyFill ::
  "coverage_intent \<Rightarrow> site list \<Rightarrow> f64 \<Rightarrow> f64 \<Rightarrow> factor list \<Rightarrow> bool \<Rightarrow> coverage_plan" where
  "GreedyFill intent sites ra dec factors allowEmulator =
     (let intent = NormalizeIntent intent in
      if \<not> ci_Enabled intent \<or> sites = [] \<or> factors = [] then
        empty_plan\<lparr>pl_GateStatus := ''insufficient_data'',
          pl_GateReasons := (if ci_Enabled intent then [''no candidate sites or factors''] else [])\<rparr>
      else (let pool = site_pool intent sites allowEmulator;
                score = site_score intent factors ra dec;
                primary = pick_sites intent score (nat (ci_NMain intent)) [] pool [];
                redundant = (if ci_Redundancy intent
                             then pick_sites intent score (redundant_count intent) primary pool [] else []);
                plan = empty_plan\<lparr>pl_Primary := primary, pl_Redundant := redundant\<rparr>
            in if primary @ redundant = []
               then EvaluateGates intent (plan\<lparr>pl_GateStatus := ''failed'', pl_GateReasons := [''no sites selected'']\<rparr>)
               else EvaluateGates intent (plan_estimates intent plan)))"

definition SiteIDs :: "site list \<Rightarrow> string list" where
  "SiteIDs = map si_TelescopeID"

definition PreferredIDs :: "coverage_plan \<Rightarrow> string list" where
  "PreferredIDs plan = unique_from {} (SiteIDs (pl_Primary plan @ pl_Redundant plan))"

section \<open>Lemmas\<close>

declare flt_irrefl [simp]

lemma flt_trans: "flt a b \<Longrightarrow> flt b c \<Longrightarrow> flt a c"
  by (cases a; cases b; cases c) auto

lemma best_site_spec:
  "(best_site score dups i ss b idx = idx \<and> (\<forall>s \<in> set ss. si_TelescopeID s \<notin> dups \<longrightarrow> \<not> flt b (score s))) \<or>
   (\<exists>j < length ss. best_site score dups i ss b idx = Some (i + j) \<and> si_TelescopeID (ss ! j) \<notin> dups \<and>
      flt b (score (ss ! j)) \<and> (\<forall>s \<in> set ss. si_TelescopeID s \<notin> dups \<longrightarrow> \<not> flt (score (ss ! j)) (score s)))"
proof (induction score dups i ss b idx rule: best_site.induct)
  case (2 score dups i s ss b idx)
  show ?case
  proof (cases "si_TelescopeID s \<notin> dups \<and> flt b (score s)")
    case True
    then have r: "best_site score dups i (s # ss) b idx = best_site score dups (Suc i) ss (score s) (Some i)" by simp
    from 2(2) True consider
        "best_site score dups (Suc i) ss (score s) (Some i) = Some i" "\<forall>x \<in> set ss. si_TelescopeID x \<notin> dups \<longrightarrow> \<not> flt (score s) (score x)"
      | j where "j < length ss" "best_site score dups (Suc i) ss (score s) (Some i) = Some (Suc i + j)"
        "si_TelescopeID (ss ! j) \<notin> dups" "flt (score s) (score (ss ! j))"
        "\<forall>x \<in> set ss. si_TelescopeID x \<notin> dups \<longrightarrow> \<not> flt (score (ss ! j)) (score x)"
      by blast
    then show ?thesis
    proof cases
      case 1
      with True r show ?thesis by (intro disjI2 exI [of _ 0]) (auto simp: flt_irrefl)
    next
      case (2 j)
      then have "flt b (score (ss ! j))" "\<not> flt (score (ss ! j)) (score s)" using True flt_trans flt_irrefl by blast+
      with 2 True r show ?thesis by (intro disjI2 exI [of _ "Suc j"]) auto
    qed
  next
    case False
    then have r: "best_site score dups i (s # ss) b idx = best_site score dups (Suc i) ss b idx" by auto
    have "best_site score dups (Suc i) ss b idx = idx \<and> (\<forall>x \<in> set ss. si_TelescopeID x \<notin> dups \<longrightarrow> \<not> flt b (score x)) \<or>
      (\<exists>j < length ss. best_site score dups (Suc i) ss b idx = Some (Suc i + j) \<and> si_TelescopeID (ss ! j) \<notin> dups \<and>
        flt b (score (ss ! j)) \<and> (\<forall>x \<in> set ss. si_TelescopeID x \<notin> dups \<longrightarrow> \<not> flt (score (ss ! j)) (score x)))"
      using 2(1,3) False by blast
    then show ?thesis
    proof (elim disjE exE conjE)
      fix j assume j: "j < length ss" "best_site score dups (Suc i) ss b idx = Some (Suc i + j)"
        "si_TelescopeID (ss ! j) \<notin> dups" "flt b (score (ss ! j))"
        "\<forall>x \<in> set ss. si_TelescopeID x \<notin> dups \<longrightarrow> \<not> flt (score (ss ! j)) (score x)"
      then have "si_TelescopeID s \<notin> dups \<longrightarrow> \<not> flt (score (ss ! j)) (score s)" using False flt_trans by blast
      with j r show ?thesis by (intro disjI2 exI [of _ "Suc j"]) auto
    qed (use False r in auto)
  qed
qed simp

lemma set_remove_at:
  "set (remove_at i xs) \<subseteq> set xs" "i < length xs \<Longrightarrow> set xs \<subseteq> insert (xs ! i) (set (remove_at i xs))"
proof -
  show "set (remove_at i xs) \<subseteq> set xs" by (auto simp: remove_at_def dest: in_set_takeD in_set_dropD)
  assume "i < length xs"
  then have "set xs = set (take i xs @ xs ! i # drop (Suc i) xs)" by (simp only: id_take_nth_drop [symmetric])
  then show "set xs \<subseteq> insert (xs ! i) (set (remove_at i xs))" by (simp add: remove_at_def)
qed

text \<open>What one call of \<open>pick\<close> adds: fresh sites of the pool, up to the two limits, each with a best score
  among the sites of the pool that were not chosen before it.\<close>

lemma pick_sites_spec:
  assumes "set pool \<subseteq> set remaining \<union> {s. si_TelescopeID s \<in> si_TelescopeID ` set (already @ chosen)}"
    "set remaining \<subseteq> set pool" "distinct (map si_TelescopeID (already @ chosen))"
  shows "\<exists>new. pick_sites intent score n already remaining chosen = chosen @ new \<and> set new \<subseteq> set pool \<and> length new \<le> n \<and>
    distinct (map si_TelescopeID (already @ chosen @ new)) \<and>
    (new = [] \<or> int (length already + length (chosen @ new)) \<le> ci_MaxSites intent) \<and>
    (\<forall>k < length new. \<forall>s \<in> set pool. si_TelescopeID s \<notin> si_TelescopeID ` set (already @ chosen @ take k new) \<longrightarrow>
       \<not> flt (score (already @ chosen @ take k new) (new ! k)) (score (already @ chosen @ take k new) s))"
  using assms
proof (induction n arbitrary: remaining chosen)
  case (Suc n)
  let ?ctx = "already @ chosen" and ?dups = "si_TelescopeID ` set (already @ chosen)"
  let ?best = "best_site (score ?ctx) ?dups 0 remaining NInf None"
  show ?case
  proof (cases "remaining = [] \<or> \<not> int (length already + length chosen) < ci_MaxSites intent \<or> ?best = None")
    case True
    then show ?thesis using Suc.prems by (intro exI [of _ "[]"]) auto
  next
    case False
    then obtain j where j: "j < length remaining" "?best = Some j" "si_TelescopeID (remaining ! j) \<notin> ?dups"
      "\<forall>s \<in> set remaining. si_TelescopeID s \<notin> ?dups \<longrightarrow> \<not> flt (score ?ctx (remaining ! j)) (score ?ctx s)"
      using best_site_spec [of "score ?ctx" ?dups 0 remaining NInf None] by auto
    let ?s = "remaining ! j"
    have s: "?s \<in> set pool" using j(1) Suc.prems(2) by auto
    have 1: "set pool \<subseteq> set (remove_at j remaining) \<union> {s. si_TelescopeID s \<in> si_TelescopeID ` set (already @ chosen @ [?s])}"
    proof
      fix x assume "x \<in> set pool"
      with Suc.prems(1) have "x \<in> set remaining \<or> si_TelescopeID x \<in> ?dups" by blast
      moreover have "x \<in> set (remove_at j remaining)" if "x \<in> set remaining" "x \<noteq> ?s"
        using set_remove_at(2) [OF j(1)] that by blast
      ultimately have "si_TelescopeID x \<in> ?dups \<or> x \<in> set (remove_at j remaining) \<or> x = ?s" by blast
      then show "x \<in> set (remove_at j remaining) \<union> {s. si_TelescopeID s \<in> si_TelescopeID ` set (already @ chosen @ [?s])}"
        unfolding set_append image_Un by (elim disjE) simp_all
    qed
    have 2: "set (remove_at j remaining) \<subseteq> set pool"      by (rule subset_trans [OF set_remove_at(1) Suc.prems(2)])
    have 3: "distinct (map si_TelescopeID (already @ chosen @ [?s]))" using Suc.prems(3) j(3) by auto
    from Suc.IH [OF 1 2 3] obtain new where new:
      "pick_sites intent score n already (remove_at j remaining) (chosen @ [?s]) = (chosen @ [?s]) @ new"
      "set new \<subseteq> set pool" "length new \<le> n" "distinct (map si_TelescopeID (already @ (chosen @ [?s]) @ new))"
      "new = [] \<or> int (length already + length ((chosen @ [?s]) @ new)) \<le> ci_MaxSites intent"
      "\<forall>k < length new. \<forall>s \<in> set pool. si_TelescopeID s \<notin> si_TelescopeID ` set (already @ (chosen @ [?s]) @ take k new) \<longrightarrow>
         \<not> flt (score (already @ (chosen @ [?s]) @ take k new) (new ! k)) (score (already @ (chosen @ [?s]) @ take k new) s)"
      by blast
    have best: "\<not> flt (score ?ctx ?s) (score ?ctx s)" if "s \<in> set pool" "si_TelescopeID s \<notin> ?dups" for s
      using j(4) that Suc.prems(1) by auto
    show ?thesis
    proof (intro exI [of _ "?s # new"] conjI allI ballI impI)
      show "pick_sites intent score (Suc n) already remaining chosen = chosen @ ?s # new"
        using False j(2) new(1) by simp
      show "?s # new = [] \<or> int (length already + length (chosen @ ?s # new)) \<le> ci_MaxSites intent"
        using new(5) False by auto
      fix k s assume k: "k < length (?s # new)" "s \<in> set pool"
        "si_TelescopeID s \<notin> si_TelescopeID ` set (already @ chosen @ take k (?s # new))"
      show "\<not> flt (score (already @ chosen @ take k (?s # new)) ((?s # new) ! k)) (score (already @ chosen @ take k (?s # new)) s)"
      proof (cases k)
        case 0
        with k best show ?thesis by simp
      next
        case (Suc m)
        with k new(6) show ?thesis by simp
      qed
    qed (use new s in auto)
  qed
qed (auto intro: exI [of _ "[]"])


lemma EvaluateGates_sites [simp]:
  "pl_Primary (EvaluateGates i p) = pl_Primary p" "pl_Redundant (EvaluateGates i p) = pl_Redundant p"
  by (simp_all add: EvaluateGates_def Let_def split_def)

lemma plan_estimates_sites [simp]:
  "pl_Primary (plan_estimates i p) = pl_Primary p" "pl_Redundant (plan_estimates i p) = pl_Redundant p"
  by (simp_all add: plan_estimates_def Let_def)

definition planned :: "coverage_intent \<Rightarrow> site list \<Rightarrow> factor list \<Rightarrow> bool" where
  "planned intent sites factors \<longleftrightarrow> ci_Enabled intent \<and> sites \<noteq> [] \<and> factors \<noteq> []"

lemma NormalizeIntent_keeps [simp]:
  "ci_Enabled (NormalizeIntent i) = ci_Enabled i" "ci_Redundancy (NormalizeIntent i) = ci_Redundancy i"
  "ci_PreferredSites (NormalizeIntent i) = ci_PreferredSites i" "0 < ci_NMain (NormalizeIntent i)"
  "0 < ci_MaxSites (NormalizeIntent i)"
  by (auto simp: NormalizeIntent_def Let_def)

lemma GreedyFill_sites:
  "pl_Primary (GreedyFill i sites ra dec fs emu) =
     (if planned i sites fs
      then pick_sites (NormalizeIntent i) (site_score (NormalizeIntent i) fs ra dec) (nat (ci_NMain (NormalizeIntent i))) []
        (site_pool (NormalizeIntent i) sites emu) []
      else [])"
  "pl_Redundant (GreedyFill i sites ra dec fs emu) =
     (if planned i sites fs \<and> ci_Redundancy i
      then pick_sites (NormalizeIntent i) (site_score (NormalizeIntent i) fs ra dec) (redundant_count (NormalizeIntent i))
        (pl_Primary (GreedyFill i sites ra dec fs emu)) (site_pool (NormalizeIntent i) sites emu) []
      else [])"
  by (simp_all add: GreedyFill_def Let_def planned_def empty_plan_def)

lemma site_pool_members:
  "s \<in> set (site_pool i sites emu) \<longleftrightarrow>
     s \<in> set sites \<and> (si_IsEmulator s \<longrightarrow> emu) \<and>
     (IsHard i \<and> ci_PreferredSites i \<noteq> [] \<longrightarrow> si_TelescopeID s \<noteq> [] \<and> si_TelescopeID s \<in> set (ci_PreferredSites i))"
  by (auto simp: site_pool_def Let_def)

text \<open>C30: A coverage plan selects sites that differ, all of them candidates, no emulator unless it is allowed, in
  hard mode with preferred sites only preferred ones, at most the intended number of primaries and at most the
  intended number of sites; redundant sites appear only on demand; and the primaries are greedy: none of the
  sites that could have stood in a place scored better there.\<close>

theorem coverage_plan_sound:
  "let i = NormalizeIntent intent; plan = GreedyFill intent sites ra dec factors emu;
       p = pl_Primary plan; r = pl_Redundant plan in
    distinct (SiteIDs (p @ r)) \<and> set (p @ r) \<subseteq> set sites \<and>
    (\<forall>s \<in> set (p @ r). (si_IsEmulator s \<longrightarrow> emu) \<and>
       (IsHard i \<and> ci_PreferredSites intent \<noteq> [] \<longrightarrow> si_TelescopeID s \<in> set (ci_PreferredSites intent))) \<and>
    int (length p) \<le> ci_NMain i \<and> int (length (p @ r)) \<le> ci_MaxSites i \<and> (r \<noteq> [] \<longrightarrow> ci_Redundancy intent) \<and>
    (\<forall>k < length p. \<forall>s \<in> set (site_pool i sites emu).
       si_TelescopeID s \<notin> si_TelescopeID ` set (take k p) \<longrightarrow>
       \<not> flt (site_score i factors ra dec (take k p) (p ! k)) (site_score i factors ra dec (take k p) s))"
proof (cases "planned intent sites factors")
  case False
  then show ?thesis by (simp add: Let_def GreedyFill_sites SiteIDs_def order_less_imp_le)
next
  case True
  define i where "i = NormalizeIntent intent"
  let ?pool = "site_pool i sites emu" and ?score = "site_score i factors ra dec"
  let ?p = "pl_Primary (GreedyFill intent sites ra dec factors emu)"
  let ?r = "pl_Redundant (GreedyFill intent sites ra dec factors emu)"
  have "?p = pick_sites i ?score (nat (ci_NMain i)) [] ?pool []" using True by (simp add: GreedyFill_sites i_def)
  with pick_sites_spec [of ?pool ?pool "[]" "[]" i ?score "nat (ci_NMain i)"] have p:
    "set ?p \<subseteq> set ?pool" "length ?p \<le> nat (ci_NMain i)" "distinct (map si_TelescopeID ?p)"
    "?p = [] \<or> int (length ?p) \<le> ci_MaxSites i"
    "\<forall>k < length ?p. \<forall>s \<in> set ?pool. si_TelescopeID s \<notin> si_TelescopeID ` set (take k ?p) \<longrightarrow>
       \<not> flt (?score (take k ?p) (?p ! k)) (?score (take k ?p) s)"
    by auto
  have r: "set ?r \<subseteq> set ?pool \<and> distinct (map si_TelescopeID (?p @ ?r)) \<and>
      (?r = [] \<or> int (length ?p + length ?r) \<le> ci_MaxSites i) \<and> (?r \<noteq> [] \<longrightarrow> ci_Redundancy intent)"
  proof (cases "ci_Redundancy intent")
    case True
    with \<open>planned intent sites factors\<close> have "?r = pick_sites i ?score (redundant_count i) ?p ?pool []"
      by (simp add: GreedyFill_sites(2) i_def)
    with pick_sites_spec [of ?pool ?pool ?p "[]" i ?score "redundant_count i"] p(3) True show ?thesis by auto
  qed (use p(3) in \<open>simp add: GreedyFill_sites(2)\<close>)
  have "0 < ci_MaxSites i" "0 < ci_NMain i" by (simp_all add: i_def)
  then have n: "int (length (?p @ ?r)) \<le> ci_MaxSites i" "int (length ?p) \<le> ci_NMain i" using p(2,4) r by auto
  have m: "\<And>s. s \<in> set (?p @ ?r) \<Longrightarrow> s \<in> set ?pool" using p(1) r by auto
  have "s \<in> set sites \<and> (si_IsEmulator s \<longrightarrow> emu) \<and>
      (IsHard i \<and> ci_PreferredSites intent \<noteq> [] \<longrightarrow> si_TelescopeID s \<in> set (ci_PreferredSites intent))"
    if "s \<in> set (?p @ ?r)" for s
    using m [OF that] unfolding site_pool_members i_def by simp
  then show ?thesis unfolding Let_def SiteIDs_def i_def [symmetric] using n r p(5) by blast
qed

definition demo_site :: "string \<Rightarrow> rat \<Rightarrow> site" where
  "demo_site n lon = \<lparr>si_TelescopeID = n, si_Lat = Fin 10, si_Lon = Fin lon, si_CohortScore = Fin 1, si_Reliability = Fin 1,
     si_Weather = Fin 1, si_IsEmulator = False\<rparr>"

definition demo_coverage :: coverage_intent where
  "demo_coverage = DefaultIntent\<lparr>ci_Enabled := True, ci_Redundancy := True\<rparr>"

lemma demo_intent_simps [simp]:
  "NormalizeIntent demo_coverage = demo_coverage" "IsHard demo_coverage = False" "ci_NMain demo_coverage = 1"
  "ci_MaxSites demo_coverage = 8" "ci_PreferredSites demo_coverage = []" "ci_Enabled demo_coverage" "ci_Redundancy demo_coverage"
  by code_simp+

lemma demo_scores [simp]:
  "site_score demo_coverage [GeometryFactor] ra dec [] s = Fin 1"
  "site_score demo_coverage [GeometryFactor] ra dec [demo_site ''a'' 0] (demo_site ''a'' 0) = Fin 0"
  "site_score demo_coverage [GeometryFactor] ra dec [demo_site ''a'' 0] (demo_site ''b'' 90) = Fin (1 / 2)"
  "site_score demo_coverage [GeometryFactor] ra dec [demo_site ''a'' 0] (demo_site ''c'' 180) = Fin 1"
  by (simp_all add: site_score_def GeometryFactor_def demo_site_def i2f_def Let_def fsub_def)

lemma demo_site_simps [simp]: "si_TelescopeID (demo_site n x) = n" "si_IsEmulator (demo_site n x) = False"
  by (simp_all add: demo_site_def)

lemma demo_pool: "site_pool demo_coverage [demo_site ''a'' 0, demo_site ''b'' 90, demo_site ''c'' 180] emu =
    [demo_site ''a'' 0, demo_site ''b'' 90, demo_site ''c'' 180]"
  by (simp add: site_pool_def)

lemma demo_redundant: "redundant_count demo_coverage = 1"
proof -
  have "\<lceil>1 / 2 :: rat\<rceil> = 1" by (simp add: ceiling_eq_iff)
  then show ?thesis by (simp add: redundant_count_def i2f_def Let_def int64_ok_def trunc_rat_def)
qed

lemma demo_primary:
  "pl_Primary (GreedyFill demo_coverage [demo_site ''a'' 0, demo_site ''b'' 90, demo_site ''c'' 180] (Fin 0) (Fin 0)
     [GeometryFactor] False) = [demo_site ''a'' 0]"
  by (simp add: GreedyFill_sites(1) planned_def demo_pool)

lemma demo_plan:
  "pl_Redundant (GreedyFill demo_coverage [demo_site ''a'' 0, demo_site ''b'' 90, demo_site ''c'' 180] (Fin 0) (Fin 0)
     [GeometryFactor] False) = [demo_site ''c'' 180]"
  by (simp add: GreedyFill_sites(2) demo_primary planned_def demo_pool demo_redundant)

text \<open>The mean of the longitudes ignores that they wrap: with sites at 170 and 190 degrees east chosen, one
  between them scores as high as any site can.\<close>

lemma geometry_ignores_wrap:
  "GeometryFactor (demo_site ''c'' 180) ra dec [demo_site ''a'' 170, demo_site ''b'' (-170)] = Fin 1"
  "GeometryFactor (demo_site ''d'' 0) ra dec [demo_site ''a'' 170, demo_site ''b'' (-170)] = Fin 0"
  by (simp_all add: GeometryFactor_def demo_site_def i2f_def Let_def fsub_def)

theorem coverage_plan_sound_witness:
  "let plan = GreedyFill demo_coverage [demo_site ''a'' 0, demo_site ''b'' 90, demo_site ''c'' 180] (Fin 0) (Fin 0)
     [GeometryFactor] False in distinct (SiteIDs (pl_Primary plan @ pl_Redundant plan)) \<and>
     set (pl_Primary plan @ pl_Redundant plan) \<subseteq> set [demo_site ''a'' 0, demo_site ''b'' 90, demo_site ''c'' 180] \<and>
     pl_Redundant plan = [demo_site ''c'' 180]"
  using coverage_plan_sound [of demo_coverage "[demo_site ''a'' 0, demo_site ''b'' 90, demo_site ''c'' 180]" "Fin 0" "Fin 0"
      "[GeometryFactor]" False] demo_plan
  unfolding Let_def by blast

section \<open>Renewing the plans\<close>

text \<open>\<open>coverageLoopInterval\<close> reads an environment variable with the minutes between two runs.\<close>

definition coverageLoopInterval :: "string \<Rightarrow> duration \<Rightarrow> duration" where
  "coverageLoopInterval v def =
     (if v = [] then def
      else (case Atoi v of None \<Rightarrow> def | Some m \<Rightarrow> if m \<le> 0 then def else wrap64 (m * minute)))"

text \<open>
  \<open>ccv_sql_enabled\<close> is the jsonb expression of the query, \<open>ccv_set_plan\<close> decodes a pack, replaces its
  two coverage blocks and encodes it again, \<open>ccv_fetch\<close> is the forecast of a position.  The column
  \<open>test_only\<close> and the table \<open>telescopes\<close> are not written here and are arguments.
\<close>

record coverage_codec =
  ccv_sql_enabled :: "string \<Rightarrow> bool"
  ccv_set_plan :: "gotime \<Rightarrow> coverage_intent \<Rightarrow> coverage_plan \<Rightarrow> string \<Rightarrow> string option"
  ccv_fetch :: "f64 \<Rightarrow> f64 \<Rightarrow> f64"

definition coverage_site :: "telescope_row \<Rightarrow> site" where
  "coverage_site t =
     \<lparr>si_TelescopeID = te_id t, si_Lat = float_or_0 (te_site_latitude t), si_Lon = float_or_0 (te_site_longitude t),
      si_CohortScore = (if fle (te_power t) (Fin 0) then Fin (1 / 2) else te_power t),
      si_Reliability = (if fle (te_reliability t) (Fin 0) then Fin (1 / 2) else te_reliability t),
      si_Weather = Fin 0, si_IsEmulator = te_is_emulator t\<rparr>"

definition loadOrchestratorCoverageSites ::
  "telescope_row list \<Rightarrow> api_state \<Rightarrow> (db_error + site list) \<times> api_state" where
  "loadOrchestratorCoverageSites tele = api_read (\<lambda>s. map coverage_site (filter te_active tele))"

definition persistOrchestratorCoveragePlan ::
  "coverage_codec \<Rightarrow> gotime \<Rightarrow> string \<Rightarrow> string \<Rightarrow> coverage_intent \<Rightarrow> coverage_plan \<Rightarrow> api_state \<Rightarrow> bool \<times> api_state" where
  "persistOrchestratorCoveragePlan C now cid packJSON intent plan s =
     (case ccv_set_plan C now intent plan packJSON of
        None \<Rightarrow> (True, s)
      | Some raw \<Rightarrow>
          (case api_exec (update_campaigns (\<lambda>c. ca_id c = cid) (\<lambda>c. c\<lparr>ca_pack := raw\<rparr>)) s of
             (r, s) \<Rightarrow> (isl r, s)))"

definition plan_event :: "string \<Rightarrow> string \<Rightarrow> coverage_plan \<Rightarrow> event_row" where
  "plan_event owner cid plan =
     (let (type, msg) =
        (if pl_GateStatus plan = ''degraded'' then (''coverage.degraded'', ''Coverage plan degraded'')
         else if pl_GateStatus plan = ''failed'' then (''coverage.failed'', ''Coverage plan failed gates'')
         else (''coverage.replanned'', ''Coverage plan refreshed''))
      in \<lparr>ev_user = owner, ev_kind = ''update'', ev_type = type, ev_message = msg, ev_campaign = cid, ev_task = None\<rparr>)"

definition roll_window :: "gotime \<Rightarrow> task_row \<Rightarrow> task_row" where
  "roll_window now t = t\<lparr>tk_scheduled_end := Some (now + 4 * hour), tk_handoff_lead := Some 5400, tk_updated := now\<rparr>"

definition campaign_plan :: "bool \<Rightarrow> site list \<Rightarrow> pack \<Rightarrow> coverage_intent \<Rightarrow> coverage_plan" where
  "campaign_plan testOnly sites p c =
     (let (ra, dec) = (case pack_Targets p of [] \<Rightarrow> (Fin 0, Fin 0) | g # _ \<Rightarrow> (pk_RA g, pk_Dec g))
      in GreedyFill (NormalizeIntent c) sites ra dec DefaultFactors (testOnly \<or> pack_TestOnly p))"

definition replan_campaign ::
  "services \<Rightarrow> coverage_codec \<Rightarrow> gotime \<Rightarrow> (string \<Rightarrow> bool) \<Rightarrow> site list \<Rightarrow> string \<times> string \<times> string option
   \<Rightarrow> api_state \<Rightarrow> api_state" where
  "replan_campaign S C now testOnly sites row s =
     (case row of (cid, packJSON, owner) \<Rightarrow>
      case (owner, ParsePack (sv_decode_pack S) packJSON) of
        (Some owner, Inr p) \<Rightarrow>
          (case pack_Coverage p of
             None \<Rightarrow> s
           | Some c \<Rightarrow>
               if \<not> ci_Enabled c then s
               else (let intent = NormalizeIntent c; plan = campaign_plan (testOnly cid) sites p c in
                 case persistOrchestratorCoveragePlan C now cid packJSON intent plan s of
                   (True, s) \<Rightarrow> s
                 | (False, s) \<Rightarrow>
                     (let s = (if IsHard intent \<and> pl_GateStatus plan = ''failed'' then s
                               else snd (api_exec (update_tasks (\<lambda>t. tk_campaign t = Some cid \<and> \<not> finished_task t)
                                      (roll_window now)) s))
                      in if owner = [] then s
                         else snd (api_exec (\<lambda>s. (s\<lparr>as_events := as_events s @ [plan_event owner cid plan]\<rparr>, ())) s))))
      | _ \<Rightarrow> s)"

definition coverage_campaigns :: "coverage_codec \<Rightarrow> api_state \<Rightarrow> (string \<times> string \<times> string option) list" where
  "coverage_campaigns C s =
     map (\<lambda>c. (ca_id c, ca_pack c, as_owner s (ca_id c)))
       (filter (\<lambda>c. ca_status c \<in> {''active'', ''paused''} \<and> ccv_sql_enabled C (ca_pack c)) (w_campaigns (as_world s)))"

definition replanCoverageCampaigns ::
  "services \<Rightarrow> coverage_codec \<Rightarrow> gotime \<Rightarrow> (string \<Rightarrow> bool) \<Rightarrow> telescope_row list \<Rightarrow> api_state \<Rightarrow> api_state" where
  "replanCoverageCampaigns S C now testOnly tele s =
     (case api_read (coverage_campaigns C) s of
        (Inl e, s) \<Rightarrow> s
      | (Inr rows, s) \<Rightarrow>
          (case loadOrchestratorCoverageSites tele s of
             (Inl e, s) \<Rightarrow> s
           | (Inr sites, s) \<Rightarrow>
               fold (replan_campaign S C now testOnly (EnrichWeather (ccv_fetch C) sites)) rows s))"


subsection \<open>What a run may change\<close>

definition rolls :: "services \<Rightarrow> bool \<Rightarrow> site list \<Rightarrow> string \<Rightarrow> bool" where
  "rolls S testOnly sites packJSON =
     (case sv_decode_pack S packJSON of
        None \<Rightarrow> False
      | Some p \<Rightarrow> (case pack_Coverage p of
          None \<Rightarrow> False
        | Some c \<Rightarrow> ci_Enabled c \<and>
            \<not> (IsHard (NormalizeIntent c) \<and> pl_GateStatus (campaign_plan testOnly sites p c) = ''failed'')))"

definition rolled :: "gotime \<Rightarrow> string set \<Rightarrow> string set \<Rightarrow> api_state \<Rightarrow> api_state \<Rightarrow> bool" where
  "rolled now A B s s' \<longleftrightarrow>
     w_assignments (as_world s') = w_assignments (as_world s) \<and> w_redis (as_world s') = w_redis (as_world s) \<and>
     w_sent (as_world s') = w_sent (as_world s) \<and> as_extra s' = as_extra s \<and> as_revisions s' = as_revisions s \<and>
     as_next_id s' = as_next_id s \<and>
     list_all2 (\<lambda>t t'. t' = t \<or> t' = roll_window now t \<and> \<not> finished_task t \<and> tk_campaign t \<in> Some ` A)
       (w_tasks (as_world s)) (w_tasks (as_world s')) \<and>
     list_all2 (\<lambda>c c'. c' = c \<or> ca_id c \<in> B \<and> (\<exists>raw. c' = c\<lparr>ca_pack := raw\<rparr>))
       (w_campaigns (as_world s)) (w_campaigns (as_world s'))"

lemma roll_window_simps [simp]:
  "roll_window now (roll_window now t) = roll_window now t" "finished_task (roll_window now t) = finished_task t"
  "tk_campaign (roll_window now t) = tk_campaign t"
  by (simp_all add: roll_window_def finished_task_def)

lemma rolled_refl: "rolled now A B s s"
  by (simp add: rolled_def list.rel_refl)

lemma rolled_trans: "rolled now A B s s' \<Longrightarrow> rolled now A B s' s'' \<Longrightarrow> rolled now A B s s''"
  unfolding rolled_def
  apply (elim conjE, intro conjI)
         apply simp_all
   apply (erule (1) list_all2_trans [rotated], auto) [1]
  apply (erule (1) list_all2_trans [rotated], auto) [1]
  done

lemma rolled_outcome: "api_outcome s = (oc, s') \<Longrightarrow> rolled now A B s s'"
  by (cases "w_faults (as_world s)") (auto simp: api_outcome_def next_outcome_def rolled_def list.rel_refl)

lemma rolled_exec:
  assumes "api_exec f s = (r, s')" "\<And>s1. rolled now A B s1 (fst (f s1))"
  shows "rolled now A B s s'"
proof -
  obtain oc s1 where o: "api_outcome s = (oc, s1)" by force
  have "s' = s1 \<or> s' = fst (f s1)" using assms(1) o by (auto simp: api_exec_def split: prod.splits if_splits)
  then show ?thesis using rolled_trans [OF rolled_outcome [OF o] assms(2)] rolled_outcome [OF o] by auto
qed

lemma rolled_window: "cid \<in> A \<Longrightarrow> rolled now A B s
    (fst (update_tasks (\<lambda>t. tk_campaign t = Some cid \<and> \<not> finished_task t) (roll_window now) s))"
  by (auto simp: rolled_def update_tasks_def sql_update_def list.rel_refl list_all2_conv_all_nth)

lemma rolled_pack: "cid \<in> B \<Longrightarrow> rolled now A B s
    (fst (update_campaigns (\<lambda>c. ca_id c = cid) (\<lambda>c. c\<lparr>ca_pack := raw\<rparr>) s))"
  by (auto simp: rolled_def update_campaigns_def sql_update_def list.rel_refl list_all2_conv_all_nth)

lemma rolled_campaign:
  assumes "cid \<in> B" "rolls S (testOnly cid) sites packJSON \<Longrightarrow> cid \<in> A"
  shows "rolled now A B s (replan_campaign S C now testOnly sites (cid, packJSON, owner) s)"
proof (cases "\<exists>ow p c. owner = Some ow \<and> sv_decode_pack S packJSON = Some p \<and> pack_Coverage p = Some c \<and> ci_Enabled c")
  case False
  then show ?thesis
    by (auto simp: replan_campaign_def ParsePack_def rolled_refl split: option.splits)
next
  case True
  then obtain ow p c where d: "owner = Some ow" "sv_decode_pack S packJSON = Some p" "pack_Coverage p = Some c" "ci_Enabled c"
    by blast
  let ?i = "NormalizeIntent c" and ?plan = "campaign_plan (testOnly cid) sites p c"
  obtain e s1 where p: "persistOrchestratorCoveragePlan C now cid packJSON ?i ?plan s = (e, s1)" by force
  have 1: "rolled now A B s s1"
    using p rolled_exec [OF _ rolled_pack [OF assms(1)]] rolled_refl
    by (auto simp: persistOrchestratorCoveragePlan_def split: option.splits prod.splits)
  define s2 where "s2 = (if IsHard ?i \<and> pl_GateStatus ?plan = ''failed'' then s1
    else snd (api_exec (update_tasks (\<lambda>t. tk_campaign t = Some cid \<and> \<not> finished_task t) (roll_window now)) s1))"
  have 2: "rolled now A B s1 s2"
  proof (cases "IsHard ?i \<and> pl_GateStatus ?plan = ''failed''")
    case False
    then have "cid \<in> A" using assms(2) d by (simp add: rolls_def)
    then show ?thesis
      unfolding s2_def if_not_P [OF False] by (rule rolled_exec [OF prod.collapse [symmetric] rolled_window])
  qed (simp add: s2_def rolled_refl)
  have 3: "rolled now A B s2 (snd (api_exec (\<lambda>s. (s\<lparr>as_events := as_events s @ [ev]\<rparr>, ())) s2))" for ev
    by (rule rolled_exec [OF prod.collapse [symmetric]]) (simp add: rolled_def list.rel_refl)
  have "replan_campaign S C now testOnly sites (cid, packJSON, owner) s =
      (if e then s1 else if ow = [] then s2
       else snd (api_exec (\<lambda>s. (s\<lparr>as_events := as_events s @ [plan_event ow cid ?plan]\<rparr>, ())) s2))"
    using d p by (simp add: replan_campaign_def ParsePack_def Let_def s2_def)
  then show ?thesis using 1 rolled_trans [OF 1 2] rolled_trans [OF rolled_trans [OF 1 2] 3] by simp
qed

lemma rolled_fold:
  assumes "\<And>cid raw ow. (cid, raw, ow) \<in> set rows \<Longrightarrow> cid \<in> B \<and> (rolls S (testOnly cid) sites raw \<longrightarrow> cid \<in> A)"
  shows "rolled now A B s (fold (replan_campaign S C now testOnly sites) rows s)"
  using assms
proof (induction rows arbitrary: s)
  case (Cons row rows)
  obtain cid raw ow where row: "row = (cid, raw, ow)" by (cases row)
  have "rolled now A B s (replan_campaign S C now testOnly sites row s)"
    unfolding row by (rule rolled_campaign) (use Cons.prems row in auto)
  moreover have "rolled now A B s1 (fold (replan_campaign S C now testOnly sites) rows s1)" for s1
    by (rule Cons.IH) (use Cons.prems in auto)
  ultimately show ?case using rolled_trans by fastforce
qed (simp add: rolled_refl)

lemma replan_rolled:
  assumes "\<And>c. c \<in> set (w_campaigns (as_world s)) \<Longrightarrow> ca_status c \<in> {''active'', ''paused''} \<Longrightarrow> ccv_sql_enabled C (ca_pack c) \<Longrightarrow>
      ca_id c \<in> B \<and> (rolls S (testOnly (ca_id c)) (EnrichWeather (ccv_fetch C) (map coverage_site (filter te_active tele))) (ca_pack c)
        \<longrightarrow> ca_id c \<in> A)"
  shows "rolled now A B s (replanCoverageCampaigns S C now testOnly tele s)"
proof -
  let ?sites = "EnrichWeather (ccv_fetch C) (map coverage_site (filter te_active tele))"
  obtain r s1 where 1: "api_read (coverage_campaigns C) s = (r, s1)" by force
  obtain q s2 where 2: "loadOrchestratorCoverageSites tele s1 = (q, s2)" by force
  obtain o1 where o1: "api_outcome s = (o1, s1)" "r = (if o1 = Done then Inr (coverage_campaigns C s1) else Inl DbError)"
    using 1 by (auto simp: api_read_def split: prod.splits)
  obtain o2 where o2: "api_outcome s1 = (o2, s2)" "q = (if o2 = Done then Inr (map coverage_site (filter te_active tele)) else Inl DbError)"
    using 2 by (auto simp: loadOrchestratorCoverageSites_def api_read_def split: prod.splits)
  have w: "w_campaigns (as_world s1) = w_campaigns (as_world s)"
    using o1(1) by (auto simp: api_outcome_def split: prod.splits)
  have rows: "rolled now A B s2 (fold (replan_campaign S C now testOnly ?sites) (coverage_campaigns C s1) s2)"
    by (rule rolled_fold) (use assms in \<open>auto simp: coverage_campaigns_def w\<close>)
  note a = rolled_outcome [OF o1(1)]
  note b = rolled_trans [OF a rolled_outcome [OF o2(1)]]
  have "replanCoverageCampaigns S C now testOnly tele s \<in> {s1, s2, fold (replan_campaign S C now testOnly ?sites) (coverage_campaigns C s1) s2}"
    using 1 2 o1(2) o2(2) by (auto simp: replanCoverageCampaigns_def)
  with a b rolled_trans [OF b rows] show ?thesis by auto
qed

text \<open>Renewing the coverage plans touches only the packs of running campaigns with coverage and the handoff
  windows of their unfinished tasks, and never the windows of a campaign in hard mode whose new plan fails its
  gates; assignments, commands, Redis and budgets stay as they are.\<close>

theorem replan_confined:
  "let sites = EnrichWeather (ccv_fetch C) (map coverage_site (filter te_active tele));
       run = filter (\<lambda>c. ca_status c \<in> {''active'', ''paused''} \<and> ccv_sql_enabled C (ca_pack c)) (w_campaigns (as_world s))
   in rolled now {ca_id c |c. c \<in> set run \<and> rolls S (testOnly (ca_id c)) sites (ca_pack c)} (ca_id ` set run) s
        (replanCoverageCampaigns S C now testOnly tele s)"
  unfolding Let_def by (rule replan_rolled) auto

end
