(* ===== verification/Campaigns.thy ===== *)
theory Campaigns
  imports CoveragePlan
begin

text \<open>
  The campaign endpoints of the API (\<open>cmd/apiserver/campaigns.go\<close>, \<open>campaigns_store.go\<close>): creation,
  publication with the expansion of the pack into tasks, pausing and resuming, single tasks, and the
  reads of a campaign and of its tasks.  A transaction is one access to the database; a request that
  reaches a handler has passed the middleware that checks the token.
\<close>

section \<open>State\<close>

text \<open>The columns of \<open>campaigns\<close> that the other programs do not read, by the id of the row.\<close>

record campaign_cols =
  cm_name :: string
  cm_description :: string
  cm_test_only :: bool
  cm_comp_stars :: string
  cm_created :: gotime
  cm_expanded :: "gotime option"
  cm_hook_approved :: bool
  cm_multiplier :: f64

record campaign_db =
  cd_api :: api_state
  cd_cols :: "string \<rightharpoonup> campaign_cols"

text \<open>JSON, number and time formats: \<open>pkc_keys\<close> the keys of an object, \<open>pkc_strict\<close> the strict decoder of a
  pack, \<open>pkc_encode\<close> its canonical text, \<open>pkc_stars\<close> the text of comparison stars.\<close>

record pack_codec =
  pkc_keys :: "string \<Rightarrow> string list option"
  pkc_strict :: "string \<Rightarrow> pack option"
  pkc_encode :: "pack \<Rightarrow> string"
  pkc_stars :: "comp_star list \<Rightarrow> string option"
  pkc_fmt4 :: "f64 \<Rightarrow> string"
  pkc_error :: "pack_error \<Rightarrow> string"
  pkc_time :: "gotime \<Rightarrow> string"

definition on_api :: "(api_state \<Rightarrow> 'a \<times> api_state) \<Rightarrow> campaign_db \<Rightarrow> 'a \<times> campaign_db" where
  "on_api f s = (case f (cd_api s) of (x, a) \<Rightarrow> (x, s\<lparr>cd_api := a\<rparr>))"

definition cd_read :: "(campaign_db \<Rightarrow> 'a) \<Rightarrow> campaign_db \<Rightarrow> (db_error + 'a) \<times> campaign_db" where
  "cd_read f s = (case on_api api_outcome s of (oc, s) \<Rightarrow> (if oc = Done then Inr (f s) else Inl DbError, s))"

definition cd_exec :: "(campaign_db \<Rightarrow> campaign_db \<times> 'a) \<Rightarrow> campaign_db \<Rightarrow> (db_error + 'a) \<times> campaign_db" where
  "cd_exec f s =
     (case on_api api_outcome s of (oc, s) \<Rightarrow>
        if oc = Failed then (Inl DbError, s)
        else (case f s of (s', n) \<Rightarrow> (if oc = Lost then Inl DbError else Inr n, s')))"

definition campaign_by_id :: "string \<Rightarrow> campaign_db \<Rightarrow> campaign_row option" where
  "campaign_by_id cid s = sql_find (\<lambda>c. ca_id c = cid) (w_campaigns (as_world (cd_api s)))"

text \<open>The owner check: a row that is missing, without owner or with another one is reported alike.\<close>

datatype owner_error = NoRows | OtherError

definition assertCampaignOwner :: "string \<Rightarrow> string \<Rightarrow> api_state \<Rightarrow> owner_error option \<times> api_state" where
  "assertCampaignOwner cid user s =
     (case api_read (\<lambda>s. as_owner s cid) s of
        (Inl e, s) \<Rightarrow> (Some OtherError, s)
      | (Inr ow, s) \<Rightarrow> (if ow = Some user then None else Some NoRows, s))"

definition unauthenticated :: response where
  "unauthenticated = writeError 401 ''authentication required''"

section \<open>Creation\<close>

definition readBodyJSON :: "string + string \<Rightarrow> string + string" where
  "readBodyJSON body = (case body of Inl e \<Rightarrow> Inl e | Inr raw \<Rightarrow> if raw = [] then Inl ''empty body'' else Inr raw)"

definition insert_campaign ::
  "gotime \<Rightarrow> string \<Rightarrow> string \<Rightarrow> pack \<Rightarrow> string \<Rightarrow> string \<Rightarrow> campaign_db \<Rightarrow> campaign_db" where
  "insert_campaign now cid user p packJSON stars s =
     (let a = cd_api s; w = as_world a;
          row = \<lparr>ca_id = cid, ca_status = StatusDraft, ca_pack = packJSON, ca_pier_code_disabled = False\<rparr>
      in s\<lparr>cd_api := a\<lparr>as_world := w\<lparr>w_campaigns := w_campaigns w @ [row]\<rparr>, as_owner := (as_owner a)(cid \<mapsto> user)\<rparr>,
           cd_cols := (cd_cols s)(cid \<mapsto>
             \<lparr>cm_name = pack_Name p, cm_description = pack_Description p, cm_test_only = pack_TestOnly p,
              cm_comp_stars = stars, cm_created = now, cm_expanded = None, cm_hook_approved = False,
              cm_multiplier = Fin 1\<rparr>)\<rparr>)"

text \<open>\<open>cid\<close> is the id the database draws; the key of the table refuses one that is taken.\<close>

definition create_tx ::
  "gotime \<Rightarrow> string \<Rightarrow> string \<Rightarrow> pack \<Rightarrow> string \<Rightarrow> string \<Rightarrow> campaign_db \<Rightarrow> campaign_db \<times> bool" where
  "create_tx now cid user p packJSON stars s =
     (if cd_cols s cid = None then (insert_campaign now cid user p packJSON stars s, True) else (s, False))"

definition handleCreateCampaign ::
  "pack_codec \<Rightarrow> gotime \<Rightarrow> string \<Rightarrow> api_caller \<Rightarrow> string + string \<Rightarrow> campaign_db \<Rightarrow> response \<times> campaign_db" where
  "handleCreateCampaign C now cid caller body s =
     (case readBodyJSON body of
        Inl e \<Rightarrow> (writeError 400 e, s)
      | Inr raw \<Rightarrow>
          (case CanonicalPackJSON (pkc_keys C) (pkc_strict C) (pkc_encode C) raw of
             Inl e \<Rightarrow> (writeError 400 (pkc_error C e), s)
           | Inr (p, packJSON) \<Rightarrow>
               if TrimSpace (pack_Name p) = [] then (writeError 400 ''name is required'', s)
               else (case pkc_stars C (pack_CompStars p) of
                   None \<Rightarrow> (writeError 400 ''invalid comp_stars'', s)
                 | Some stars \<Rightarrow>
                     (let stars = (if pack_CompStars p = [] then ''[]'' else stars) in
                      case cl_user caller of
                        None \<Rightarrow> (unauthenticated, s)
                      | Some user \<Rightarrow>
                          if user = [] then (unauthenticated, s)
                          else (case cd_exec (create_tx now cid user p packJSON stars) s of
                              (Inr True, s) \<Rightarrow> (\<lparr>rs_code = 201, rs_body = [(''id'', cid), (''status'', StatusDraft)]\<rparr>, s)
                            | (_, s) \<Rightarrow> (writeError 500 ''Database error'', s))))))"

section \<open>Tasks of a campaign\<close>

definition campaign_task_row :: "gotime \<Rightarrow> int \<Rightarrow> string \<Rightarrow> int \<Rightarrow> task_spec \<Rightarrow> task_row" where
  "campaign_task_row now i cid priority sp =
     \<lparr>tk_id = i, tk_status = ''pending'', tk_assigned = None, tk_priority = priority, tk_failure_count = 0,
      tk_last_attempt = None, tk_scheduled_end = None, tk_handoff_lead = None, tk_campaign = Some cid,
      tk_columns = \<lparr>tc_name = sk_Name sp, tc_integration_time = nullFloat (sk_IntegrationTime sp),
        tc_min_power = None, tc_target_magnitude = sk_TargetMagnitude sp, tc_required_filters = sk_RequiredFilters sp,
        tc_target_ra = Some (sk_TargetRA sp), tc_target_dec = Some (sk_TargetDec sp), tc_min_altitude_deg = None,
        tc_allow_emulator = sk_AllowEmulator sp, tc_min_aperture_mm = None, tc_min_sub_exposure_s = None,
        tc_min_resolution_arcsec = None, tc_max_resolution_arcsec = None, tc_min_psf_fwhm_arcsec = None,
        tc_max_psf_fwhm_arcsec = None, tc_required_fov_width_arcmin = None, tc_required_fov_height_arcmin = None,
        tc_science_band = None, tc_user_end_at = None, tc_emergency_handoff_requested_at = None\<rparr>,
      tk_updated = now\<rparr>"

text \<open>\<open>uuid\<close> draws the public id of a task.  The column \<open>product_mode\<close> has a check.\<close>

definition spec_mode :: "task_spec \<Rightarrow> string" where
  "spec_mode sp = NormalizedProductMode (Some \<lparr>pi_Mode = sk_ProductMode sp, pi_TimeBinFrames = 0\<rparr>)"

definition mode_allowed :: "string \<Rightarrow> bool" where
  "mode_allowed m \<longleftrightarrow> m \<in> {''per_frame'', ''time_bin'', ''stack''}"

definition insertCampaignTask ::
  "gotime \<Rightarrow> (int \<Rightarrow> string) \<Rightarrow> string \<Rightarrow> int \<Rightarrow> task_spec \<Rightarrow> api_state \<Rightarrow> api_state" where
  "insertCampaignTask now uuid cid priority sp a =
     (let i = as_next_id a; w = as_world a in
      a\<lparr>as_world := w\<lparr>w_tasks := w_tasks w @ [campaign_task_row now i cid priority sp]\<rparr>,
        as_extra := as_extra a @ [\<lparr>tx_task = i, tx_public_id = uuid i, tx_budget = Some (sk_Budget sp), tx_earned = Fin 0,
          tx_developer = None, tx_original_spec = None, tx_product_mode = spec_mode sp\<rparr>],
        as_next_id := i + 1\<rparr>)"

section \<open>Publication\<close>

definition publish_specs ::
  "pack_codec \<Rightarrow> services \<Rightarrow> bool \<Rightarrow> bool \<Rightarrow> string \<Rightarrow> pack_error + task_spec list" where
  "publish_specs C S testOnly hookApproved packJSON =
     (case ValidateStoredPackJSON (pkc_keys C) packJSON of
        Some e \<Rightarrow> Inl e
      | None \<Rightarrow>
          (case ParsePack (sv_decode_pack S) packJSON of
             Inl e \<Rightarrow> Inl e
           | Inr p \<Rightarrow>
               (let p = p\<lparr>pack_TestOnly := testOnly\<rparr> in
                case ValidateHookPublish (Some p) hookApproved of
                  Some e \<Rightarrow> Inl e
                | None \<Rightarrow> ExpandPack (sv_parse_uri S) (sv_parse_ip S) (pkc_fmt4 C) (Some p))))"

datatype publish_result = PubMissing | PubArchived | PubRejected pack_error | PubCheck | PubDone nat

definition activate :: "string \<Rightarrow> campaign_db \<Rightarrow> campaign_db" where
  "activate cid s = s\<lparr>cd_api := fst (update_campaigns (\<lambda>c. ca_id c = cid) (\<lambda>c. c\<lparr>ca_status := StatusActive\<rparr>) (cd_api s))\<rparr>"

definition publish_tx ::
  "pack_codec \<Rightarrow> services \<Rightarrow> gotime \<Rightarrow> (int \<Rightarrow> string) \<Rightarrow> string \<Rightarrow> campaign_db \<Rightarrow> campaign_db \<times> publish_result" where
  "publish_tx C S now uuid cid s =
     (case (campaign_by_id cid s, cd_cols s cid) of
        (Some c, Some m) \<Rightarrow>
          if ca_status c = StatusArchived then (s, PubArchived)
          else if cm_expanded m \<noteq> None then (activate cid s, PubDone 0)
          else (case publish_specs C S (cm_test_only m) (cm_hook_approved m) (ca_pack c) of
              Inl e \<Rightarrow> (s, PubRejected e)
            | Inr specs \<Rightarrow>
                if \<not> list_all (mode_allowed \<circ> spec_mode) specs then (s, PubCheck)
                else (activate cid (s\<lparr>cd_api := fold (insertCampaignTask now uuid cid 0) specs (cd_api s),
                        cd_cols := (cd_cols s)(cid \<mapsto> m\<lparr>cm_expanded := Some now\<rparr>)\<rparr>), PubDone (length specs)))
      | _ \<Rightarrow> (s, PubMissing))"

definition handlePublishCampaign ::
  "pack_codec \<Rightarrow> services \<Rightarrow> gotime \<Rightarrow> (int \<Rightarrow> string) \<Rightarrow> api_caller \<Rightarrow> string \<Rightarrow> campaign_db \<Rightarrow> response \<times> campaign_db" where
  "handlePublishCampaign C S now uuid caller cid s =
     (case cl_user caller of
        None \<Rightarrow> (unauthenticated, s)
      | Some user \<Rightarrow>
          (case on_api (assertCampaignOwner cid user) s of
             (Some e, s) \<Rightarrow> (writeError 403 ''Forbidden'', s)
           | (None, s) \<Rightarrow>
               (case cd_exec (publish_tx C S now uuid cid) s of
                  (Inl e, s) \<Rightarrow> (writeError 500 ''Database error'', s)
                | (Inr PubMissing, s) \<Rightarrow> (writeError 404 ''Campaign not found'', s)
                | (Inr PubArchived, s) \<Rightarrow> (writeError 409 ''Cannot publish archived campaign'', s)
                | (Inr (PubRejected e), s) \<Rightarrow>
                    (writeError (if e = ErrHookNotApproved then 403 else 400) (pkc_error C e), s)
                | (Inr PubCheck, s) \<Rightarrow> (writeError 500 ''Database error'', s)
                | (Inr (PubDone n), s) \<Rightarrow>
                    (\<lparr>rs_code = 200, rs_body = [(''id'', cid), (''status'', ''active''), (''tasks_created'', Itoa (int n))]\<rparr>,
                     snd (on_api (\<lambda>a. ((), emitCampaignUpdate cid ''campaign.published''
                       ''Campaign published and tasks expanded'' None a)) s)))))"

section \<open>Pausing and resuming\<close>

definition transitionCampaignStatus ::
  "string \<Rightarrow> (string \<Rightarrow> bool) \<Rightarrow> api_caller \<Rightarrow> string \<Rightarrow> campaign_db \<Rightarrow> response \<times> campaign_db" where
  "transitionCampaignStatus target allowed caller cid s =
     (case cl_user caller of
        None \<Rightarrow> (unauthenticated, s)
      | Some user \<Rightarrow>
          (case on_api (assertCampaignOwner cid user) s of
             (Some e, s) \<Rightarrow> (writeError 403 ''Forbidden'', s)
           | (None, s) \<Rightarrow>
               (case cd_read (campaign_by_id cid) s of
                  (Inl e, s) \<Rightarrow> (writeError 500 ''Database error'', s)
                | (Inr None, s) \<Rightarrow> (writeError 404 ''Campaign not found'', s)
                | (Inr (Some c), s) \<Rightarrow>
                    if \<not> allowed (ca_status c) then (writeError 409 (''cannot transition from '' @ ca_status c @ '' to '' @ target), s)
                    else (case on_api (api_exec (update_campaigns (\<lambda>c. ca_id c = cid) (\<lambda>c. c\<lparr>ca_status := target\<rparr>))) s of
                        (Inl e, s) \<Rightarrow> (writeError 500 ''Database error'', s)
                      | (Inr n, s) \<Rightarrow> (\<lparr>rs_code = 200, rs_body = [(''id'', cid), (''status'', target)]\<rparr>, s)))))"

definition handlePauseCampaign :: "api_caller \<Rightarrow> string \<Rightarrow> campaign_db \<Rightarrow> response \<times> campaign_db" where
  "handlePauseCampaign = transitionCampaignStatus StatusPaused CanPause"

definition handleResumeCampaign :: "api_caller \<Rightarrow> string \<Rightarrow> campaign_db \<Rightarrow> response \<times> campaign_db" where
  "handleResumeCampaign = transitionCampaignStatus StatusActive CanResume"

section \<open>Adding one task\<close>

definition task_spec_of :: "api_task \<Rightarrow> task_spec" where
  "task_spec_of t =
     \<lparr>sk_Name = at_Name t, sk_TargetRA = at_TargetRA t, sk_TargetDec = at_TargetDec t, sk_RequiredFilters = at_RequiredFilters t,
      sk_IntegrationTime = at_IntegrationTime t, sk_Budget = at_NormalizedIntegrationBudgetS t,
      sk_AllowEmulator = at_AllowEmulator t, sk_ProductMode = at_ProductMode t, sk_TargetMagnitude = at_TargetMagnitude t\<rparr>"

definition add_task_tx ::
  "gotime \<Rightarrow> (int \<Rightarrow> string) \<Rightarrow> string \<Rightarrow> int \<Rightarrow> task_spec \<Rightarrow> campaign_db \<Rightarrow> campaign_db \<times> string option" where
  "add_task_tx now uuid cid priority sp s =
     (if mode_allowed (spec_mode sp)
      then (s\<lparr>cd_api := insertCampaignTask now uuid cid priority sp (cd_api s)\<rparr>, Some (uuid (as_next_id (cd_api s))))
      else (s, None))"

definition handleAddCampaignTask ::
  "gotime \<Rightarrow> (int \<Rightarrow> string) \<Rightarrow> api_caller \<Rightarrow> string \<Rightarrow> string + api_task \<Rightarrow> campaign_db \<Rightarrow> response \<times> campaign_db" where
  "handleAddCampaignTask now uuid caller cid body s =
     (case body of
        Inl e \<Rightarrow> (writeError 400 (''Invalid JSON: '' @ e), s)
      | Inr t \<Rightarrow>
          if at_Name t = [] then (writeError 400 ''name is required'', s)
          else if fle (at_NormalizedIntegrationBudgetS t) (Fin 0) then
            (writeError 400 ''normalized_integration_budget_s is required'', s)
          else (case cl_user caller of
              None \<Rightarrow> (unauthenticated, s)
            | Some user \<Rightarrow>
                (case on_api (assertCampaignOwner cid user) s of
                   (Some e, s) \<Rightarrow> (writeError 403 ''Forbidden'', s)
                 | (None, s) \<Rightarrow>
                     (case cd_read (campaign_by_id cid) s of
                        (Inr (Some c), s) \<Rightarrow>
                          (case cd_exec (add_task_tx now uuid cid (at_Priority t) (task_spec_of t)) s of
                             (Inr (Some pid), s) \<Rightarrow> (\<lparr>rs_code = 201, rs_body = [(''id'', pid), (''campaign_id'', cid)]\<rparr>, s)
                           | (_, s) \<Rightarrow> (writeError 500 ''Database error'', s))
                      | (_, s) \<Rightarrow> (writeError 404 ''Campaign not found'', s)))))"

section \<open>Reads\<close>

record campaign_view =
  cv_ID :: string
  cv_Name :: string
  cv_Description :: string
  cv_Status :: string
  cv_CreatedBy :: string
  cv_PointsMultiplier :: f64
  cv_TestOnly :: bool
  cv_PackJSON :: string
  cv_CompStars :: string
  cv_CreatedAt :: string
  cv_ExpandedAt :: "string option"

definition scanCampaignRow :: "pack_codec \<Rightarrow> campaign_row \<Rightarrow> campaign_cols \<Rightarrow> string option \<Rightarrow> campaign_view" where
  "scanCampaignRow C c m owner =
     \<lparr>cv_ID = ca_id c, cv_Name = cm_name m, cv_Description = cm_description m, cv_Status = ca_status c,
      cv_CreatedBy = (case owner of None \<Rightarrow> [] | Some u \<Rightarrow> u), cv_PointsMultiplier = cm_multiplier m,
      cv_TestOnly = cm_test_only m, cv_PackJSON = ca_pack c, cv_CompStars = cm_comp_stars m,
      cv_CreatedAt = pkc_time C (cm_created m), cv_ExpandedAt = map_option (pkc_time C) (cm_expanded m)\<rparr>"

definition loadCampaign :: "pack_codec \<Rightarrow> string \<Rightarrow> campaign_db \<Rightarrow> campaign_view option" where
  "loadCampaign C cid s =
     (case (campaign_by_id cid s, cd_cols s cid) of
        (Some c, Some m) \<Rightarrow> Some (scanCampaignRow C c m (as_owner (cd_api s) cid))
      | _ \<Rightarrow> None)"

definition owner_denied :: "owner_error \<Rightarrow> response" where
  "owner_denied e = (if e = NoRows then writeError 404 ''Campaign not found'' else writeError 500 ''Database error'')"

definition handleGetCampaign ::
  "pack_codec \<Rightarrow> api_caller \<Rightarrow> string \<Rightarrow> campaign_db \<Rightarrow> (response + campaign_view) \<times> campaign_db" where
  "handleGetCampaign C caller cid s =
     (case cl_user caller of
        None \<Rightarrow> (Inl unauthenticated, s)
      | Some user \<Rightarrow>
          (case on_api (assertCampaignOwner cid user) s of
             (Some e, s) \<Rightarrow> (Inl (owner_denied e), s)
           | (None, s) \<Rightarrow>
               (case cd_read (loadCampaign C cid) s of
                  (Inl e, s) \<Rightarrow> (Inl (owner_denied OtherError), s)
                | (Inr None, s) \<Rightarrow> (Inl (owner_denied NoRows), s)
                | (Inr (Some v), s) \<Rightarrow> (Inr v, s))))"

text \<open>\<open>newest\<close> is the database's order by \<open>created_at\<close>, latest first; at most 200 rows.\<close>

definition owned_campaigns :: "pack_codec \<Rightarrow> string \<Rightarrow> string \<Rightarrow> campaign_db \<Rightarrow> (gotime \<times> campaign_view) list" where
  "owned_campaigns C user status s =
     List.map_filter (\<lambda>c. case cd_cols s (ca_id c) of
         None \<Rightarrow> None
       | Some m \<Rightarrow> if as_owner (cd_api s) (ca_id c) = Some user \<and> (status = [] \<or> ca_status c = status)
                    then Some (cm_created m, scanCampaignRow C c m (Some user)) else None)
       (w_campaigns (as_world (cd_api s)))"

definition handleListCampaigns ::
  "pack_codec \<Rightarrow> ((gotime \<times> campaign_view) list \<Rightarrow> (gotime \<times> campaign_view) list) \<Rightarrow> api_caller \<Rightarrow> string \<Rightarrow> campaign_db
   \<Rightarrow> (response + campaign_view list) \<times> campaign_db" where
  "handleListCampaigns C newest caller status s =
     (case cl_user caller of
        None \<Rightarrow> (Inl unauthenticated, s)
      | Some user \<Rightarrow>
          (case cd_read (\<lambda>s. take 200 (newest (owned_campaigns C user status s))) s of
             (Inl e, s) \<Rightarrow> (Inl (writeError 500 ''Database error''), s)
           | (Inr vs, s) \<Rightarrow> (Inr (map snd vs), s)))"

text \<open>The driver cannot scan a NULL into a number: such a row fails the whole list.\<close>

definition scan_campaign_task :: "api_state \<Rightarrow> task_row \<Rightarrow> (int \<times> string \<times> string) option" where
  "scan_campaign_task a t =
     (case extra_by_id (tk_id t) a of
        None \<Rightarrow> None
      | Some x \<Rightarrow>
          if tc_integration_time (tk_columns t) = None \<or> tx_budget x = None \<or> tc_target_ra (tk_columns t) = None
             \<or> tc_target_dec (tk_columns t) = None then None
          else Some (tk_id t, tx_public_id x, tk_status t))"

definition handleListCampaignTasks ::
  "api_caller \<Rightarrow> string \<Rightarrow> campaign_db \<Rightarrow> (response + (int \<times> string \<times> string) list) \<times> campaign_db" where
  "handleListCampaignTasks caller cid s =
     (case cl_user caller of
        None \<Rightarrow> (Inl unauthenticated, s)
      | Some user \<Rightarrow>
          (case on_api (assertCampaignOwner cid user) s of
             (Some e, s) \<Rightarrow> (Inl (owner_denied e), s)
           | (None, s) \<Rightarrow>
               (case cd_read (\<lambda>s. map (scan_campaign_task (cd_api s))
                    (sort_key tk_id (filter (\<lambda>t. tk_campaign t = Some cid) (w_tasks (as_world (cd_api s)))))) s of
                  (Inl e, s) \<Rightarrow> (Inl (writeError 500 ''Database error''), s)
                | (Inr rows, s) \<Rightarrow>
                    (if None \<in> set rows then Inl (writeError 500 ''Database error'') else Inr (map the rows), s))))"

end
