(* ===== verification/CoverageApi.thy ===== *)
theory CoverageApi
  imports Campaigns
begin

text \<open>
  The coverage endpoints of the API (\<open>cmd/apiserver/coverage.go\<close>, \<open>coverage_status.go\<close>): setting the
  intent of a campaign, previewing and applying a plan, and the figures of the coverage achieved.  The
  telescopes and, for the figures, the graded frames of the campaign in the order of their times are
  arguments.
\<close>

section \<open>Reading and writing a pack\<close>

text \<open>\<open>ccv_set_intent\<close> replaces the block \<open>coverage\<close> and, for a disabled intent, removes the plan;
  \<open>ccv_error\<close> is the text of a failed read or of a pack that does not parse.\<close>

record coverage_api_codec = coverage_codec +
  ccv_set_intent :: "coverage_intent \<Rightarrow> string \<Rightarrow> string option"
  ccv_error :: "pack_error option \<Rightarrow> string"

definition persist_pack :: "string \<Rightarrow> (string \<Rightarrow> string option) \<Rightarrow> campaign_db \<Rightarrow> bool \<times> campaign_db" where
  "persist_pack cid f s =
     (case cd_read (campaign_by_id cid) s of
        (Inr (Some c), s) \<Rightarrow>
          (case f (ca_pack c) of
             None \<Rightarrow> (True, s)
           | Some raw \<Rightarrow>
               (case on_api (api_exec (update_campaigns (\<lambda>c. ca_id c = cid) (\<lambda>c. c\<lparr>ca_pack := raw\<rparr>))) s of
                  (r, s) \<Rightarrow> (isl r, s)))
      | (_, s) \<Rightarrow> (True, s))"

definition persistCampaignCoverage ::
  "coverage_api_codec \<Rightarrow> string \<Rightarrow> coverage_intent \<Rightarrow> campaign_db \<Rightarrow> bool \<times> campaign_db" where
  "persistCampaignCoverage C cid intent = persist_pack cid (ccv_set_intent C intent)"

definition persistCampaignCoveragePlan ::
  "coverage_api_codec \<Rightarrow> gotime \<Rightarrow> string \<Rightarrow> coverage_intent \<Rightarrow> coverage_plan \<Rightarrow> campaign_db \<Rightarrow> bool \<times> campaign_db" where
  "persistCampaignCoveragePlan C now cid intent plan =
     persist_pack cid (if ci_Enabled intent then ccv_set_plan C now intent plan else ccv_set_intent C intent)"

definition IntentFromCampaignPack :: "coverage_intent option \<Rightarrow> coverage_intent" where
  "IntentFromCampaignPack c = (case c of None \<Rightarrow> DefaultIntent | Some c \<Rightarrow> NormalizeIntent c)"

definition loadCoverageTarget ::
  "services \<Rightarrow> coverage_api_codec \<Rightarrow> string \<Rightarrow> campaign_db \<Rightarrow> (string + coverage_intent \<times> bool \<times> f64 \<times> f64) \<times> campaign_db" where
  "loadCoverageTarget S C cid s =
     (case cd_read (\<lambda>s. (campaign_by_id cid s, cd_cols s cid)) s of
        (Inr (Some c, Some m), s) \<Rightarrow>
          (case ParsePack (sv_decode_pack S) (ca_pack c) of
             Inl e \<Rightarrow> (Inl (ccv_error C (Some e)), s)
           | Inr p \<Rightarrow>
               (let (ra, dec) = (case pack_Targets p of [] \<Rightarrow> (Fin 0, Fin 0) | g # _ \<Rightarrow> (pk_RA g, pk_Dec g))
                in (Inr (IntentFromCampaignPack (pack_Coverage p), cm_test_only m \<or> pack_TestOnly p, ra, dec), s)))
      | (_, s) \<Rightarrow> (Inl (ccv_error C None), s))"

definition loadCoverageSites ::
  "coverage_api_codec \<Rightarrow> telescope_row list \<Rightarrow> campaign_db \<Rightarrow> (db_error + site list) \<times> campaign_db" where
  "loadCoverageSites C tele = cd_read (\<lambda>s. EnrichWeather (ccv_fetch C) (map coverage_site (filter te_active tele)))"

text \<open>The preview takes the intent of the body when it asks for something; \<open>None\<close> is a body that is
  empty or does not decode.\<close>

definition loadCoverageContext ::
  "services \<Rightarrow> coverage_api_codec \<Rightarrow> string \<Rightarrow> coverage_intent option \<Rightarrow> campaign_db
   \<Rightarrow> (string + coverage_intent \<times> bool \<times> f64 \<times> f64) \<times> campaign_db" where
  "loadCoverageContext S C cid body s =
     (case loadCoverageTarget S C cid s of
        (Inl e, s) \<Rightarrow> (Inl e, s)
      | (Inr (intent, emu, ra, dec), s) \<Rightarrow>
          (let intent = (case body of
               None \<Rightarrow> intent
             | Some v \<Rightarrow> if ci_NMain v > 0 \<or> ci_Enabled v \<or> ci_Redundancy v \<or> ci_MaxSites v > 0 then NormalizeIntent v
                         else intent)
           in (Inr (intent, emu, ra, dec), s)))"

section \<open>The handlers\<close>

datatype coverage_reply = CoverageError response | CoverageSet coverage_intent
  | CoveragePlanned int coverage_intent coverage_plan nat

definition db_down :: coverage_reply where
  "db_down = CoverageError (writeError 500 ''Database error'')"

definition as_owner_of ::
  "api_caller \<Rightarrow> string \<Rightarrow> (campaign_db \<Rightarrow> coverage_reply \<times> campaign_db) \<Rightarrow> campaign_db \<Rightarrow> coverage_reply \<times> campaign_db" where
  "as_owner_of caller cid f s =
     (case cl_user caller of
        None \<Rightarrow> (CoverageError unauthenticated, s)
      | Some user \<Rightarrow>
          (case on_api (assertCampaignOwner cid user) s of
             (Some e, s) \<Rightarrow> (CoverageError (writeError 403 ''Forbidden''), s)
           | (None, s) \<Rightarrow> f s))"

definition campaign_update :: "string \<Rightarrow> string \<Rightarrow> string \<Rightarrow> campaign_db \<Rightarrow> campaign_db" where
  "campaign_update cid type msg s = snd (on_api (\<lambda>a. ((), emitCampaignUpdate cid type msg None a)) s)"

definition handleSetCampaignCoverage ::
  "coverage_api_codec \<Rightarrow> api_caller \<Rightarrow> string \<Rightarrow> coverage_intent option \<Rightarrow> campaign_db \<Rightarrow> coverage_reply \<times> campaign_db" where
  "handleSetCampaignCoverage C caller cid body s =
     (case body of
        None \<Rightarrow> (CoverageError (writeError 400 ''Invalid JSON''), s)
      | Some b \<Rightarrow>
          (let b = NormalizeIntent b in
           as_owner_of caller cid (\<lambda>s.
             case persistCampaignCoverage C cid b s of
               (True, s) \<Rightarrow> (db_down, s)
             | (False, s) \<Rightarrow> (CoverageSet b, campaign_update cid ''coverage.updated'' ''Coverage intent updated'' s)) s))"

definition handlePreviewCampaignCoverage ::
  "services \<Rightarrow> coverage_api_codec \<Rightarrow> telescope_row list \<Rightarrow> api_caller \<Rightarrow> string \<Rightarrow> coverage_intent option \<Rightarrow> campaign_db
   \<Rightarrow> coverage_reply \<times> campaign_db" where
  "handlePreviewCampaignCoverage S C tele caller cid body s =
     as_owner_of caller cid (\<lambda>s.
       case loadCoverageContext S C cid body s of
         (Inl e, s) \<Rightarrow> (CoverageError (writeError 400 e), s)
       | (Inr (intent, emu, ra, dec), s) \<Rightarrow>
           (case loadCoverageSites C tele s of
              (Inl e, s) \<Rightarrow> (db_down, s)
            | (Inr sites, s) \<Rightarrow>
                (CoveragePlanned 200 intent (GreedyFill intent sites ra dec DefaultFactors emu) 0, s))) s"

definition open_window :: "gotime \<Rightarrow> string \<Rightarrow> api_state \<Rightarrow> api_state \<times> nat" where
  "open_window now cid = update_tasks (\<lambda>t. tk_campaign t = Some cid \<and> \<not> finished_task t) (roll_window now)"

definition close_window :: "gotime \<Rightarrow> string \<Rightarrow> api_state \<Rightarrow> api_state \<times> nat" where
  "close_window now cid = update_tasks (\<lambda>t. tk_campaign t = Some cid \<and> \<not> finished_task t)
     (\<lambda>t. t\<lparr>tk_scheduled_end := None, tk_handoff_lead := None, tk_updated := now\<rparr>)"

text \<open>The part of an application that follows the plan: the gates, the pack, the windows, the event.\<close>

definition apply_plan ::
  "coverage_api_codec \<Rightarrow> gotime \<Rightarrow> string \<Rightarrow> coverage_intent \<Rightarrow> coverage_plan \<Rightarrow> campaign_db \<Rightarrow> coverage_reply \<times> campaign_db" where
  "apply_plan C now cid b plan s =
     (if IsHard b \<and> ci_Enabled b \<and> pl_GateStatus plan = ''failed'' then (CoveragePlanned 409 b plan 0, s)
      else (case persistCampaignCoveragePlan C now cid b plan s of
          (True, s) \<Rightarrow> (db_down, s)
        | (False, s) \<Rightarrow>
            (case (if ci_Enabled b \<and> pl_GateStatus plan \<noteq> ''failed'' then on_api (api_exec (open_window now cid)) s
                   else if \<not> ci_Enabled b then (Inr 0, snd (on_api (api_exec (close_window now cid)) s))
                   else (Inr 0, s)) of
               (Inl e, s) \<Rightarrow> (db_down, s)
             | (Inr n, s) \<Rightarrow>
                 (let (type, msg) =
                    (if pl_GateStatus plan = ''degraded'' then (''coverage.degraded'', ''Coverage plan applied with degraded gates'')
                     else if pl_GateStatus plan = ''failed'' then (''coverage.failed'', ''Coverage plan failed gates'')
                     else (''coverage.applied'', ''Coverage plan applied''))
                  in (CoveragePlanned 200 b plan n, campaign_update cid type msg s)))))"

definition handleApplyCampaignCoverage ::
  "services \<Rightarrow> coverage_api_codec \<Rightarrow> gotime \<Rightarrow> telescope_row list \<Rightarrow> api_caller \<Rightarrow> string \<Rightarrow> coverage_intent option
   \<Rightarrow> campaign_db \<Rightarrow> coverage_reply \<times> campaign_db" where
  "handleApplyCampaignCoverage S C now tele caller cid body s =
     as_owner_of caller cid (\<lambda>s.
       let stored = (case body of
           Some b \<Rightarrow>
             (case persistCampaignCoverage C cid (NormalizeIntent b) s of
                (True, s) \<Rightarrow> (Inl db_down, s)
              | (False, s) \<Rightarrow> (Inr (NormalizeIntent b), s))
         | None \<Rightarrow>
             (case loadCoverageTarget S C cid s of
                (Inl e, s) \<Rightarrow> (Inl (CoverageError (writeError 400 e)), s)
              | (Inr (b, _), s) \<Rightarrow> (Inr b, s)))
       in case stored of
            (Inl e, s) \<Rightarrow> (e, s)
          | (Inr b, s) \<Rightarrow>
              (case loadCoverageTarget S C cid s of
                 (Inl e, s) \<Rightarrow> (CoverageError (writeError 400 e), s)
               | (Inr (_, emu, ra, dec), s) \<Rightarrow>
                   (case loadCoverageSites C tele s of
                      (Inl e, s) \<Rightarrow> (db_down, s)
                    | (Inr sites, s) \<Rightarrow> apply_plan C now cid b (GreedyFill b sites ra dec DefaultFactors emu) s))) s"

section \<open>The coverage achieved\<close>

text \<open>A frame: its telescope, the longitude of the site (0 when unknown), its time.\<close>

type_synonym frame_sample = "string \<times> f64 \<times> gotime"

text \<open>Whole minutes, with Go's division that truncates, and the rest.\<close>

definition Minutes :: "duration \<Rightarrow> f64" where
  "Minutes d =
     (let m = (if d < 0 then - (- d div minute) else d div minute)
      in fadd (i2f m) (fdiv (i2f (d - m * minute)) (Fin 60000000000)))"

fun realized_gap :: "f64 \<Rightarrow> gotime list \<Rightarrow> f64" where
  "realized_gap g (a # b # ts) = realized_gap (if flt g (Minutes (b - a)) then Minutes (b - a) else g) (b # ts)"
| "realized_gap g _ = g"

definition bin_of :: "gotime \<Rightarrow> f64 \<Rightarrow> int \<Rightarrow> gotime \<Rightarrow> int" where
  "bin_of start binMin bins t =
     (let i = f2i (fdiv (Minutes (t - start)) binMin); i = (if i < 0 then 0 else i) in if bins \<le> i then bins - 1 else i)"

definition duty_cycle :: "f64 \<Rightarrow> gotime list \<Rightarrow> f64" where
  "duty_cycle binMin ts =
     (let start = hd ts; end = last ts in
      if start < end then
        (let bins = f2i (fCeil (fdiv (Minutes (end - start)) binMin));
             bins = (if bins < 1 then 1 else bins)
         in fdiv (i2f (int (length (remdups (map (bin_of start binMin bins) ts))))) (i2f bins))
      else Fin 1)"

fun longitudes :: "frame_sample list \<Rightarrow> (string \<times> f64) list \<Rightarrow> (string \<times> f64) list" where
  "longitudes [] m = m"
| "longitudes ((tel, lon, t) # fs) m = longitudes fs (if feq lon (Fin 0) then m else (tel, lon) # filter (\<lambda>p. fst p \<noteq> tel) m)"

record coverage_figures =
  cf_status :: string
  cf_reasons :: "string list"
  cf_telescopes :: "string list"
  cf_longitude_span :: f64
  cf_realized_gap :: "f64 option"
  cf_duty :: f64

definition coverage_figures :: "coverage_intent \<Rightarrow> f64 \<Rightarrow> frame_sample list \<Rightarrow> coverage_figures" where
  "coverage_figures intent binMin frames =
     (let samples = filter (\<lambda>(tel, _). tel \<noteq> []) frames;
          tels = remdups (map fst samples);
          lons = map snd (longitudes samples []);
          span = CircularLonSpanDeg lons;
          ts = map (\<lambda>(_, _, t). t) samples;
          gap = (if 2 \<le> length ts then Some (realized_gap (Fin 0) ts) else None);
          duty = (if 2 \<le> length ts then duty_cycle binMin ts else if length ts = 1 then Fin 1 else Fin 0);
          worse = (\<lambda>status. if IsHard intent then ''failed'' else if status = ''ok'' then ''degraded'' else status);
          (status, reasons) =
            (case gap of
               Some g \<Rightarrow> if ci_MaxGapMin intent > 0 \<and> flt (i2f (ci_MaxGapMin intent)) g
                  then (if IsHard intent then ''failed'' else ''degraded'', [''realized_max_gap_min exceeds intent''])
                  else (''ok'', [])
             | None \<Rightarrow> (''insufficient_data'', [if length ts = 1 then ''need '' @ [CHR 0xE2, CHR 0x89, CHR 0xA5] @ ''2 frames for gap metric'' else ''no frames yet'']));
          (status, reasons) =
            (if ci_MinSites intent > 0 \<and> int (length tels) < ci_MinSites intent
             then (worse status, reasons @ [''min_sites not met'']) else (status, reasons));
          (status, reasons) =
            (if flt (Fin 0) (ci_MinLongitudeSpanDeg intent) \<and>
                flt (fadd span (flit (1 / 10 ^ 9))) (ci_MinLongitudeSpanDeg intent) \<and> 2 \<le> length lons
             then (worse status, reasons @ [''min_longitude_span_deg not met'']) else (status, reasons))
      in \<lparr>cf_status = status, cf_reasons = reasons, cf_telescopes = tels, cf_longitude_span = span,
          cf_realized_gap = gap, cf_duty = duty\<rparr>)"

text \<open>The size of a bin comes from the query; a value that is not a positive number is ignored.\<close>

definition bin_minutes :: "(string \<Rightarrow> f64 option) \<Rightarrow> string \<Rightarrow> f64" where
  "bin_minutes parse q =
     (if q = [] then Fin 15
      else (case parse q of None \<Rightarrow> Fin 15 | Some v \<Rightarrow> if flt (Fin 0) v then v else Fin 15))"

definition handleCampaignCoverageStatus ::
  "services \<Rightarrow> coverage_api_codec \<Rightarrow> frame_sample list \<Rightarrow> api_caller \<Rightarrow> string \<Rightarrow> string \<Rightarrow> campaign_db
   \<Rightarrow> (response + coverage_figures) \<times> campaign_db" where
  "handleCampaignCoverageStatus S C frames caller cid q s =
     (case cl_user caller of
        None \<Rightarrow> (Inl unauthenticated, s)
      | Some user \<Rightarrow>
          (case on_api (assertCampaignOwner cid user) s of
             (Some e, s) \<Rightarrow> (Inl (writeError 403 ''Forbidden''), s)
           | (None, s) \<Rightarrow>
               (case loadCoverageTarget S C cid s of
                  (Inl e, s) \<Rightarrow> (Inl (writeError 400 e), s)
                | (Inr (intent, _), s) \<Rightarrow>
                    (case cd_read (campaign_by_id cid) s of (_, s) \<Rightarrow>
                      (case cd_read (\<lambda>_. frames) s of
                         (Inl e, s) \<Rightarrow> (Inl (writeError 500 ''Database error''), s)
                       | (Inr frames, s) \<Rightarrow>
                           (Inr (coverage_figures intent (bin_minutes (sv_parse_float S) q) frames), s))))))"

section \<open>Requests\<close>

text \<open>One request to any of the campaign endpoints, with the clock and what the database draws.\<close>

datatype campaign_req =
    CreateCampaign gotime string api_caller "string + string"
  | PublishCampaign gotime "int \<Rightarrow> string" api_caller string
  | PauseCampaign api_caller string
  | ResumeCampaign api_caller string
  | AddCampaignTask gotime "int \<Rightarrow> string" api_caller string "string + api_task"
  | GetCampaign api_caller string
  | ListCampaigns "(gotime \<times> campaign_view) list \<Rightarrow> (gotime \<times> campaign_view) list" api_caller string
  | ListCampaignTasks api_caller string
  | SetCoverage api_caller string "coverage_intent option"
  | PreviewCoverage "telescope_row list" api_caller string "coverage_intent option"
  | ApplyCoverage gotime "telescope_row list" api_caller string "coverage_intent option"
  | CoverageStatus "frame_sample list" api_caller string string

fun campaign_step :: "services \<Rightarrow> pack_codec \<Rightarrow> coverage_api_codec \<Rightarrow> campaign_req \<Rightarrow> campaign_db \<Rightarrow> campaign_db" where
  "campaign_step S C D (CreateCampaign now cid c b) s = snd (handleCreateCampaign C now cid c b s)"
| "campaign_step S C D (PublishCampaign now uuid c cid) s = snd (handlePublishCampaign C S now uuid c cid s)"
| "campaign_step S C D (PauseCampaign c cid) s = snd (handlePauseCampaign c cid s)"
| "campaign_step S C D (ResumeCampaign c cid) s = snd (handleResumeCampaign c cid s)"
| "campaign_step S C D (AddCampaignTask now uuid c cid b) s = snd (handleAddCampaignTask now uuid c cid b s)"
| "campaign_step S C D (GetCampaign c cid) s = snd (handleGetCampaign C c cid s)"
| "campaign_step S C D (ListCampaigns newest c status) s = snd (handleListCampaigns C newest c status s)"
| "campaign_step S C D (ListCampaignTasks c cid) s = snd (handleListCampaignTasks c cid s)"
| "campaign_step S C D (SetCoverage c cid b) s = snd (handleSetCampaignCoverage D c cid b s)"
| "campaign_step S C D (PreviewCoverage tele c cid b) s = snd (handlePreviewCampaignCoverage S D tele c cid b s)"
| "campaign_step S C D (ApplyCoverage now tele c cid b) s = snd (handleApplyCampaignCoverage S D now tele c cid b s)"
| "campaign_step S C D (CoverageStatus frames c cid q) s = snd (handleCampaignCoverageStatus S D frames c cid q s)"

end
