(* ===== verification/CampaignSteps.thy ===== *)
theory CampaignSteps
  imports CoverageApi
begin

text \<open>
  What a relation between states must satisfy to hold between the state before and the state after every
  request to the campaign endpoints.  The contract names the accesses of the handlers: first the outcome of
  one access, a change of a status or pack and an event, then also the two changes of the handoff windows
  and the three transactions; the handlers are gone through once, inside it.
\<close>

locale campaign_access = respected R for R :: "campaign_db \<Rightarrow> campaign_db \<Rightarrow> bool" +
  assumes outcome_moves: "api_outcome (cd_api s) = (oc, a) \<Longrightarrow> R s (s\<lparr>cd_api := a\<rparr>)"
    and row_moves: "R s (s\<lparr>cd_api := fst (update_campaigns p f (cd_api s))\<rparr>)"
    and events_moves: "R s (s\<lparr>cd_api := (cd_api s)\<lparr>as_events := es\<rparr>\<rparr>)"
begin

lemma cd_read_moves: "R s (snd (cd_read f s))"
  using outcome_moves [of s] by (auto simp: cd_read_def on_api_def split: prod.splits)

lemma cd_exec_moves:
  assumes "\<And>s. R s (fst (f s))" shows "R s (snd (cd_exec f s))"
proof -
  obtain oc a where o: "api_outcome (cd_api s) = (oc, a)" by force
  note 1 = outcome_moves [OF o]
  show ?thesis
    using 1 transitive [OF 1 assms] by (auto simp: cd_exec_def on_api_def o split: prod.splits if_splits)
qed

lemma read_moves: "R s (snd (on_api (api_read f) s))"
  using outcome_moves [of s] by (auto simp: api_read_def on_api_def split: prod.splits)

lemma exec_moves:
  assumes "\<And>s. R s (s\<lparr>cd_api := fst (f (cd_api s))\<rparr>)" shows "R s (snd (on_api (api_exec f) s))"
proof -
  obtain oc a where o: "api_outcome (cd_api s) = (oc, a)" by force
  note 1 = outcome_moves [OF o]
  have "R (s\<lparr>cd_api := a\<rparr>) (s\<lparr>cd_api := fst (f a)\<rparr>)" using assms [of "s\<lparr>cd_api := a\<rparr>"] by simp
  with 1 transitive [OF 1 this] show ?thesis
    by (cases "f a") (auto simp: api_exec_def on_api_def o split: prod.splits if_splits)
qed

lemma owner_moves: "R s (snd (on_api (assertCampaignOwner cid user) s))"
proof -
  have "snd (on_api (assertCampaignOwner cid user) s) = snd (on_api (api_read (\<lambda>s. as_owner s cid)) s)"
    by (auto simp: on_api_def assertCampaignOwner_def split: prod.split sum.split)
  then show ?thesis using read_moves by simp
qed

lemma event_moves: "R s (snd (on_api (\<lambda>a. ((), emitCampaignUpdate cid ty msg t a)) s))"
proof -
  obtain q a where q: "api_read (\<lambda>a. as_owner a cid) (cd_api s) = (q, a)" by force
  have 1: "R s (s\<lparr>cd_api := a\<rparr>)" using read_moves [of s "\<lambda>a. as_owner a cid"] q by (simp add: on_api_def)
  have 2: "R (s\<lparr>cd_api := a\<rparr>) (s\<lparr>cd_api := snd (api_exec (\<lambda>s. (s\<lparr>as_events := as_events s @ [e]\<rparr>, ())) a)\<rparr>)" for e
    using exec_moves [of "\<lambda>s. (s\<lparr>as_events := as_events s @ [e]\<rparr>, ())" "s\<lparr>cd_api := a\<rparr>"] events_moves
    by (simp add: on_api_def split_def)
  show ?thesis using q 1 transitive [OF 1 2]
    by (auto simp: on_api_def emitCampaignUpdate_def emitResearcherEvent_def split: sum.split option.split)
qed

lemma status_moves: "R s (snd (on_api (api_exec (update_campaigns p f)) s))"
  by (rule exec_moves, rule row_moves)

lemmas cd_binds = bind [OF owner_moves] bind [OF cd_read_moves] bind [OF status_moves]
lemmas cd_event = call [OF event_moves]

lemma transition_moves: "R s (snd (transitionCampaignStatus target allowed c cid s))"
  unfolding transitionCampaignStatus_def
  by (auto intro!: cd_binds reflexive split: option.split sum.split)

lemma get_moves: "R s (snd (handleGetCampaign C c cid s))"
  unfolding handleGetCampaign_def by (auto intro!: cd_binds reflexive split: option.split sum.split)

lemma list_moves: "R s (snd (handleListCampaigns C newest c status s))"
  unfolding handleListCampaigns_def by (auto intro!: cd_binds reflexive split: option.split sum.split)

lemma list_tasks_moves: "R s (snd (handleListCampaignTasks c cid s))"
  unfolding handleListCampaignTasks_def by (auto intro!: cd_binds reflexive split: option.split sum.split)


lemma owned_moves: "(\<And>s. R s (snd (f s))) \<Longrightarrow> R s (snd (as_owner_of c cid f s))"
  unfolding as_owner_of_def
  by (auto intro!: cd_binds reflexive intro: transitive split: option.split)

lemma persist_moves: "R s (snd (persist_pack cid f s))"
  unfolding persist_pack_def
  by (auto intro!: cd_binds reflexive split: option.split sum.split)

lemma target_moves: "R s (snd (loadCoverageTarget S C cid s))"
  unfolding loadCoverageTarget_def Let_def
  by (rule bind [OF cd_read_moves reflexive]) (simp split: option.split sum.split prod.split)

lemma context_moves: "R s (snd (loadCoverageContext S C cid b s))"
  unfolding loadCoverageContext_def Let_def
  by (rule bind [OF target_moves reflexive]) (simp split: option.split sum.split prod.split)

lemma campaign_update_moves: "R s (campaign_update cid ty msg s)"
  unfolding campaign_update_def by (rule event_moves)

lemmas cd_loads = bind [OF persist_moves] bind [OF target_moves] bind [OF context_moves]
  bind [OF cd_read_moves] call [OF campaign_update_moves]

lemma set_coverage_moves: "R s (snd (handleSetCampaignCoverage C c cid b s))"
  unfolding handleSetCampaignCoverage_def persistCampaignCoverage_def Let_def
  by (auto intro!: owned_moves cd_loads reflexive split: option.split bool.split)

lemma preview_moves: "R s (snd (handlePreviewCampaignCoverage S C tele c cid b s))"
  unfolding handlePreviewCampaignCoverage_def loadCoverageSites_def
proof (rule owned_moves, rule bind [OF context_moves reflexive])
  fix s0 x t assume "R s0 t"
  then show "R s0 (snd (case x of Inl e \<Rightarrow> (CoverageError (writeError 400 e), t)
     | Inr (intent, emu, ra, dec) \<Rightarrow> (case cd_read (\<lambda>s. EnrichWeather (ccv_fetch C) (map coverage_site (filter te_active tele))) t of
         (Inl e, s) \<Rightarrow> (db_down, s)
       | (Inr sites, s) \<Rightarrow> (CoveragePlanned 200 intent (GreedyFill intent sites ra dec DefaultFactors emu) 0, s))))"
    by (cases x) (auto intro!: cd_loads split: sum.split)
qed

lemma status_figures_moves: "R s (snd (handleCampaignCoverageStatus S C frames c cid q s))"
proof -
  have "R s0 (snd (case loadCoverageTarget S C cid t of
      (Inl e, s) \<Rightarrow> (Inl (writeError 400 e), s)
    | (Inr (intent, _), s) \<Rightarrow> (case cd_read (campaign_by_id cid) s of (_, s) \<Rightarrow>
        (case cd_read (\<lambda>_. frames) s of
           (Inl e, s) \<Rightarrow> (Inl (writeError 500 ''Database error''), s)
         | (Inr frames, s) \<Rightarrow> (Inr (coverage_figures intent (bin_minutes (sv_parse_float S) q) frames), s)))))"
    if "R s0 t" for s0 t
  proof (rule bind [OF target_moves that])
    fix x t' assume t': "R s0 t'"
    show "R s0 (snd (case x of Inl e \<Rightarrow> (Inl (writeError 400 e), t')
      | Inr (intent, _) \<Rightarrow> (case cd_read (campaign_by_id cid) t' of (_, s) \<Rightarrow>
        (case cd_read (\<lambda>_. frames) s of
           (Inl e, s) \<Rightarrow> (Inl (writeError 500 ''Database error''), s)
         | (Inr frames, s) \<Rightarrow> (Inr (coverage_figures intent (bin_minutes (sv_parse_float S) q) frames), s)))))"
      using t' by (cases x) (auto intro!: cd_loads split: sum.split)
  qed
  then show ?thesis unfolding handleCampaignCoverageStatus_def
    by (auto intro!: cd_binds reflexive split: option.split)
qed

end

text \<open>With the windows and the transactions, every request is covered.\<close>

locale campaign_relation = campaign_access +
  assumes window_moves: "R s (s\<lparr>cd_api := fst (open_window now cid (cd_api s))\<rparr>)"
      "R s (s\<lparr>cd_api := fst (close_window now cid (cd_api s))\<rparr>)"
    and create_tx_moves: "R s (fst (create_tx now cid user pk raw stars s))"
    and publish_tx_moves: "R s (fst (publish_tx C S now uuid cid s))"
    and add_task_tx_moves: "R s (fst (add_task_tx now uuid cid pri sp s))"
begin

lemma publish_moves: "R s (snd (handlePublishCampaign C S now uuid c cid s))"
  unfolding handlePublishCampaign_def
  by (auto intro!: cd_binds bind [OF cd_exec_moves [OF publish_tx_moves]] cd_event reflexive
      split: option.split sum.split publish_result.split)

lemma create_campaign_moves: "R s (snd (handleCreateCampaign C now cid c b s))"
  unfolding handleCreateCampaign_def Let_def
  by (auto intro!: bind [OF cd_exec_moves [OF create_tx_moves]] reflexive split: option.split sum.split bool.split)

lemma add_task_moves: "R s (snd (handleAddCampaignTask now uuid c cid b s))"
  unfolding handleAddCampaignTask_def
  by (auto intro!: bind [OF cd_exec_moves [OF add_task_tx_moves]] cd_binds reflexive split: option.split sum.split)

lemma apply_plan_moves: "R s (snd (apply_plan C now cid b plan s))"
proof (cases "IsHard b \<and> ci_Enabled b \<and> pl_GateStatus plan = ''failed''")
  case True
  then show ?thesis by (simp add: apply_plan_def reflexive)
next
  case False
  have w: "R s (snd (on_api (api_exec (open_window now cid)) s))" "R s (snd (on_api (api_exec (close_window now cid)) s))" for s
    by (rule exec_moves, rule window_moves)+
  have "R s (snd (if p then on_api (api_exec (open_window now cid)) s else
      if q then (Inr 0, snd (on_api (api_exec (close_window now cid)) s)) else (Inr 0, s)))" for s p q
    using w by (simp add: reflexive)
  note b = bind [OF this]
  show ?thesis
    unfolding apply_plan_def if_not_P [OF False] persistCampaignCoveragePlan_def
  proof (rule bind [OF persist_moves reflexive], split bool.split, intro conjI impI)
    fix t assume "R s t"
    then show "R s (snd (db_down, t))" by simp
  next
    fix t assume "R s t"
    note b = b [OF this]
    show "R s (snd (case (if ci_Enabled b \<and> pl_GateStatus plan \<noteq> ''failed'' then on_api (api_exec (open_window now cid)) t
           else if \<not> ci_Enabled b then (Inr 0, snd (on_api (api_exec (close_window now cid)) t)) else (Inr 0, t)) of
         (Inl e, s) \<Rightarrow> (db_down, s)
       | (Inr n, s) \<Rightarrow>
           (let (type, msg) =
              (if pl_GateStatus plan = ''degraded'' then (''coverage.degraded'', ''Coverage plan applied with degraded gates'')
               else if pl_GateStatus plan = ''failed'' then (''coverage.failed'', ''Coverage plan failed gates'')
               else (''coverage.applied'', ''Coverage plan applied''))
            in (CoveragePlanned 200 b plan n, campaign_update cid type msg s))))"
      by (rule b) (simp add: Let_def split_def call [OF campaign_update_moves] split: sum.split)
  qed
qed

lemma apply_moves: "R s (snd (handleApplyCampaignCoverage S C now tele c cid b s))"
  unfolding handleApplyCampaignCoverage_def
proof (rule owned_moves)
  fix s
  have stored: "R s (snd (case b of
      Some b \<Rightarrow> (case persistCampaignCoverage C cid (NormalizeIntent b) s of
          (True, s) \<Rightarrow> (Inl db_down, s) | (False, s) \<Rightarrow> (Inr (NormalizeIntent b), s))
    | None \<Rightarrow> (case loadCoverageTarget S C cid s of
          (Inl e, s) \<Rightarrow> (Inl (CoverageError (writeError 400 e)), s) | (Inr (b, _), s) \<Rightarrow> (Inr b, s))))" (is "R s (snd ?p)")
  proof (cases b)
    case None
    then show ?thesis
      by simp (rule bind [OF target_moves reflexive], simp split: sum.split prod.split)
  next
    case (Some v)
    then show ?thesis unfolding persistCampaignCoverage_def
      by simp (rule bind [OF persist_moves reflexive], simp split: bool.split)
  qed
  have rest: "R s0 (snd (case loadCoverageTarget S C cid t of
      (Inl e, s) \<Rightarrow> (CoverageError (writeError 400 e), s)
    | (Inr (_, emu, ra, dec), s) \<Rightarrow>
        (case loadCoverageSites C tele s of
           (Inl e, s) \<Rightarrow> (db_down, s)
         | (Inr sites, s) \<Rightarrow> apply_plan C now cid v (GreedyFill v sites ra dec DefaultFactors emu) s)))"
    if "R s0 t" for s0 t v
  proof (rule bind [OF target_moves that])
    fix x t' assume t': "R s0 t'"
    show "R s0 (snd (case x of Inl e \<Rightarrow> (CoverageError (writeError 400 e), t')
      | Inr (_, emu, ra, dec) \<Rightarrow> (case loadCoverageSites C tele t' of
           (Inl e, s) \<Rightarrow> (db_down, s)
         | (Inr sites, s) \<Rightarrow> apply_plan C now cid v (GreedyFill v sites ra dec DefaultFactors emu) s)))"
      using t' by (cases x) (auto simp: loadCoverageSites_def intro!: cd_loads call [OF apply_plan_moves] split: sum.split)
  qed
  show "R s (snd (let stored = ?p in case stored of (Inl e, s) \<Rightarrow> (e, s)
     | (Inr b, s) \<Rightarrow> (case loadCoverageTarget S C cid s of
          (Inl e, s) \<Rightarrow> (CoverageError (writeError 400 e), s)
        | (Inr (_, emu, ra, dec), s) \<Rightarrow>
            (case loadCoverageSites C tele s of
               (Inl e, s) \<Rightarrow> (db_down, s)
             | (Inr sites, s) \<Rightarrow> apply_plan C now cid b (GreedyFill b sites ra dec DefaultFactors emu) s))))"
    unfolding Let_def
  proof (rule bind [OF stored reflexive])
    fix x t assume "R s t"
    from rest [OF this] this show "R s (snd (case x of Inl e \<Rightarrow> (e, t)
     | Inr b \<Rightarrow> (case loadCoverageTarget S C cid t of
          (Inl e, s) \<Rightarrow> (CoverageError (writeError 400 e), s)
        | (Inr (_, emu, ra, dec), s) \<Rightarrow>
            (case loadCoverageSites C tele s of
               (Inl e, s) \<Rightarrow> (db_down, s)
             | (Inr sites, s) \<Rightarrow> apply_plan C now cid b (GreedyFill b sites ra dec DefaultFactors emu) s))))"
      by (cases x) simp_all
  qed
qed

lemma campaign_step_moves: "R s (campaign_step S C D req s)"
  by (cases req)
    (simp_all add: create_campaign_moves publish_moves transition_moves handlePauseCampaign_def handleResumeCampaign_def
      add_task_moves get_moves list_moves list_tasks_moves set_coverage_moves preview_moves apply_moves status_figures_moves)

end

end
