(* ===== verification/Reclaim.thy ===== *)
theory Reclaim
  imports Drain
begin

text \<open>
  Reclaiming lost leases (\<open>cmd/orchestrator/orchestrator_reclaim.go\<close>): the sweep, the transaction on one
  assignment row, and the compare-and-delete on the node's state.  The optimistic transaction is one
  atomic step; three lost races in a row count as a failed access.
\<close>

section \<open>Definitions\<close>

definition clear_node_cmds :: "string \<Rightarrow> redis_cmd list" where
  "clear_node_cmds nodeID =
     [CHSet (state_key nodeID) [(''status'', ''idle'')],
      CHDel (state_key nodeID) [''current_task_id'', ''current_task_priority'', ''idle_since'']]"

text \<open>The result says whether the cleanup failed.\<close>

definition clearReclaimedNode :: "string \<Rightarrow> int \<Rightarrow> world \<Rightarrow> bool \<times> world" where
  "clearReclaimedNode nodeID taskID w =
     (case next_outcome w of (oc, w) \<Rightarrow>
        if oc \<noteq> Done then (True, w)
        else if map_of (rd_hash (w_redis w) (state_key nodeID)) ''current_task_id'' \<noteq> Some (Itoa taskID)
          then (False, w)
        else redis_exec (clear_node_cmds nodeID) w)"

definition expire_row :: "gotime \<Rightarrow> assignment_row \<Rightarrow> assignment_row" where
  "expire_row now r = r\<lparr>ta_status := ''expired'', ta_updated := now\<rparr>"

definition active_left :: "int \<Rightarrow> assignment_row list \<Rightarrow> nat" where
  "active_left t rs = sql_count (\<lambda>r. ta_task r = t \<and> ta_active r) rs"

text \<open>The decision on the locked task row, and the row it leaves.\<close>

definition task_running :: "task_row \<Rightarrow> bool" where
  "task_running t \<longleftrightarrow> tk_status t = TaskStatusAssigned \<or> tk_status t = TaskStatusInProgress"

definition reclaim_decision :: "lease_config \<Rightarrow> nat \<Rightarrow> task_row \<Rightarrow> reclaim_action" where
  "reclaim_decision C left t =
     (if task_running t then decideReclaim (int left) (tk_failure_count t + 1) (lc_MaxFailures C) else no_action)"

definition reclaimed_row :: "gotime \<Rightarrow> reclaim_action \<Rightarrow> int \<Rightarrow> task_row \<Rightarrow> task_row" where
  "reclaimed_row now act newFailure t =
     (if ra_RequeueTask act then t\<lparr>tk_status := TaskStatusPending, tk_assigned := None,
        tk_failure_count := newFailure, tk_last_attempt := Some now, tk_updated := now\<rparr>
      else if ra_TerminalExpire act then t\<lparr>tk_status := TaskStatusExpired, tk_assigned := None,
        tk_failure_count := newFailure, tk_last_attempt := Some now, tk_updated := now\<rparr>
      else t)"

definition reclaim_queue_cmds :: "reclaim_action \<Rightarrow> int \<Rightarrow> int \<Rightarrow> redis_cmd list" where
  "reclaim_queue_cmds act taskID priority =
     (if ra_RequeueTask act then inflight_to_queued taskID priority
      else if ra_TerminalExpire act then [CZRem RedisInflightTasks taskID, CZRem RedisQueuedTasks taskID]
      else [])"

definition reclaim_redis :: "reclaim_action \<Rightarrow> string \<Rightarrow> int \<Rightarrow> int \<Rightarrow> world \<Rightarrow> world" where
  "reclaim_redis act nodeID taskID priority w =
     (let w = snd (clearReclaimedNode nodeID taskID w); cs = reclaim_queue_cmds act taskID priority
      in if cs = [] then w else snd (redis_exec cs w))"

definition reclaimOne :: "services \<Rightarrow> gotime \<Rightarrow> int \<Rightarrow> string \<Rightarrow> world \<Rightarrow> bool \<times> world" where
  "reclaimOne S now taskID nodeID w =
     (case next_outcome w of (oc, w) \<Rightarrow>
        if oc = Failed then (True, w)
        else (case sql_update (\<lambda>r. assignment_key taskID nodeID r \<and> ta_active r) (expire_row now) (w_assignments w) of
          (rows, n) \<Rightarrow>
            if n = 0 then (False, w)
            else (case sql_find (\<lambda>t. tk_id t = taskID) (w_tasks w) of
                None \<Rightarrow> (True, w)
              | Some t \<Rightarrow>
                  (let act = reclaim_decision (sv_lease S) (active_left taskID rows) t;
                       w' = w\<lparr>w_assignments := rows,
                              w_tasks := fst (sql_update (\<lambda>u. tk_id u = taskID)
                                (reclaimed_row now act (tk_failure_count t + 1)) (w_tasks w))\<rparr>
                   in if oc = Lost then (True, w')
                      else (False, reclaim_redis act nodeID taskID (tk_priority t) w')))))"

definition lapsed :: "gotime \<Rightarrow> assignment_row \<Rightarrow> bool" where
  "lapsed now r \<longleftrightarrow> ta_active r \<and> (case ta_lease r of None \<Rightarrow> False | Some l \<Rightarrow> l < now)"

text \<open>The sweep reads the lapsed rows once, then reclaims each in its own transaction.\<close>

fun reclaim_all :: "services \<Rightarrow> gotime \<Rightarrow> (int \<times> string) list \<Rightarrow> world \<Rightarrow> world" where
  "reclaim_all S now [] w = w"
| "reclaim_all S now ((t, n) # es) w = reclaim_all S now es (snd (reclaimOne S now t n w))"

definition reclaimExpiredLeases :: "services \<Rightarrow> gotime \<Rightarrow> world \<Rightarrow> bool \<times> world" where
  "reclaimExpiredLeases S now w =
     (case next_outcome w of (oc, w) \<Rightarrow>
        if oc \<noteq> Done then (True, w)
        else (False, reclaim_all S now
          (map (\<lambda>r. (ta_task r, ta_node r)) (filter (lapsed now) (w_assignments w))) w))"

section \<open>Lemmas\<close>

lemma clear_node_keeps:
  "w_tasks (snd (clearReclaimedNode n t w)) = w_tasks w"
  "w_assignments (snd (clearReclaimedNode n t w)) = w_assignments w"
  "w_campaigns (snd (clearReclaimedNode n t w)) = w_campaigns w" "w_sent (snd (clearReclaimedNode n t w)) = w_sent w"
proof -
  obtain oc w1 where o: "next_outcome w = (oc, w1)" by force
  have "snd (clearReclaimedNode n t w) = w1 \<or> snd (clearReclaimedNode n t w) = snd (redis_exec (clear_node_cmds n) w1)"
    using o by (simp add: clearReclaimedNode_def)
  then show "w_tasks (snd (clearReclaimedNode n t w)) = w_tasks w"
    "w_assignments (snd (clearReclaimedNode n t w)) = w_assignments w"
    "w_campaigns (snd (clearReclaimedNode n t w)) = w_campaigns w" "w_sent (snd (clearReclaimedNode n t w)) = w_sent w"
    using o redis_exec_keeps [OF prod.collapse [symmetric], of "clear_node_cmds n" w1] by auto
qed

lemma reclaim_redis_keeps:
  "w_tasks (reclaim_redis act n t pr w) = w_tasks w" "w_assignments (reclaim_redis act n t pr w) = w_assignments w"
  "w_campaigns (reclaim_redis act n t pr w) = w_campaigns w" "w_sent (reclaim_redis act n t pr w) = w_sent w"
  using redis_exec_keeps [OF prod.collapse [symmetric], of "reclaim_queue_cmds act t pr" "snd (clearReclaimedNode n t w)"]
  by (simp_all add: reclaim_redis_def Let_def clear_node_keeps)

text \<open>A reclaim changes nothing in Postgres, or expires the pair's active row and rewrites its task.\<close>

lemma reclaimOne_cases:
  assumes "reclaimOne S now t n w = (e, w')"
  obtains (nothing) "w_tasks w' = w_tasks w" "w_assignments w' = w_assignments w"
      "w_sent w' = w_sent w" "w_campaigns w' = w_campaigns w"
  | (reclaimed) rows r where
      "rows = fst (sql_update (\<lambda>r. assignment_key t n r \<and> ta_active r) (expire_row now) (w_assignments w))"
      "\<exists>q \<in> set (w_assignments w). assignment_key t n q \<and> ta_active q"
      "sql_find (\<lambda>t'. tk_id t' = t) (w_tasks w) = Some r" "w_assignments w' = rows"
      "w_tasks w' = fst (sql_update (\<lambda>u. tk_id u = t)
        (reclaimed_row now (reclaim_decision (sv_lease S) (active_left t rows) r) (tk_failure_count r + 1)) (w_tasks w))"
      "w_sent w' = w_sent w" "w_campaigns w' = w_campaigns w"
proof -
  obtain oc w1 where o: "next_outcome w = (oc, w1)" by force
  let ?P = "\<lambda>r. assignment_key t n r \<and> ta_active r"
  obtain rows k where u: "sql_update ?P (expire_row now) (w_assignments w) = (rows, k)" by force
  show thesis
  proof (cases "oc = Failed \<or> k = 0 \<or> sql_find (\<lambda>t'. tk_id t' = t) (w_tasks w) = None")
    case True
    then have "w' = w1" using assms o u by (auto simp: reclaimOne_def split: if_splits option.splits)
    with o show thesis by - (rule nothing, auto)
  next
    case False
    then obtain r where r: "sql_find (\<lambda>t'. tk_id t' = t) (w_tasks w) = Some r" by auto
    let ?act = "reclaim_decision (sv_lease S) (active_left t rows) r"
    let ?w2 = "w1\<lparr>w_assignments := rows, w_tasks := fst (sql_update (\<lambda>u. tk_id u = t)
      (reclaimed_row now ?act (tk_failure_count r + 1)) (w_tasks w))\<rparr>"
    have "w' = ?w2 \<or> w' = reclaim_redis ?act n t (tk_priority r) ?w2"
      using assms o u r False by (simp add: reclaimOne_def Let_def split: if_splits)
    moreover have "\<exists>q \<in> set (w_assignments w). ?P q"
      using False u sql_update_none [of ?P "expire_row now" "w_assignments w"] by auto
    ultimately show thesis
      using o u by (intro reclaimed [of rows r]) (use r in \<open>auto simp: reclaim_redis_keeps\<close>)
  qed
qed

lemma reclaimed_row_id [simp]: "tk_id (reclaimed_row now act k t) = tk_id t"
  by (simp add: reclaimed_row_def)

lemma decision_running: "\<not> task_running r \<Longrightarrow> reclaimed_row now (reclaim_decision C left r) k t = t"
  by (simp add: reclaim_decision_def reclaimed_row_def no_action_def)

lemma decision_active: "left > 0 \<Longrightarrow> reclaimed_row now (reclaim_decision C left r) k t = t"
  by (simp add: reclaim_decision_def reclaimed_row_def decideReclaim_def no_action_def)

lemma active_left_0: "active_left t rs = 0 \<longleftrightarrow> (\<forall>r \<in> set rs. \<not> (ta_task r = t \<and> ta_active r))"
  by (simp add: active_left_def sql_count_0)

lemma expire_not_active [simp]: "\<not> ta_active (expire_row now r)" "ta_task (expire_row now r) = ta_task r"
  "ta_node (expire_row now r) = ta_node r"
  by (simp_all add: expire_row_def ta_active_def)


lemma expire_update:
  "q \<in> set (fst (sql_update P (expire_row now) rs)) \<longleftrightarrow> (q \<in> set rs \<and> \<not> P q) \<or> (\<exists>r \<in> set rs. P r \<and> q = expire_row now r)"
  by (auto simp: set_sql_update)

section \<open>Properties\<close>


definition demo_assigned :: world where
  "demo_assigned = demo_claimed\<lparr>w_assignments := [new_assignment 1 ''n1'' ''primary'' 100 0]\<rparr>"


text \<open>The transaction that reclaims a row does not look at its lease again: when the collector has
  renewed the lease between the sweep's read and the transaction, the row is expired all the same and a
  live node loses its task, although the comment on the row count says that a renewed lease is skipped.\<close>

theorem renewed_lease_is_expired:
  assumes "w_faults w = []" "q \<in> set (w_assignments w)" "assignment_key t n q" "ta_active q"
    and "ta_lease q = Some l" "now < l" "sql_find (\<lambda>r. tk_id r = t) (w_tasks w) = Some r"
  shows "\<not> lapsed now q \<and> expire_row now q \<in> set (w_assignments (snd (reclaimOne S now t n w)))"
proof -
  have "\<not> lapsed now q" using assms(5,6) by (simp add: lapsed_def)
  moreover have "expire_row now q \<in> set (w_assignments (snd (reclaimOne S now t n w)))"
  proof (rule reclaimOne_cases [OF prod.collapse [symmetric], of S now t n w])
    assume same: "w_assignments (snd (reclaimOne S now t n w)) = w_assignments w"
    have "snd (sql_update (\<lambda>r. assignment_key t n r \<and> ta_active r) (expire_row now) (w_assignments w)) \<noteq> 0"
      unfolding sql_update_none using assms(2-4) by blast
    then have "w_assignments (snd (reclaimOne S now t n w)) =
        fst (sql_update (\<lambda>r. assignment_key t n r \<and> ta_active r) (expire_row now) (w_assignments w))"
      using assms(1,7) by (auto simp: reclaimOne_def Let_def reclaim_redis_keeps split: prod.split)
    then show ?thesis using assms(2-4) by (auto simp: expire_update)
  next
    fix rows assume "rows = fst (sql_update (\<lambda>r. assignment_key t n r \<and> ta_active r) (expire_row now) (w_assignments w))"
      "w_assignments (snd (reclaimOne S now t n w)) = rows"
    then show ?thesis using assms(2-4) by (auto simp: expire_update)
  qed
  ultimately show ?thesis by blast
qed

theorem renewed_lease_is_expired_witness:
  "expire_row 50 (new_assignment 1 ''n1'' ''primary'' 100 0)
     \<in> set (w_assignments (snd (reclaimOne demo_services 50 1 ''n1'' demo_assigned)))"
  using renewed_lease_is_expired [of demo_assigned "new_assignment 1 ''n1'' ''primary'' 100 0" 1 "''n1''" 100 50
      "claim_row 0 ''n1'' (demo_task 1)" demo_services]
  by (simp add: demo_assigned_def demo_claimed_def demo_world_def new_assignment_def assignment_key_def
      ta_active_def sql_find_def claim_row_def demo_task_def)


section \<open>Retries end\<close>

lemma quiet_exec: "w_faults w = [] \<Longrightarrow> w_faults (snd (redis_exec cs w)) = []"
  by (simp add: redis_exec_def)

lemma quiet_reclaim: "w_faults w = [] \<Longrightarrow> w_faults (snd (reclaimOne S now t n w)) = []"
  by (auto simp: reclaimOne_def reclaim_redis_def clearReclaimedNode_def quiet_exec Let_def
      split: prod.split option.split)

text \<open>Task \<open>t\<close> is ready for its next try after \<open>f\<close> lost leases.\<close>

definition ready :: "int \<Rightarrow> int \<Rightarrow> world \<Rightarrow> bool" where
  "ready t f w \<longleftrightarrow> w_faults w = [] \<and> distinct (map tk_id (w_tasks w)) \<and> active_left t (w_assignments w) = 0 \<and>
     (\<exists>r \<in> set (w_tasks w). claimable t r \<and> tk_failure_count r = f)"

text \<open>One try: a node claims the task and its lease lapses.\<close>

definition lost_try :: "services \<Rightarrow> gotime \<Rightarrow> int \<Rightarrow> string \<Rightarrow> world \<Rightarrow> world" where
  "lost_try S now t n w = snd (reclaimOne S now t n (snd (persistTaskAssignment S now t n w)))"

lemma persist_ready:
  assumes "ready t f w" "t > 0" "n \<noteq> []"
  shows "w_tasks (snd (persistTaskAssignment S now t n w)) = fst (sql_update (claimable t) (claim_row now n) (w_tasks w))"
    "w_assignments (snd (persistTaskAssignment S now t n w)) =
       upsert_primary now t n (leaseExpiry (sv_lease S) now) (w_assignments w)"
proof -
  have f: "w_faults w = []" and r: "\<exists>r \<in> set (w_tasks w). claimable t r" using assms(1) by (auto simp: ready_def)
  obtain ts k where u: "sql_update (claimable t) (claim_row now n) (w_tasks w) = (ts, k)" by force
  have "k \<noteq> 0" using r sql_update_none [of "claimable t" "claim_row now n" "w_tasks w"] unfolding u by auto
  then show "w_tasks (snd (persistTaskAssignment S now t n w)) = fst (sql_update (claimable t) (claim_row now n) (w_tasks w))"
    "w_assignments (snd (persistTaskAssignment S now t n w)) =
       upsert_primary now t n (leaseExpiry (sv_lease S) now) (w_assignments w)"
    using f assms(2,3) u by (simp_all add: persistTaskAssignment_def Let_def)
qed

lemma upsert_members:
  "q \<in> set (upsert_primary now t n l rs) \<Longrightarrow> q \<in> set rs \<or> assignment_key t n q \<and> ta_active q"
  by (auto simp: upsert_primary_def set_sql_update assignment_key_def new_assignment_def ta_active_def split: if_splits)

lemma upsert_has: "\<exists>q \<in> set (upsert_primary now t n l rs). assignment_key t n q \<and> ta_active q"
proof (cases "sql_exists (assignment_key t n) rs")
  case True
  then obtain r where "r \<in> set rs" "assignment_key t n r" by (auto simp: sql_exists_iff)
  let ?r = "r\<lparr>ta_role := ''primary'', ta_status := ''assigned'', ta_lease := Some l, ta_updated := now\<rparr>"
  have "?r \<in> set (upsert_primary now t n l rs)"
    using True \<open>r \<in> set rs\<close> \<open>assignment_key t n r\<close> by (force simp: upsert_primary_def set_sql_update)
  moreover have "assignment_key t n ?r \<and> ta_active ?r"
    using \<open>assignment_key t n r\<close> by (simp add: assignment_key_def ta_active_def)
  ultimately show ?thesis by blast
next
  case False
  then show ?thesis by (simp add: upsert_primary_def new_assignment_def assignment_key_def ta_active_def)
qed

lemma lost_try_step:
  assumes rd: "ready t f w" and t: "t > 0" "n \<noteq> []"
  shows "w_faults (lost_try S now t n w) = [] \<and> distinct (map tk_id (w_tasks (lost_try S now t n w))) \<and>
    active_left t (w_assignments (lost_try S now t n w)) = 0 \<and>
    (\<exists>r \<in> set (w_tasks (lost_try S now t n w)). tk_id r = t \<and> tk_assigned r = None \<and> tk_failure_count r = f + 1 \<and>
      tk_status r = (if 0 < lc_MaxFailures (sv_lease S) \<and> lc_MaxFailures (sv_lease S) \<le> f + 1
        then TaskStatusExpired else TaskStatusPending))"
proof -
  define w1 where "w1 = snd (persistTaskAssignment S now t n w)"
  define w2 where "w2 = snd (reclaimOne S now t n w1)"
  note p = persist_ready [OF rd t, of S now, folded w1_def]
  have f1: "w_faults w1 = []" using quiet_ops(1) rd by (simp add: w1_def ready_def)
  have d1: "distinct (map tk_id (w_tasks w1))" using rd by (simp add: p(1) ready_def)
  obtain r where r: "r \<in> set (w_tasks w)" "claimable t r" "tk_failure_count r = f" using rd by (auto simp: ready_def)
  let ?r1 = "claim_row now n r"
  have r1: "?r1 \<in> set (w_tasks w1)" unfolding p(1) set_sql_update using r by force
  have r1f: "tk_id ?r1 = t" "tk_failure_count ?r1 = f" "task_running ?r1"
    using r by (auto simp: claimable_def claim_row_def task_running_def)
  have find: "sql_find (\<lambda>t'. tk_id t' = t) (w_tasks w1) = Some ?r1"
  proof (cases "sql_find (\<lambda>t'. tk_id t' = t) (w_tasks w1)")
    case None
    then show ?thesis using r1 r1f(1) by (auto simp: sql_find_None)
  next
    case (Some q)
    then show ?thesis using sql_find_Some [OF Some] unique_key [OF d1 _ r1, of q] r1f(1) by auto
  qed
  obtain q where q: "q \<in> set (w_assignments w1)" "assignment_key t n q" "ta_active q"
    using upsert_has unfolding p(2) by blast
  have only: "assignment_key t n a" if "a \<in> set (w_assignments w1)" "ta_task a = t" "ta_active a" for a
    using upsert_members that rd unfolding p(2) ready_def active_left_0 by blast
  let ?rows = "fst (sql_update (\<lambda>r. assignment_key t n r \<and> ta_active r) (expire_row now) (w_assignments w1))"
  have none: "active_left t ?rows = 0" unfolding active_left_0 using only by (auto simp: expire_update)
  have eff: "w_assignments w2 = ?rows \<and> w_tasks w2 = fst (sql_update (\<lambda>u. tk_id u = t)
      (reclaimed_row now (reclaim_decision (sv_lease S) 0 ?r1) (f + 1)) (w_tasks w1))"
  proof -
    have "snd (sql_update (\<lambda>r. assignment_key t n r \<and> ta_active r) (expire_row now) (w_assignments w1)) \<noteq> 0"
      unfolding sql_update_none using q by blast
    then show ?thesis using f1 find none r1f(2) unfolding w2_def
      by (auto simp: reclaimOne_def Let_def reclaim_redis_keeps split: prod.split)
  qed
  let ?r2 = "reclaimed_row now (reclaim_decision (sv_lease S) 0 ?r1) (f + 1) ?r1"
  have "?r2 \<in> set (w_tasks w2)" using eff r1 r1f(1) by (force simp: set_sql_update)
  moreover have r2: "tk_id ?r2 = t \<and> tk_assigned ?r2 = None \<and> tk_failure_count ?r2 = f + 1 \<and>
      tk_status ?r2 = (if 0 < lc_MaxFailures (sv_lease S) \<and> lc_MaxFailures (sv_lease S) \<le> f + 1
        then TaskStatusExpired else TaskStatusPending)"
    using r1f by (simp add: reclaim_decision_def decideReclaim_def leaseReclaimTerminal_def reclaimed_row_def no_action_def)
  moreover have "distinct (map tk_id (w_tasks w2))" using eff d1 by (simp add: map_key_sql_update)
  moreover have "w_faults w2 = []" unfolding w2_def by (rule quiet_reclaim [OF f1])
  moreover have "active_left t (w_assignments w2) = 0" using eff none by simp
  ultimately show ?thesis unfolding lost_try_def w1_def [symmetric] w2_def [symmetric] by blast
qed

text \<open>C5: a task that keeps losing its lease is retried a bounded number of times: from a fresh pending
  task, each claim whose lease lapses adds one failure and makes the task claimable again, until the
  configured maximum, when it is expired for good, whichever nodes tried it and whenever.\<close>

theorem retries_end:
  assumes "ready t f w" "t > 0" "0 < lc_MaxFailures (sv_lease S)" "\<forall>(now, n) \<in> set tries. n \<noteq> []"
    and "f + int (length tries) \<le> lc_MaxFailures (sv_lease S)" "f < lc_MaxFailures (sv_lease S)"
  shows "\<exists>r \<in> set (w_tasks (foldl (\<lambda>w (now, n). lost_try S now t n w) w tries)). tk_id r = t \<and>
    tk_assigned r = None \<and> tk_failure_count r = f + int (length tries) \<and>
    tk_status r = (if f + int (length tries) = lc_MaxFailures (sv_lease S) then TaskStatusExpired else TaskStatusPending)"
  using assms
proof (induction tries arbitrary: f w)
  case Nil
  then obtain r where "r \<in> set (w_tasks w)" "claimable t r" "tk_failure_count r = f" by (auto simp: ready_def)
  with Nil.prems(6) show ?case by (auto simp: claimable_def)
next
  case (Cons a tries)
  obtain now n where a: "a = (now, n)" by force
  have n: "n \<noteq> []" using Cons.prems(4) a by simp
  note st = lost_try_step [OF Cons.prems(1,2) n, of S now]
  show ?case
  proof (cases "f + 1 < lc_MaxFailures (sv_lease S)")
    case True
    then have rd: "ready t (f + 1) (lost_try S now t n w)" using st by (auto simp: ready_def claimable_def)
    have "\<exists>r \<in> set (w_tasks (foldl (\<lambda>w (now, n). lost_try S now t n w) (lost_try S now t n w) tries)). tk_id r = t \<and>
      tk_assigned r = None \<and> tk_failure_count r = f + 1 + int (length tries) \<and>
      tk_status r = (if f + 1 + int (length tries) = lc_MaxFailures (sv_lease S) then TaskStatusExpired else TaskStatusPending)"
      by (rule Cons.IH [OF rd Cons.prems(2,3)]) (use Cons.prems(4,5) True in auto)
    then show ?thesis by (simp add: a algebra_simps)
  next
    case False
    have "f + (1 + int (length tries)) \<le> lc_MaxFailures (sv_lease S)" using Cons.prems(5) by simp
    then have "int (length tries) = 0" using False by linarith
    then have "tries = []" "f + 1 = lc_MaxFailures (sv_lease S)" using False Cons.prems(6) by auto
    then show ?thesis using st Cons.prems(3) by (simp add: a)
  qed
qed

theorem retries_end_witness:
  "\<exists>r \<in> set (w_tasks (foldl (\<lambda>w (now, n). lost_try demo_services now 1 n w) demo_world
      [(0, ''n1''), (0, ''n2''), (0, ''n3''), (0, ''n1''), (0, ''n2'')])). tk_id r = 1 \<and> tk_status r = TaskStatusExpired"
proof -
  have rd: "ready 1 0 demo_world"
    by (simp add: ready_def demo_world_def active_left_def sql_count_def claimable_def demo_task_def)
  have "\<exists>r \<in> set (w_tasks (foldl (\<lambda>w (now, n). lost_try demo_services now 1 n w) demo_world
      [(0, ''n1''), (0, ''n2''), (0, ''n3''), (0, ''n1''), (0, ''n2'')])). tk_id r = 1 \<and> tk_assigned r = None \<and>
      tk_failure_count r = 0 + int (length [(0::int, ''n1''), (0, ''n2''), (0, ''n3''), (0, ''n1''), (0, ''n2'')]) \<and>
      tk_status r = (if 0 + int (length [(0::int, ''n1''), (0, ''n2''), (0, ''n3''), (0, ''n1''), (0, ''n2'')])
        = lc_MaxFailures (sv_lease demo_services) then TaskStatusExpired else TaskStatusPending)"
    by (rule retries_end [OF rd]) (simp_all add: demo_services_def)
  then show ?thesis by (auto simp: demo_services_def)
qed

section \<open>A stranded task\<close>

lemma filter_sql_update:
  "(\<And>r. w r \<Longrightarrow> \<not> P r \<and> \<not> P (f r)) \<Longrightarrow> filter P (fst (sql_update w f rs)) = filter P rs"
  by (induction rs) (auto simp: sql_update_def)

lemma released_inactive [simp]: "\<not> ta_active (release_row now a)"
  by (simp add: release_row_def ta_active_def)

lemma reclaim_all_inactive:
  assumes "active_left t (w_assignments w) = 0"
  shows "filter (\<lambda>r. tk_id r = t) (w_tasks (reclaim_all S now es w)) = filter (\<lambda>r. tk_id r = t) (w_tasks w) \<and>
    active_left t (w_assignments (reclaim_all S now es w)) = 0"
  using assms
proof (induction S now es w rule: reclaim_all.induct)
  case (2 S now u n es w)
  let ?w = "snd (reclaimOne S now u n w)"
  have step: "active_left t (w_assignments ?w) = 0 \<and>
      filter (\<lambda>r. tk_id r = t) (w_tasks ?w) = filter (\<lambda>r. tk_id r = t) (w_tasks w)"
  proof (rule reclaimOne_cases [OF prod.collapse [symmetric], of S now u n w])
    fix rows r
    assume rows: "rows = fst (sql_update (\<lambda>r. assignment_key u n r \<and> ta_active r) (expire_row now) (w_assignments w))"
      and q: "\<exists>q \<in> set (w_assignments w). assignment_key u n q \<and> ta_active q" and a: "w_assignments ?w = rows"
      and tk: "w_tasks ?w = fst (sql_update (\<lambda>x. tk_id x = u)
        (reclaimed_row now (reclaim_decision (sv_lease S) (active_left u rows) r) (tk_failure_count r + 1)) (w_tasks w))"
    have "u \<noteq> t" using q "2.prems" by (auto simp: active_left_0 assignment_key_def)
    then have "filter (\<lambda>r. tk_id r = t) (w_tasks ?w) = filter (\<lambda>r. tk_id r = t) (w_tasks w)"
      unfolding tk by (intro filter_sql_update) auto
    moreover have "active_left t rows = 0" using "2.prems" unfolding active_left_0 rows by (auto simp: expire_update)
    ultimately show ?thesis using a by simp
  qed (use "2.prems" in auto)
  then show ?case using "2.IH" by simp
qed simp

text \<open>The task of a dead primary can be stranded.  Its primary row has expired, one cohort member
  still works on it, so the task stays assigned to the dead primary; when that member is preempted, its
  row is released while the task row does not match the member and stays assigned.  From then on no
  active row is left: no sweep ever touches the task again, and no load finds it assignable.\<close>

theorem preempted_last_member_strands_task:
  assumes "r \<in> set (w_tasks w)" "tk_id r = t" "tk_status r = TaskStatusAssigned" "tk_assigned r = Some pn" "pn \<noteq> c"
    and "\<forall>a \<in> set (w_assignments w). ta_task a = t \<and> ta_active a \<longrightarrow> ta_node a = c"
    and "w_faults w = []" "t > 0" "w1 = snd (clearTaskAssignment now t c w)"
  shows "r \<in> set (w_tasks w1) \<and> active_left t (w_assignments w1) = 0 \<and>
    (\<forall>later es. r \<in> set (w_tasks (reclaim_all S later es w1))) \<and> (TrimSpace pn \<noteq> [] \<longrightarrow> \<not> TaskAssignable (tk_status r) (tk_assigned r))"
proof -
  have nh: "\<not> held_by t c r" using assms(4,5) by (simp add: held_by_def)
  have w1: "w_tasks w1 = fst (sql_update (held_by t c) (unassign_row now) (w_tasks w))"
    "w_assignments w1 = fst (sql_update (\<lambda>r. assignment_key t c r \<and> ta_active r) (release_row now) (w_assignments w))"
    using assms(7-9) by (simp_all add: clearTaskAssignment_def exec_tasks_def exec_assignments_def)
  have r: "r \<in> set (w_tasks w1)" unfolding w1 set_sql_update using assms(1) nh by force
  have none: "active_left t (w_assignments w1) = 0"
  proof -
    have "\<not> (ta_task b = t \<and> ta_active b)" if "b \<in> set (w_assignments w1)" for b
    proof -
      obtain a where a: "a \<in> set (w_assignments w)"
        "b = (if assignment_key t c a \<and> ta_active a then release_row now a else a)"
        using \<open>b \<in> set (w_assignments w1)\<close> unfolding w1(2) set_sql_update by blast
      show ?thesis
      proof (cases "assignment_key t c a \<and> ta_active a")
        case True
        then show ?thesis using a(2) by simp
      next
        case False
        then have "b = a" using a(2) by presburger
        moreover have "ta_task a = t \<Longrightarrow> ta_active a \<Longrightarrow> ta_node a = c" using assms(6) a(1) by blast
        ultimately show ?thesis using False unfolding assignment_key_def by blast
      qed
    qed
    then show ?thesis unfolding active_left_0 by blast
  qed
  have "r \<in> set (w_tasks (reclaim_all S later es w1))" for later es
  proof -
    have "r \<in> set (filter (\<lambda>r. tk_id r = t) (w_tasks w1))" using r assms(2) by simp
    then have "r \<in> set (filter (\<lambda>r. tk_id r = t) (w_tasks (reclaim_all S later es w1)))"
      using reclaim_all_inactive [OF none, of S later es] by simp
    then show ?thesis by simp
  qed
  moreover have "TrimSpace pn \<noteq> [] \<longrightarrow> \<not> TaskAssignable (tk_status r) (tk_assigned r)"
    using assms(3,4) by (simp add: TaskAssignable_def status_names)
  ultimately show ?thesis using r none by blast
qed

theorem preempted_last_member_strands_task_witness:
  "claim_row 0 ''n1'' (demo_task 1) \<in> set (w_tasks (reclaim_all demo_services 1000 [(1, ''n1''), (1, ''n2'')]
     (snd (clearTaskAssignment 50 1 ''n2'' (demo_claimed\<lparr>w_assignments := [new_assignment 1 ''n2'' ''cohort'' 100 0]\<rparr>)))))"
proof -
  let ?w = "demo_claimed\<lparr>w_assignments := [new_assignment 1 ''n2'' ''cohort'' 100 0]\<rparr>"
  have "claim_row 0 ''n1'' (demo_task 1) \<in> set (w_tasks ?w)" "tk_id (claim_row 0 ''n1'' (demo_task 1)) = 1"
    "tk_status (claim_row 0 ''n1'' (demo_task 1)) = TaskStatusAssigned"
    "tk_assigned (claim_row 0 ''n1'' (demo_task 1)) = Some ''n1''" "w_faults ?w = []"
    "\<forall>a \<in> set (w_assignments ?w). ta_task a = 1 \<and> ta_active a \<longrightarrow> ta_node a = ''n2''"
    by (simp_all add: demo_claimed_def claim_row_def demo_task_def demo_world_def new_assignment_def)
  moreover have "''n1'' \<noteq> ''n2''" "(1::int) > 0" by simp_all
  ultimately have "\<forall>later es. claim_row 0 ''n1'' (demo_task 1) \<in> set (w_tasks (reclaim_all demo_services later es
     (snd (clearTaskAssignment 50 1 ''n2'' ?w))))"
    using preempted_last_member_strands_task [of "claim_row 0 ''n1'' (demo_task 1)" ?w 1 "''n1''" "''n2''" _ 50 demo_services]
    by blast
  then show ?thesis by blast
qed

end
