(* ===== verification/Collector.thy ===== *)
theory Collector
  imports Reclaim PlannerLoop
begin

text \<open>
  The collector (\<open>cmd/collector\<close>): what one MQTT message from a pier does to the node state in Redis and to
  the leases in Postgres.  Each subscription is one definition from the decoded message: telemetry
  (\<open>collector_telemetry.go\<close>), metadata (\<open>collector_metadata.go\<close>), status (\<open>collector_status.go\<close>), lease renewal
  (\<open>lease_renew.go\<close>) and node-state reconciliation (\<open>nodestate_reconcile.go\<close>).  A payload that does not
  decode changes nothing.  Key expiry and the metrics forwarded over MQTT are not modelled.
\<close>

section \<open>Messages\<close>

record telemetry =
  tl_NodeID :: string
  tl_Status :: string
  tl_LoadPct :: f64
  tl_CurrentTaskID :: "int option"
  tl_MountAltDeg :: "f64 option"
  tl_MountAzDeg :: "f64 option"
  tl_CompletedFiles :: int
  tl_MemoryAvailMB :: f64
  tl_MQTTTaskReceiveMS :: "f64 option"

record node_metadata =
  nm_NodeID :: string
  nm_HardwareSpecs :: string
  nm_QualityTier :: string
  nm_AvailableFilters :: "string list"
  nm_Power :: f64
  nm_ApertureMM :: "f64 option"
  nm_FocalLengthMM :: "f64 option"
  nm_PixelSizeUm :: "f64 option"
  nm_SiteLat :: "f64 option"
  nm_SiteLon :: "f64 option"
  nm_ReliabilityScore :: f64
  nm_MountSlewRateDegS :: "f64 option"
  nm_ObstructionMask :: obstruction_mask
  nm_MountLimits :: "mount_limits option"
  nm_HorizonProfile :: "horizon_profile option"
  nm_FOVWidthArcmin :: "f64 option"
  nm_FOVHeightArcmin :: "f64 option"
  nm_MountType :: "int option"
  nm_MaxStableExposureS :: "f64 option"
  nm_SiteSeeingArcsec :: "f64 option"
  nm_LimitingMagnitude :: "f64 option"
  nm_EnabledCampaignIDs :: "string list"
  nm_AnomalyMode :: string
  nm_AllowAnomalyRetarget :: bool

record status_message =
  sm_NodeID :: string
  sm_Status :: string

text \<open>The node id is the topic's; a different id in the message rejects it.\<close>

definition bindTopicNodeID :: "string \<Rightarrow> string \<Rightarrow> string \<Rightarrow> string option" where
  "bindTopicNodeID topic pre jsonNodeID =
     (let topicID = NodeIDFromTopic topic pre in
      if topicID = [] then None
      else if jsonNodeID \<noteq> [] \<and> jsonNodeID \<noteq> topicID then None
      else Some topicID)"

section \<open>Telemetry\<close>

definition estimateStartupMS :: "telemetry \<Rightarrow> int" where
  "estimateStartupMS tel =
     (if tl_Status tel = ''idle'' then 100
      else if tl_Status tel = ''observing'' then 800
      else if tl_Status tel = ''uploading'' then 500
      else if tl_Status tel = ''error'' then 5000
      else 1000)"

definition telemetryNodeStatus :: "string \<Rightarrow> string option" where
  "telemetryNodeStatus status =
     (if status = ''idle'' then Some NodeStatusIdle
      else if status = ''slewing'' \<or> status = ''observing'' \<or> status = ''uploading'' \<or> status = ''processing''
        then Some NodeStatusBusy
      else if status = ''error'' then Some ''error''
      else None)"

text \<open>The pipeline of one heartbeat; \<open>prevStatus\<close> is the status of the heartbeat before it.\<close>

definition telemetry_cmds :: "services \<Rightarrow> gotime \<Rightarrow> string \<Rightarrow> string \<Rightarrow> string \<Rightarrow> telemetry \<Rightarrow> redis_cmd list" where
  "telemetry_cmds S now nodeID nodeStatus prevStatus tel =
     (let key = state_key nodeID in
      [CHSet key [(''node_id'', nodeID), (''status'', nodeStatus), (''load_pct'', sv_format_float S (tl_LoadPct tel)),
         (''estimated_startup_ms'', Itoa (estimateStartupMS tel)),
         (''completed_files'', Itoa (tl_CompletedFiles tel)),
         (''memory_avail_mb'', sv_format_float S (tl_MemoryAvailMB tel)), (''last_seen'', sv_format_time S now)],
       CHSet key [(''telemetry_status'', tl_Status tel)],
       (case tl_CurrentTaskID tel of Some t \<Rightarrow> CHSet key [(''telemetry_task_id'', Itoa t)]
        | None \<Rightarrow> CHDel key [''telemetry_task_id'']),
       CSAdd RedisActiveNodes nodeID]
      @ (case (tl_MountAltDeg tel, tl_MountAzDeg tel) of
           (Some alt, Some az) \<Rightarrow> [CHSet key [(''mount_alt_deg'', sv_format_float S alt)],
             CHSet key [(''mount_az_deg'', sv_format_float S az)]]
         | _ \<Rightarrow> [])
      @ (case tl_MQTTTaskReceiveMS tel of None \<Rightarrow> []
         | Some ms \<Rightarrow> [CHSet key [(''mqtt_task_receive_ms'', sv_format_float S ms)]])
      @ (if tl_Status tel = ''idle'' \<and> prevStatus \<noteq> [] \<and> prevStatus \<noteq> ''idle''
           then [CHSet key [(''idle_since'', sv_format_time S now)]]
         else if tl_Status tel \<noteq> ''idle'' \<and> prevStatus = ''idle'' then [CHDel key [''idle_since'']]
         else []))"

definition on_telemetry :: "services \<Rightarrow> gotime \<Rightarrow> string \<Rightarrow> telemetry \<Rightarrow> world \<Rightarrow> world" where
  "on_telemetry S now topic tel w =
     (case telemetryNodeStatus (tl_Status tel) of
        None \<Rightarrow> w
      | Some nodeStatus \<Rightarrow> (case bindTopicNodeID topic (TopicPrefix TopicTelemetry) (tl_NodeID tel) of
          None \<Rightarrow> w
        | Some nodeID \<Rightarrow> (case next_outcome w of (oc, w) \<Rightarrow>
            let prevStatus = (if oc \<noteq> Done then [] else hget (rd_hash (w_redis w) (state_key nodeID)) ''telemetry_status'')
            in snd (redis_exec (telemetry_cmds S now nodeID nodeStatus prevStatus tel) w))))"

section \<open>Metadata\<close>

definition siteCoordJumpTooLarge :: "mathlib \<Rightarrow> f64 \<Rightarrow> f64 \<Rightarrow> f64 \<Rightarrow> f64 \<Rightarrow> f64 \<Rightarrow> bool" where
  "siteCoordJumpTooLarge M prevLat prevLon nextLat nextLon maxDeg =
     (let maxDeg = (if fle maxDeg (Fin 0) then Fin 5 else maxDeg);
          rad = (\<lambda>x. fdiv (fmul x math_Pi) (Fin 180));
          dlat = rad (fsub nextLat prevLat); dlon = rad (fsub nextLon prevLon);
          lat1 = rad prevLat; lat2 = rad nextLat;
          sLat = m_Sin M (fdiv dlat (Fin 2)); sLon = m_Sin M (fdiv dlon (Fin 2));
          a = fadd (fmul sLat sLat) (fmul (fmul (fmul (m_Cos M lat1) (m_Cos M lat2)) sLon) sLon);
          c = fmul (Fin 2) (m_Atan2 M (m_Sqrt M a) (m_Sqrt M (fsub (Fin 1) a)));
          deg = fdiv (fmul c (Fin 180)) math_Pi
      in flt maxDeg deg)"

definition metadata_fields :: "services \<Rightarrow> string \<Rightarrow> node_metadata \<Rightarrow> (string \<times> string) list" where
  "metadata_fields S nodeID m =
     (let fl = opt_field (sv_format_float S) in
      [(''node_id'', nodeID), (''hardware_specs'', nm_HardwareSpecs m), (''quality_tier'', nm_QualityTier m),
       (''reliability_score'', sv_format_float S (nm_ReliabilityScore m)),
       (''power'', sv_format_float S (nm_Power m))]
      @ fl ''aperture_mm'' (nm_ApertureMM m) @ fl ''focal_length_mm'' (nm_FocalLengthMM m)
      @ fl ''pixel_size_um'' (nm_PixelSizeUm m) @ fl ''site_lat'' (nm_SiteLat m) @ fl ''site_lon'' (nm_SiteLon m)
      @ fl ''mount_slew_rate_deg_s'' (nm_MountSlewRateDegS m)
      @ fl ''fov_width_arcmin'' (nm_FOVWidthArcmin m) @ fl ''fov_height_arcmin'' (nm_FOVHeightArcmin m)
      @ opt_field Itoa ''mount_type'' (nm_MountType m)
      @ fl ''max_stable_exposure_s'' (nm_MaxStableExposureS m)
      @ fl ''median_seeing_arcsec'' (nm_SiteSeeingArcsec m)
      @ fl ''limiting_magnitude'' (nm_LimitingMagnitude m)
      @ (if nm_AvailableFilters m = [] then []
         else [(''available_filters'', sv_marshal_strings S (nm_AvailableFilters m))])
      @ (if nm_ObstructionMask m = [] then []
         else [(''obstruction_mask'', sv_marshal_mask S (nm_ObstructionMask m))])
      @ opt_field (sv_marshal_mount S) ''mount_limits'' (nm_MountLimits m)
      @ opt_field (sv_marshal_horizon S) ''horizon_profile'' (nm_HorizonProfile m)
      @ (if nm_EnabledCampaignIDs m = [] then []
         else [(''enabled_campaign_ids'', sv_marshal_strings S (nm_EnabledCampaignIDs m))])
      @ (if HasPrefix nodeID ''emu_'' then [(''is_emulator'', redis_bool True)] else [])
      @ [(''anomaly_mode'', if nm_AnomalyMode m = [] then ''off'' else nm_AnomalyMode m),
         (''allow_anomaly_retarget'', redis_bool (nm_AllowAnomalyRetarget m))])"

text \<open>One coordinate as the cache has it: an absent or unreadable field, or a failed read, is an error.\<close>

definition read_coord :: "services \<Rightarrow> string \<Rightarrow> string \<Rightarrow> world \<Rightarrow> f64 option \<times> world" where
  "read_coord S key field w =
     (case next_outcome w of (oc, w) \<Rightarrow>
        (if oc \<noteq> Done then None
         else (case map_of (rd_hash (w_redis w) key) field of None \<Rightarrow> None | Some v \<Rightarrow> sv_parse_float S v), w))"

text \<open>The teleport check, made only when the message has both coordinates.\<close>

definition site_jump :: "services \<Rightarrow> string \<Rightarrow> node_metadata \<Rightarrow> world \<Rightarrow> bool \<times> world" where
  "site_jump S nodeID m w =
     (case (nm_SiteLat m, nm_SiteLon m) of
        (Some lat, Some lon) \<Rightarrow>
          (case read_coord S (meta_key nodeID) ''site_lat'' w of (prevLat, w) \<Rightarrow>
           case read_coord S (meta_key nodeID) ''site_lon'' w of (prevLon, w) \<Rightarrow>
             ((case (prevLat, prevLon) of
                 (Some plat, Some plon) \<Rightarrow> siteCoordJumpTooLarge (sv_math S) plat plon lat lon (Fin 5)
               | _ \<Rightarrow> False), w))
      | _ \<Rightarrow> (False, w))"

definition on_metadata :: "services \<Rightarrow> string \<Rightarrow> node_metadata \<Rightarrow> world \<Rightarrow> world" where
  "on_metadata S topic m w =
     (case bindTopicNodeID topic (TopicPrefix TopicMetadata) (nm_NodeID m) of
        None \<Rightarrow> w
      | Some nodeID \<Rightarrow> (case site_jump S nodeID m w of (jump, w) \<Rightarrow>
          if jump then w
          else snd (redis_exec (map (\<lambda>f. CHSet (meta_key nodeID) [f]) (metadata_fields S nodeID m)) w)))"

section \<open>Status\<close>

definition on_status :: "services \<Rightarrow> gotime \<Rightarrow> string \<Rightarrow> status_message \<Rightarrow> world \<Rightarrow> world" where
  "on_status S now topic m w =
     (case bindTopicNodeID topic (TopicPrefix TopicStatus) (sm_NodeID m) of
        None \<Rightarrow> w
      | Some nodeID \<Rightarrow>
          if sm_Status m = NodeStatusOffline then
            snd (redis_exec [CSRem RedisActiveNodes nodeID]
              (snd (redis_exec [CHSet (state_key nodeID)
                 [(''status'', ''offline''), (''last_seen'', sv_format_time S now)]] w)))
          else if sm_Status m = NodeStatusOnline then
            snd (redis_exec [CSAdd RedisActiveNodes nodeID]
              (snd (redis_exec [CHSet (state_key nodeID)
                 [(''status'', NodeStatusIdle), (''last_seen'', sv_format_time S now)]] w)))
          else w)"

section \<open>Leases\<close>

definition leaseRenewTTL :: "(string \<Rightarrow> string) \<Rightarrow> (string \<Rightarrow> duration option) \<Rightarrow> duration" where
  "leaseRenewTTL env parse_duration =
     (let v = env ''TASK_LEASE_TTL'' in
      if v \<noteq> [] then (case parse_duration v of Some d \<Rightarrow> if 0 < d then d else 15 * minute | None \<Rightarrow> 15 * minute)
      else 15 * minute)"

definition renew_row :: "gotime \<Rightarrow> duration \<Rightarrow> assignment_row \<Rightarrow> assignment_row" where
  "renew_row now ttl r = r\<lparr>ta_lease := Some (now + ttl), ta_updated := now\<rparr>"

definition renewTaskLease :: "gotime \<Rightarrow> duration \<Rightarrow> int \<Rightarrow> string \<Rightarrow> world \<Rightarrow> world" where
  "renewTaskLease now ttl taskID nodeID w =
     snd (exec_assignments (\<lambda>r. assignment_key taskID nodeID r \<and> ta_active r) (renew_row now ttl) w)"

definition on_lease_telemetry :: "gotime \<Rightarrow> duration \<Rightarrow> string \<Rightarrow> telemetry \<Rightarrow> world \<Rightarrow> world" where
  "on_lease_telemetry now ttl topic tel w =
     (case (bindTopicNodeID topic (TopicPrefix TopicTelemetry) (tl_NodeID tel), tl_CurrentTaskID tel) of
        (Some nodeID, Some t) \<Rightarrow> renewTaskLease now ttl t nodeID w
      | _ \<Rightarrow> w)"

section \<open>Reconciliation\<close>

definition clear_task_cmds :: "string \<Rightarrow> redis_cmd list" where
  "clear_task_cmds nodeID =
     [CHDel (state_key nodeID) [''current_task_id'', ''current_task_priority'', ''idle_since''],
      CHSet (state_key nodeID) [(''status'', NodeStatusIdle)]]"

text \<open>The optimistic transaction is one atomic step, as in the reclaim loop.\<close>

definition clearCurrentTask :: "string \<Rightarrow> string \<Rightarrow> world \<Rightarrow> bool \<times> world" where
  "clearCurrentTask nodeID wantTaskID w =
     (case next_outcome w of (oc, w) \<Rightarrow>
        if oc \<noteq> Done then (True, w)
        else if map_of (rd_hash (w_redis w) (state_key nodeID)) ''current_task_id'' \<noteq> Some wantTaskID then (False, w)
        else redis_exec (clear_task_cmds nodeID) w)"

definition reconcileNodeState :: "string \<Rightarrow> telemetry \<Rightarrow> world \<Rightarrow> world" where
  "reconcileNodeState nodeID tel w =
     (if tl_Status tel \<noteq> ''idle'' \<or> tl_CurrentTaskID tel \<noteq> None then w
      else (case next_outcome w of (oc, w) \<Rightarrow>
        let stored = hget (rd_hash (w_redis w) (state_key nodeID)) ''current_task_id'' in
        if oc \<noteq> Done \<or> stored = [] then w
        else (case Atoi stored of
            None \<Rightarrow> w
          | Some taskID \<Rightarrow> (case next_outcome w of (oc, w) \<Rightarrow>
              if oc \<noteq> Done then w
              else (case sql_find (\<lambda>r. tk_id r = taskID) (w_tasks w) of
                  None \<Rightarrow> w
                | Some r \<Rightarrow>
                    if tk_status r \<noteq> TaskStatusCompleted \<and> tk_status r \<noteq> TaskStatusExpired then w
                    else snd (clearCurrentTask nodeID stored w))))))"

definition on_reconcile_telemetry :: "string \<Rightarrow> telemetry \<Rightarrow> world \<Rightarrow> world" where
  "on_reconcile_telemetry topic tel w =
     (case bindTopicNodeID topic (TopicPrefix TopicTelemetry) (tl_NodeID tel) of
        None \<Rightarrow> w | Some nodeID \<Rightarrow> reconcileNodeState nodeID tel w)"

section \<open>One delivery\<close>

text \<open>A message delivered to one subscription.\<close>

datatype delivery = Ingest string telemetry | Describe string node_metadata | Presence string status_message
  | Renew string telemetry | Reconcile string telemetry

fun collect :: "services \<Rightarrow> gotime \<Rightarrow> duration \<Rightarrow> delivery \<Rightarrow> world \<Rightarrow> world" where
  "collect S now ttl (Ingest topic tel) w = on_telemetry S now topic tel w"
| "collect S now ttl (Describe topic m) w = on_metadata S topic m w"
| "collect S now ttl (Presence topic m) w = on_status S now topic m w"
| "collect S now ttl (Renew topic tel) w = on_lease_telemetry now ttl topic tel w"
| "collect S now ttl (Reconcile topic tel) w = on_reconcile_telemetry topic tel w"

text \<open>The node that a delivery speaks for.\<close>

fun speaker :: "delivery \<Rightarrow> string option" where
  "speaker (Ingest topic tel) = bindTopicNodeID topic (TopicPrefix TopicTelemetry) (tl_NodeID tel)"
| "speaker (Describe topic m) = bindTopicNodeID topic (TopicPrefix TopicMetadata) (nm_NodeID m)"
| "speaker (Presence topic m) = bindTopicNodeID topic (TopicPrefix TopicStatus) (sm_NodeID m)"
| "speaker (Renew topic tel) = bindTopicNodeID topic (TopicPrefix TopicTelemetry) (tl_NodeID tel)"
| "speaker (Reconcile topic tel) = bindTopicNodeID topic (TopicPrefix TopicTelemetry) (tl_NodeID tel)"

section \<open>Lemmas\<close>

lemma node_keys [simp]:
  "state_key n \<noteq> meta_key m" "meta_key m \<noteq> state_key n" "state_key n = state_key m \<longleftrightarrow> n = m"
  "meta_key n = meta_key m \<longleftrightarrow> n = m"
  by simp_all

declare sprintf_prefix [simp del]

text \<open>The hash that a command writes, and the fields it writes there.\<close>

fun cmd_hash :: "redis_cmd \<Rightarrow> string option" where
  "cmd_hash (CHSet key fs) = Some key"
| "cmd_hash (CHDel key ks) = Some key"
| "cmd_hash (CDel key) = Some key"
| "cmd_hash c = None"

fun cmd_fields :: "redis_cmd \<Rightarrow> string set" where
  "cmd_fields (CHSet key fs) = fst ` set fs"
| "cmd_fields (CHDel key ks) = set ks"
| "cmd_fields c = UNIV"

lemma redis_run_simps [simp]:
  "redis_run [] r = r" "redis_run (c # cs) r = redis_run cs (redis_step r c)"
  by (simp_all add: redis_run_def)

lemma run_field:
  assumes "\<forall>c \<in> set cs. cmd_hash c = Some key \<longrightarrow> f \<notin> cmd_fields c"
  shows "map_of (rd_hash (redis_run cs r) key) f = map_of (rd_hash r key) f"
  using assms
proof (induction cs arbitrary: r)
  case (Cons c cs)
  have "map_of (rd_hash (redis_run cs (redis_step r c)) key) f = map_of (rd_hash (redis_step r c) key) f"
    by (rule Cons.IH) (use Cons.prems in simp)
  moreover have "map_of (rd_hash (redis_step r c) key) f = map_of (rd_hash r key) f"
  proof (cases c)
    case (CHSet k fs)
    have "map_of (rev fs) f = None" if "k = key"
      using Cons.prems that CHSet by (simp add: map_of_eq_None_iff)
    then show ?thesis using CHSet by (auto simp: map_of_HSet map_add_def)
  qed (use Cons.prems in auto)
  ultimately show ?case by simp
qed simp

lemma run_hash_other:
  assumes "\<forall>c \<in> set cs. cmd_hash c \<noteq> Some key"
  shows "rd_hash (redis_run cs r) key = rd_hash r key"
  using assms
proof (induction cs arbitrary: r)
  case (Cons c cs)
  then show ?case by (cases c) auto
qed simp

lemma run_set_member:
  assumes "\<forall>c \<in> set cs. c \<noteq> CSAdd K m \<and> c \<noteq> CSRem K m \<and> c \<noteq> CDel K"
  shows "m \<in> set (rd_set (redis_run cs r) K) \<longleftrightarrow> m \<in> set (rd_set r K)"
  using assms
proof (induction cs arbitrary: r)
  case (Cons c cs)
  have "m \<in> set (rd_set (redis_run cs (redis_step r c)) K) \<longleftrightarrow> m \<in> set (rd_set (redis_step r c) K)"
    by (rule Cons.IH) (use Cons.prems in simp)
  moreover have "m \<in> set (rd_set (redis_step r c) K) \<longleftrightarrow> m \<in> set (rd_set r K)"
    using Cons.prems by (cases c) auto
  ultimately show ?case by simp
qed simp

text \<open>The commands of a heartbeat, of metadata and of a status message stay on their node's keys, and
  leave the assignment marker alone.\<close>

lemma telemetry_cmds_scope:
  assumes "c \<in> set (telemetry_cmds S now n st prev tel)"
  shows "cmd_hash c \<in> {None, Some (state_key n)}" "c \<noteq> CDel K" "c \<noteq> CSRem K m" "c = CSAdd K m \<Longrightarrow> m = n"
    "f \<in> {''current_task_id'', ''current_task_priority''} \<Longrightarrow> cmd_hash c \<noteq> None \<Longrightarrow> f \<notin> cmd_fields c"
  using assms by (auto simp: telemetry_cmds_def Let_def split: option.splits if_splits)

lemma bind_Some: "bindTopicNodeID topic pre j = Some n \<Longrightarrow> n \<noteq> [] \<and> NodeIDFromTopic topic pre = n \<and> (j = [] \<or> j = n)"
  by (auto simp: bindTopicNodeID_def Let_def split: if_splits)

text \<open>What a delivery may write: hash fields of its own node, its own membership, its own leases.\<close>

definition own_cmds :: "string \<Rightarrow> redis_cmd list \<Rightarrow> bool" where
  "own_cmds n cs \<longleftrightarrow> (\<forall>c \<in> set cs. (cmd_hash c = None \<or> cmd_hash c = Some (state_key n) \<or> cmd_hash c = Some (meta_key n)) \<and>
     (\<forall>K. c \<noteq> CDel K) \<and> (\<forall>K m. c = CSAdd K m \<or> c = CSRem K m \<longrightarrow> m = n))"

definition marker_free :: "redis_cmd list \<Rightarrow> bool" where
  "marker_free cs \<longleftrightarrow> (\<forall>c \<in> set cs. \<forall>f \<in> {''current_task_id'', ''current_task_priority''}. \<forall>n.
     cmd_hash c = Some (state_key n) \<longrightarrow> f \<notin> cmd_fields c)"

inductive writes :: "(redis_cmd list \<Rightarrow> bool) \<Rightarrow> world \<Rightarrow> world \<Rightarrow> bool" for ok where
  none: "writes ok w w"
| outcome: "writes ok w w1 \<Longrightarrow> next_outcome w1 = (oc, w2) \<Longrightarrow> writes ok w w2"
| exec: "writes ok w w1 \<Longrightarrow> ok cs \<Longrightarrow> redis_exec cs w1 = (e, w2) \<Longrightarrow> writes ok w w2"

inductive_cases writes_E: "writes ok w w'"

lemma writes_snd [intro]:
  "writes ok w w1 \<Longrightarrow> writes ok w (snd (next_outcome w1))"
  "writes ok w w1 \<Longrightarrow> ok cs \<Longrightarrow> writes ok w (snd (redis_exec cs w1))"
  by (auto intro: writes.outcome writes.exec prod.collapse [symmetric])

lemma writes_keeps:
  assumes "writes ok w w'"
  shows "w_tasks w' = w_tasks w" "w_assignments w' = w_assignments w" "w_campaigns w' = w_campaigns w"
    "w_sent w' = w_sent w"
  using assms
proof (induction)
  case (outcome w w1 oc w2)
  {
    case 1 then show ?case using outcome by simp
  next
    case 2 then show ?case using outcome by simp
  next
    case 3 then show ?case using outcome by simp
  next
    case 4 then show ?case using outcome by simp
  }
next
  case (exec w w1 cs e w2)
  {
    case 1 then show ?case using exec redis_exec_keeps(1) [OF exec(3)] by simp
  next
    case 2 then show ?case using exec redis_exec_keeps(2) [OF exec(3)] by simp
  next
    case 3 then show ?case using exec redis_exec_keeps(3) [OF exec(3)] by simp
  next
    case 4 then show ?case using exec redis_exec_keeps(5) [OF exec(3)] by simp
  }
qed simp_all

text \<open>A property of the Redis state that every allowed pipeline keeps is kept.\<close>

lemma writes_redis:
  assumes "writes ok w w'" "\<And>cs r. ok cs \<Longrightarrow> P r \<Longrightarrow> P (redis_run cs r)" "P (w_redis w)"
  shows "P (w_redis w')"
  using assms(1,3)
proof (induction)
  case (exec w w1 cs e w2)
  then show ?case using redis_exec_keeps(6) [OF exec(3)] assms(2) by auto
qed simp_all

lemma writes_marker:
  assumes "writes ok w w'" "\<And>cs. ok cs \<Longrightarrow> marker_free cs" "f \<in> {''current_task_id'', ''current_task_priority''}"
  shows "map_of (rd_hash (w_redis w') (state_key n)) f = map_of (rd_hash (w_redis w) (state_key n)) f"
proof (rule writes_redis [OF assms(1), where P = "\<lambda>r :: redis. map_of (rd_hash r (state_key n)) f = map_of (rd_hash (w_redis w) (state_key n)) f"])
  fix cs and r :: redis assume "ok cs" and eq: "map_of (rd_hash r (state_key n)) f = map_of (rd_hash (w_redis w) (state_key n)) f"
  have "map_of (rd_hash (redis_run cs r) (state_key n)) f = map_of (rd_hash r (state_key n)) f"
    by (rule run_field) (use assms(2) [OF \<open>ok cs\<close>] assms(3) in \<open>auto simp: marker_free_def\<close>)
  with eq show "map_of (rd_hash (redis_run cs r) (state_key n)) f = map_of (rd_hash (w_redis w) (state_key n)) f" by simp
qed simp

lemma writes_own:
  assumes "writes ok w w'" "\<And>cs. ok cs \<Longrightarrow> own_cmds n cs"
  shows "key \<noteq> state_key n \<Longrightarrow> key \<noteq> meta_key n \<Longrightarrow> rd_hash (w_redis w') key = rd_hash (w_redis w) key"
    "m \<noteq> n \<Longrightarrow> m \<in> set (rd_set (w_redis w') K) \<longleftrightarrow> m \<in> set (rd_set (w_redis w) K)"
proof -
  assume k: "key \<noteq> state_key n" "key \<noteq> meta_key n"
  show "rd_hash (w_redis w') key = rd_hash (w_redis w) key"
  proof (rule writes_redis [OF assms(1), where P = "\<lambda>r :: redis. rd_hash r key = rd_hash (w_redis w) key"])
    fix cs and r :: redis assume "ok cs" and eq: "rd_hash r key = rd_hash (w_redis w) key"
    have "\<forall>c \<in> set cs. cmd_hash c \<noteq> Some key"
      using assms(2) [OF \<open>ok cs\<close>] k unfolding own_cmds_def by (metis option.distinct(1) option.inject)
    from run_hash_other [OF this] eq show "rd_hash (redis_run cs r) key = rd_hash (w_redis w) key" by simp
  qed simp
next
  assume m: "m \<noteq> n"
  show "m \<in> set (rd_set (w_redis w') K) \<longleftrightarrow> m \<in> set (rd_set (w_redis w) K)"
  proof (rule writes_redis [OF assms(1), where P = "\<lambda>r :: redis. m \<in> set (rd_set r K) \<longleftrightarrow> m \<in> set (rd_set (w_redis w) K)"])
    fix cs and r :: redis assume "ok cs" and eq: "(m \<in> set (rd_set r K)) = (m \<in> set (rd_set (w_redis w) K))"
    have "m \<in> set (rd_set (redis_run cs r) K) \<longleftrightarrow> m \<in> set (rd_set r K)"
      by (rule run_set_member) (use assms(2) [OF \<open>ok cs\<close>] m in \<open>auto simp: own_cmds_def\<close>)
    with eq show "(m \<in> set (rd_set (redis_run cs r) K)) = (m \<in> set (rd_set (w_redis w) K))" by simp
  qed simp
qed

definition tame :: "string \<Rightarrow> redis_cmd list \<Rightarrow> bool" where
  "tame n cs \<longleftrightarrow> own_cmds n cs \<and> marker_free cs"

lemma tame_meta: "tame n (map (\<lambda>f. CHSet (meta_key n) [f]) fs)"
  by (auto simp: tame_def own_cmds_def marker_free_def)

lemma tame_telemetry: "tame n (telemetry_cmds S now n st prev tel)"
  unfolding tame_def own_cmds_def marker_free_def
  using telemetry_cmds_scope [of _ S now n st prev tel] by fastforce

lemma tame_status:
  "tame n [CSRem RedisActiveNodes n]" "tame n [CSAdd RedisActiveNodes n]"
  "tame n [CHSet (state_key n) [(''status'', v), (''last_seen'', u)]]"
  by (auto simp: tame_def own_cmds_def marker_free_def)

lemma telemetry_writes:
  assumes "bindTopicNodeID topic (TopicPrefix TopicTelemetry) (tl_NodeID tel) = Some n"
  shows "writes (tame n) w (on_telemetry S now topic tel w)"
proof (cases "telemetryNodeStatus (tl_Status tel)")
  case None
  then show ?thesis by (simp add: on_telemetry_def writes.none)
next
  case (Some st)
  obtain oc w1 where o: "next_outcome w = (oc, w1)" by force
  have "writes (tame n) w w1" using o writes.none by (rule writes.outcome [rotated])
  then show ?thesis using Some assms o by (auto simp: on_telemetry_def Let_def tame_telemetry)
qed

lemma read_coord_writes: "writes ok w w1 \<Longrightarrow> read_coord S key field w1 = (v, w2) \<Longrightarrow> writes ok w w2"
  by (auto simp: read_coord_def split: prod.splits intro: writes.outcome)

lemma site_jump_writes: "site_jump S n m w = (j, w1) \<Longrightarrow> writes ok w w1"
  by (auto simp: site_jump_def writes.none split: option.splits prod.splits
      dest: read_coord_writes [OF read_coord_writes [OF writes.none]])

lemma metadata_writes:
  assumes "bindTopicNodeID topic (TopicPrefix TopicMetadata) (nm_NodeID m) = Some n"
  shows "writes (tame n) w (on_metadata S topic m w)"
proof -
  obtain j w1 where j: "site_jump S n m w = (j, w1)" by force
  then show ?thesis using assms site_jump_writes [OF j, of "tame n"] by (auto simp: on_metadata_def tame_meta)
qed

lemma status_writes:
  assumes "bindTopicNodeID topic (TopicPrefix TopicStatus) (sm_NodeID m) = Some n"
  shows "writes (tame n) w (on_status S now topic m w)"
  using assms by (auto simp: on_status_def tame_status intro!: writes_snd writes.none)

text \<open>The reconciler either only reads, or clears the marker of a task that Postgres has as finished.\<close>

lemma reconcile_cases:
  obtains (reads) "writes (\<lambda>_. False) w (reconcileNodeState n tel w)"
  | (clears) t r where "tl_Status tel = ''idle''" "tl_CurrentTaskID tel = None"
      "Atoi (hget (rd_hash (w_redis w) (state_key n)) ''current_task_id'') = Some t"
      "sql_find (\<lambda>r. tk_id r = t) (w_tasks w) = Some r" "tk_status r = TaskStatusCompleted \<or> tk_status r = TaskStatusExpired"
      "writes (\<lambda>cs. cs = clear_task_cmds n) w (reconcileNodeState n tel w)"
proof -
  let ?stored = "hget (rd_hash (w_redis w) (state_key n)) ''current_task_id''"
  obtain o1 w1 where o1: "next_outcome w = (o1, w1)" by force
  obtain o2 w2 where o2: "next_outcome w1 = (o2, w2)" by force
  have w1: "writes ok w w1" for ok using writes.none o1 by (rule writes.outcome)
  have w2: "writes ok w w2" for ok using w1 o2 by (rule writes.outcome)
  have k: "w_redis w1 = w_redis w" "w_tasks w2 = w_tasks w" using o1 o2 by simp_all
  show thesis
  proof (cases "tl_Status tel \<noteq> ''idle'' \<or> tl_CurrentTaskID tel \<noteq> None \<or> o1 \<noteq> Done \<or> ?stored = [] \<or> Atoi ?stored = None")
    case True
    then have "reconcileNodeState n tel w = w \<or> reconcileNodeState n tel w = w1"
      using o1 k by (auto simp: reconcileNodeState_def Let_def)
    then show thesis using reads w1 writes.none by metis
  next
    case False
    then obtain t where t: "Atoi ?stored = Some t" by auto
    have red: "reconcileNodeState n tel w = (if o2 \<noteq> Done then w2
        else (case sql_find (\<lambda>r. tk_id r = t) (w_tasks w) of None \<Rightarrow> w2
          | Some r \<Rightarrow> if tk_status r \<noteq> TaskStatusCompleted \<and> tk_status r \<noteq> TaskStatusExpired then w2
              else snd (clearCurrentTask n ?stored w2)))"
    proof -
      have "tl_Status tel = ''idle''" "tl_CurrentTaskID tel = None" "o1 = Done" "?stored \<noteq> []" using False by simp_all
      then show ?thesis using t
        by (simp only: reconcileNodeState_def o1 prod.case Let_def k o2 simp_thms if_False option.case if_True
            refl not_True_eq_False not_False_eq_True)
    qed
    show thesis
    proof (cases "o2 \<noteq> Done \<or> sql_find (\<lambda>r. tk_id r = t) (w_tasks w) = None")
      case True
      then have "reconcileNodeState n tel w = w2" unfolding red by (cases "o2 \<noteq> Done") simp_all
      then show thesis using reads w2 by metis
    next
      case not_read: False
      then obtain r where r: "sql_find (\<lambda>r. tk_id r = t) (w_tasks w) = Some r" by auto
      show thesis
      proof (cases "tk_status r = TaskStatusCompleted \<or> tk_status r = TaskStatusExpired")
        case True
        have "reconcileNodeState n tel w = snd (clearCurrentTask n ?stored w2)"
          unfolding red using not_read r True by auto
        moreover have "writes (\<lambda>cs. cs = clear_task_cmds n) w (snd (clearCurrentTask n ?stored w2))"
        proof -
          obtain o3 w3 where o3: "next_outcome w2 = (o3, w3)" by force
          have "writes (\<lambda>cs. cs = clear_task_cmds n) w w3" using w2 o3 by (rule writes.outcome)
          then show ?thesis using o3 by (auto simp: clearCurrentTask_def)
        qed
        ultimately show thesis using clears False t r True by simp
      next
        case not_final: False
        then have "reconcileNodeState n tel w = w2" unfolding red using not_read r by simp
        then show thesis using reads w2 by metis
      qed
    qed
  qed
qed

lemma own_clear: "own_cmds n (clear_task_cmds n)"
  by (auto simp: own_cmds_def clear_task_cmds_def)

lemma writes_mono: "writes ok w w' \<Longrightarrow> (\<And>cs. ok cs \<Longrightarrow> ok' cs) \<Longrightarrow> writes ok' w w'"
  by (induction rule: writes.induct) (auto intro: writes.intros)

text \<open>Every delivery but a renewal writes only its speaker's Redis state; without a speaker nothing changes.\<close>

lemma collect_writes:
  assumes "speaker ev = Some n" "\<forall>topic tel. ev \<noteq> Renew topic tel"
  shows "writes (own_cmds n) w (collect S now ttl ev w)"
proof (cases ev)
  case (Ingest topic tel)
  then show ?thesis using assms(1) writes_mono [OF telemetry_writes] by (simp add: tame_def)
next
  case (Describe topic m)
  then show ?thesis using assms(1) writes_mono [OF metadata_writes] by (simp add: tame_def)
next
  case (Presence topic m)
  then show ?thesis using assms(1) writes_mono [OF status_writes] by (simp add: tame_def)
next
  case (Renew topic tel)
  then show ?thesis using assms(2) by simp
next
  case (Reconcile topic tel)
  have "writes (own_cmds n) w (reconcileNodeState n tel w)"
  proof (rule reconcile_cases [of w n tel])
    assume "writes (\<lambda>_. False) w (reconcileNodeState n tel w)"
    then show ?thesis by (rule writes_mono) simp
  next
    assume "writes (\<lambda>cs. cs = clear_task_cmds n) w (reconcileNodeState n tel w)"
    then show ?thesis by (rule writes_mono) (simp add: own_clear)
  qed
  then show ?thesis using assms(1) Reconcile by (simp add: on_reconcile_telemetry_def)
qed

lemma collect_silent: "speaker ev = None \<Longrightarrow> collect S now ttl ev w = w"
  by (cases ev) (auto simp: on_telemetry_def on_metadata_def on_status_def on_lease_telemetry_def
      on_reconcile_telemetry_def split: option.split)

lemma renew_only_leases:
  assumes "speaker (Renew topic tel) = Some n" "w' = collect S now ttl (Renew topic tel) w"
  shows "w_redis w' = w_redis w" "w_tasks w' = w_tasks w" "w_campaigns w' = w_campaigns w" "w_sent w' = w_sent w"
    "w_assignments w' = w_assignments w \<or> (\<exists>t. tl_CurrentTaskID tel = Some t \<and>
       w_assignments w' = fst (sql_update (\<lambda>r. assignment_key t n r \<and> ta_active r) (renew_row now ttl) (w_assignments w)))"
  using assms exec_assignments_keeps [OF prod.collapse [symmetric]]
  by (auto simp: on_lease_telemetry_def renewTaskLease_def split: option.split)

section \<open>Properties\<close>


text \<open>C6: the assignment marker of a node, the task and priority that the orchestrator put into its state,
  is out of reach of telemetry, metadata and status messages.  The collector drops it in one case only:
  an idle heartbeat without a task of its own, and a task that Postgres has as completed or expired.\<close>

theorem marker_dropped_only_when_finished:
  assumes "w' = collect S now ttl ev w" "f \<in> {''current_task_id'', ''current_task_priority''}"
    and "map_of (rd_hash (w_redis w') (state_key n)) f \<noteq> map_of (rd_hash (w_redis w) (state_key n)) f"
  shows "\<exists>topic tel t r. ev = Reconcile topic tel \<and> speaker ev = Some n \<and>
    tl_Status tel = ''idle'' \<and> tl_CurrentTaskID tel = None \<and>
    Atoi (hget (rd_hash (w_redis w) (state_key n)) ''current_task_id'') = Some t \<and>
    sql_find (\<lambda>r. tk_id r = t) (w_tasks w) = Some r \<and> tk_status r \<in> {TaskStatusCompleted, TaskStatusExpired}"
proof (cases "speaker ev")
  case None
  then show ?thesis using collect_silent assms(1,3) by simp
next
  case (Some m)
  have tame: False if "writes (tame m) w w'"
    using writes_marker [OF that, of f n] assms(2,3) by (simp add: tame_def)
  show ?thesis
  proof (cases ev)
    case (Ingest topic tel)
    then show ?thesis using tame telemetry_writes Some assms(1) by fastforce
  next
    case (Describe topic m')
    then show ?thesis using tame metadata_writes Some assms(1) by fastforce
  next
    case (Presence topic m')
    then show ?thesis using tame status_writes Some assms(1) by fastforce
  next
    case (Renew topic tel)
    then show ?thesis using renew_only_leases(1) Some assms(1,3) by metis
  next
    case (Reconcile topic tel)
    have w': "w' = reconcileNodeState m tel w"
      using Some assms(1) Reconcile by (simp add: on_reconcile_telemetry_def)
    show ?thesis
    proof (rule reconcile_cases [of w m tel])
      assume "writes (\<lambda>_. False) w (reconcileNodeState m tel w)"
      then have "writes (tame m) w w'" unfolding w' by (rule writes_mono) simp
      then show ?thesis using tame by blast
    next
      fix t r
      assume a: "tl_Status tel = ''idle''" "tl_CurrentTaskID tel = None"
        "Atoi (hget (rd_hash (w_redis w) (state_key m)) ''current_task_id'') = Some t"
        "sql_find (\<lambda>r. tk_id r = t) (w_tasks w) = Some r" "tk_status r = TaskStatusCompleted \<or> tk_status r = TaskStatusExpired"
        "writes (\<lambda>cs. cs = clear_task_cmds m) w (reconcileNodeState m tel w)"
      have "n = m"
      proof (rule ccontr)
        assume "n \<noteq> m"
        then have "rd_hash (w_redis w') (state_key n) = rd_hash (w_redis w) (state_key n)"
          unfolding w' by (intro writes_own(1) [OF a(6)]) (auto simp: own_clear)
        then show False using assms(3) by simp
      qed
      then show ?thesis using a(1-5) Some Reconcile by blast
    qed
  qed
qed

section \<open>Heartbeats and leases\<close>

text \<open>The collector renews leases for exactly as long as the orchestrator grants them, whatever the
  variable they both read holds: unset, unreadable, zero, negative or positive.\<close>

theorem renewal_length_agrees:
  "leaseExpiry (leaseConfigFromEnv (envDuration env parse_duration) env_int) now = now + leaseRenewTTL env parse_duration"
  by (simp add: leaseExpiry_def leaseConfigFromEnv_def envDuration_def leaseRenewTTL_def Let_def split: option.split)

lemma reclaim_all_keeps_row:
  assumes "q \<in> set (w_assignments w)" "(ta_task q, ta_node q) \<notin> set es"
  shows "q \<in> set (w_assignments (reclaim_all S now es w))"
  using assms
proof (induction S now es w rule: reclaim_all.induct)
  case (2 S now t n es w)
  have "\<not> assignment_key t n q" using "2.prems"(2) by (auto simp: assignment_key_def)
  then have "q \<in> set (w_assignments (snd (reclaimOne S now t n w)))"
    by (rule_tac reclaimOne_cases [OF prod.collapse [symmetric], of S now t n w])
      (use "2.prems"(1) in \<open>auto simp: set_sql_update image_iff\<close>)
  then show ?case using "2.IH" "2.prems"(2) by simp
qed simp


lemma Itoa_not_nil: "int64_ok t \<Longrightarrow> Itoa t \<noteq> ''<nil>''"
proof
  assume "int64_ok t" "Itoa t = ''<nil>''"
  then have "Atoi ''<nil>'' = Some t" by (metis Atoi_Itoa)
  moreover have "Atoi ''<nil>'' = None" by code_simp
  ultimately show False by simp
qed

lemma telemetry_status:
  "map_of (rd_hash (redis_run (telemetry_cmds S now n st prev tel) r) (state_key n)) ''status'' = Some st"
proof -
  define cs where "cs = tl (telemetry_cmds S now n st prev tel)"
  have cs: "telemetry_cmds S now n st prev tel =
      CHSet (state_key n) [(''node_id'', n), (''status'', st), (''load_pct'', sv_format_float S (tl_LoadPct tel)),
         (''estimated_startup_ms'', Itoa (estimateStartupMS tel)),
         (''completed_files'', Itoa (tl_CompletedFiles tel)),
         (''memory_avail_mb'', sv_format_float S (tl_MemoryAvailMB tel)), (''last_seen'', sv_format_time S now)] # cs"
    "\<forall>c \<in> set cs. cmd_hash c \<noteq> None \<longrightarrow> ''status'' \<notin> cmd_fields c"
    by (simp add: telemetry_cmds_def cs_def Let_def)
      (auto simp: telemetry_cmds_def cs_def Let_def split: option.splits if_splits)
  show ?thesis unfolding cs(1) redis_run_simps
    by (subst run_field) (use cs(2) in \<open>auto simp: map_of_HSet map_add_def\<close>)
qed

text \<open>A heartbeat that still says idle, in the gap between an assignment and the start of the exposure,
  keeps the marker but overwrites the scheduling status.  Until the next busy heartbeat the node is then
  neither idle nor preemptible: it offers no candidate for any task, however urgent.\<close>

theorem idle_heartbeat_hides_node:
  assumes "w_faults w = []" "speaker (Ingest topic tel) = Some n" "tl_Status tel = ''idle''"
    and "map_of (rd_hash (w_redis w) (state_key n)) ''current_task_id'' = Some (Itoa t)" "int64_ok t"
    and "map_of (rd_hash (w_redis w) (state_key n)) ''current_task_priority'' = Some (Itoa p)" "int64_ok p"
    and "eval_node S later (w_redis (collect S now ttl (Ingest topic tel) w)) n = Some e"
  shows "ne_CurrentTaskID e = Some t \<and> ne_CurrentTaskPriority e = Some p \<and>
    node_candidate M req priority threshold slewNearby later e = None \<and>
    \<not> idle_free e"
proof -
  let ?w = "collect S now ttl (Ingest topic tel) w"
  have wr: "writes (tame n) w ?w" using telemetry_writes assms(2) by simp
  note m = writes_marker [OF wr, of _ n]
  have id: "hget (rd_hash (w_redis ?w) (state_key n)) ''current_task_id'' = Itoa t"
    "hget (rd_hash (w_redis ?w) (state_key n)) ''current_task_priority'' = Itoa p"
    using m [of "''current_task_id''"] m [of "''current_task_priority''"] assms(4,6)
    by (simp_all add: tame_def hget_def)
  have st: "hget (rd_hash (w_redis ?w) (state_key n)) ''status'' = ''idle''"
  proof -
    obtain prev where "w_redis ?w = redis_run (telemetry_cmds S now n ''idle'' prev tel) (w_redis w)"
      using assms(1-3) by (auto simp: on_telemetry_def telemetryNodeStatus_def NodeStatusIdle_def redis_exec_def Let_def)
    moreover have "map_of (rd_hash (redis_run (telemetry_cmds S now n ''idle'' prev tel) r) (state_key n)) ''status''
        = Some ''idle''" for r by (rule telemetry_status)
    ultimately show ?thesis by (simp add: hget_def)
  qed
  obtain limits profile msk where e: "e = eval_fields S later n (rd_hash (w_redis ?w) (state_key n))
      (rd_hash (w_redis ?w) (meta_key n)) limits profile msk"
    using eval_node_Some [OF assms(8)] by metis
  have f: "ne_Status e = ''idle''" "ne_CurrentTaskID e = Some t" "ne_CurrentTaskPriority e = Some p"
    using id st assms(5,7) unfolding e by (simp_all add: eval_fields_def redisIntPtr_def Let_def Itoa_not_nil)
  then show ?thesis by (simp add: node_candidate_def idle_free_def Let_def)
qed

section \<open>Instances\<close>

definition demo_telemetry :: "int option \<Rightarrow> telemetry" where
  "demo_telemetry t = \<lparr>tl_NodeID = [], tl_Status = ''idle'', tl_LoadPct = Fin 0, tl_CurrentTaskID = t,
     tl_MountAltDeg = None, tl_MountAzDeg = None, tl_CompletedFiles = 0, tl_MemoryAvailMB = Fin 0,
     tl_MQTTTaskReceiveMS = None\<rparr>"

definition demo_marked :: "string \<Rightarrow> world" where
  "demo_marked status = demo_world\<lparr>w_tasks := [(demo_task 1)\<lparr>tk_status := status\<rparr>],
     w_redis := (w_redis demo_world)\<lparr>rd_hash := (\<lambda>_. [])(state_key ''n1'' :=
       [(''status'', ''busy''), (''current_task_id'', Itoa 1), (''current_task_priority'', Itoa 5)])\<rparr>\<rparr>"

lemma demo_topic: "NodeIDFromTopic ''/telemetry/n1'' ''/telemetry/'' = ''n1''"
  by code_simp

lemma demo_bind: "bindTopicNodeID ''/telemetry/n1'' ''/telemetry/'' (tl_NodeID (demo_telemetry t)) = Some ''n1''"
  by (simp add: bindTopicNodeID_def demo_topic demo_telemetry_def)

lemma demo_speaker [simp]: "speaker (Ingest ''/telemetry/n1'' (demo_telemetry t)) = Some ''n1''"
  "speaker (Reconcile ''/telemetry/n1'' (demo_telemetry t)) = Some ''n1''"
  "speaker (Renew ''/telemetry/n1'' (demo_telemetry t)) = Some ''n1''"
  by (simp_all add: demo_bind)

lemma demo_telemetry_sel [simp]:
  "tl_Status (demo_telemetry t) = ''idle''" "tl_CurrentTaskID (demo_telemetry t) = t"
  by (simp_all add: demo_telemetry_def)

lemma demo_marked_sel [simp]:
  "w_faults (demo_marked s) = []" "w_tasks (demo_marked s) = [(demo_task 1)\<lparr>tk_status := s\<rparr>]"
  "rd_hash (w_redis (demo_marked s)) (state_key ''n1'') =
     [(''status'', ''busy''), (''current_task_id'', Itoa 1), (''current_task_priority'', Itoa 5)]"
  "rd_hash (w_redis (demo_marked s)) (meta_key m) = []"
  by (simp_all add: demo_marked_def demo_world_def)


theorem marker_dropped_only_when_finished_witness:
  "\<exists>r. sql_find (\<lambda>r. tk_id r = 1) (w_tasks (demo_marked TaskStatusExpired)) = Some r \<and>
     tk_status r \<in> {TaskStatusCompleted, TaskStatusExpired}"
proof -
  let ?w = "demo_marked TaskStatusExpired"
  let ?ev = "Reconcile ''/telemetry/n1'' (demo_telemetry None)"
  have "map_of (rd_hash (w_redis (collect demo_services 0 0 ?ev ?w)) (state_key ''n1'')) ''current_task_id'' = None"
    by (simp add: on_reconcile_telemetry_def demo_bind reconcileNodeState_def hget_def sql_find_def Let_def int64_ok_def
        demo_task_def clearCurrentTask_def redis_exec_def clear_task_cmds_def map_of_HSet)
  then have "map_of (rd_hash (w_redis (collect demo_services 0 0 ?ev ?w)) (state_key ''n1'')) ''current_task_id''
      \<noteq> map_of (rd_hash (w_redis ?w) (state_key ''n1'')) ''current_task_id''" by simp
  from marker_dropped_only_when_finished [OF refl _ this]
  show ?thesis by (auto simp: hget_def int64_ok_def)
qed


theorem idle_heartbeat_hides_node_witness:
  "\<exists>e. eval_node demo_services 0 (w_redis (collect demo_services 0 0 (Ingest ''/telemetry/n1'' (demo_telemetry None))
     (demo_marked TaskStatusAssigned))) ''n1'' = Some e \<and> ne_CurrentTaskID e = Some 1 \<and>
     node_candidate demo_math demo_req 1 10 5000 0 e = None"
proof -
  let ?w = "collect demo_services 0 0 (Ingest ''/telemetry/n1'' (demo_telemetry None)) (demo_marked TaskStatusAssigned)"
  obtain e where "eval_node demo_services 0 (w_redis ?w) ''n1'' = Some e"
  proof -
    have sp: "speaker (Ingest ''/telemetry/n1'' (demo_telemetry None)) = Some ''n1''" by (rule demo_speaker)
    have wr: "writes (tame ''n1'') (demo_marked TaskStatusAssigned) ?w"
      using telemetry_writes sp by (simp only: collect.simps speaker.simps)
    have "map_of (rd_hash (w_redis ?w) (state_key ''n1'')) ''current_task_id'' = Some (Itoa 1)"
      using writes_marker [OF wr, of "''current_task_id''" "''n1''"] by (simp add: tame_def)
    then have ne: "rd_hash (w_redis ?w) (state_key ''n1'') \<noteq> []" by auto
    have "rd_hash (w_redis ?w) (meta_key ''n1'') = []"
    proof -
      have "w_redis ?w = redis_run (telemetry_cmds demo_services 0 ''n1'' NodeStatusIdle [] (demo_telemetry None))
          (w_redis (demo_marked TaskStatusAssigned))"
        by (simp add: on_telemetry_def telemetryNodeStatus_def demo_bind redis_exec_def hget_def)
      moreover have "\<forall>c \<in> set (telemetry_cmds S now n st prev tel). cmd_hash c \<noteq> Some (meta_key m)" for S now n st prev tel m
        using telemetry_cmds_scope(1) [of _ S now n st prev tel] by fastforce
      ultimately show ?thesis using run_hash_other by simp
    qed
    then show thesis using that ne
      by (simp add: eval_node_def hget_def parseMountLimits_def parseHorizonProfile_def ParseObstructionMask_def TrimSpace_def)
  qed
  then show ?thesis
    using idle_heartbeat_hides_node [of "demo_marked TaskStatusAssigned" "''/telemetry/n1''" "demo_telemetry None" "''n1''" 1 5
        demo_services 0 0 0 e demo_math demo_req 1 10 5000]
    by (simp add: int64_ok_def del: collect.simps speaker.simps)
qed

end
