(* ===== verification/Lifecycle.thy ===== *)
theory Lifecycle
  imports CampaignSteps Collector
begin

text \<open>
  The life of a task across the programs that share the tables: every orchestrator loop, every
  collector delivery and every task endpoint is one step of a relation on the API's state.  The section
  proves what no step ever breaks: the typing of the rows, the keys of both tables, and the statuses
  that are final.
\<close>

section \<open>Well-typed tables\<close>

definition known_statuses :: "string set" where
  "known_statuses = {TaskStatusPending, TaskStatusAssigned, TaskStatusInProgress, TaskStatusCompleted,
     TaskStatusExpired, TaskStatusSuperseded, TaskStatusCancelled, TaskStatusFailed}"

definition row_ok :: "task_row \<Rightarrow> bool" where
  "row_ok t \<longleftrightarrow> tk_status t \<in> known_statuses \<and>
     (tk_status t = TaskStatusPending \<longrightarrow> tk_assigned t = None) \<and>
     (task_running t \<longrightarrow> (\<exists>n. tk_assigned t = Some n \<and> n \<noteq> []))"

definition assignment_keys :: "world \<Rightarrow> (int \<times> string) list" where
  "assignment_keys w = map (\<lambda>r. (ta_task r, ta_node r)) (w_assignments w)"

definition tables_ok :: "api_state \<Rightarrow> bool" where
  "tables_ok s \<longleftrightarrow>
     list_all row_ok (w_tasks (as_world s)) \<and>
     distinct (map tk_id (w_tasks (as_world s))) \<and>
     list_all (\<lambda>t. 0 < tk_id t \<and> tk_id t < as_next_id s) (w_tasks (as_world s)) \<and>
     0 < as_next_id s \<and>
     map tx_task (as_extra s) = map tk_id (w_tasks (as_world s)) \<and>
     distinct (assignment_keys (as_world s))"

lemma tables_okD:
  assumes "tables_ok s"
  shows "list_all row_ok (w_tasks (as_world s))" "distinct (map tk_id (w_tasks (as_world s)))"
    "list_all (\<lambda>t. 0 < tk_id t \<and> tk_id t < as_next_id s) (w_tasks (as_world s))" "0 < as_next_id s"
    "map tx_task (as_extra s) = map tk_id (w_tasks (as_world s))" "distinct (assignment_keys (as_world s))"
  using assms unfolding tables_ok_def by blast+

lemma tables_ok_id:
  assumes "tables_ok s" "t \<in> set (w_tasks (as_world s))"
  shows "0 < tk_id t" "tk_id t < as_next_id s"
  using bspec [OF tables_okD(3) [OF assms(1), unfolded list_all_iff] assms(2)] by simp_all

section \<open>Moves of one row\<close>

text \<open>Completed and superseded are final; an expired, cancelled or failed task can only be completed.\<close>

definition status_may :: "string \<Rightarrow> string \<Rightarrow> bool" where
  "status_may a b \<longleftrightarrow>
     (a \<in> {TaskStatusCompleted, TaskStatusSuperseded} \<longrightarrow> b = a) \<and>
     (a \<in> {TaskStatusExpired, TaskStatusCancelled, TaskStatusFailed} \<longrightarrow> b = a \<or> b = TaskStatusCompleted)"

definition row_move :: "task_row \<Rightarrow> task_row \<Rightarrow> bool" where
  "row_move t t' \<longleftrightarrow> tk_id t' = tk_id t \<and> (row_ok t \<longrightarrow> row_ok t') \<and> status_may (tk_status t) (tk_status t')"

lemmas status_texts = TaskStatusPending_def TaskStatusAssigned_def TaskStatusInProgress_def
  TaskStatusCompleted_def TaskStatusExpired_def TaskStatusSuperseded_def TaskStatusCancelled_def
  TaskStatusFailed_def

lemma row_move_refl [simp]: "row_move t t"
  by (simp add: row_move_def status_may_def)

lemma row_move_trans: "row_move a b \<Longrightarrow> row_move b c \<Longrightarrow> row_move a c"
  by (auto simp: row_move_def status_may_def status_texts)

lemma row_move_same: "tk_id t' = tk_id t \<Longrightarrow> tk_status t' = tk_status t \<Longrightarrow> tk_assigned t' = tk_assigned t \<Longrightarrow> row_move t t'"
  by (simp add: row_move_def row_ok_def task_running_def status_may_def)

lemma move_claim: "claimable i t \<Longrightarrow> n \<noteq> [] \<Longrightarrow> row_move t (claim_row now n t)"
  by (simp add: row_move_def row_ok_def claimable_def claim_row_def task_running_def status_may_def
      known_statuses_def status_texts)

lemma move_unassign: "held_by i n t \<Longrightarrow> row_move t (unassign_row now t)"
  by (auto simp: row_move_def row_ok_def held_by_def unassign_row_def task_running_def status_may_def
      known_statuses_def status_texts)

lemma move_reclaim:
  assumes "task_running t"
  shows "row_move t (reclaimed_row now act k t)"
  using assms by (auto simp: row_move_def row_ok_def reclaimed_row_def task_running_def status_may_def
      known_statuses_def status_texts)

lemma move_complete: "tk_status t \<noteq> TaskStatusSuperseded \<Longrightarrow> row_move t (complete_row now t)"
  by (auto simp: row_move_def row_ok_def complete_row_def task_running_def status_may_def
      known_statuses_def status_texts)

lemma move_budget:
  "\<not> finished_task t \<Longrightarrow> row_move t (t\<lparr>tk_status := ''completed'', tk_updated := now\<rparr>)"
  by (auto simp: row_move_def row_ok_def finished_task_def task_running_def status_may_def
      known_statuses_def status_texts)

lemma move_supersede: "editable t \<Longrightarrow> row_move t (supersede_row now t)"
  by (auto simp: row_move_def row_ok_def editable_def supersede_row_def task_running_def status_may_def
      known_statuses_def status_texts)

section \<open>Moves of the tables\<close>

text \<open>A step of the world keeps the rows and their order; a step of the API may append pending rows.\<close>

definition world_move :: "world \<Rightarrow> world \<Rightarrow> bool" where
  "world_move w w' \<longleftrightarrow> list_all2 row_move (w_tasks w) (w_tasks w') \<and>
     (distinct (assignment_keys w) \<longrightarrow> distinct (assignment_keys w'))"

lemma world_move_same [intro]:
  "w_tasks w' = w_tasks w \<Longrightarrow> w_assignments w' = w_assignments w \<Longrightarrow> world_move w w'"
  by (simp add: world_move_def assignment_keys_def list.rel_refl)

lemma world_move_refl [simp]: "world_move w w"
  by (rule world_move_same) simp_all

lemma world_move_trans: "world_move a b \<Longrightarrow> world_move b c \<Longrightarrow> world_move a c"
  unfolding world_move_def by (auto intro: list_all2_trans [where ?P1.0 = row_move, OF row_move_trans])

lemma world_move_rtrancl: "world_move\<^sup>*\<^sup>* a b \<Longrightarrow> world_move a b"
  by (induction rule: rtranclp_induct) (auto intro: world_move_trans)

lemma moves_update:
  assumes "\<And>t. t \<in> set ts \<Longrightarrow> P t \<Longrightarrow> row_move t (f t)"
  shows "list_all2 row_move ts (fst (sql_update P f ts))"
  using assms by (auto simp: sql_update_def list_all2_conv_all_nth)

lemma keys_update:
  "(\<And>r. ta_task (f r) = ta_task r \<and> ta_node (f r) = ta_node r) \<Longrightarrow>
   map (\<lambda>r. (ta_task r, ta_node r)) (fst (sql_update P f rs)) = map (\<lambda>r. (ta_task r, ta_node r)) rs"
  by (simp add: sql_update_def)

lemma keys_insert: "distinct (map (\<lambda>r. (ta_task r, ta_node r)) rs) \<Longrightarrow>
    distinct (map (\<lambda>r. (ta_task r, ta_node r)) (insert_if_absent q rs))"
  by (auto simp: insert_if_absent_def sql_exists_iff assignment_key_def)

lemma keys_upsert: "distinct (map (\<lambda>r. (ta_task r, ta_node r)) rs) \<Longrightarrow>
    distinct (map (\<lambda>r. (ta_task r, ta_node r)) (upsert_primary now t n l rs))"
  by (auto simp: upsert_primary_def sql_exists_iff assignment_key_def new_assignment_def keys_update)

lemma persist_move: "persistTaskAssignment S now t n w = (r, w') \<Longrightarrow> world_move w w'"
  using persist_cases(5) [of S now t n w r w']
  by (auto simp: world_move_def assignment_keys_def list.rel_refl keys_upsert intro!: moves_update move_claim)

lemma insert_cohort_move: "insertCohortAssignment S now t n w = (e, w') \<Longrightarrow> world_move w w'"
  using insert_cohort_keeps [of S now t n w e w']
  by (auto simp: world_move_def assignment_keys_def list.rel_refl keys_insert)

lemma release_cohort_move: "releaseCohortAssignment now t n w = (e, w') \<Longrightarrow> world_move w w'"
  using release_cohort_keeps [of now t n w e w']
  by (auto simp: world_move_def assignment_keys_def list.rel_refl keys_update release_row_def)

lemma clear_move: "clearTaskAssignment now t n w = (e, w') \<Longrightarrow> world_move w w'"
  using clear_keeps(5,6) [of now t n w e w']
  by (auto simp: world_move_def assignment_keys_def list.rel_refl keys_update release_row_def
      intro!: moves_update move_unassign)

lemma pg_moves: "exec_in (pgRedisExec S now) world_move"
proof -
  have "world_move w (snd (persistTaskAssignment S now t n w))" "world_move w (snd (insertCohortAssignment S now t n w))"
    "world_move w (snd (releaseCohortAssignment now t n w))" "world_move w (snd (clearTaskAssignment now t n w))" for t n w
    by (rule persist_move insert_cohort_move release_cohort_move clear_move; rule prod.collapse [symmetric])+
  moreover have "world_move w (snd (publishTaskAssignment S now p sel w))" for p sel w
    by (rule world_move_same) (simp_all add: publish_keeps [OF prod.collapse [symmetric]])
  ultimately show ?thesis
    by (simp add: exec_in_def pgRedisExec_def)
      (auto intro!: world_move_same simp: enqueue_keeps moveInflightToQueued_def moveQueuedToInflight_def)
qed

lemma assign_move: "assignOnce (pgRedisExec S now) p sels w = (r, w') \<Longrightarrow> world_move w w'"
  using world_move_rtrancl [OF assignOnce_steps [OF pg_moves, of w S now p sels]] by simp

lemma roll_move: "world_move w (rollCoverageSession now t w)"
proof -
  have "w_tasks (rollCoverageSession now t w) = w_tasks w \<or> w_tasks (rollCoverageSession now t w) =
    fst (sql_update (\<lambda>r. tk_id r = t \<and> tk_status r \<noteq> TaskStatusCompleted \<and> tk_status r \<noteq> TaskStatusSuperseded)
      (\<lambda>r. r\<lparr>tk_scheduled_end := Some (now + 4 * hour), tk_handoff_lead := Some 5400, tk_updated := now\<rparr>) (w_tasks w))"
    unfolding rollCoverageSession_def by (rule exec_tasks_keeps(6) [OF prod.collapse [symmetric]])
  then show ?thesis
    by (auto simp: world_move_def assignment_keys_def rollCoverage_keeps list.rel_refl
        intro!: moves_update row_move_same)
qed

lemma assignTask_move: "world_move w (assignTask S now p w)"
proof (rule assignTask_cases [of S now p w])
  fix w1 pr
  assume "assignTask S now p w = enqueueByLane (np_TaskID p) pr LaneInterrupt w1"
    "w_tasks w1 = w_tasks w" "w_assignments w1 = w_assignments w"
  then show ?thesis by (intro world_move_same) (simp_all add: enqueue_keeps)
next
  fix q sels w1 r w2
  assume o: "assignOnce (pgRedisExec S now) q sels w1 = (r, w2)"
    and k: "w_tasks w1 = w_tasks w" "w_assignments w1 = w_assignments w"
    and eq: "assignTask S now p w = w2 \<or> assignTask S now p w = rollCoverageSession now (np_TaskID p) w2"
  have "world_move w w1" using k by (rule world_move_same)
  then have "world_move w w2" using assign_move [OF o] by (rule world_move_trans)
  then show ?thesis using eq world_move_trans roll_move by metis
qed

section \<open>The orchestrator and the collector\<close>

lemma fetch_move: "fetchTaskNotifyPayload S now t w = (r, w') \<Longrightarrow> world_move w w'"
  by (rule world_move_same) (simp_all add: fetch_keeps)

lemma exec_move [simp]: "world_move w (snd (redis_exec cs w))"
  by (rule world_move_same) (simp_all add: redis_exec_keeps [OF prod.collapse [symmetric]])

lemma outcome_move: "next_outcome w = (oc, w') \<Longrightarrow> world_move w w'"
  by (rule world_move_same) simp_all

lemma enqueue_move [simp]: "world_move w (enqueueByLane t pr l w)"
  by (rule world_move_same) (simp_all add: enqueue_keeps)

lemma notification_move: "world_move w (handleTaskNotification S now p w)"
proof -
  obtain r w1 where f: "fetchTaskNotifyPayload S now (np_TaskID p) w = (r, w1)" by force
  have "world_move w1 (handleTaskNotification S now p w)"
    using f by (simp add: handleTaskNotification_def assignTask_move split: sum.split prod.split option.split)
  then show ?thesis by (rule world_move_trans [OF fetch_move [OF f]])
qed

lemma zpopmin_move: "zpopmin key w = (r, w') \<Longrightarrow> world_move w w'"
  by (rule world_move_same) (auto simp: zpopmin_def split: prod.splits option.splits if_splits)

lemma drain_move: "world_move w (drain_turn S now w)"
proof -
  obtain m w1 where z: "zpopmin RedisQueuedTasks w = (m, w1)" by force
  note w1 = zpopmin_move [OF z]
  show ?thesis
  proof (cases m)
    case None
    then show ?thesis using z w1 by (simp add: drain_turn_def)
  next
    case (Some tp)
    obtain t pr where tp: "tp = (t, pr)" by force
    obtain r w2 where f: "fetchTaskNotifyPayload S now t w1 = (r, w2)" by force
    have "world_move w2 (drain_turn S now w)"
      using z Some tp f
      by (simp add: drain_turn_def assignTask_move enqueueQueuedTask_def split: sum.split prod.split option.split)
    then show ?thesis by (rule world_move_trans [OF world_move_trans [OF w1 fetch_move [OF f]]])
  qed
qed

lemma recover_move: "world_move w (snd (recoverPendingTasks w))"
proof (cases "next_outcome w")
  case (Pair oc w1)
  have "world_move w1 (snd (recoverPendingTasks w))" by (simp add: recoverPendingTasks_def Pair Let_def)
  then show ?thesis by (rule world_move_trans [OF outcome_move [OF Pair]])
qed

lemma reclaimOne_move:
  assumes "distinct (map tk_id (w_tasks w))" "reclaimOne S now t n w = (e, w')"
  shows "world_move w w'"
proof (rule reclaimOne_cases [OF assms(2)])
  assume "w_tasks w' = w_tasks w" "w_assignments w' = w_assignments w"
  then show ?thesis by (rule world_move_same)
next
  fix rows r
  assume rows: "rows = fst (sql_update (\<lambda>r. assignment_key t n r \<and> ta_active r) (expire_row now) (w_assignments w))"
    and f: "sql_find (\<lambda>t'. tk_id t' = t) (w_tasks w) = Some r" and a: "w_assignments w' = rows"
    and w': "w_tasks w' = fst (sql_update (\<lambda>u. tk_id u = t)
        (reclaimed_row now (reclaim_decision (sv_lease S) (active_left t rows) r) (tk_failure_count r + 1)) (w_tasks w))"
  have "list_all2 row_move (w_tasks w) (w_tasks w')" unfolding w'
  proof (rule moves_update)
    fix u assume "u \<in> set (w_tasks w)" "tk_id u = t"
    then have "u = r" using unique_key [OF assms(1), of u r] sql_find_Some [OF f] by auto
    then show "row_move u (reclaimed_row now (reclaim_decision (sv_lease S) (active_left t rows) r) (tk_failure_count r + 1) u)"
      by (cases "task_running r") (simp_all add: move_reclaim decision_running)
  qed
  then show ?thesis by (simp add: world_move_def assignment_keys_def a rows keys_update)
qed

lemma world_move_ids: "world_move w w' \<Longrightarrow> map tk_id (w_tasks w') = map tk_id (w_tasks w)"
proof -
  assume "world_move w w'"
  then have "list_all2 row_move (w_tasks w) (w_tasks w')" by (simp add: world_move_def)
  then show ?thesis by (induction rule: list_all2_induct) (simp_all add: row_move_def)
qed

lemma reclaim_all_move: "distinct (map tk_id (w_tasks w)) \<Longrightarrow> world_move w (reclaim_all S now es w)"
proof (induction S now es w rule: reclaim_all.induct)
  case (2 S now t n es w)
  have m: "world_move w (snd (reclaimOne S now t n w))"
    by (rule reclaimOne_move [OF "2.prems" prod.collapse [symmetric]])
  show ?case using world_move_trans [OF m "2.IH"] "2.prems" world_move_ids [OF m] by simp
qed simp

lemma sweep_move:
  assumes "distinct (map tk_id (w_tasks w))" shows "world_move w (snd (reclaimExpiredLeases S now w))"
proof -
  obtain oc w1 where o: "next_outcome w = (oc, w1)" by force
  have "world_move w1 (snd (reclaimExpiredLeases S now w))"
    using o assms by (simp add: reclaimExpiredLeases_def reclaim_all_move)
  then show ?thesis by (rule world_move_trans [OF outcome_move [OF o]])
qed

lemma load_planned_move: "load_planned S now t w = (r, w') \<Longrightarrow> world_move w w'"
proof -
  assume a: "load_planned S now t w = (r, w')"
  obtain q w1 where f: "fetchTaskNotifyPayload S now t w = (q, w1)" by force
  have "world_move w1 w'"
    using a f by (auto simp: load_planned_def split: sum.splits prod.splits option.splits if_splits
        intro: world_move_trans [OF exec_move enqueue_move])
  then show ?thesis by (rule world_move_trans [OF fetch_move [OF f]])
qed

lemma load_all_move: "load_all S now ts w = (r, w') \<Longrightarrow> world_move w w'"
proof (induction ts arbitrary: w r)
  case (Cons t ts)
  obtain q w1 where f: "load_planned S now t w = (q, w1)" by force
  obtain rs w2 where l: "load_all S now ts w1 = (rs, w2)" by force
  have "w' = w2" using Cons.prems f l by simp
  then show ?case using world_move_trans [OF load_planned_move [OF f] Cons.IH [OF l [folded \<open>w' = w2\<close>]]] by simp
qed simp

lemma standby_rows_move: "standby_rows ids w = (r, w') \<Longrightarrow> world_move w w'"
proof (induction ids arbitrary: w r)
  case (Cons n ids)
  obtain oc w1 where o: "next_outcome w = (oc, w1)" by force
  obtain rs w2 where l: "standby_rows ids w1 = (rs, w2)" by force
  have "w' = w2" using Cons.prems o l by (simp add: Let_def)
  then show ?case using world_move_trans [OF outcome_move [OF o] Cons.IH [OF l [folded \<open>w' = w2\<close>]]] by simp
qed simp

lemma refresh_move: "world_move w (snd (refreshStandbyRosters S w))"
proof -
  obtain oc w1 where o: "next_outcome w = (oc, w1)" by force
  obtain idle w2 where s: "standby_rows (rd_set (w_redis w1) RedisActiveNodes) w1 = (idle, w2)" by force
  have "world_move w1 (snd (refreshStandbyRosters S w))"
    using o s by (simp add: refreshStandbyRosters_def Let_def world_move_trans [OF standby_rows_move [OF s] exec_move])
  then show ?thesis by (rule world_move_trans [OF outcome_move [OF o]])
qed

lemma planner_move: "world_move w (snd (runPlannerOnce S now w))"
proof -
  obtain oc w1 where o1: "next_outcome w = (oc, w1)" by force
  obtain oc2 w2 where o2: "next_outcome w1 = (oc2, w2)" by force
  define ms where "ms = take 64 (ZSorted (rd_zset (w_redis w1) RedisQueuedPlanned))"
  obtain tasks w3 where l: "load_all S now (map fst ms) w2 = (tasks, w3)" by force
  note m1 = outcome_move [OF o1]
  note m2 = world_move_trans [OF m1 outcome_move [OF o2]]
  note m3 = world_move_trans [OF m2 load_all_move [OF l]]
  obtain err w4 where e: "redis_exec (agenda_cmds S now (BuildAgenda (sv_sort_plan S) tasks (rd_set (w_redis w2) RedisActiveNodes) now) @
      map (\<lambda>t. CZRem RedisQueuedPlanned (pt_TaskID t)) tasks) w3 = (err, w4)" by force
  have m4: "world_move w w4" using world_move_trans [OF m3 exec_move] e by (metis snd_conv)
  have red: "runPlannerOnce S now w = (if oc \<noteq> Done then (True, w1) else if ms = [] then refreshStandbyRosters S w1
    else if (if oc2 \<noteq> Done then [] else rd_set (w_redis w2) RedisActiveNodes) = [] then (False, w2)
    else (case load_all S now (map fst ms) w2 of (tasks, w) \<Rightarrow>
      if BuildAgenda (sv_sort_plan S) tasks (if oc2 \<noteq> Done then [] else rd_set (w_redis w2) RedisActiveNodes) now = []
      then refreshStandbyRosters S w
      else (case redis_exec (agenda_cmds S now
              (BuildAgenda (sv_sort_plan S) tasks (if oc2 \<noteq> Done then [] else rd_set (w_redis w2) RedisActiveNodes) now) @
              map (\<lambda>t. CZRem RedisQueuedPlanned (pt_TaskID t)) tasks) w of
          (err, w) \<Rightarrow> if err then (True, w) else refreshStandbyRosters S w)))"
    unfolding runPlannerOnce_def o1 prod.case Let_def ms_def [symmetric] o2 by (rule refl)
  consider "oc \<noteq> Done" | "oc = Done" "ms = []" | "oc = Done" "ms \<noteq> []" "oc2 \<noteq> Done \<or> rd_set (w_redis w2) RedisActiveNodes = []"
    | "oc = Done" "ms \<noteq> []" "oc2 = Done" "rd_set (w_redis w2) RedisActiveNodes \<noteq> []" by auto
  then show ?thesis
  proof cases
    case 1
    then show ?thesis using m1 by (simp add: red)
  next
    case 2
    then show ?thesis using world_move_trans [OF m1 refresh_move] by (simp add: red)
  next
    case 3
    then show ?thesis using m2 by (auto simp: red)
  next
    case 4
    then show ?thesis
      using l e m4 world_move_trans [OF m3 refresh_move] world_move_trans [OF m4 refresh_move]
      by (simp add: red)
  qed
qed

lemma collect_move: "world_move w (collect S now ttl ev w)"
proof (cases "speaker ev")
  case None
  then show ?thesis by (simp add: collect_silent)
next
  case (Some n)
  show ?thesis
  proof (cases "\<exists>topic tel. ev = Renew topic tel")
    case False
    then have "writes (own_cmds n) w (collect S now ttl ev w)" using collect_writes [OF Some] by blast
    then show ?thesis by (intro world_move_same) (simp_all add: writes_keeps)
  next
    case True
    then obtain topic tel where ev: "ev = Renew topic tel" by blast
    have "w_assignments (collect S now ttl ev w) = w_assignments w \<or> (\<exists>t. w_assignments (collect S now ttl ev w) =
      fst (sql_update (\<lambda>r. assignment_key t n r \<and> ta_active r) (renew_row now ttl) (w_assignments w)))"
      using renew_only_leases(5) [OF Some [unfolded ev] refl] ev by auto
    moreover have "w_tasks (collect S now ttl ev w) = w_tasks w"
      using renew_only_leases(2) [OF Some [unfolded ev] refl] ev by simp
    ultimately show ?thesis
      by (auto simp: world_move_def assignment_keys_def list.rel_refl keys_update renew_row_def)
  qed
qed

section \<open>The API\<close>

definition api_move :: "api_state \<Rightarrow> api_state \<Rightarrow> bool" where
  "api_move s s' \<longleftrightarrow> (tables_ok s \<longrightarrow> tables_ok s' \<and>
     (\<forall>t \<in> set (w_tasks (as_world s)). \<exists>t' \<in> set (w_tasks (as_world s')). row_move t t'))"

lemma api_move_refl [simp]: "api_move s s"
  unfolding api_move_def by (blast intro: row_move_refl)

lemma api_move_trans: "api_move a b \<Longrightarrow> api_move b c \<Longrightarrow> api_move a c"
  unfolding api_move_def by (meson row_move_trans)

lemma moves_all_ok: "list_all2 row_move ts us \<Longrightarrow> list_all row_ok ts \<Longrightarrow> list_all row_ok us"
  by (induction rule: list_all2_induct) (simp_all add: row_move_def)

lemma moves_ids: "list_all2 row_move ts us \<Longrightarrow> map tk_id us = map tk_id ts"
  by (induction rule: list_all2_induct) (simp_all add: row_move_def)

lemma list_all_by_key: "map k xs = map k ys \<Longrightarrow> list_all (\<lambda>t. P (k t)) xs = list_all (\<lambda>t. P (k t)) ys"
  by (metis (mono_tags, lifting) list.pred_map list.pred_cong comp_def)

lemma api_move_strict: "(tables_ok s \<Longrightarrow> api_move s s') \<Longrightarrow> api_move s s'"
  by (simp add: api_move_def)

text \<open>Moved rows and updated further columns keep the tables in order.\<close>

lemma api_move_rows:
  assumes "list_all2 row_move (w_tasks (as_world s)) (w_tasks (as_world s'))"
    and "distinct (assignment_keys (as_world s)) \<longrightarrow> distinct (assignment_keys (as_world s'))"
    and "as_next_id s' = as_next_id s" "map tx_task (as_extra s') = map tx_task (as_extra s)"
  shows "api_move s s'"
  unfolding api_move_def
proof (intro impI conjI ballI)
  note ids = moves_ids [OF assms(1)]
  assume ok: "tables_ok s"
  show "tables_ok s'"
    using ok assms moves_all_ok [OF assms(1)]
      list_all_by_key [OF ids, of "\<lambda>i. 0 < i \<and> i < as_next_id s"]
    by (simp add: tables_ok_def ids)
  fix t assume "t \<in> set (w_tasks (as_world s))"
  then show "\<exists>t' \<in> set (w_tasks (as_world s')). row_move t t'"
    using assms(1) by (auto simp: list_all2_conv_all_nth in_set_conv_nth intro!: bexI [OF _ nth_mem])
qed

lemma api_move_world: "world_move (as_world s) w \<Longrightarrow> api_move s (s\<lparr>as_world := w\<rparr>)"
  by (rule api_move_rows) (simp_all add: world_move_def)

lemma api_move_keep:
  "as_world s' = as_world s \<Longrightarrow> as_next_id s' = as_next_id s \<Longrightarrow> as_extra s' = as_extra s \<Longrightarrow> api_move s s'"
  by (rule api_move_rows) (simp_all add: list.rel_refl)

lemma api_outcome_move: "api_outcome s = (oc, s') \<Longrightarrow> api_move s s'"
  by (auto simp: api_outcome_def outcome_move intro!: api_move_world split: prod.splits)

lemma api_outcome_keeps:
  assumes "api_outcome s = (oc, s')"
  shows "w_tasks (as_world s') = w_tasks (as_world s)" "w_assignments (as_world s') = w_assignments (as_world s)"
    "w_campaigns (as_world s') = w_campaigns (as_world s)" "w_redis (as_world s') = w_redis (as_world s)"
    "as_extra s' = as_extra s" "as_next_id s' = as_next_id s" "as_owner s' = as_owner s"
    "as_revisions s' = as_revisions s" "as_optics s' = as_optics s" "as_approved s' = as_approved s"
    "w_sent (as_world s') = w_sent (as_world s)"
  using assms by (auto simp: api_outcome_def split: prod.splits)

lemma api_read_run:
  assumes "api_read f s = (r, s')"
  obtains oc where "api_outcome s = (oc, s')" "r = (if oc = Done then Inr (f s') else Inl DbError)"
  using assms by (auto simp: api_read_def split: prod.splits)

lemma api_read_move: "api_read f s = (r, s') \<Longrightarrow> api_move s s'"
  by (erule api_read_run) (rule api_outcome_move)

lemma api_read_keeps:
  assumes "api_read f s = (r, s')"
  shows "w_tasks (as_world s') = w_tasks (as_world s)" "w_assignments (as_world s') = w_assignments (as_world s)"
    "w_campaigns (as_world s') = w_campaigns (as_world s)" "w_redis (as_world s') = w_redis (as_world s)"
    "as_extra s' = as_extra s" "as_next_id s' = as_next_id s" "as_owner s' = as_owner s"
    "as_revisions s' = as_revisions s" "as_optics s' = as_optics s" "as_approved s' = as_approved s"
    "w_sent (as_world s') = w_sent (as_world s)"
  using assms by (auto elim!: api_read_run simp: api_outcome_keeps)

lemma api_exec_run:
  assumes "api_exec f s = (r, s')"
  obtains (failed) "api_outcome s = (Failed, s')" "r = Inl DbError"
  | (ran) oc s1 n where "api_outcome s = (oc, s1)" "f s1 = (s', n)" "r = (if oc = Lost then Inl DbError else Inr n)"
  using assms by (auto simp: api_exec_def split: prod.splits if_splits)

lemma api_exec_move:
  assumes "api_exec f s = (r, s')" "\<And>s1. w_tasks (as_world s1) = w_tasks (as_world s) \<Longrightarrow> api_move s1 (fst (f s1))"
  shows "api_move s s'"
  using assms(1)
proof (cases rule: api_exec_run)
  case failed
  show ?thesis by (rule api_outcome_move [OF failed(1)])
next
  case (ran oc s1 n)
  then show ?thesis
    using api_move_trans [OF api_outcome_move [OF ran(1)] assms(2)] api_outcome_keeps(1) [OF ran(1)] by simp
qed

lemma update_tasks_run:
  "fst (update_tasks p f s) = s\<lparr>as_world := (as_world s)\<lparr>w_tasks := fst (sql_update p f (w_tasks (as_world s)))\<rparr>\<rparr>"
  "snd (update_tasks p f s) = snd (sql_update p f (w_tasks (as_world s)))"
  by (simp_all add: update_tasks_def split: prod.split)

lemma update_assignments_run:
  "fst (update_assignments p f s) =
     s\<lparr>as_world := (as_world s)\<lparr>w_assignments := fst (sql_update p f (w_assignments (as_world s)))\<rparr>\<rparr>"
  "snd (update_assignments p f s) = snd (sql_update p f (w_assignments (as_world s)))"
  by (simp_all add: update_assignments_def split: prod.split)

lemma update_tasks_move:
  "(\<And>t. t \<in> set (w_tasks (as_world s)) \<Longrightarrow> p t \<Longrightarrow> row_move t (f t)) \<Longrightarrow> api_move s (fst (update_tasks p f s))"
  by (rule api_move_rows) (simp_all add: update_tasks_run moves_update assignment_keys_def)

lemma update_assignments_move:
  "(\<And>r. ta_task (f r) = ta_task r \<and> ta_node (f r) = ta_node r) \<Longrightarrow> api_move s (fst (update_assignments p f s))"
  by (rule api_move_rows) (simp_all add: update_assignments_run assignment_keys_def keys_update list.rel_refl)

lemma insert_task_run:
  "insert_task now c x t s =
     (s\<lparr>as_world := (as_world s)\<lparr>w_tasks := w_tasks (as_world s) @ [new_task_row now (as_next_id s) c t]\<rparr>,
        as_extra := as_extra s @ [x (as_next_id s)], as_next_id := as_next_id s + 1\<rparr>, as_next_id s)"
  by (simp add: insert_task_def Let_def)

lemma new_row_ok [simp]: "row_ok (new_task_row now i c t)" "tk_id (new_task_row now i c t) = i"
  by (simp_all add: row_ok_def new_task_row_def task_running_def known_statuses_def status_texts)

text \<open>A new row under the next id.\<close>

lemma insert_row_move:
  assumes "row_ok r" "tk_id r = as_next_id s" "tx_task x = as_next_id s"
    and "as_world s' = (as_world s)\<lparr>w_tasks := w_tasks (as_world s) @ [r]\<rparr>"
    and "as_extra s' = as_extra s @ [x]" "as_next_id s' = as_next_id s + 1"
  shows "api_move s s'"
  unfolding api_move_def
proof (intro impI conjI ballI)
  assume ok: "tables_ok s"
  then have b: "list_all (\<lambda>t. 0 < tk_id t \<and> tk_id t < as_next_id s) (w_tasks (as_world s))"
    unfolding tables_ok_def by (elim conjE)
  then have "as_next_id s \<notin> tk_id ` set (w_tasks (as_world s))"
    by (auto simp: list_all_iff)
  moreover have "list_all (\<lambda>r. 0 < tk_id r \<and> tk_id r < as_next_id s + 1) (w_tasks (as_world s))"
    using b by (rule list.pred_mono_strong) simp
  ultimately show "tables_ok s'"
    using ok assms by (simp add: tables_ok_def assignment_keys_def)
  fix t assume "t \<in> set (w_tasks (as_world s))"
  then show "\<exists>t' \<in> set (w_tasks (as_world s')). row_move t t'"
    by (intro bexI [of _ t]) (simp_all add: assms(4))
qed

lemma insert_task_move:
  assumes "\<And>i. tx_task (x i) = i" shows "api_move s (fst (insert_task now c x t s))"
  by (rule insert_row_move [of "new_task_row now (as_next_id s) c t" _ "x (as_next_id s)"])
    (simp_all add: insert_task_run assms)

lemma update_tasks_pair: "update_tasks p f s =
    (s\<lparr>as_world := (as_world s)\<lparr>w_tasks := fst (sql_update p f (w_tasks (as_world s)))\<rparr>\<rparr>,
     snd (sql_update p f (w_tasks (as_world s))))"
  by (simp add: update_tasks_def split: prod.split)

lemma supersede_run:
  "supersede now pid actor i patch t s =
     (s\<lparr>as_world := (as_world s)\<lparr>w_tasks := fst (sql_update (\<lambda>r. tk_id r = i) (supersede_row now)
          (w_tasks (as_world s) @ [new_task_row now (as_next_id s) (nullString (at_CampaignID t)) t]))\<rparr>,
        as_extra := as_extra s @ [\<lparr>tx_task = as_next_id s, tx_public_id = pid,
          tx_budget = nullFloat (at_NormalizedIntegrationBudgetS t), tx_earned = at_NormalizedIntegrationEarnedS t,
          tx_developer = nullStringPtr (at_DeveloperUserID t), tx_original_spec = nullJSON (at_OriginalSpec t),
          tx_product_mode = defaultProductMode (at_ProductMode t)\<rparr>],
        as_next_id := as_next_id s + 1,
        as_revisions := as_revisions s @ [\<lparr>rv_old_public_id = at_PublicID t, rv_new_public_id = pid,
             rv_old_task_id = i, rv_new_task_id = as_next_id s, rv_actor = actor, rv_patch = patch\<rparr>]\<rparr>,
      as_next_id s)"
  by (simp add: supersede_def insert_task_run update_tasks_pair)

text \<open>The edit's update has no guard of its own: the row must still be the one that was read.\<close>

lemma supersede_move:
  assumes "\<And>r. r \<in> set (w_tasks (as_world s)) \<Longrightarrow> tk_id r = i \<Longrightarrow> editable r" "i < as_next_id s"
  shows "api_move s (fst (supersede now pid actor i patch t s))"
proof -
  let ?x = "\<lambda>i. \<lparr>tx_task = i, tx_public_id = pid, tx_budget = nullFloat (at_NormalizedIntegrationBudgetS t),
      tx_earned = at_NormalizedIntegrationEarnedS t, tx_developer = nullStringPtr (at_DeveloperUserID t),
      tx_original_spec = nullJSON (at_OriginalSpec t), tx_product_mode = defaultProductMode (at_ProductMode t)\<rparr>"
  obtain s1 k where ins: "insert_task now (nullString (at_CampaignID t)) ?x t s = (s1, k)" by force
  have m1: "api_move s s1" using insert_task_move [of ?x s now "nullString (at_CampaignID t)" t] ins by simp
  obtain s2 n where upd: "update_tasks (\<lambda>r. tk_id r = i) (supersede_row now) s1 = (s2, n)" by force
  have "row_move r (supersede_row now r)" if r: "r \<in> set (w_tasks (as_world s1))" "tk_id r = i" for r
  proof -
    from r ins assms(2) have "r \<in> set (w_tasks (as_world s))" by (auto simp: insert_task_run)
    then show ?thesis using assms(1) r(2) move_supersede by blast
  qed
  then have m2: "api_move s1 s2" using update_tasks_move [of s1 "\<lambda>r. tk_id r = i" "supersede_row now"] upd by simp
  have "api_move s2 (fst (supersede now pid actor i patch t s))"
    using ins upd by (intro api_move_keep) (simp_all add: supersede_def)
  then show ?thesis using m1 m2 api_move_trans by blast
qed

text \<open>Reads change nothing but the outcomes that are still to come.\<close>

definition same_data :: "api_state \<Rightarrow> api_state \<Rightarrow> bool" where
  "same_data s s' \<longleftrightarrow> (\<exists>fs. s' = s\<lparr>as_world := (as_world s)\<lparr>w_faults := fs\<rparr>\<rparr>)"

lemma same_data_refl [simp]: "same_data s s"
  unfolding same_data_def by (rule exI [of _ "w_faults (as_world s)"]) simp

lemma same_data_trans: "same_data a b \<Longrightarrow> same_data b c \<Longrightarrow> same_data a c"
  unfolding same_data_def by auto

lemma same_dataD:
  assumes "same_data s s'"
  shows "w_tasks (as_world s') = w_tasks (as_world s)" "w_assignments (as_world s') = w_assignments (as_world s)"
    "w_campaigns (as_world s') = w_campaigns (as_world s)" "w_redis (as_world s') = w_redis (as_world s)"
    "w_sent (as_world s') = w_sent (as_world s)" "as_extra s' = as_extra s" "as_next_id s' = as_next_id s"
    "as_owner s' = as_owner s" "as_revisions s' = as_revisions s" "as_optics s' = as_optics s"
    "as_approved s' = as_approved s" "as_events s' = as_events s"
    "task_by_id i s' = task_by_id i s" "extra_by_id i s' = extra_by_id i s" "existing_task i s' = existing_task i s"
proof -
  obtain fs where s': "s' = s\<lparr>as_world := (as_world s)\<lparr>w_faults := fs\<rparr>\<rparr>" using assms unfolding same_data_def by blast
  have by_id: "task_by_id i s' = task_by_id i s" "extra_by_id i s' = extra_by_id i s"
    by (simp_all add: s' task_by_id_def extra_by_id_def)
  then show "task_by_id i s' = task_by_id i s" "extra_by_id i s' = extra_by_id i s"
    "existing_task i s' = existing_task i s" by (simp_all only: existing_task_def)
qed (use assms in \<open>auto simp: same_data_def\<close>)

lemma same_data_move: "same_data s s' \<Longrightarrow> api_move s s'"
  by (rule api_move_rows) (simp_all add: same_dataD list.rel_refl assignment_keys_def)

lemma api_outcome_same: "api_outcome s = (oc, s') \<Longrightarrow> same_data s s'"
proof -
  assume a: "api_outcome s = (oc, s')"
  have "s' = s\<lparr>as_world := (as_world s)\<lparr>w_faults := tl (w_faults (as_world s))\<rparr>\<rparr>"
    using a by (cases "w_faults (as_world s)") (simp_all add: api_outcome_def next_outcome_def)
  then show ?thesis unfolding same_data_def by blast
qed

lemma api_read_same: "api_read f s = (r, s') \<Longrightarrow> same_data s s'"
  by (erule api_read_run) (rule api_outcome_same)

lemma resolve_same: "resolveTaskRef u ref s = (r, s') \<Longrightarrow> same_data s s'"
  by (auto simp: resolveTaskRef_def lookupTaskByPublicID_def dest: api_read_same
      split: if_splits option.splits prod.splits sum.splits)

lemma require_same: "requireApprovedResearcher c s = (r, s') \<Longrightarrow> same_data s s'"
  by (auto simp: requireApprovedResearcher_def isResearcherApproved_def dest: api_read_same
      split: if_splits option.splits prod.splits sum.splits)

lemma authorize_same: "authorizeResearcherTask c i s = (r, s') \<Longrightarrow> same_data s s'"
proof -
  assume a: "authorizeResearcherTask c i s = (r, s')"
  obtain e s1 where q: "requireApprovedResearcher c s = (e, s1)" by force
  have "same_data s1 s'"
    using a q by (auto simp: authorizeResearcherTask_def dest: api_read_same
        split: if_splits option.splits prod.splits sum.splits)
  with require_same [OF q] show ?thesis by (rule same_data_trans)
qed

lemma validate_same: "validateUploadAssignment n i s = (r, s') \<Longrightarrow> same_data s s'"
proof -
  assume a: "validateUploadAssignment n i s = (r, s')"
  obtain t s1 where q: "api_read (task_by_id i) s = (t, s1)" by force
  have "same_data s s' \<or> same_data s1 s'"
    using a q api_read_same [OF q] by (auto simp: validateUploadAssignment_def lookupTaskAssignmentAuth_def dest: api_read_same
        split: if_splits option.splits prod.splits sum.splits)
  with same_data_trans [OF api_read_same [OF q]] show ?thesis by blast
qed

lemma emergency_same: "authorizeEmergencyHandoff c i s = (r, s') \<Longrightarrow> same_data s s'"
  by (auto simp: authorizeEmergencyHandoff_def dest: validate_same authorize_same split: option.splits if_splits)

section \<open>The endpoints\<close>

lemma create_move: "handleCreateTask now pid c body s = (r, s') \<Longrightarrow> api_move s s'"
  by (auto simp: handleCreateTask_def insert_task_move dest!: api_exec_move
      split: if_splits prod.splits sum.splits)

lemma task_by_id_only:
  assumes "tables_ok s" "task_by_id i s = Some t" "r \<in> set (w_tasks (as_world s))" "tk_id r = i" shows "r = t"
proof -
  from assms(2) have "t \<in> set (w_tasks (as_world s))" "tk_id t = i"
    using sql_find_Some [of "\<lambda>t. tk_id t = i" "w_tasks (as_world s)" t] by (simp_all add: task_by_id_def)
  moreover have "distinct (map tk_id (w_tasks (as_world s)))" using assms(1) unfolding tables_ok_def by (elim conjE)
  ultimately show ?thesis using unique_key [of tk_id "w_tasks (as_world s)" r t] assms(3,4) by simp
qed

text \<open>A patch answers with an error and changes nothing, or commits the edit of an editable row.\<close>

lemma patch_cases:
  assumes "patch_task now pid c patch i s = (r, s')"
  obtains (refused) "same_data s s'" "rs_code r \<noteq> 200"
  | (edited) t old s1 q where "task_by_id i s = Some t" "editable t" "existing_task i s = Some old" "same_data s s1"
      "api_exec (supersede now pid (nullStringPtr (cl_user c)) i patch (applyTaskPatch old patch)) s1 = (q, s')"
      "rs_code r = (case q of Inl _ \<Rightarrow> 500 | Inr _ \<Rightarrow> 200)"
proof -
  obtain t s1 where r1: "api_read (task_by_id i) s = (t, s1)" by force
  obtain old s2 where r2: "api_read (existing_task i) s1 = (old, s2)" by force
  note k1 = api_read_same [OF r1] and k2 = same_data_trans [OF api_read_same [OF r1] api_read_same [OF r2]]
  note p = assms [unfolded patch_task_def r1 prod.case]
  show thesis
  proof (cases "\<exists>t' o'. t = Inr (Some t') \<and> editable t' \<and> old = Inr (Some o')")
    case False
    then have "(s' = s1 \<or> s' = s2) \<and> rs_code r \<noteq> 200"
      using p r2 by (auto simp: writeError_def split: sum.splits option.splits if_splits)
    then show thesis using k1 k2 refused by blast
  next
    case True
    then obtain t' o' where t': "t = Inr (Some t')" "editable t'" "old = Inr (Some o')" by blast
    obtain q s3 where ex: "api_exec (supersede now pid (nullStringPtr (cl_user c)) i patch (applyTaskPatch o' patch)) s2 = (q, s3)" by force
    have s': "s' = s3" "rs_code r = (case q of Inl _ \<Rightarrow> 500 | Inr _ \<Rightarrow> 200)"
      using p r2 ex t' by (auto simp: writeError_def split: sum.splits)
    have t: "task_by_id i s = Some t'" "existing_task i s = Some o'"
      using r1 r2 t' same_dataD(13) [OF k1] same_dataD(15) [OF k2] same_dataD(15) [OF k1]
      by (auto elim!: api_read_run split: if_splits)
    show thesis by (rule edited [OF t(1) t'(2) t(2) k2 ex [folded s'(1)] s'(2)])
  qed
qed

lemma patch_task_move: "patch_task now pid c patch i s = (r, s') \<Longrightarrow> api_move s s'"
proof (erule patch_cases)
  assume "same_data s s'" then show ?thesis by (rule same_data_move)
next
  fix t old s1 q
  assume t: "task_by_id i s = Some t" "editable t" and k: "same_data s s1"
    and ex: "api_exec (supersede now pid (nullStringPtr (cl_user c)) i patch (applyTaskPatch old patch)) s1 = (q, s')"
  show ?thesis unfolding api_move_def
  proof (intro impI)
    assume ok: "tables_ok s"
    have "api_move s s1" using k by (rule same_data_move)
    then have ok1: "tables_ok s1" using ok by (simp add: api_move_def)
    have "api_move s1 s'"
    proof (rule api_exec_move [OF ex])
      fix s2 :: api_state assume w: "w_tasks (as_world s2) = w_tasks (as_world s1)"
      show "api_move s2 (fst (supersede now pid (nullStringPtr (cl_user c)) i patch (applyTaskPatch old patch) s2))"
      proof (rule api_move_strict, rule supersede_move)
        fix r :: task_row assume "tables_ok s2" "r \<in> set (w_tasks (as_world s2))" "tk_id r = i"
        then show "editable r" using task_by_id_only [OF ok t(1), of r] t(2) w same_dataD(1) [OF k] by simp
      next
        assume "tables_ok s2"
        moreover have "t \<in> set (w_tasks (as_world s2))" "tk_id t = i"
          using sql_find_Some [OF t(1) [unfolded task_by_id_def]] w same_dataD(1) [OF k] by simp_all
        ultimately show "i < as_next_id s2" by (auto simp: tables_ok_def list_all_iff)
      qed
    qed
    then show "tables_ok s' \<and> (\<forall>t\<in>set (w_tasks (as_world s)). \<exists>t'\<in>set (w_tasks (as_world s')). row_move t t')"
      using ok k by (simp add: api_move_def same_dataD ok1)
  qed
qed

lemma handlePatch_move: "handlePatchTask u now pid c ref body s = (r, s') \<Longrightarrow> api_move s s'"
proof -
  assume a: "handlePatchTask u now pid c ref body s = (r, s')"
  obtain q s1 where q: "resolveTaskRef u ref s = (q, s1)" by force
  note m1 = same_data_move [OF resolve_same [OF q]]
  show ?thesis
  proof (cases "\<exists>b i pub. body = Inr b \<and> q = Inr (i, pub)")
    case False
    then have "s' = s \<or> s' = s1" using a q by (auto simp: handlePatchTask_def split: sum.splits)
    then show ?thesis using m1 by auto
  next
    case True
    then obtain b i pub where b: "body = Inr b" "q = Inr (i, pub)" by blast
    obtain e s2 where e: "authorizeResearcherTask c i s1 = (e, s2)" by force
    note m2 = api_move_trans [OF m1 same_data_move [OF authorize_same [OF e]]]
    show ?thesis using a q b e m2 patch_task_move [of now pid c b i s2 r s'] api_move_trans [OF m2]
      by (auto simp: handlePatchTask_def split: option.splits)
  qed
qed

lemma clear_nodes_move: "world_move w (clear_nodes i ns w)"
proof (induction ns arbitrary: w)
  case (Cons n ns)
  obtain oc w1 where o: "next_outcome w = (oc, w1)" by force
  define w2 where "w2 = (if oc \<noteq> Done then w1
    else if map_of (rd_hash (w_redis w1) (state_key n)) ''current_task_id'' \<noteq> Some (Itoa i) then w1
    else snd (redis_exec (idle_cmds n) w1))"
  have "world_move w1 w2" by (simp add: w2_def)
  from world_move_trans [OF outcome_move [OF o] this] Cons.IH [of w2] have "world_move w (clear_nodes i ns w2)"
    by (rule world_move_trans)
  then show ?case using o by (simp add: w2_def)
qed simp

lemma clear_task_move: "world_move w (clearNodeAssignmentForTask i w)"
proof -
  obtain oc w1 where o: "next_outcome w = (oc, w1)" by force
  show ?thesis using world_move_trans [OF outcome_move [OF o] clear_nodes_move] outcome_move [OF o] o
    by (simp add: clearNodeAssignmentForTask_def)
qed

lemma complete_move: "complete_task now i s = (r, s') \<Longrightarrow> api_move s s'"
proof -
  assume a: "complete_task now i s = (r, s')"
  obtain q s1 where q: "api_exec (update_tasks (\<lambda>t. tk_id t = i \<and> open_task t) (complete_row now)) s = (q, s1)" by force
  have m1: "api_move s s1"
    by (rule api_exec_move [OF q], rule update_tasks_move, rule move_complete) (auto simp: open_task_def status_texts)
  obtain p s2 where p: "api_exec (update_assignments (\<lambda>r. ta_task r = i \<and> ta_active r) (finish_assignment now)) s1 = (p, s2)"
    by force
  have m2: "api_move s1 s2"
    by (rule api_exec_move [OF p], rule update_assignments_move) (simp add: finish_assignment_def)
  have "s' = s1 \<or> s' = s2\<lparr>as_world := clearNodeAssignmentForTask i (as_world s2)\<rparr>"
    using a q p by (auto simp: complete_task_def split: sum.splits if_splits)
  then show ?thesis
    using m1 api_move_trans [OF api_move_trans [OF m1 m2] api_move_world [OF clear_task_move]] by auto
qed

lemma handleComplete_move: "handleCompleteTask u now c ref s = (r, s') \<Longrightarrow> api_move s s'"
proof -
  assume a: "handleCompleteTask u now c ref s = (r, s')"
  obtain q s1 where q: "resolveTaskRef u ref s = (q, s1)" by force
  note m1 = same_data_move [OF resolve_same [OF q]]
  show ?thesis
  proof (cases q)
    case (Inl e)
    then show ?thesis using a q m1 by (simp add: handleCompleteTask_def)
  next
    case (Inr ip)
    obtain i pub where ip: "ip = (i, pub)" by force
    obtain e s2 where e: "authorizeResearcherTask c i s1 = (e, s2)" by force
    note m2 = api_move_trans [OF m1 same_data_move [OF authorize_same [OF e]]]
    show ?thesis using a q Inr ip e m2 complete_move [of now i s2 r s'] api_move_trans [OF m2]
      by (auto simp: handleCompleteTask_def split: option.splits)
  qed
qed

lemma emergency_move: "handleEmergencyHandoff now c ids s = (r, s') \<Longrightarrow> api_move s s'"
proof -
  assume a: "handleEmergencyHandoff now c ids s = (r, s')"
  show ?thesis
  proof (cases "Atoi ids")
    case None
    then show ?thesis using a by (simp add: handleEmergencyHandoff_def)
  next
    case (Some i)
    obtain e s1 where e: "authorizeEmergencyHandoff c i s = (e, s1)" by force
    note m1 = same_data_move [OF emergency_same [OF e]]
    obtain q s2 where q: "api_exec (update_tasks (\<lambda>t. tk_id t = i)
      (set_columns now (\<lambda>c. c\<lparr>tc_emergency_handoff_requested_at := Some now\<rparr>))) s1 = (q, s2)" by force
    have m2: "api_move s1 s2"
      by (rule api_exec_move [OF q], rule update_tasks_move, rule row_move_same) (simp_all add: set_columns_def)
    have "s' = s1 \<or> s' = s2" using a Some e q
      by (auto simp: handleEmergencyHandoff_def split: option.splits sum.splits)
    then show ?thesis using m1 api_move_trans [OF m1 m2] by auto
  qed
qed

lemma handoff_move: "handleUpdateTaskHandoff S now c ids body s = (r, s') \<Longrightarrow> api_move s s'"
proof -
  assume a: "handleUpdateTaskHandoff S now c ids body s = (r, s')"
  show ?thesis
  proof (cases "\<exists>i b. Atoi ids = Some i \<and> body = Inr b")
    case False
    then have "s' = s" using a by (auto simp: handleUpdateTaskHandoff_def split: option.splits sum.splits)
    then show ?thesis by simp
  next
    case True
    then obtain i b where ib: "Atoi ids = Some i" "body = Inr b" by blast
    obtain e s1 where e: "authorizeResearcherTask c i s = (e, s1)" by force
    note m1 = same_data_move [OF authorize_same [OF e]]
    obtain q s2 where q: "api_exec (update_tasks (\<lambda>t. tk_id t = i) (handoff_row S now b)) s1 = (q, s2)" by force
    have m2: "api_move s1 s2"
      by (rule api_exec_move [OF q], rule update_tasks_move, rule row_move_same)
        (simp_all add: handoff_row_def set_columns_def)
    have "s' = s1 \<or> s' = s2" using a ib e q
      by (auto simp: handleUpdateTaskHandoff_def split: option.splits sum.splits)
    then show ?thesis using m1 api_move_trans [OF m1 m2] by auto
  qed
qed

lemma emit_event_move: "api_move s (emitResearcherEvent e s)"
proof (cases "ev_user e = [] \<or> ev_message e = []")
  case False
  obtain q s1 where q: "api_exec (\<lambda>s. (s\<lparr>as_events := as_events s @ [e]\<rparr>, ())) s = (q, s1)" by force
  have "api_move s s1" by (rule api_exec_move [OF q], rule api_move_keep) simp_all
  then show ?thesis using q False by (simp add: emitResearcherEvent_def)
qed (auto simp: emitResearcherEvent_def)

lemma emit_update_move: "api_move s (emitCampaignUpdate cid ty msg t s)"
proof -
  obtain q s1 where q: "api_read (\<lambda>s. as_owner s cid) s = (q, s1)" by force
  show ?thesis using q api_move_trans [OF api_read_move [OF q] emit_event_move] api_read_move [OF q]
    by (simp add: emitCampaignUpdate_def split: sum.split option.split)
qed

lemma emit_budget_move: "api_move s (emitTaskBudgetComplete i s)"
proof -
  obtain q s1 where q: "api_read (campaign_of_task i) s = (q, s1)" by force
  show ?thesis using q api_move_trans [OF api_read_move [OF q] emit_update_move] api_read_move [OF q]
    by (simp add: emitTaskBudgetComplete_def split: sum.split option.split)
qed

lemma update_campaigns_move: "api_move s (fst (update_campaigns p f s))"
  by (rule api_move_rows) (simp_all add: update_campaigns_def assignment_keys_def list.rel_refl split: prod.split)

lemma complete_campaign_move: "api_move s (maybeCompleteCampaign i s)"
proof -
  obtain q s1 where q: "api_read (campaign_of_task i) s = (q, s1)" by force
  note m1 = api_read_move [OF q]
  show ?thesis
  proof (cases "\<exists>cid. q = Inr (Some cid) \<and> cid \<noteq> []")
    case False
    then show ?thesis using q m1 by (auto simp: maybeCompleteCampaign_def split: sum.split option.split)
  next
    case True
    then obtain cid where cid: "q = Inr (Some cid)" "cid \<noteq> []" by blast
    let ?f = "\<lambda>s. sql_count (\<lambda>t. tk_campaign t = Some cid \<and> \<not> finished_task t) (w_tasks (as_world s))"
    let ?u = "update_campaigns (\<lambda>c. ca_id c = cid \<and> ca_status c = ''active'') (\<lambda>c. c\<lparr>ca_status := ''completed''\<rparr>)"
    obtain n s2 where n: "api_read ?f s1 = (n, s2)" by force
    note m2 = api_move_trans [OF m1 api_read_move [OF n]]
    obtain k s3 where k: "api_exec ?u s2 = (k, s3)" by force
    have "api_move s2 s3" by (rule api_exec_move [OF k], rule update_campaigns_move)
    note m3 = api_move_trans [OF m2 this]
    show ?thesis using q cid n k m2 m3 api_move_trans [OF m3 emit_update_move]
      by (simp add: maybeCompleteCampaign_def split: sum.split)
  qed
qed

lemma credit_move: "api_move s (fst (credit now i e s))"
proof -
  have "map tx_task (map (set_earned i e) (as_extra s)) = map tx_task (as_extra s)"
    by (simp add: set_earned_def)
  then have "api_move s (s\<lparr>as_extra := map (set_earned i e) (as_extra s)\<rparr>)"
    by (intro api_move_rows) (simp_all add: list.rel_refl)
  moreover have "api_move (s\<lparr>as_extra := map (set_earned i e) (as_extra s)\<rparr>) (fst (credit now i e s))"
    unfolding credit_def by (rule update_tasks_move, rule row_move_same) simp_all
  ultimately show ?thesis by (rule api_move_trans)
qed

lemma budget_complete_move: "complete_on_budget now i s = (r, s') \<Longrightarrow> api_move s s'"
proof -
  assume a: "complete_on_budget now i s = (r, s')"
  obtain q s1 where q: "api_exec (update_tasks (\<lambda>t. tk_id t = i \<and> \<not> finished_task t)
      (\<lambda>t. t\<lparr>tk_status := ''completed'', tk_updated := now\<rparr>)) s = (q, s1)" by force
  have m1: "api_move s s1"
    by (rule api_exec_move [OF q], rule update_tasks_move, rule move_budget) simp
  have "s' = s1 \<or> s' = maybeCompleteCampaign i (emitTaskBudgetComplete i s1)"
    using a q by (auto simp: complete_on_budget_def split: sum.splits if_splits)
  then show ?thesis
    using m1 api_move_trans [OF api_move_trans [OF m1 emit_budget_move] complete_campaign_move] by auto
qed

lemma debit_move: "applyTaskBudgetDebit now t n x ok s = (r, s') \<Longrightarrow> api_move s s'"
proof -
  assume a: "applyTaskBudgetDebit now t n x ok s = (r, s')"
  obtain q s1 where q: "api_read (\<lambda>s. as_optics s n) s = (q, s1)" by force
  note m1 = api_read_move [OF q]
  obtain e s2 where e: "api_read (extra_by_id (the t)) s1 = (e, s2)" by force
  note m2 = api_move_trans [OF m1 api_read_move [OF e]]
  have cr: "api_exec (credit now (the t) v) s2 = (p, s3) \<Longrightarrow> api_move s s3" for p s3 v
    using api_move_trans [OF m2] api_exec_move [of "credit now (the t) v" s2 p s3] credit_move by blast
  consider "s' \<in> {s, s1, s2}" | v p s3 where "api_exec (credit now (the t) v) s2 = (p, s3)"
    "s' = s3 \<or> (r, s') = complete_on_budget now (the t) s3"
    using a q e by (auto simp: applyTaskBudgetDebit_def Let_def split: option.splits if_splits sum.splits prod.splits)
  then show ?thesis
    by cases (use m1 m2 cr budget_complete_move [OF sym] api_move_trans in \<open>auto, metis\<close>)
qed

section \<open>Campaigns and coverage\<close>


interpretation api: respected api_move
  by unfold_locales (rule api_move_refl, rule api_move_trans)

lemma campaign_row_ok [simp]:
  "row_ok (campaign_task_row now i cid p sp)" "tk_id (campaign_task_row now i cid p sp) = i"
  by (simp_all add: row_ok_def campaign_task_row_def task_running_def known_statuses_def status_texts)

lemma insertCampaignTask_move: "api_move s (insertCampaignTask now uuid cid p sp s)"
  by (rule insert_row_move [of "campaign_task_row now (as_next_id s) cid p sp" s
        "\<lparr>tx_task = as_next_id s, tx_public_id = uuid (as_next_id s), tx_budget = Some (sk_Budget sp), tx_earned = Fin 0,
          tx_developer = None, tx_original_spec = None, tx_product_mode = spec_mode sp\<rparr>"])
    (simp_all add: insertCampaignTask_def Let_def)

lemma window_moves:
  "api_move s (fst (update_tasks (\<lambda>t. tk_campaign t = Some cid \<and> \<not> finished_task t) (roll_window now) s))"
  "api_move s (fst (open_window now cid s))" "api_move s (fst (close_window now cid s))"
  unfolding open_window_def close_window_def
  by (rule update_tasks_move, rule row_move_same, simp_all add: roll_window_def)+

text \<open>The same for the state of the campaign endpoints.\<close>

definition cd_move :: "campaign_db \<Rightarrow> campaign_db \<Rightarrow> bool" where
  "cd_move s s' \<longleftrightarrow> api_move (cd_api s) (cd_api s')"

lemma activate_moves: "cd_move s (activate cid s)"
  by (simp add: cd_move_def activate_def update_campaigns_move)

lemma publication_moves: "cd_move s (fst (publish_tx C S now uuid cid s))"
proof -
  have "cd_move s (activate cid (s\<lparr>cd_api := fold (insertCampaignTask now uuid cid 0) specs (cd_api s), cd_cols := m\<rparr>))" for specs m
    using api.folds [of "cd_api s" "cd_api s", OF api.reflexive insertCampaignTask_move]
      update_campaigns_move api_move_trans unfolding cd_move_def activate_def by fastforce
  then show ?thesis
    by (simp add: publish_tx_def activate_moves cd_move_def [of s s] split: option.split sum.split)
qed

lemma insert_campaign_moves: "cd_move s (insert_campaign now cid user p raw stars s)"
  unfolding cd_move_def insert_campaign_def Let_def
  by (rule api_move_rows) (simp_all add: list.rel_refl assignment_keys_def)

interpretation cd: campaign_relation cd_move
proof unfold_locales
  fix s :: campaign_db and es
  show "cd_move s s" by (simp add: cd_move_def)
  show "cd_move s (s\<lparr>cd_api := a\<rparr>)" if "api_outcome (cd_api s) = (oc, a)" for oc a
    using api_outcome_move [OF that] by (simp add: cd_move_def)
  show "cd_move s (s\<lparr>cd_api := (cd_api s)\<lparr>as_events := es\<rparr>\<rparr>)"
    unfolding cd_move_def by (rule api_move_keep) simp_all
  show "cd_move s (fst (create_tx now cid user pk raw stars s))" for now cid user pk raw stars
    using insert_campaign_moves by (simp add: create_tx_def cd_move_def)
  show "cd_move s (fst (add_task_tx now uuid cid pri sp s))" for now uuid cid pri sp
    using insertCampaignTask_move [of "cd_api s" now uuid cid pri sp] by (simp add: add_task_tx_def cd_move_def)
qed (auto simp: cd_move_def update_campaigns_move window_moves publication_moves [unfolded cd_move_def] intro: api_move_trans)

text \<open>Renewed windows move no row.\<close>

lemma rolled_move:
  assumes "rolled now A B s s'" shows "api_move s s'"
proof (rule api_move_rows)
  have "row_move t u" if "u = t \<or> u = roll_window now t \<and> \<not> finished_task t \<and> tk_campaign t \<in> Some ` A" for t u
    using that by (elim disjE) (simp_all add: row_move_refl row_move_same roll_window_def)
  then show "list_all2 row_move (w_tasks (as_world s)) (w_tasks (as_world s'))"
    using assms by (auto simp: rolled_def elim!: list_all2_mono)
qed (use assms in \<open>simp_all add: rolled_def assignment_keys_def\<close>)

lemma replan_moves: "api_move s (replanCoverageCampaigns S C now testOnly tele s)"
  by (rule rolled_move [of now UNIV UNIV], rule replan_rolled) simp


section \<open>The whole system\<close>

text \<open>
  One step of any program on the shared tables, with arbitrary inputs, clocks and faults: the
  orchestrator's notification handler, drain loop, recovery, planner and lease sweep, the collector's
  deliveries, the API's task, campaign and coverage endpoints and the renewal of the coverage plans; the
  columns that only the campaign endpoints read may be any.  A handler runs to its end before the next step.
\<close>

inductive sys_step :: "services \<Rightarrow> (string \<Rightarrow> string option) \<Rightarrow> api_state \<Rightarrow> api_state \<Rightarrow> bool" for S u where
  notify: "sys_step S u s (s\<lparr>as_world := handleTaskNotification S now p (as_world s)\<rparr>)"
| drain: "sys_step S u s (s\<lparr>as_world := drain_turn S now (as_world s)\<rparr>)"
| recover: "sys_step S u s (s\<lparr>as_world := snd (recoverPendingTasks (as_world s))\<rparr>)"
| planner: "sys_step S u s (s\<lparr>as_world := snd (runPlannerOnce S now (as_world s))\<rparr>)"
| sweep: "sys_step S u s (s\<lparr>as_world := snd (reclaimExpiredLeases S now (as_world s))\<rparr>)"
| deliver: "sys_step S u s (s\<lparr>as_world := collect S now ttl ev (as_world s)\<rparr>)"
| create: "handleCreateTask now pid c b s = (r, s') \<Longrightarrow> sys_step S u s s'"
| patch: "handlePatchTask u now pid c ref b s = (r, s') \<Longrightarrow> sys_step S u s s'"
| complete: "handleCompleteTask u now c ref s = (r, s') \<Longrightarrow> sys_step S u s s'"
| emergency: "handleEmergencyHandoff now c ref s = (r, s') \<Longrightarrow> sys_step S u s s'"
| handoff: "handleUpdateTaskHandoff S now c ref hb s = (r, s') \<Longrightarrow> sys_step S u s s'"
| debit: "applyTaskBudgetDebit now t n x ok s = (e, s') \<Longrightarrow> sys_step S u s s'"
| campaign: "campaign_step S C D req cd = cd' \<Longrightarrow> sys_step S u (cd_api cd) (cd_api cd')"
| replan: "sys_step S u s (replanCoverageCampaigns S E now testOnly tele s)"

inductive_cases sys_step_cases: "sys_step S u s s'"

lemma sweep_api_move:
  "api_move s (s\<lparr>as_world := snd (reclaimExpiredLeases S now (as_world s))\<rparr>)"
proof (rule api_move_strict)
  assume "tables_ok s"
  then have "distinct (map tk_id (w_tasks (as_world s)))" unfolding tables_ok_def by (elim conjE)
  then show ?thesis by (intro api_move_world sweep_move)
qed

lemma campaign_api_move: "campaign_step S C D req cd = cd' \<Longrightarrow> api_move (cd_api cd) (cd_api cd')"
  using cd.campaign_step_moves [of cd S C D req] by (simp add: cd_move_def)

lemma sys_step_move: "sys_step S u s s' \<Longrightarrow> api_move s s'"
  by (erule sys_step_cases)
    (auto intro: api_move_world notification_move drain_move recover_move planner_move collect_move
      sweep_api_move create_move handlePatch_move handleComplete_move emergency_move handoff_move debit_move
      campaign_api_move replan_moves)

lemma sys_steps_move: "(sys_step S u)\<^sup>*\<^sup>* s s' \<Longrightarrow> api_move s s'"
  by (induction rule: rtranclp_induct) (auto intro: api_move_trans sys_step_move)

lemma not_free:
  assumes "tables_ok s" "t \<in> set (w_tasks (as_world s))" "tk_status t \<noteq> TaskStatusPending"
  shows "\<not> world_free (tk_id t) (as_world s)"
proof
  assume "world_free (tk_id t) (as_world s)"
  then obtain r where r: "r \<in> set (w_tasks (as_world s))" "tk_id r = tk_id t" "tk_status r = TaskStatusPending"
    by (auto simp: world_free_def claimable_def)
  have "distinct (map tk_id (w_tasks (as_world s)))" using assms(1) unfolding tables_ok_def by (elim conjE)
  from unique_key [OF this r(1) assms(2) r(2)] r(3) assms(3) show False by simp
qed

lemma assign_sends_free:
  assumes "\<not> world_free (np_TaskID p) w" shows "w_sent (assignTask S now p w) = w_sent w"
proof (rule assignTask_cases [of S now p w])
  fix w1 pr
  assume "assignTask S now p w = enqueueByLane (np_TaskID p) pr LaneInterrupt w1" "w_sent w1 = w_sent w"
  then show ?thesis by (simp add: enqueue_keeps)
next
  fix q sels w1 r w2
  assume o: "assignOnce (pgRedisExec S now) q sels w1 = (r, w2)" and q: "np_TaskID q = np_TaskID p"
    and t: "w_tasks w1 = w_tasks w" "w_sent w1 = w_sent w"
    and r: "assignTask S now p w = w2 \<or> assignTask S now p w = rollCoverageSession now (np_TaskID p) w2"
  have "\<not> world_free (np_TaskID q) w1" using assms t(1) q by (simp add: world_free_def)
  then have "w_sent w2 = w_sent w1" by (rule_tac pg.assignOnce_contract [OF o]) auto
  then show ?thesis using r t(2) by (auto simp: rollCoverage_keeps)
qed

end
