(* ===== verification/TaskProps.thy ===== *)
theory TaskProps
  imports Lifecycle
begin

text \<open>
  What the task endpoints guarantee: editing by supersession, completion, upload authorisation against
  the leases of the orchestrator, and budgets.
\<close>

section \<open>Every interleaving\<close>

text \<open>C11: the tables stay well-typed under every interleaving of the three programs: statuses are the
  known ones, a pending task has no assignee, an assigned or running one has a named assignee, task ids
  are positive, unique and below the sequence, the further columns belong to the same tasks, and no
  task has two assignment rows for one node.\<close>

theorem tables_stay_ok:
  assumes "tables_ok s" "(sys_step S u)\<^sup>*\<^sup>* s s'"
  shows "tables_ok s'"
  using sys_steps_move [OF assms(2)] assms(1) by (simp add: api_move_def)


section \<open>Examples\<close>

definition demo_body :: api_task where
  "demo_body = \<lparr>at_PublicID = [], at_Name = ''M31'', at_Priority = 3, at_IntegrationTime = Fin 60,
     at_NormalizedIntegrationBudgetS = Fin 100, at_NormalizedIntegrationEarnedS = Fin 0, at_MinPower = Fin 0,
     at_TargetMagnitude = None, at_RequiredFilters = [''R''], at_TargetRA = Fin 10, at_TargetDec = Fin 41,
     at_MinAltitudeDeg = Fin 30, at_ScienceBand = ''optical'', at_MaxPSFFWHMArcsec = Fin 4,
     at_MinPSFFWHMArcsec = Fin 1, at_MinApertureMM = Fin 200, at_MinSubExposureS = Fin 10,
     at_MinResolutionArcsec = Fin 1, at_MaxResolutionArcsec = Fin 5, at_FOVWidthArcmin = Fin 30,
     at_FOVHeightArcmin = Fin 20, at_AllowEmulator = False, at_ProductMode = [], at_CampaignID = [],
     at_DeveloperUserID = None, at_OriginalSpec = None\<rparr>"

definition demo_extra :: task_extra where
  "demo_extra = \<lparr>tx_task = 1, tx_public_id = ''p1'', tx_budget = Some (Fin 100), tx_earned = Fin 0,
     tx_developer = Some ''u1'', tx_original_spec = None, tx_product_mode = ''per_frame''\<rparr>"

definition demo_row :: task_row where
  "demo_row = new_task_row 0 1 None demo_body"

definition demo_api :: api_state where
  "demo_api = \<lparr>as_world = demo_world\<lparr>w_tasks := [demo_row]\<rparr>, as_extra = [demo_extra], as_revisions = [],
     as_events = [], as_next_id = 2, as_owner = Map.empty, as_approved = [''u1'' \<mapsto> True],
     as_optics = [''n1'' \<mapsto> (Some (Fin 2000), None)]\<rparr>"

definition demo_user :: api_caller where
  "demo_user = \<lparr>cl_user = Some ''u1'', cl_device = None\<rparr>"

lemma demo_sel [simp]:
  "as_world demo_api = demo_world\<lparr>w_tasks := [demo_row]\<rparr>" "as_extra demo_api = [demo_extra]" "as_next_id demo_api = 2"
  "as_owner demo_api = Map.empty" "as_approved demo_api = [''u1'' \<mapsto> True]"
  "as_optics demo_api = [''n1'' \<mapsto> (Some (Fin 2000), None)]" "as_revisions demo_api = []"
  "tx_task demo_extra = 1" "tx_public_id demo_extra = ''p1''" "tx_developer demo_extra = Some ''u1''"
  "tx_budget demo_extra = Some (Fin 100)" "tx_earned demo_extra = Fin 0"
  "tk_id demo_row = 1" "tk_status demo_row = ''pending''" "tk_assigned demo_row = None" "tk_campaign demo_row = None"
  by (simp_all add: demo_api_def demo_extra_def demo_row_def new_task_row_def)

lemma demo_tables_ok: "tables_ok demo_api"
  by (simp add: tables_ok_def assignment_keys_def demo_world_def demo_row_def)

theorem tables_stay_ok_witness:
  "tables_ok (snd (handleCompleteTask (\<lambda>_. None) 5 demo_user ''1'' demo_api))"
  by (rule tables_stay_ok [of demo_api demo_services "\<lambda>_. None", OF demo_tables_ok])
    (rule r_into_rtranclp, rule sys_step.complete, rule prod.collapse [symmetric])

section \<open>Runs without faults\<close>

lemma quiet_api: "w_faults (as_world s) = [] \<Longrightarrow> api_outcome s = (Done, s)"
  by (simp add: api_outcome_def)

lemma quiet_read: "w_faults (as_world s) = [] \<Longrightarrow> api_read f s = (Inr (f s), s)"
  by (simp add: api_read_def quiet_api)

lemma quiet_exec_api: "w_faults (as_world s) = [] \<Longrightarrow> api_exec f s = (Inr (snd (f s)), fst (f s))"
  by (simp add: api_exec_def quiet_api split: prod.split)

section \<open>Editing\<close>

text \<open>C13: an edit that succeeds supersedes exactly the addressed task, which was pending and unassigned,
  by one new pending task with the merged fields and a fresh id; no other row, no assignment and no
  Redis key changes, the budget already earned moves over, and the revision links both.  An edit that
  is refused leaves everything as it was.\<close>

theorem edit_supersedes:
  assumes "patch_task now pid c patch i s = (r, s')"
  shows "(rs_code r = 200 \<longrightarrow> (\<exists>t old. task_by_id i s = Some t \<and> editable t \<and> existing_task i s = Some old \<and>
      w_tasks (as_world s') = map (\<lambda>r. if tk_id r = i then supersede_row now r else r)
        (w_tasks (as_world s) @ [new_task_row now (as_next_id s) (nullString (at_CampaignID old)) (applyTaskPatch old patch)]) \<and>
      (\<exists>x. as_extra s' = as_extra s @ [x] \<and> tx_task x = as_next_id s \<and> tx_public_id x = pid \<and>
         tx_earned x = at_NormalizedIntegrationEarnedS old) \<and>
      w_assignments (as_world s') = w_assignments (as_world s) \<and> w_redis (as_world s') = w_redis (as_world s) \<and>
      (\<exists>v. as_revisions s' = as_revisions s @ [v] \<and> rv_old_task_id v = i \<and> rv_new_task_id v = as_next_id s \<and>
         rv_old_public_id v = at_PublicID old \<and> rv_new_public_id v = pid))) \<and>
    (rs_code r \<in> {404, 409} \<longrightarrow> same_data s s')"
  using assms
proof (cases rule: patch_cases)
  case refused
  then show ?thesis by simp
next
  case (edited t old s1 q)
  note k = same_dataD [OF edited(4)]
  show ?thesis using edited(5)
  proof (cases rule: api_exec_run)
    case failed
    then show ?thesis using edited(6) by simp
  next
    case (ran oc s2 n)
    note k2 = same_dataD [OF same_data_trans [OF edited(4) api_outcome_same [OF ran(1)]]]
    have s': "s' = fst (supersede now pid (nullStringPtr (cl_user c)) i patch (applyTaskPatch old patch) s2)"
      using ran(2) by simp
    have code: "rs_code r \<notin> {404, 409}" using edited(6) by (simp split: sum.split)
    have keep: "at_CampaignID (applyTaskPatch old patch) = at_CampaignID old"
      "at_NormalizedIntegrationEarnedS (applyTaskPatch old patch) = at_NormalizedIntegrationEarnedS old"
      "at_PublicID (applyTaskPatch old patch) = at_PublicID old"
      by (simp_all add: applyTaskPatch_def)
    show ?thesis
      using code edited(1-3) by (simp add: s' supersede_run k2 keep sql_update_def)
  qed
qed

text \<open>An optional number that was left out, or an empty band.\<close>

definition leaves_optional_unset :: "api_task \<Rightarrow> bool" where
  "leaves_optional_unset t \<longleftrightarrow> at_ScienceBand t = [] \<or>
     (\<exists>x \<in> set [at_NormalizedIntegrationBudgetS t, at_MinApertureMM t, at_MinSubExposureS t, at_MinResolutionArcsec t,
        at_MaxResolutionArcsec t, at_MinPSFFWHMArcsec t, at_MaxPSFFWHMArcsec t, at_FOVWidthArcmin t, at_FOVHeightArcmin t].
        feq x (Fin 0))"

lemma find_last: "(\<And>x. x \<in> set xs \<Longrightarrow> \<not> P x) \<Longrightarrow> P y \<Longrightarrow> sql_find P (xs @ [y]) = Some y"
  by (induction xs) (auto simp: sql_find_def)

lemma created_row:
  assumes "tables_ok s"
  shows "task_by_id (as_next_id s) (fst (insert_task now c x t s)) = Some (new_task_row now (as_next_id s) c t)"
    "tx_task (x (as_next_id s)) = as_next_id s \<Longrightarrow>
     extra_by_id (as_next_id s) (fst (insert_task now c x t s)) = Some (x (as_next_id s))"
proof -
  note e = tables_okD(5) [OF assms]
  note lt = tables_ok_id(2) [OF assms]
  have "tk_id r \<noteq> as_next_id s" if "r \<in> set (w_tasks (as_world s))" for r using lt [OF that] by simp
  then show "task_by_id (as_next_id s) (fst (insert_task now c x t s)) = Some (new_task_row now (as_next_id s) c t)"
    by (simp add: task_by_id_def insert_task_run find_last)
  assume x: "tx_task (x (as_next_id s)) = as_next_id s"
  have "tx_task q \<in> set (map tk_id (w_tasks (as_world s)))" if "q \<in> set (as_extra s)" for q
    using that arg_cong [OF e, of set] by auto
  then have "tx_task q \<noteq> as_next_id s" if "q \<in> set (as_extra s)" for q
    using that lt by fastforce
  then show "extra_by_id (as_next_id s) (fst (insert_task now c x t s)) = Some (x (as_next_id s))"
    using x by (simp add: extra_by_id_def insert_task_run find_last)
qed

lemma null_columns_unreadable:
  assumes "task_by_id i s = Some (new_task_row now i c t)" "extra_by_id i s = Some x"
    "tx_budget x = nullFloat (at_NormalizedIntegrationBudgetS t)" "leaves_optional_unset t"
  shows "existing_task i s = None"
  using assms by (auto simp: existing_task_def new_task_row_def columns_of_def nullFloat_def nullString_def
      leaves_optional_unset_def Let_def)

text \<open>A task that was created without one of its optional numbers, or without a band, can never be
  edited: the edit loads the row into plain Go values, which the driver refuses for a NULL column, so
  every edit answers with an error and changes nothing.\<close>

theorem unset_optional_blocks_edits:
  assumes "tables_ok s" "handleCreateTask now pid c (Inr t) s = (r, s1)" "rs_code r = 200"
    and "leaves_optional_unset t" "patch_task later pid' c' patch (as_next_id s) s1 = (r', s2)"
  shows "rs_code r' \<noteq> 200 \<and> same_data s1 s2"
proof -
  let ?x = "\<lambda>i. \<lparr>tx_task = i, tx_public_id = pid, tx_budget = nullFloat (at_NormalizedIntegrationBudgetS t),
    tx_earned = Fin 0, tx_developer = nullStringPtr (cl_user c), tx_original_spec = None, tx_product_mode = ''per_frame''\<rparr>"
  obtain q s0 where q: "api_exec (insert_task now None ?x t) s = (q, s0)" by force
  have "s0 = s1" "\<exists>n. q = Inr n"
    using assms(2,3) q by (auto simp: handleCreateTask_def writeError_def split: if_splits sum.splits)
  then obtain oc s3 where s3: "api_outcome s = (oc, s3)" "s1 = fst (insert_task now None ?x t s3)"
    using q by (auto simp: api_exec_def split: prod.splits if_splits)
  note k = same_dataD [OF api_outcome_same [OF s3(1)]]
  have "tables_ok s3" using assms(1) k by (simp add: tables_ok_def assignment_keys_def)
  note row = created_row [OF this, where now = now and c = None and x = ?x and t = t, folded s3(2)]
  have "existing_task (as_next_id s) s1 = None"
    using null_columns_unreadable [OF row(1) row(2)] assms(4) k(7) by simp
  with assms(5) show ?thesis by (auto elim!: patch_cases)
qed

section \<open>Completion\<close>

lemma finish_fields [simp]: "\<not> ta_active (finish_assignment now r)" "ta_task (finish_assignment now r) = ta_task r"
  "ta_node (finish_assignment now r) = ta_node r"
  by (simp_all add: finish_assignment_def ta_active_def)

lemma finish_update:
  "active_left i (fst (sql_update (\<lambda>r. ta_task r = i \<and> ta_active r) (finish_assignment now) rs)) = 0"
  unfolding active_left_0 sql_update_def fst_conv
proof
  let ?P = "\<lambda>r. ta_task r = i \<and> ta_active r"
  fix r assume "r \<in> set (map (\<lambda>r. if ?P r then finish_assignment now r else r) rs)"
  then obtain q where "r = (if ?P q then finish_assignment now q else q)" unfolding set_map by (rule imageE)
  then show "\<not> ?P r" by (cases "?P q") simp_all
qed

lemma clear_nodes_tables:
  "w_tasks (clear_nodes i ns w) = w_tasks w \<and> w_assignments (clear_nodes i ns w) = w_assignments w"
proof (induction ns arbitrary: w)
  case (Cons n ns)
  obtain oc w1 where o: "next_outcome w = (oc, w1)" by force
  show ?case using o Cons.IH redis_exec_keeps [OF prod.collapse [symmetric], of "idle_cmds n" w1] by simp
qed simp

lemma clear_nodes_quiet:
  assumes "w_faults w = []"
  shows "w_faults (clear_nodes i ns w) = [] \<and>
    (\<forall>n \<in> set ns. map_of (rd_hash (w_redis (clear_nodes i ns w)) (state_key n)) ''current_task_id'' \<noteq> Some (Itoa i)) \<and>
    (\<forall>key. key \<notin> state_key ` set ns \<longrightarrow> rd_hash (w_redis (clear_nodes i ns w)) key = rd_hash (w_redis w) key) \<and>
    (\<forall>n. map_of (rd_hash (w_redis w) (state_key n)) ''current_task_id'' \<noteq> Some (Itoa i) \<longrightarrow>
       map_of (rd_hash (w_redis (clear_nodes i ns w)) (state_key n)) ''current_task_id'' \<noteq> Some (Itoa i) \<and>
       rd_hash (w_redis (clear_nodes i ns w)) (state_key n) = rd_hash (w_redis w) (state_key n)) \<and>
    rd_zset (w_redis (clear_nodes i ns w)) = rd_zset (w_redis w)"
  using assms
proof (induction ns arbitrary: w)
  case (Cons n ns)
  define w2 where "w2 = (if map_of (rd_hash (w_redis w) (state_key n)) ''current_task_id'' \<noteq> Some (Itoa i) then w
    else snd (redis_exec (idle_cmds n) w))"
  have run: "clear_nodes i (n # ns) w = clear_nodes i ns w2" using Cons.prems by (simp add: w2_def)
  have w2: "w_faults w2 = []" "rd_zset (w_redis w2) = rd_zset (w_redis w)"
    "map_of (rd_hash (w_redis w2) (state_key n)) ''current_task_id'' \<noteq> Some (Itoa i)"
    "\<And>key. key \<noteq> state_key n \<Longrightarrow> rd_hash (w_redis w2) key = rd_hash (w_redis w) key"
    using Cons.prems by (auto simp: w2_def redis_exec_def idle_cmds_def redis_run_def map_of_HDel)
  have same: "rd_hash (w_redis w2) (state_key m) = rd_hash (w_redis w) (state_key m)"
    if "map_of (rd_hash (w_redis w) (state_key m)) ''current_task_id'' \<noteq> Some (Itoa i)" for m
  proof (cases "state_key m = state_key n")
    case True
    then show ?thesis using that by (simp add: w2_def)
  qed (rule w2(4))
  note IH = Cons.IH [OF w2(1)]
  show ?case unfolding run
    using IH w2 same by auto
qed simp


section \<open>Uploads\<close>

lemma quiet_validate:
  assumes "w_faults (as_world s) = []" "telescope \<noteq> []" "0 < i"
  shows "fst (validateUploadAssignment telescope i s) =
    (case task_by_id i s of None \<Rightarrow> Some AuthTaskNotFound
     | Some t \<Rightarrow> if upload_closed (tk_status t) then Some AuthTerminal
        else if sql_exists (\<lambda>r. ta_task r = i \<and> ta_node r = telescope \<and> ta_active r) (w_assignments (as_world s)) then None
        else if sql_exists (\<lambda>r. ta_task r = i) (w_assignments (as_world s)) then Some AuthNotAssigned
        else legacy_holder telescope (tk_assigned t))"
  using assms by (simp add: validateUploadAssignment_def lookupTaskAssignmentAuth_def quiet_read Let_def split: option.split)

lemma assigned_open [simp]: "\<not> upload_closed TaskStatusAssigned" "\<not> upload_closed ''superseded''"
  by (code_simp, code_simp)

lemma claim_quiet:
  assumes "persistTaskAssignment S now i n w = (Inr True, w1)" "w_faults w = []"
  shows "w_faults w1 = []" "0 < i" "n \<noteq> []" "world_owned i n w1"
    "\<exists>q \<in> set (w_assignments w1). assignment_key i n q \<and> ta_active q"
proof -
  show "0 < i" "n \<noteq> []" "world_owned i n w1"
    using persist_cases(5) [OF assms(1)] claim_owned by auto
  show "w_faults w1 = []" using assms
    by (auto simp: persistTaskAssignment_def Let_def split: if_splits prod.splits)
  have w1: "w_assignments w1 = upsert_primary now i n (leaseExpiry (sv_lease S) now) (w_assignments w)"
    using persist_cases(5) [OF assms(1)] by auto
  show "\<exists>q \<in> set (w_assignments w1). assignment_key i n q \<and> ta_active q"
    unfolding w1 by (rule upsert_has)
qed

lemma quiet_reclaim_rows:
  assumes "reclaimOne S now i n w = (False, w')" "w_faults w = []"
    and "\<exists>q \<in> set (w_assignments w). assignment_key i n q \<and> ta_active q"
  shows "w_faults w' = []" "w_assignments w' =
    fst (sql_update (\<lambda>r. assignment_key i n r \<and> ta_active r) (expire_row now) (w_assignments w))"
proof -
  let ?u = "sql_update (\<lambda>r. assignment_key i n r \<and> ta_active r) (expire_row now) (w_assignments w)"
  have u: "snd ?u \<noteq> 0" using assms(3) by (auto simp: sql_update_none)
  obtain rows k where rk: "?u = (rows, k)" by force
  obtain t where t: "sql_find (\<lambda>t. tk_id t = i) (w_tasks w) = Some t"
    using assms u rk by (cases "sql_find (\<lambda>t. tk_id t = i) (w_tasks w)") (simp_all add: reclaimOne_def)
  define act where "act = reclaim_decision (sv_lease S) (active_left i rows) t"
  define w2 where "w2 = w\<lparr>w_assignments := rows, w_tasks := fst (sql_update (\<lambda>u. tk_id u = i)
    (reclaimed_row now act (tk_failure_count t + 1)) (w_tasks w))\<rparr>"
  have w': "w' = reclaim_redis act n i (tk_priority t) w2"
    using assms(1,2) u rk t by (simp add: reclaimOne_def Let_def act_def [symmetric] w2_def [symmetric])
  show "w_assignments w' = fst ?u" by (simp add: w' reclaim_redis_keeps w2_def rk)
  show "w_faults w' = []" using quiet_reclaim [OF assms(2), of S now i n] assms(1) by simp
qed

lemma owned_by_id:
  assumes "distinct (map tk_id (w_tasks (as_world s)))" "world_owned i n (as_world s)"
  shows "\<exists>t. task_by_id i s = Some t \<and> tk_status t = TaskStatusAssigned \<and> tk_assigned t = Some n"
proof -
  obtain t where t: "t \<in> set (w_tasks (as_world s))" "tk_id t = i" "tk_status t = TaskStatusAssigned" "tk_assigned t = Some n"
    using assms(2) by (auto simp: world_owned_def)
  then obtain r where r: "task_by_id i s = Some r" unfolding task_by_id_def
    by (cases "sql_find (\<lambda>t. tk_id t = i) (w_tasks (as_world s))") (auto simp: sql_find_None)
  then have "r \<in> set (w_tasks (as_world s))" "tk_id r = i"
    using sql_find_Some [of "\<lambda>t. tk_id t = i" "w_tasks (as_world s)" r] by (simp_all add: task_by_id_def)
  then have "r = t" using unique_key [OF assms(1), of r t] t by simp
  with r t show ?thesis by simp
qed

text \<open>The right to upload follows the lease.  The node that claims a task may upload its frames from
  then on; once its lease is reclaimed it may not, whatever became of the task, and a node without any
  row for an assigned task never may.\<close>

theorem upload_follows_lease:
  assumes "tables_ok s" "w_faults (as_world s) = []"
    and "persistTaskAssignment S now i n (as_world s) = (Inr True, w1)"
    and "reclaimOne S later i n w1 = (False, w2)"
  shows "fst (validateUploadAssignment n i (s\<lparr>as_world := w1\<rparr>)) = None \<and>
    fst (validateUploadAssignment n i (s\<lparr>as_world := w2\<rparr>)) \<noteq> None \<and>
    (\<forall>m. m \<notin> ta_node ` {q \<in> set (w_assignments w1). ta_task q = i} \<longrightarrow>
       fst (validateUploadAssignment m i (s\<lparr>as_world := w1\<rparr>)) \<noteq> None)"
proof -
  note c = claim_quiet [OF assms(3,2)]
  have mv: "world_move (as_world s) w1" by (rule persist_move [OF assms(3)])
  have d: "distinct (map tk_id (w_tasks w1))" "distinct (assignment_keys w1)"
    using tables_okD(2,6) [OF assms(1)] mv world_move_ids [OF mv] by (simp_all add: world_move_def)
  obtain q where q: "q \<in> set (w_assignments w1)" "assignment_key i n q" "ta_active q" using c(5) by blast
  obtain t where t: "task_by_id i (s\<lparr>as_world := w1\<rparr>) = Some t" "tk_status t = TaskStatusAssigned"
    using owned_by_id [of "s\<lparr>as_world := w1\<rparr>" i n] d(1) c(4) by auto
  have 1: "fst (validateUploadAssignment n i (s\<lparr>as_world := w1\<rparr>)) = None"
    using c(1-3) t q by (auto simp: quiet_validate sql_exists_iff assignment_key_def)
  have 3: "fst (validateUploadAssignment m i (s\<lparr>as_world := w1\<rparr>)) \<noteq> None"
    if "m \<notin> ta_node ` {q \<in> set (w_assignments w1). ta_task q = i}" for m
  proof (cases "m = []")
    case True
    then show ?thesis by (simp add: validateUploadAssignment_def)
  next
    case False
    have "\<not> sql_exists (\<lambda>r. ta_task r = i \<and> ta_node r = m \<and> ta_active r) (w_assignments w1)"
      using that by (auto simp: sql_exists_iff)
    moreover have "sql_exists (\<lambda>r. ta_task r = i) (w_assignments w1)"
      using q by (auto simp: sql_exists_iff assignment_key_def)
    ultimately show ?thesis using c(1,2) False t by (simp add: quiet_validate)
  qed
  have f2: "w_faults w2 = []" and rows: "w_assignments w2 =
    fst (sql_update (\<lambda>r. assignment_key i n r \<and> ta_active r) (expire_row later) (w_assignments w1))"
    using quiet_reclaim_rows [OF assms(4) c(1)] q by auto
  have no: "\<not> sql_exists (\<lambda>r. ta_task r = i \<and> ta_node r = n \<and> ta_active r) (w_assignments w2)"
  proof
    assume "sql_exists (\<lambda>r. ta_task r = i \<and> ta_node r = n \<and> ta_active r) (w_assignments w2)"
    then obtain a where "a \<in> set (w_assignments w2)" "assignment_key i n a" "ta_active a"
      by (auto simp: sql_exists_iff assignment_key_def)
    then show False unfolding rows expire_update by auto
  qed
  have "expire_row later q \<in> set (w_assignments w2)" unfolding rows expire_update using q by blast
  then have "sql_exists (\<lambda>r. ta_task r = i) (w_assignments w2)"
    using q(2) by (auto simp: sql_exists_iff assignment_key_def intro!: bexI [of _ "expire_row later q"])
  then have 2: "fst (validateUploadAssignment n i (s\<lparr>as_world := w2\<rparr>)) \<noteq> None"
    using f2 c(2,3) no by (simp add: quiet_validate split: option.split)
  show ?thesis using 1 2 3 by blast
qed

text \<open>The edit's transaction does not check again that the task is still pending.  When the
  orchestrator claims the task between the edit's read and its transaction, the claimed task is
  superseded under the node: its row is final, so it is never requeued, while the node keeps an active
  assignment and its right to upload.\<close>

theorem edit_race_strands_node:
  assumes "tables_ok s" "w_faults (as_world s) = []"
    and "persistTaskAssignment S now i n (as_world s) = (Inr True, w1)"
    and "supersede later pid actor i patch (applyTaskPatch old patch) (s\<lparr>as_world := w1\<rparr>) = (s2, new)"
  shows "(\<exists>t. task_by_id i s2 = Some t \<and> tk_status t = TaskStatusSuperseded \<and> tk_assigned t = Some n) \<and>
    (\<exists>q \<in> set (w_assignments (as_world s2)). assignment_key i n q \<and> ta_active q) \<and>
    fst (validateUploadAssignment n i s2) = None"
proof -
  note c = claim_quiet [OF assms(3,2)]
  have mv: "world_move (as_world s) w1" by (rule persist_move [OF assms(3)])
  have d: "distinct (map tk_id (w_tasks w1))" using tables_okD(2) [OF assms(1)] world_move_ids [OF mv] by simp
  obtain t where t: "task_by_id i (s\<lparr>as_world := w1\<rparr>) = Some t" "tk_assigned t = Some n"
    using owned_by_id [of "s\<lparr>as_world := w1\<rparr>" i n] d c(4) by auto
  have s2: "s2 = fst (supersede later pid actor i patch (applyTaskPatch old patch) (s\<lparr>as_world := w1\<rparr>))"
    using assms(4) by simp
  have rows: "w_assignments (as_world s2) = w_assignments w1" "w_faults (as_world s2) = []"
    using c(1) by (simp_all add: s2 supersede_run)
  have "sql_find (\<lambda>t. tk_id t = i) (map (\<lambda>r. if tk_id r = i then supersede_row later r else r) (w_tasks w1 @ xs)) =
    Some (supersede_row later t)" for xs :: "task_row list"
    using t(1) unfolding task_by_id_def sql_find_def
    by (auto simp: find_Some_iff nth_append supersede_row_def)
  then have t2: "task_by_id i s2 = Some (supersede_row later t)"
    by (simp add: s2 supersede_run task_by_id_def sql_update_def del: map_append)
  have "fst (validateUploadAssignment n i s2) = None"
    using rows c(2,3,5) t2 by (auto simp: quiet_validate supersede_row_def sql_exists_iff assignment_key_def)
  then show ?thesis using t2 t(2) rows c(5) by (auto simp: supersede_row_def status_texts)
qed

section \<open>Budgets\<close>

lemma quiet_event:
  assumes "w_faults (as_world s) = []"
  shows "\<exists>es. emitResearcherEvent e s = s\<lparr>as_events := es\<rparr>" "\<exists>es. emitCampaignUpdate cid ty msg t s = s\<lparr>as_events := es\<rparr>"
    "\<exists>es. emitTaskBudgetComplete i s = s\<lparr>as_events := es\<rparr>"
proof -
  have self: "\<exists>es. s = s\<lparr>as_events := es\<rparr>" by (rule exI [of _ "as_events s"]) simp
  have ev: "emitResearcherEvent e s = (if ev_user e = [] \<or> ev_message e = [] then s
      else s\<lparr>as_events := as_events s @ [e]\<rparr>)" for e
    unfolding emitResearcherEvent_def quiet_exec_api [OF assms] by (simp only: fst_conv snd_conv)
  have e: "\<exists>es. emitResearcherEvent e s = s\<lparr>as_events := es\<rparr>" for e
    by (rule exI [of _ "if ev_user e = [] \<or> ev_message e = [] then as_events s else as_events s @ [e]"]) (simp add: ev)
  have u: "\<exists>es. emitCampaignUpdate cid ty msg t s = s\<lparr>as_events := es\<rparr>" for cid ty msg t
  proof (cases "as_owner s cid")
    case None
    then have "emitCampaignUpdate cid ty msg t s = s" using assms by (simp add: emitCampaignUpdate_def quiet_read)
    then show ?thesis using self by simp
  next
    case (Some o')
    then show ?thesis using assms e by (simp add: emitCampaignUpdate_def quiet_read)
  qed
  show "\<exists>es. emitResearcherEvent e s = s\<lparr>as_events := es\<rparr>" by (rule e)
  show "\<exists>es. emitCampaignUpdate cid ty msg t s = s\<lparr>as_events := es\<rparr>" by (rule u)
  show "\<exists>es. emitTaskBudgetComplete i s = s\<lparr>as_events := es\<rparr>"
  proof (cases "\<exists>cid. campaign_of_task i s = Some cid \<and> cid \<noteq> []")
    case True
    then obtain cid where "campaign_of_task i s = Some cid" "cid \<noteq> []" by blast
    then show ?thesis unfolding emitTaskBudgetComplete_def quiet_read [OF assms] using u by simp
  next
    case False
    then have "emitTaskBudgetComplete i s = s"
      unfolding emitTaskBudgetComplete_def quiet_read [OF assms]
      by (cases "campaign_of_task i s") simp_all
    then show ?thesis using self by simp
  qed
qed

lemma quiet_complete_campaign:
  assumes "w_faults (as_world s) = []"
  shows "w_tasks (as_world (maybeCompleteCampaign i s)) = w_tasks (as_world s) \<and>
    as_extra (maybeCompleteCampaign i s) = as_extra s \<and>
    (w_campaigns (as_world (maybeCompleteCampaign i s)) = w_campaigns (as_world s) \<or>
     (\<exists>cid. w_campaigns (as_world (maybeCompleteCampaign i s)) =
        map (\<lambda>c. if ca_id c = cid \<and> ca_status c = ''active'' then c\<lparr>ca_status := ''completed''\<rparr> else c) (w_campaigns (as_world s)) \<and>
        (\<forall>t \<in> set (w_tasks (as_world s)). tk_campaign t = Some cid \<longrightarrow> finished_task t)))"
proof (cases "\<exists>cid. campaign_of_task i s = Some cid \<and> cid \<noteq> [] \<and>
    sql_count (\<lambda>t. tk_campaign t = Some cid \<and> \<not> finished_task t) (w_tasks (as_world s)) = 0")
  case False
  then have "maybeCompleteCampaign i s = s"
    using assms by (auto simp: maybeCompleteCampaign_def quiet_read split: option.split)
  then show ?thesis by simp
next
  case True
  then obtain cid where cid: "campaign_of_task i s = Some cid" "cid \<noteq> []"
    "sql_count (\<lambda>t. tk_campaign t = Some cid \<and> \<not> finished_task t) (w_tasks (as_world s)) = 0" by blast
  let ?s = "fst (update_campaigns (\<lambda>c. ca_id c = cid \<and> ca_status c = ''active'') (\<lambda>c. c\<lparr>ca_status := ''completed''\<rparr>) s)"
  have f: "w_faults (as_world ?s) = []" using assms by (simp add: update_campaigns_def split: prod.split)
  have "maybeCompleteCampaign i s = ?s \<or> (\<exists>es. maybeCompleteCampaign i s = ?s\<lparr>as_events := es\<rparr>)"
    using assms cid quiet_event(2) [OF f] by (simp add: maybeCompleteCampaign_def quiet_read quiet_exec_api)
  then have "w_tasks (as_world (maybeCompleteCampaign i s)) = w_tasks (as_world s)"
    "as_extra (maybeCompleteCampaign i s) = as_extra s"
    "w_campaigns (as_world (maybeCompleteCampaign i s)) = w_campaigns (as_world ?s)"
    by (auto simp: update_campaigns_def split: prod.splits)
  moreover have "w_campaigns (as_world ?s) =
    map (\<lambda>c. if ca_id c = cid \<and> ca_status c = ''active'' then c\<lparr>ca_status := ''completed''\<rparr> else c) (w_campaigns (as_world s))"
    by (simp add: update_campaigns_def sql_update_def)
  ultimately show ?thesis using cid(3) by (auto simp: sql_count_0)
qed

definition budget_reached :: "task_extra \<Rightarrow> f64 \<Rightarrow> bool" where
  "budget_reached x earned \<longleftrightarrow> (case tx_budget x of None \<Rightarrow> False | Some b \<Rightarrow> flt (Fin 0) b \<and> fle b earned)"

lemma credit_run:
  "fst (credit now i e s) = s\<lparr>as_world := (as_world s)\<lparr>w_tasks := fst (sql_update (\<lambda>t. tk_id t = i)
     (\<lambda>t. t\<lparr>tk_updated := now\<rparr>) (w_tasks (as_world s)))\<rparr>, as_extra := map (set_earned i e) (as_extra s)\<rparr>"
  by (simp add: credit_def update_tasks_run)

text \<open>A fault-free debit of a counted frame, as the credit followed by the completion.\<close>

lemma quiet_debit:
  assumes "w_faults (as_world s) = []" "i \<noteq> 0" "\<not> fle exptime (Fin 0)" "as_optics s n = Some (ap, qe)"
    and "delta = fmul exptime (CHw (float_or_0 ap) (float_or_0 qe))" "\<not> fle delta (Fin 0)" "extra_by_id i s = Some x"
  shows "applyTaskBudgetDebit now (Some i) n exptime True s =
    (let s1 = fst (credit now i (fadd (tx_earned x) delta) s) in
     if budget_reached x (fadd (tx_earned x) delta) then complete_on_budget now i s1 else (True, s1))"
proof -
  have f: "w_faults (as_world (fst (credit now i e s))) = []" for e using assms(1) by (simp add: credit_run)
  show ?thesis
    unfolding applyTaskBudgetDebit_def Let_def budget_reached_def quiet_read [OF assms(1)]
    using assms(2-) by (simp add: quiet_read [OF assms(1)] quiet_exec_api [OF assms(1)] split: option.split)
qed

lemma earned_by_id:
  assumes "extra_by_id i s = Some x" "as_extra s' = map (set_earned i e) (as_extra s)"
  shows "\<exists>y \<in> set (as_extra s'). tx_task y = i \<and> tx_earned y = e"
proof -
  have "x \<in> set (as_extra s)" "tx_task x = i"
    using sql_find_Some [of "\<lambda>x. tx_task x = i" "as_extra s" x] assms(1) by (simp_all add: extra_by_id_def)
  then show ?thesis unfolding assms(2) by (intro bexI [of _ "set_earned i e x"]) (simp_all add: set_earned_def)
qed

lemma quiet_budget_complete:
  assumes "w_faults (as_world s1) = []" "t1 \<in> set (w_tasks (as_world s1))" "tk_id t1 = i"
    and "complete_on_budget now i s1 = (ok, s')"
  shows "ok \<and> as_extra s' = as_extra s1 \<and>
    (\<exists>t' \<in> set (w_tasks (as_world s')). tk_id t' = i \<and>
       tk_status t' = (if finished_task t1 then tk_status t1 else TaskStatusCompleted)) \<and>
    filter (\<lambda>u. tk_id u \<noteq> i) (w_tasks (as_world s')) = filter (\<lambda>u. tk_id u \<noteq> i) (w_tasks (as_world s1)) \<and>
    (\<forall>c \<in> set (w_campaigns (as_world s')). c \<in> set (w_campaigns (as_world s1)) \<or>
      (\<exists>c0 \<in> set (w_campaigns (as_world s1)). ca_id c0 = ca_id c \<and> ca_status c0 = StatusActive \<and>
        ca_status c = StatusCompleted) \<and>
      (\<forall>u \<in> set (w_tasks (as_world s')). tk_campaign u = Some (ca_id c) \<longrightarrow> finished_task u))"
proof -
  let ?P = "\<lambda>t. tk_id t = i \<and> \<not> finished_task t" and ?f = "\<lambda>t. t\<lparr>tk_status := ''completed'', tk_updated := now\<rparr>"
  define s2 where "s2 = fst (update_tasks ?P ?f s1)"
  have s2: "w_faults (as_world s2) = []" "as_extra s2 = as_extra s1" "w_campaigns (as_world s2) = w_campaigns (as_world s1)"
    "w_tasks (as_world s2) = fst (sql_update ?P ?f (w_tasks (as_world s1)))"
    using assms(1) by (simp_all add: s2_def update_tasks_run)
  obtain es where es: "emitTaskBudgetComplete i s2 = s2\<lparr>as_events := es\<rparr>" using quiet_event(3) [OF s2(1)] by blast
  have "ok" and s': "s' = s2 \<or> s' = maybeCompleteCampaign i (s2\<lparr>as_events := es\<rparr>)"
    using assms(4) unfolding complete_on_budget_def quiet_exec_api [OF assms(1)]
    by (auto simp: s2_def [symmetric] es split: if_splits)
  have cc: "w_tasks (as_world s') = w_tasks (as_world s2)" "as_extra s' = as_extra s2"
    "w_campaigns (as_world s') = w_campaigns (as_world s2) \<or>
     (\<exists>cid. w_campaigns (as_world s') =
      map (\<lambda>c. if ca_id c = cid \<and> ca_status c = ''active'' then c\<lparr>ca_status := ''completed''\<rparr> else c) (w_campaigns (as_world s2)) \<and>
      (\<forall>t \<in> set (w_tasks (as_world s2)). tk_campaign t = Some cid \<longrightarrow> finished_task t))"
    using s' quiet_complete_campaign [of "s2\<lparr>as_events := es\<rparr>" i] s2(1) by auto
  have "(if finished_task t1 then t1 else ?f t1) \<in> set (w_tasks (as_world s'))"
    unfolding cc s2 set_sql_update by (rule image_eqI [OF _ assms(2)]) (cases "finished_task t1", use assms(3) in simp_all)
  then have 2: "\<exists>t' \<in> set (w_tasks (as_world s')). tk_id t' = i \<and>
      tk_status t' = (if finished_task t1 then tk_status t1 else TaskStatusCompleted)"
    using assms(3) by (intro bexI) (auto simp: status_texts)
  have 3: "filter (\<lambda>u. tk_id u \<noteq> i) (w_tasks (as_world s')) = filter (\<lambda>u. tk_id u \<noteq> i) (w_tasks (as_world s1))"
    unfolding cc s2 by (rule filter_sql_update) simp
  have 4: "c \<in> set (w_campaigns (as_world s1)) \<or>
    (\<exists>c0 \<in> set (w_campaigns (as_world s1)). ca_id c0 = ca_id c \<and> ca_status c0 = StatusActive \<and> ca_status c = StatusCompleted) \<and>
    (\<forall>u \<in> set (w_tasks (as_world s')). tk_campaign u = Some (ca_id c) \<longrightarrow> finished_task u)"
    if c: "c \<in> set (w_campaigns (as_world s'))" for c
    using cc(3)
  proof
    assume "w_campaigns (as_world s') = w_campaigns (as_world s2)"
    then show ?thesis using c s2(3) by simp
  next
    assume "\<exists>cid. w_campaigns (as_world s') =
      map (\<lambda>c. if ca_id c = cid \<and> ca_status c = ''active'' then c\<lparr>ca_status := ''completed''\<rparr> else c) (w_campaigns (as_world s2)) \<and>
      (\<forall>t \<in> set (w_tasks (as_world s2)). tk_campaign t = Some cid \<longrightarrow> finished_task t)"
    then obtain cid where cid: "w_campaigns (as_world s') =
        map (\<lambda>c. if ca_id c = cid \<and> ca_status c = ''active'' then c\<lparr>ca_status := ''completed''\<rparr> else c) (w_campaigns (as_world s1))"
      "\<forall>t \<in> set (w_tasks (as_world s2)). tk_campaign t = Some cid \<longrightarrow> finished_task t"
      unfolding s2(3) by blast
    from c obtain c0 where c0: "c0 \<in> set (w_campaigns (as_world s1))"
      "c = (if ca_id c0 = cid \<and> ca_status c0 = ''active'' then c0\<lparr>ca_status := ''completed''\<rparr> else c0)"
      unfolding cid(1) set_map by (elim imageE)
    with cid(2) show ?thesis unfolding cc(1)
      by (cases "ca_id c0 = cid \<and> ca_status c0 = ''active''") (auto simp: StatusActive_def StatusCompleted_def)
  qed
  show ?thesis using \<open>ok\<close> cc(2) s2(2) 2 3 4 by simp
qed


section \<open>The properties at work\<close>

lemma demo_quiet: "w_faults (as_world demo_api) = []"
  by (simp add: demo_world_def)

lemmas demo_run = quiet_read [OF demo_quiet] quiet_exec_api [OF demo_quiet]

lemma demo_by_id [simp]: "task_by_id 1 demo_api = Some demo_row" "extra_by_id 1 demo_api = Some demo_extra"
  by (simp_all add: task_by_id_def extra_by_id_def sql_find_def)

lemma demo_existing: "\<exists>old. existing_task 1 demo_api = Some old"
  by (simp add: existing_task_def demo_row_def new_task_row_def columns_of_def demo_body_def nullFloat_def
      nullString_def Let_def)

lemma demo_patch: "rs_code (fst (patch_task 7 ''p2'' demo_user demo_body 1 demo_api)) = 200"
proof -
  obtain old where old: "existing_task 1 demo_api = Some old" using demo_existing by blast
  show ?thesis
    by (simp add: patch_task_def demo_run old editable_def)
qed

theorem edit_supersedes_witness:
  "map tk_status (w_tasks (as_world (snd (patch_task 7 ''p2'' demo_user demo_body 1 demo_api)))) = [''superseded'', ''pending'']"
proof -
  have 2: "as_next_id demo_api \<noteq> 1" by simp
  show ?thesis
    using edit_supersedes [of 7 "''p2''" demo_user demo_body 1 demo_api, OF prod.collapse [symmetric]] demo_patch 2
    by (auto simp: supersede_row_def new_task_row_def)
qed

lemma demo_created: "rs_code (fst (handleCreateTask 5 ''p3'' demo_user (Inr (demo_body\<lparr>at_ScienceBand := []\<rparr>)) demo_api)) = 200"
  by (simp add: handleCreateTask_def demo_run demo_body_def)

theorem unset_optional_blocks_edits_witness:
  "let s1 = snd (handleCreateTask 5 ''p3'' demo_user (Inr (demo_body\<lparr>at_ScienceBand := []\<rparr>)) demo_api)
   in rs_code (fst (patch_task 7 ''p2'' demo_user demo_body 2 s1)) \<noteq> 200"
  using unset_optional_blocks_edits [OF demo_tables_ok prod.collapse [symmetric] demo_created _ prod.collapse [symmetric],
      of 7 "''p2''" demo_user demo_body]
  by (simp add: leaves_optional_unset_def)

lemma demo_complete:
  "rs_code (fst (complete_task 5 1 demo_api)) = 200"
  by (simp add: complete_task_def demo_run update_tasks_run open_task_def sql_update_def status_texts split: prod.split)


definition demo_claim_world :: world where
  "demo_claim_world = snd (persistTaskAssignment demo_services 0 1 ''n1'' (as_world demo_api))"

lemma demo_claimed_api: "persistTaskAssignment demo_services 0 1 ''n1'' (as_world demo_api) = (Inr True, demo_claim_world)"
proof -
  have "fst (persistTaskAssignment demo_services 0 1 ''n1'' (as_world demo_api)) = Inr True"
    by (simp add: persistTaskAssignment_def demo_world_def sql_update_def claimable_def status_texts Let_def)
  then show ?thesis unfolding demo_claim_world_def by (metis prod.collapse)
qed

lemma demo_reclaims: "fst (reclaimOne demo_services later 1 ''n1'' demo_claim_world) = False"
proof -
  note c = claim_quiet [OF demo_claimed_api demo_quiet]
  have "snd (sql_update (\<lambda>r. assignment_key 1 ''n1'' r \<and> ta_active r) (expire_row later) (w_assignments demo_claim_world)) \<noteq> 0"
    using c(5) by (auto simp: sql_update_none)
  moreover have "sql_find (\<lambda>t. tk_id t = 1) (w_tasks demo_claim_world) \<noteq> None"
    using c(4) by (auto simp: world_owned_def sql_find_None)
  ultimately show ?thesis using c(1) by (auto simp: reclaimOne_def Let_def split: prod.split option.split)
qed

theorem upload_follows_lease_witness:
  "fst (validateUploadAssignment ''n1'' 1 (demo_api\<lparr>as_world := demo_claim_world\<rparr>)) = None \<and>
   fst (validateUploadAssignment ''n1'' 1
     (demo_api\<lparr>as_world := snd (reclaimOne demo_services 10 1 ''n1'' demo_claim_world)\<rparr>)) \<noteq> None"
proof -
  have r: "reclaimOne demo_services 10 1 ''n1'' demo_claim_world =
    (False, snd (reclaimOne demo_services 10 1 ''n1'' demo_claim_world))"
    using demo_reclaims [of 10] by (metis prod.collapse)
  show ?thesis using upload_follows_lease [OF demo_tables_ok demo_quiet demo_claimed_api r] by blast
qed

theorem edit_race_strands_node_witness:
  "let s2 = fst (supersede 7 ''p2'' None 1 demo_body (applyTaskPatch demo_body demo_body) (demo_api\<lparr>as_world := demo_claim_world\<rparr>))
   in fst (validateUploadAssignment ''n1'' 1 s2) = None"
  unfolding Let_def
  using edit_race_strands_node [OF demo_tables_ok demo_quiet demo_claimed_api prod.collapse [symmetric]] by blast


lemma demo_weight: "fmul (Fin 60) (CHw (float_or_0 (Some (Fin 2000))) (float_or_0 None)) = Fin 60"
  by (simp add: CHw_def DRefMM_def QERef_def float_or_0_def fround_numeral)


end
