(* ===== verification/CampaignProps.thy ===== *)
theory CampaignProps
  imports TaskProps
begin

text \<open>
  What the campaign endpoints promise: the effect of a publication, a single expansion of every campaign,
  the effect of applying a coverage plan, and the range of the duty cycle.
\<close>

section \<open>One access\<close>

lemma cd_exec_run:
  assumes "cd_exec f s = (r, s')"
  obtains (failed) a where "api_outcome (cd_api s) = (Failed, a)" "r = Inl DbError" "s' = s\<lparr>cd_api := a\<rparr>"
  | (ran) oc a n where "api_outcome (cd_api s) = (oc, a)" "f (s\<lparr>cd_api := a\<rparr>) = (s', n)"
      "r = (if oc = Lost then Inl DbError else Inr n)"
  using assms by (auto simp: cd_exec_def on_api_def split: prod.splits if_splits)

lemma owner_run:
  assumes "on_api (assertCampaignOwner cid user) s = (e, s')"
  obtains a where "same_data (cd_api s) a" "s' = s\<lparr>cd_api := a\<rparr>" "e = None \<Longrightarrow> as_owner (cd_api s) cid = Some user"
proof -
  obtain q a where q: "api_read (\<lambda>s. as_owner s cid) (cd_api s) = (q, a)" by force
  note k = api_read_same [OF q]
  have "s' = s\<lparr>cd_api := a\<rparr>" "e = None \<Longrightarrow> as_owner (cd_api s) cid = Some user"
    using assms q same_dataD(8) [OF k]
    by (auto simp: on_api_def assertCampaignOwner_def elim!: api_read_run split: sum.splits prod.splits if_splits)
  with k show thesis by (rule that)
qed

section \<open>Publication\<close>

text \<open>The rows a list of specifications becomes, with ids from \<open>i\<close> on.\<close>

fun task_rows :: "gotime \<Rightarrow> string \<Rightarrow> int \<Rightarrow> task_spec list \<Rightarrow> task_row list" where
  "task_rows now cid i [] = []"
| "task_rows now cid i (sp # sps) = campaign_task_row now i cid 0 sp # task_rows now cid (i + 1) sps"

lemma length_task_rows [simp]: "length (task_rows now cid i sps) = length sps"
  by (induction sps arbitrary: i) simp_all

lemma inserted_rows:
  "w_tasks (as_world (fold (insertCampaignTask now uuid cid 0) sps a)) = w_tasks (as_world a) @ task_rows now cid (as_next_id a) sps"
  "w_campaigns (as_world (fold (insertCampaignTask now uuid cid 0) sps a)) = w_campaigns (as_world a)"
  by (induction sps arbitrary: a) (simp_all add: insertCampaignTask_def Let_def)

lemma activate_simps [simp]:
  "w_tasks (as_world (cd_api (activate cid s))) = w_tasks (as_world (cd_api s))" "cd_cols (activate cid s) = cd_cols s"
  "w_campaigns (as_world (cd_api (activate cid s))) =
     map (\<lambda>c. if ca_id c = cid then c\<lparr>ca_status := StatusActive\<rparr> else c) (w_campaigns (as_world (cd_api s)))"
  by (simp_all add: activate_def update_campaigns_def sql_update_def)

lemma find_activated:
  "sql_find (\<lambda>c. ca_id c = cid) cs = Some c \<Longrightarrow>
   sql_find (\<lambda>c. ca_id c = cid) (map (\<lambda>c. if ca_id c = cid then c\<lparr>ca_status := st\<rparr> else c) cs) = Some (c\<lparr>ca_status := st\<rparr>)"
  by (induction cs) (auto simp: sql_find_def split: if_splits)

text \<open>What a publication did to the data, by its answer.\<close>

definition published ::
  "pack_codec \<Rightarrow> services \<Rightarrow> gotime \<Rightarrow> string \<Rightarrow> campaign_db \<Rightarrow> campaign_db \<Rightarrow> bool" where
  "published C S now cid s s' \<longleftrightarrow>
     (\<exists>c m. campaign_by_id cid s = Some c \<and> ca_status c \<noteq> StatusArchived \<and> cd_cols s cid = Some m \<and>
        campaign_by_id cid s' = Some (c\<lparr>ca_status := StatusActive\<rparr>) \<and>
        (if cm_expanded m \<noteq> None
         then w_tasks (as_world (cd_api s')) = w_tasks (as_world (cd_api s)) \<and> cd_cols s' = cd_cols s
         else (\<exists>specs. publish_specs C S (cm_test_only m) (cm_hook_approved m) (ca_pack c) = Inr specs \<and>
           w_tasks (as_world (cd_api s')) = w_tasks (as_world (cd_api s)) @ task_rows now cid (as_next_id (cd_api s)) specs \<and>
           cd_cols s' = (cd_cols s)(cid \<mapsto> m\<lparr>cm_expanded := Some now\<rparr>))))"

definition undisturbed :: "campaign_db \<Rightarrow> campaign_db \<Rightarrow> bool" where
  "undisturbed s s' \<longleftrightarrow> cd_cols s' = cd_cols s \<and> same_data (cd_api s) (cd_api s')"

lemma publish_tx_cases:
  "publish_tx C S now uuid cid s = (s', p) \<Longrightarrow> (case p of PubDone n \<Rightarrow> published C S now cid s s' | _ \<Rightarrow> s' = s)"
  by (auto simp: publish_tx_def published_def campaign_by_id_def find_activated inserted_rows
      split: option.splits if_splits sum.splits)


text \<open>Events leave the tables alone.\<close>

definition same_tables :: "api_state \<Rightarrow> api_state \<Rightarrow> bool" where
  "same_tables a b \<longleftrightarrow> w_tasks (as_world b) = w_tasks (as_world a) \<and> w_campaigns (as_world b) = w_campaigns (as_world a) \<and>
     w_assignments (as_world b) = w_assignments (as_world a) \<and> as_next_id b = as_next_id a \<and> as_extra b = as_extra a"

interpretation tables: respected same_tables
  by unfold_locales (auto simp: same_tables_def)

lemma same_data_tables: "same_data a b \<Longrightarrow> same_tables a b"
  by (simp add: same_tables_def same_dataD)

lemma emit_tables: "same_tables a (emitCampaignUpdate cid ty msg t a)"
proof -
  obtain q a1 where q: "api_read (\<lambda>a. as_owner a cid) a = (q, a1)" by force
  note 1 = same_data_tables [OF api_read_same [OF q]]
  have 2: "same_tables a1 (emitResearcherEvent e a1)" for e
  proof -
    obtain r a2 where r: "api_exec (\<lambda>s. (s\<lparr>as_events := as_events s @ [e]\<rparr>, ())) a1 = (r, a2)" by force
    then have "same_tables a1 a2"
      by (cases rule: api_exec_run) (auto simp: same_tables_def api_outcome_keeps)
    with r show ?thesis by (simp add: emitResearcherEvent_def tables.reflexive)
  qed
  show ?thesis using q 1 tables.transitive [OF 1 2] by (simp add: emitCampaignUpdate_def split: sum.split option.split)
qed

lemma published_cong:
  assumes "published C S now cid s s'" "same_tables (cd_api s0) (cd_api s)" "cd_cols s = cd_cols s0"
    "same_tables (cd_api s') (cd_api s1)" "cd_cols s1 = cd_cols s'"
  shows "published C S now cid s0 s1"
proof -
  have e: "w_tasks (as_world (cd_api s)) = w_tasks (as_world (cd_api s0))" "as_next_id (cd_api s) = as_next_id (cd_api s0)"
    "w_campaigns (as_world (cd_api s)) = w_campaigns (as_world (cd_api s0))"
    "w_tasks (as_world (cd_api s')) = w_tasks (as_world (cd_api s1))" "cd_cols s' = cd_cols s1"
    "w_campaigns (as_world (cd_api s')) = w_campaigns (as_world (cd_api s1))"
    using assms(2,4,5) by (simp_all add: same_tables_def)
  show ?thesis using assms(1) unfolding published_def campaign_by_id_def e assms(3) .
qed

lemma publish_cases:
  assumes "handlePublishCampaign C S now uuid caller cid s = (r, s')"
  shows "rs_code r = 200 \<and> (\<exists>user. cl_user caller = Some user \<and> as_owner (cd_api s) cid = Some user) \<and> published C S now cid s s' \<or>
    rs_code r = 500 \<and> (undisturbed s s' \<or> published C S now cid s s') \<or> rs_code r \<notin> {200, 500} \<and> undisturbed s s'"
proof (cases "cl_user caller")
  case None
  then show ?thesis using assms by (auto simp: handlePublishCampaign_def unauthenticated_def writeError_def undisturbed_def)
next
  case (Some user)
  obtain e s1 where o: "on_api (assertCampaignOwner cid user) s = (e, s1)" by force
  from o obtain a where a: "same_data (cd_api s) a" "s1 = s\<lparr>cd_api := a\<rparr>" "e = None \<Longrightarrow> as_owner (cd_api s) cid = Some user"
    by (rule owner_run) blast
  then have u1: "undisturbed s s1" by (simp add: undisturbed_def)
  show ?thesis
  proof (cases e)
    case (Some e')
    then show ?thesis using assms \<open>cl_user caller = Some user\<close> o u1 by (auto simp: handlePublishCampaign_def writeError_def)
  next
    case None
    obtain q s2 where q: "cd_exec (publish_tx C S now uuid cid) s1 = (q, s2)" by force
    have r: "(r, s') = (case q of Inl e \<Rightarrow> (writeError 500 ''Database error'', s2)
        | Inr PubMissing \<Rightarrow> (writeError 404 ''Campaign not found'', s2)
        | Inr PubArchived \<Rightarrow> (writeError 409 ''Cannot publish archived campaign'', s2)
        | Inr (PubRejected e) \<Rightarrow> (writeError (if e = ErrHookNotApproved then 403 else 400) (pkc_error C e), s2)
        | Inr PubCheck \<Rightarrow> (writeError 500 ''Database error'', s2)
        | Inr (PubDone n) \<Rightarrow>
            (\<lparr>rs_code = 200, rs_body = [(''id'', cid), (''status'', ''active''), (''tasks_created'', Itoa (int n))]\<rparr>,
             snd (on_api (\<lambda>a. ((), emitCampaignUpdate cid ''campaign.published'' ''Campaign published and tasks expanded'' None a)) s2)))"
      using assms \<open>cl_user caller = Some user\<close> o None q
      by (simp add: handlePublishCampaign_def split: sum.splits publish_result.splits)
    from q show ?thesis
    proof (cases rule: cd_exec_run)
      case (failed b)
      then have "undisturbed s s2" using a api_outcome_same [OF failed(1)] same_data_trans by (auto simp: undisturbed_def)
      with r failed show ?thesis by (simp add: writeError_def)
    next
      case (ran oc b p)
      let ?s = "s1\<lparr>cd_api := b\<rparr>"
      have sb: "same_data (cd_api s) b" using a api_outcome_same [OF ran(1)] same_data_trans by auto
      have tb: "same_tables (cd_api s) (cd_api ?s)" "cd_cols ?s = cd_cols s" using same_data_tables [OF sb] a(2) by simp_all
      note p = publish_tx_cases [OF ran(2)]
      have un: "undisturbed s s2" if "s2 = ?s" using that sb a(2) by (simp add: undisturbed_def)
      show ?thesis
      proof (cases "\<exists>n. p = PubDone n")
        case False
        then have "s2 = ?s" using p by (cases p) auto
        then show ?thesis using r ran(3) un False
          by (cases p) (auto simp: writeError_def split: if_splits)
      next
        case True
        then obtain n where n: "p = PubDone n" by blast
        with p have pub: "published C S now cid ?s s2" by simp
        have pubs: "published C S now cid s s2" by (rule published_cong [OF pub tb]) (simp_all add: tables.reflexive)
        show ?thesis
        proof (cases "oc = Lost")
          case True
          then show ?thesis using r ran(3) pubs by (simp add: writeError_def)
        next
          case False
          then have "rs_code r = 200" "s' = snd (on_api (\<lambda>a. ((), emitCampaignUpdate cid ''campaign.published''
              ''Campaign published and tasks expanded'' None a)) s2)" using r ran(3) n by simp_all
          moreover from this(2) have "published C S now cid s s'"
            by (intro published_cong [OF pub tb]) (simp_all add: on_api_def emit_tables)
          ultimately show ?thesis using a(3) None \<open>cl_user caller = Some user\<close> by simp
        qed
      qed
    qed
  qed
qed

text \<open>C20: An accepted publication comes from the owner, meets a campaign that is not archived, makes it active, and
  expands its pack into one pending task per specification under fresh ids exactly when it was never expanded
  before; a refusal other than a database error changes nothing.\<close>

theorem publish_exact:
  assumes "handlePublishCampaign C S now uuid caller cid s = (r, s')"
  shows "(rs_code r = 200 \<longrightarrow> (\<exists>user. cl_user caller = Some user \<and> as_owner (cd_api s) cid = Some user) \<and> published C S now cid s s') \<and>
    (rs_code r \<notin> {200, 500} \<longrightarrow> undisturbed s s')"
  using publish_cases [OF assms] by auto

section \<open>A campaign is expanded once\<close>

definition expansions_kept :: "campaign_db \<Rightarrow> campaign_db \<Rightarrow> bool" where
  "expansions_kept s s' \<longleftrightarrow>
     (\<forall>cid m t. cd_cols s cid = Some m \<and> cm_expanded m = Some t \<longrightarrow> (\<exists>m'. cd_cols s' cid = Some m' \<and> cm_expanded m' = Some t))"

interpretation kept: campaign_relation expansions_kept
  by unfold_locales
    (fastforce simp: expansions_kept_def create_tx_def insert_campaign_def publish_tx_def add_task_tx_def Let_def
      split: option.splits sum.splits)+

text \<open>C19: A campaign is expanded at most once: after a publication that created tasks, whatever other requests to the
  campaign endpoints follow and whatever fails, no later publication of the campaign creates a task.\<close>

theorem expanded_once:
  assumes "handlePublishCampaign C S now uuid caller cid s = (r, s1)"
    and "length (w_tasks (as_world (cd_api s1))) > length (w_tasks (as_world (cd_api s)))"
    and "handlePublishCampaign C' S' now' uuid' caller' cid (fold (campaign_step S C D) reqs s1) = (r', s2)"
  shows "w_tasks (as_world (cd_api s2)) = w_tasks (as_world (cd_api (fold (campaign_step S C D) reqs s1)))"
proof -
  let ?s = "fold (campaign_step S C D) reqs s1"
  have "\<not> undisturbed s s1" using assms(2) by (auto simp: undisturbed_def same_dataD)
  with publish_cases [OF assms(1)] have "published C S now cid s s1" by auto
  then obtain m where "cd_cols s1 cid = Some m" "cm_expanded m = Some now"
    using assms(2) by (auto simp: published_def split: if_splits)
  moreover have "expansions_kept s1 ?s" by (rule kept.folds [OF kept.reflexive kept.campaign_step_moves])
  ultimately obtain m' where m': "cd_cols ?s cid = Some m'" "cm_expanded m' = Some now"
    unfolding expansions_kept_def by blast
  have "undisturbed ?s s2 \<or> published C' S' now' cid ?s s2" using publish_cases [OF assms(3)] by auto
  then show ?thesis using m' by (auto simp: undisturbed_def same_dataD published_def)
qed


section \<open>Applying a coverage plan\<close>

abbreviation rows_of :: "campaign_db \<Rightarrow> task_row list" where
  "rows_of s \<equiv> w_tasks (as_world (cd_api s))"

definition same_rows :: "campaign_db \<Rightarrow> campaign_db \<Rightarrow> bool" where
  "same_rows s s' \<longleftrightarrow> rows_of s' = rows_of s"

interpretation rows: campaign_access same_rows
  by unfold_locales (auto simp: same_rows_def api_outcome_keeps update_campaigns_def split: prod.split)

definition opened :: "gotime \<Rightarrow> string \<Rightarrow> task_row list \<Rightarrow> task_row list" where
  "opened now cid = map (\<lambda>t. if tk_campaign t = Some cid \<and> \<not> finished_task t then roll_window now t else t)"

definition closed :: "gotime \<Rightarrow> string \<Rightarrow> task_row list \<Rightarrow> task_row list" where
  "closed now cid = map (\<lambda>t. if tk_campaign t = Some cid \<and> \<not> finished_task t
     then t\<lparr>tk_scheduled_end := None, tk_handoff_lead := None, tk_updated := now\<rparr> else t)"

lemma window_rows:
  "rows_of (s\<lparr>cd_api := fst (open_window now cid (cd_api s))\<rparr>) = opened now cid (rows_of s)"
  "rows_of (s\<lparr>cd_api := fst (close_window now cid (cd_api s))\<rparr>) = closed now cid (rows_of s)"
  by (simp_all add: open_window_def close_window_def update_tasks_def sql_update_def opened_def closed_def)

lemma exec_rows:
  assumes "on_api (api_exec f) s = (r, s')" "\<And>a. w_tasks (as_world (fst (f a))) = g (w_tasks (as_world a))"
  shows "rows_of s' \<in> {rows_of s, g (rows_of s)}" "\<not> isl r \<Longrightarrow> rows_of s' = g (rows_of s)"
proof -
  obtain a where e: "api_exec f (cd_api s) = (r, a)" "s' = s\<lparr>cd_api := a\<rparr>"
    using assms(1) by (auto simp: on_api_def split: prod.splits)
  from e(1) have "rows_of s' \<in> {rows_of s, g (rows_of s)} \<and> (\<not> isl r \<longrightarrow> rows_of s' = g (rows_of s))"
  proof (cases rule: api_exec_run)
    case failed
    then show ?thesis using e(2) by (simp add: api_outcome_keeps)
  next
    case (ran oc a1 n)
    then show ?thesis using e(2) assms(2) [of a1] by (simp add: api_outcome_keeps)
  qed
  then show "rows_of s' \<in> {rows_of s, g (rows_of s)}" "\<not> isl r \<Longrightarrow> rows_of s' = g (rows_of s)" by auto
qed

lemma window_fun:
  "w_tasks (as_world (fst (open_window now cid a))) = opened now cid (w_tasks (as_world a))"
  "w_tasks (as_world (fst (close_window now cid a))) = closed now cid (w_tasks (as_world a))"
  by (simp_all add: open_window_def close_window_def update_tasks_def sql_update_def opened_def closed_def)

text \<open>The windows after an application, by the intent and the plan.\<close>

definition applied :: "gotime \<Rightarrow> string \<Rightarrow> coverage_reply \<Rightarrow> task_row list \<Rightarrow> task_row list \<Rightarrow> bool" where
  "applied now cid rep ts ts' \<longleftrightarrow>
     (case rep of
        CoveragePlanned code b plan n \<Rightarrow>
          (if IsHard b \<and> ci_Enabled b \<and> pl_GateStatus plan = ''failed'' then code = 409 \<and> ts' = ts
           else code = 200 \<and>
             (if \<not> ci_Enabled b then ts' \<in> {ts, closed now cid ts}
              else ts' = (if pl_GateStatus plan = ''failed'' then ts else opened now cid ts)))
      | _ \<Rightarrow> ts' \<in> {ts, opened now cid ts})"

lemma apply_plan_rows:
  assumes "apply_plan C now cid b plan s = (rep, s')"
  shows "applied now cid rep (rows_of s) (rows_of s')"
proof (cases "IsHard b \<and> ci_Enabled b \<and> pl_GateStatus plan = ''failed''")
  case True
  then show ?thesis using assms by (auto simp: apply_plan_def applied_def)
next
  case False
  obtain e s1 where p: "persistCampaignCoveragePlan C now cid b plan s = (e, s1)" by force
  have r1: "rows_of s1 = rows_of s"
    using rows.persist_moves [of s cid "if ci_Enabled b then ccv_set_plan C now b plan else ccv_set_intent C b"] p
    by (simp add: persistCampaignCoveragePlan_def same_rows_def)
  show ?thesis
  proof (cases e)
    case True
    with False p assms r1 show ?thesis by (auto simp: apply_plan_def applied_def db_down_def)
  next
    case ok: False
    have upd: "rows_of (campaign_update cid ty msg t) = rows_of t" for ty msg t
      using rows.campaign_update_moves by (simp add: same_rows_def)
    consider "ci_Enabled b" "pl_GateStatus plan \<noteq> ''failed''" | "ci_Enabled b" "pl_GateStatus plan = ''failed''" | "\<not> ci_Enabled b"
      by blast
    then show ?thesis
    proof cases
      case 1
      obtain r s2 where o: "on_api (api_exec (open_window now cid)) s1 = (r, s2)" by force
      note w = exec_rows [OF o window_fun(1)]
      show ?thesis using assms False p ok 1 o w r1 upd
        by (auto simp: apply_plan_def applied_def db_down_def Let_def split_def split: sum.splits)
    next
      case 2
      then show ?thesis using assms False p ok r1 upd
        by (auto simp: apply_plan_def applied_def Let_def split_def)
    next
      case 3
      obtain r s2 where o: "on_api (api_exec (close_window now cid)) s1 = (r, s2)" by force
      note w = exec_rows [OF o window_fun(2)]
      show ?thesis using assms False p ok 3 o w(1) r1 upd
        by (auto simp: apply_plan_def applied_def Let_def split_def)
    qed
  qed
qed



section \<open>The figures of the coverage achieved\<close>

lemma f2i_range: "f2i x < 2 ^ 63"
  by (cases x) (auto simp: Let_def int64_ok_def)

lemma i2f_range:
  assumes "1 \<le> k" "k \<le> n" "n < 2 ^ 63"
  obtains a b where "i2f k = Fin a" "i2f n = Fin b" "1 \<le> a" "a \<le> b"
proof -
  have hi: "fround (2 ^ 63) = Fin (2 ^ 63)" using fround_exact [of 1 63] by (simp add: two_pow_def)
  have "(of_int n :: rat) \<le> of_int (2 ^ 63)" using assms(3) by (simp only: of_int_le_iff)
  then have "(of_int n :: rat) \<le> 2 ^ 63" by simp
  then obtain b where b: "i2f n = Fin b"
    using fround_between [OF fround_1 hi, of "of_int n"] assms by (auto simp: i2f_def)
  have "(of_int k :: rat) \<le> of_int n" "1 \<le> (of_int k :: rat)" using assms(1,2) by simp_all
  from this [THEN fround_mono] have "fle (i2f k) (i2f n)" "fle (fround 1) (i2f k)"
    by (simp_all only: i2f_def)
  then show thesis using b by (cases "i2f k") (auto simp: fle_def intro: that)
qed

lemma bin_of_range: "1 \<le> bins \<Longrightarrow> bin_of start binMin bins t \<in> {0..<bins}"
  by (auto simp: bin_of_def Let_def)

lemma duty_range:
  assumes "ts \<noteq> []" shows "fle (Fin 0) (duty_cycle binMin ts) \<and> fle (duty_cycle binMin ts) (Fin 1)"
proof (cases "hd ts < last ts")
  case False
  then show ?thesis by (simp add: duty_cycle_def Let_def)
next
  case True
  define bins where "bins = (let n = f2i (fCeil (fdiv (Minutes (last ts - hd ts)) binMin)) in if n < 1 then 1 else n)"
  have bins: "1 \<le> bins" "bins < 2 ^ 63"
    using f2i_range [of "fCeil (fdiv (Minutes (last ts - hd ts)) binMin)"] by (auto simp: bins_def Let_def)
  let ?b = "bin_of (hd ts) binMin bins"
  have "?b ` set ts \<subseteq> {0..<bins}" using bin_of_range [OF bins(1)] by auto
  then have "card (?b ` set ts) \<le> nat bins" using card_mono [of "{0..<bins}"] by fastforce
  moreover have "length (remdups (map ?b ts)) = card (?b ` set ts)" by (simp add: length_remdups_card_conv)
  moreover have "1 \<le> card (?b ` set ts)" using assms by (simp add: Suc_le_eq card_gt_0_iff)
  ultimately have k: "1 \<le> int (length (remdups (map ?b ts)))" "int (length (remdups (map ?b ts))) \<le> bins" using bins(1) by linarith+
  from i2f_range [OF this bins(2)] obtain a b where
    ab: "i2f (int (length (remdups (map ?b ts)))) = Fin a" "i2f bins = Fin b" "1 \<le> a" "a \<le> b" .
  then have q: "0 \<le> a / b" "a / b \<le> 1" "b \<noteq> 0" by (auto simp: field_simps)
  then have "fle (fround 0) (fround (a / b))" "fle (fround (a / b)) (fround 1)" by (simp_all only: fround_mono)
  then show ?thesis using True ab q by (simp add: duty_cycle_def Let_def bins_def [unfolded Let_def, symmetric])
qed

lemma flt_le_trans: "g \<noteq> NaN \<Longrightarrow> \<not> flt r g \<Longrightarrow> flt r m \<Longrightarrow> flt g m"
  by (cases g; cases r; cases m) auto

lemma realized_gap_ge: "g \<noteq> NaN \<Longrightarrow> \<not> flt (realized_gap g ts) g"
proof (induction g ts rule: realized_gap.induct)
  case (1 g a b ts)
  let ?m = "Minutes (b - a)"
  have "\<not> flt (realized_gap (if flt g ?m then ?m else g) (b # ts)) (if flt g ?m then ?m else g)"
    by (rule 1(1)) (use 1(2) in auto)
  then show ?case using flt_trans [of "realized_gap ?m (b # ts)" g ?m] by (auto split: if_splits)
qed auto

lemma realized_gap_bound:
  "g \<noteq> NaN \<Longrightarrow> Suc i < length ts \<Longrightarrow> \<not> flt (realized_gap g ts) (Minutes (ts ! Suc i - ts ! i))"
proof (induction g ts arbitrary: i rule: realized_gap.induct)
  case (1 g a b ts)
  let ?m = "Minutes (b - a)" and ?g = "if flt g (Minutes (b - a)) then Minutes (b - a) else g"
  have nn: "?g \<noteq> NaN" using 1(2) by auto
  show ?case
  proof (cases i)
    case 0
    then show ?thesis using realized_gap_ge [OF nn, of "b # ts"] flt_le_trans [OF 1(2), of "realized_gap g (b # ts)" ?m]
      by (auto split: if_splits)
  next
    case (Suc j)
    then show ?thesis using 1(1) [OF nn, of j] 1(3) by simp
  qed
qed auto

text \<open>The coverage figures are in range: the duty cycle lies between 0 and 1, and no two consecutive frames are
  further apart than the reported gap.\<close>

theorem coverage_figures_sound:
  "let f = coverage_figures intent binMin frames; ts = map (\<lambda>(_, _, t). t) (filter (\<lambda>(tel, _). tel \<noteq> []) frames)
   in fle (Fin 0) (cf_duty f) \<and> fle (cf_duty f) (Fin 1) \<and>
      (\<forall>g i. cf_realized_gap f = Some g \<and> Suc i < length ts \<longrightarrow> \<not> flt g (Minutes (ts ! Suc i - ts ! i)))"
proof -
  let ?ts = "map (\<lambda>(_, _, t). t) (filter (\<lambda>(tel, _). tel \<noteq> []) frames)"
  have d: "cf_duty (coverage_figures intent binMin frames) =
      (if 2 \<le> length ?ts then duty_cycle binMin ?ts else if length ?ts = 1 then Fin 1 else Fin 0)"
    and g: "cf_realized_gap (coverage_figures intent binMin frames) = (if 2 \<le> length ?ts then Some (realized_gap (Fin 0) ?ts) else None)"
    by (simp_all add: coverage_figures_def Let_def split_def)
  have "?ts \<noteq> []" if "2 \<le> length ?ts" using that by (auto simp del: length_map)
  then have "fle (Fin 0) (cf_duty (coverage_figures intent binMin frames)) \<and> fle (cf_duty (coverage_figures intent binMin frames)) (Fin 1)"
    unfolding d using duty_range [of ?ts binMin] by (auto simp del: length_map)
  then show ?thesis unfolding Let_def using g realized_gap_bound [of "Fin 0" _ ?ts] by (auto split: if_splits simp del: length_map)
qed


section \<open>Examples\<close>

definition demo_pc :: pack_codec where
  "demo_pc = \<lparr>pkc_keys = (\<lambda>_. Some [''name'']), pkc_strict = (\<lambda>_. Some demo_pack), pkc_encode = (\<lambda>_. ''p''),
     pkc_stars = (\<lambda>_. Some ''[]''), pkc_fmt4 = (\<lambda>_. []), pkc_error = (\<lambda>_. ''bad''), pkc_time = (\<lambda>_. ''t'')\<rparr>"

definition demo_pack_services :: services where
  "demo_pack_services = demo_services\<lparr>sv_decode_pack := (\<lambda>_. Some demo_pack)\<rparr>"

definition demo_cols :: campaign_cols where
  "demo_cols = \<lparr>cm_name = ''M31'', cm_description = [], cm_test_only = False, cm_comp_stars = ''[]'', cm_created = 0,
     cm_expanded = None, cm_hook_approved = False, cm_multiplier = Fin 1\<rparr>"

definition demo_cd :: "task_row list \<Rightarrow> campaign_db" where
  "demo_cd ts = \<lparr>cd_api = demo_api\<lparr>as_world := demo_world\<lparr>w_tasks := ts,
       w_campaigns := [\<lparr>ca_id = ''c1'', ca_status = StatusDraft, ca_pack = ''p'', ca_pier_code_disabled = False\<rparr>]\<rparr>,
       as_owner := [''c1'' \<mapsto> ''u1'']\<rparr>, cd_cols = [''c1'' \<mapsto> demo_cols]\<rparr>"

lemma quiet_on_api:
  assumes "w_faults (as_world (cd_api s)) = []"
  shows "on_api (assertCampaignOwner cid user) s = (if as_owner (cd_api s) cid = Some user then None else Some NoRows, s)"
    "cd_exec f s = (Inr (snd (f s)), fst (f s))" "cd_read g s = (Inr (g s), s)"
    "on_api (api_exec h) s = (Inr (snd (h (cd_api s))), s\<lparr>cd_api := fst (h (cd_api s))\<rparr>)"
  using assms by (simp_all add: on_api_def assertCampaignOwner_def quiet_read cd_exec_def cd_read_def quiet_api
      quiet_exec_api split: prod.split)

lemma demo_specs:
  "publish_specs demo_pc demo_pack_services False False raw = (if raw = [] then Inl PackRequired else
     Inr [spec_of (\<lambda>_. []) demo_pack demo_target ''V'', spec_of (\<lambda>_. []) demo_pack demo_target ''R''])"
proof -
  have h: "ValidateHookPublish (Some demo_pack) False = None"
    by (simp add: ValidateHookPublish_def ValidateHookFields_def HasScienceHook_def demo_pack_def normalizedHookPlacement_def)
  have "demo_pack\<lparr>pack_TestOnly := False\<rparr> = demo_pack" by (simp add: demo_pack_def)
  then show ?thesis
    by (simp add: publish_specs_def demo_pc_def demo_pack_services_def ValidateStoredPackJSON_def validatePackObjectKeys_def
        clientPackKeys_def ParsePack_def Let_def demo_pack_expands demo_services_def h)
qed

lemma demo_published:
  "rs_code (fst (handlePublishCampaign demo_pc demo_pack_services 5 (\<lambda>_. ''p9'') demo_user ''c1'' (demo_cd [demo_row]))) = 200"
  by (simp add: handlePublishCampaign_def demo_user_def demo_cd_def quiet_on_api demo_world_def publish_tx_def
      campaign_by_id_def sql_find_def StatusDraft_def StatusArchived_def demo_cols_def demo_specs spec_mode_def
      mode_allowed_def spec_of_def demo_pack_def NormalizedProductMode_def is_space_def TrimSpace_def)


theorem publish_exact_witness:
  "published demo_pc demo_pack_services 5 ''c1'' (demo_cd [demo_row])
     (snd (handlePublishCampaign demo_pc demo_pack_services 5 (\<lambda>_. ''p9'') demo_user ''c1'' (demo_cd [demo_row])))"
  using publish_exact [OF prod.collapse [symmetric], of demo_pc demo_pack_services 5 "\<lambda>_. ''p9''" demo_user "''c1''" "demo_cd [demo_row]"]
    demo_published by simp

definition demo_cov :: coverage_api_codec where
  "demo_cov = \<lparr>ccv_sql_enabled = (\<lambda>_. True), ccv_set_plan = (\<lambda>_ _ _ _. Some ''q''), ccv_fetch = (\<lambda>_ _. Fin 1),
     ccv_set_intent = (\<lambda>_ _. Some ''q''), ccv_error = (\<lambda>_. ''bad'')\<rparr>"

lemma demo_grows:
  assumes "published demo_pc demo_pack_services 5 ''c1'' (demo_cd [demo_row]) s"
  shows "length (w_tasks (as_world (cd_api s))) = 3"
  using assms by (auto simp: published_def demo_cd_def demo_cols_def demo_world_def demo_specs campaign_by_id_def sql_find_def)

theorem expanded_once_witness:
  "let s1 = snd (handlePublishCampaign demo_pc demo_pack_services 5 (\<lambda>_. ''p9'') demo_user ''c1'' (demo_cd [demo_row]));
       s2 = campaign_step demo_pack_services demo_pc demo_cov (PauseCampaign demo_user ''c1'') s1
   in rows_of (snd (handlePublishCampaign demo_pc demo_pack_services 7 (\<lambda>_. ''p8'') demo_user ''c1'' s2)) = rows_of s2"
proof -
  let ?s1 = "snd (handlePublishCampaign demo_pc demo_pack_services 5 (\<lambda>_. ''p9'') demo_user ''c1'' (demo_cd [demo_row]))"
  have "published demo_pc demo_pack_services 5 ''c1'' (demo_cd [demo_row]) ?s1"
    using publish_cases [OF prod.collapse [symmetric], of demo_pc demo_pack_services 5 "\<lambda>_. ''p9''" demo_user "''c1''" "demo_cd [demo_row]"]
      demo_published by simp
  then have g: "length (rows_of ?s1) > length (rows_of (demo_cd [demo_row]))"
    using demo_grows by (simp add: demo_cd_def)
  show ?thesis unfolding Let_def
    using expanded_once [OF prod.collapse [symmetric] g prod.collapse [symmetric],
        where D = demo_cov and reqs = "[PauseCampaign demo_user ''c1'']" and C' = demo_pc
          and S' = demo_pack_services and now' = 7 and uuid' = "\<lambda>_. ''p8''" and caller' = demo_user] by simp
qed

definition hard_coverage :: coverage_intent where
  "hard_coverage = DefaultIntent\<lparr>ci_Enabled := True, ci_Mode := ''hard''\<rparr>"

lemma hard_coverage_simps [simp]:
  "NormalizeIntent hard_coverage = hard_coverage" "IsHard hard_coverage" "ci_Enabled hard_coverage"
  by code_simp+

text \<open>Without any telescope a plan has the status \<open>insufficient_data\<close>, which the gate of the hard mode lets pass.\<close>

lemma plan_without_sites: "ci_Enabled i \<Longrightarrow> pl_GateStatus (GreedyFill i [] ra dec fs emu) = ''insufficient_data''"
  by (simp add: GreedyFill_def Let_def)

definition demo_covered :: task_row where
  "demo_covered = demo_row\<lparr>tk_campaign := Some ''c1''\<rparr>"

lemma hard_mode_without_sites:
  "\<exists>plan n. fst (handleApplyCampaignCoverage demo_pack_services demo_cov 5 [] demo_user ''c1'' (Some hard_coverage) (demo_cd [demo_covered]))
     = CoveragePlanned 200 hard_coverage plan n \<and> pl_GateStatus plan = ''insufficient_data''"
  by (simp add: handleApplyCampaignCoverage_def as_owner_of_def demo_user_def demo_cd_def quiet_on_api demo_world_def
      persistCampaignCoverage_def persistCampaignCoveragePlan_def persist_pack_def campaign_by_id_def sql_find_def demo_cov_def
      update_campaigns_def sql_update_def loadCoverageTarget_def loadCoverageSites_def ParsePack_def demo_pack_services_def
      demo_services_def plan_without_sites apply_plan_def open_window_def update_tasks_def Let_def EnrichWeather_def split_def)


theorem coverage_figures_sound_witness:
  "fle (cf_duty (coverage_figures hard_coverage (Fin 15) [(''n1'', Fin 10, 0), (''n2'', Fin 20, hour)])) (Fin 1)"
  using coverage_figures_sound [of hard_coverage "Fin 15" "[(''n1'', Fin 10, 0), (''n2'', Fin 20, hour)]"]
  by (simp only: Let_def)

section \<open>Rows that other endpoints cannot read\<close>

text \<open>A task of a campaign leaves the columns empty that an edit must read, so no edit of it succeeds; and one added
  without an integration time makes the list of its campaign fail from then on.\<close>

lemma campaign_tasks_not_editable:
  assumes "task_by_id i s = Some (campaign_task_row now i cid p sp)" shows "existing_task i s = None"
  using assms by (simp add: existing_task_def campaign_task_row_def Let_def split: option.split)

lemma unset_integration_blocks_list:
  assumes "t \<in> set (rows_of s)" "tk_campaign t = Some cid" "tc_integration_time (tk_columns t) = None"
    "handleListCampaignTasks caller cid s = (r, s')"
  shows "isl r"
proof -
  have "scan_campaign_task a t = None" for a using assms(3) by (simp add: scan_campaign_task_def split: option.split)
  then have n: "w_tasks (as_world (cd_api z)) = rows_of s \<Longrightarrow>
      None \<in> set (map (scan_campaign_task (cd_api z)) (sort_key tk_id (filter (\<lambda>t. tk_campaign t = Some cid) (w_tasks (as_world (cd_api z))))))" for z
    using assms(1,2) by (auto simp: image_iff intro!: bexI [of _ t])
  show ?thesis
  proof (cases "cl_user caller")
    case None
    then show ?thesis using assms(4) by (auto simp: handleListCampaignTasks_def)
  next
    case (Some user)
    obtain e s1 where o: "on_api (assertCampaignOwner cid user) s = (e, s1)" by force
    have s1: "rows_of s1 = rows_of s" using rows.owner_moves [of s cid user] o by (simp add: same_rows_def)
    let ?f = "\<lambda>s. map (scan_campaign_task (cd_api s)) (sort_key tk_id (filter (\<lambda>t. tk_campaign t = Some cid) (w_tasks (as_world (cd_api s)))))"
    obtain q s2 where q: "cd_read ?f s1 = (q, s2)" by force
    have "rows_of s2 = rows_of s1" using rows.cd_read_moves [of s1 ?f] q by (simp add: same_rows_def)
    moreover have "q = Inr v \<Longrightarrow> v = ?f s2" for v using q by (auto simp: cd_read_def split: prod.splits if_splits)
    ultimately have "q = Inr v \<Longrightarrow> None \<in> set v" for v using n [of s2] s1 by simp
    then show ?thesis using assms(4) Some o q
      by (auto simp: handleListCampaignTasks_def split: option.splits sum.splits if_splits)
  qed
qed

end
