(* ===== verification/Grading.thy ===== *)
theory Grading
  imports TaskApi
begin

text \<open>
  Grades and points (\<open>shared/grading/\<close>): the scores of a frame, the points it earns and the reputation of
  its telescope.  A decoded document is a value of \<open>json\<close>; its numbers are \<open>float64\<close>, and \<open>JInt\<close> is an
  \<open>int\<close> that the code itself puts into a document.  \<open>math.Log1p\<close> and the parser of times are arguments.
\<close>

section \<open>Documents and constants\<close>

datatype json =
    JNull
  | JBool bool
  | JNumber f64
  | JInt int
  | JString string
  | JArray "json list"
  | JObject "string \<Rightarrow> json option"

type_synonym jmap = "string \<Rightarrow> json option"

definition object_at :: "jmap \<Rightarrow> string \<Rightarrow> jmap" where
  "object_at m key = (case m key of Some (JObject o1) \<Rightarrow> o1 | _ \<Rightarrow> Map.empty)"

text \<open>A decimal constant.\<close>

definition dec :: "int \<Rightarrow> nat \<Rightarrow> f64" where
  "dec n k = fround (of_int n / 10 ^ k)"

definition BasePoints :: f64 where "BasePoints = Fin 10"
definition ExptimeCapSeconds :: f64 where "ExptimeCapSeconds = Fin 60"
definition TenureLogScale :: f64 where "TenureLogScale = dec 5 2"
definition StackEligibleMinQuality :: f64 where "StackEligibleMinQuality = dec 3 1"
definition ReliabilityEMAAlpha :: f64 where "ReliabilityEMAAlpha = dec 15 2"
definition HeadlineEMAAlpha :: f64 where "HeadlineEMAAlpha = dec 1 1"
definition SNRFullCredit :: f64 where "SNRFullCredit = Fin 50"
definition SaturationPenaltyFraction :: f64 where "SaturationPenaltyFraction = dec 1 3"
definition NeutralFWHMScore :: f64 where "NeutralFWHMScore = Fin (1 / 2)"
definition FilterAbsentScore :: f64 where "FilterAbsentScore = dec 7 1"
definition CalibrationBonus :: f64 where "CalibrationBonus = dec 1 1"
definition CaptureLatencyFullSec :: f64 where "CaptureLatencyFullSec = Fin 1800"
definition UploadDurationFullSec :: f64 where "UploadDurationFullSec = Fin 300"
definition TimelinessCaptureWeight :: f64 where "TimelinessCaptureWeight = dec 6 1"
definition TimelinessUploadWeight :: f64 where "TimelinessUploadWeight = dec 4 1"
definition MissingTimelinessScore :: f64 where "MissingTimelinessScore = Fin (1 / 2)"

definition CheapDimensionWeights :: "(string \<times> f64) list" where
  "CheapDimensionWeights = [(''image_quality'', dec 40 2), (''task_fidelity'', dec 35 2), (''timeliness'', Fin (1 / 4))]"

definition ImageQualityWeights :: "string \<Rightarrow> f64" where
  "ImageQualityWeights k =
     (if k = ''snr'' then dec 45 2 else if k = ''saturation'' then dec 15 2 else if k = ''fwhm'' then dec 40 2 else Fin 0)"

definition CalibratedStatuses :: "string list" where
  "CalibratedStatuses = [''B'', ''D'', ''F'', ''BDF'', ''BD'', ''BF'', ''DF'']"

section \<open>Rounding\<close>

definition tie_eps :: rat where
  "tie_eps = 1 / 10 ^ 9"

definition roundHalfEven :: "f64 \<Rightarrow> f64" where
  "roundHalfEven x =
     (if is_NaN x \<or> is_Inf x then x
      else (let fl = fFloor x; diff = fsub x fl in
        if flt (fround (1 / 2 + tie_eps)) diff then fadd fl (Fin 1)
        else if flt diff (fround (1 / 2 - tie_eps)) then fl
        else if feq (fMod fl (Fin 2)) (Fin 0) then fl
        else fadd fl (Fin 1)))"

definition roundN :: "f64 \<Rightarrow> nat \<Rightarrow> f64" where
  "roundN v n = (let p = Fin (10 ^ n) in fdiv (roundHalfEven (fmul v p)) p)"

definition round1 :: "f64 \<Rightarrow> f64" where "round1 v = roundN v 1"
definition round2 :: "f64 \<Rightarrow> f64" where "round2 v = roundN v 2"
definition round4 :: "f64 \<Rightarrow> f64" where "round4 v = roundN v 4"
definition round6 :: "f64 \<Rightarrow> f64" where "round6 v = roundN v 6"

definition clamp :: "f64 \<Rightarrow> f64 \<Rightarrow> f64 \<Rightarrow> f64" where
  "clamp v lo hi = (if flt v lo then lo else if flt hi v then hi else v)"

definition unit_clamp :: "f64 \<Rightarrow> f64" where
  "unit_clamp v = clamp v (Fin 0) (Fin 1)"

section \<open>Reading a document\<close>

definition DimScore :: "jmap \<Rightarrow> string \<Rightarrow> f64" where
  "DimScore dimensions key =
     (case dimensions key of
        Some (JObject m) \<Rightarrow> (case m ''score'' of Some (JNumber x) \<Rightarrow> unit_clamp x | _ \<Rightarrow> Fin 0)
      | _ \<Rightarrow> Fin 0)"

definition floatFromAny :: "json option \<Rightarrow> f64 option" where
  "floatFromAny v = (case v of Some (JNumber x) \<Rightarrow> Some x | Some (JInt n) \<Rightarrow> Some (i2f n) | _ \<Rightarrow> None)"

definition stringFromAny :: "json option \<Rightarrow> string" where
  "stringFromAny v = (case v of Some (JString s) \<Rightarrow> s | _ \<Rightarrow> [])"

definition nilIfEmpty :: "string \<Rightarrow> json" where
  "nilIfEmpty s = (if s = [] then JNull else JString s)"

definition floatFromMap :: "jmap \<Rightarrow> string \<Rightarrow> f64" where
  "floatFromMap m key = (case floatFromAny (m key) of None \<Rightarrow> Fin 0 | Some x \<Rightarrow> x)"

definition intFromMap :: "jmap \<Rightarrow> string \<Rightarrow> int" where
  "intFromMap m key = (case m key of Some (JNumber x) \<Rightarrow> f2i x | Some (JInt n) \<Rightarrow> n | _ \<Rightarrow> 0)"

definition floatPtrFromMap :: "jmap \<Rightarrow> string \<Rightarrow> f64 option" where
  "floatPtrFromMap m key = floatFromAny (m key)"

definition ToUpper :: "string \<Rightarrow> string" where
  "ToUpper s = map (\<lambda>c. let n = (of_char c :: nat) in if 97 \<le> n \<and> n \<le> 122 then char_of (n - 32) else c) s"

definition parseISO8601 :: "(string \<Rightarrow> gotime option) \<Rightarrow> string \<Rightarrow> gotime option" where
  "parseISO8601 parse value =
     (let v = TrimSpace value in
      if v = [] then None
      else parse (if last v = CHR ''Z'' then butlast v @ ''+00:00'' else v))"

section \<open>Scores\<close>

record quality_metrics =
  qm_SNR :: f64
  qm_NoiseADU :: f64
  qm_StarPixels :: int
  qm_SaturatedPixels :: int
  qm_Shape :: "int \<times> int"

record sp_headers =
  hd_Exptime :: "f64 option"
  hd_Filter :: string
  hd_FWHM :: "f64 option"
  hd_Calstat :: string
  hd_SNR :: "f64 option"
  hd_Qual :: "f64 option"
  hd_RA :: "f64 option"
  hd_Dec :: "f64 option"
  hd_DateObs :: string

definition fwhm_score :: "sp_headers \<Rightarrow> f64 option \<Rightarrow> f64 \<times> string" where
  "fwhm_score h predictedPSF =
     (case (hd_FWHM h, predictedPSF, hd_Qual h) of
        (Some w, Some p, q) \<Rightarrow>
          if flt (Fin 0) p then (unit_clamp (fdiv p w), ''header'')
          else (case q of Some x \<Rightarrow> (unit_clamp x, ''sp_qual_proxy'') | None \<Rightarrow> (NeutralFWHMScore, ''neutral''))
      | (w, p, Some x) \<Rightarrow> (unit_clamp x, ''sp_qual_proxy'')
      | (Some w, None, None) \<Rightarrow> (NeutralFWHMScore, ''neutral'')
      | (None, p, None) \<Rightarrow> (NeutralFWHMScore, ''missing''))"

definition number_or_null :: "f64 option \<Rightarrow> json" where
  "number_or_null v = (case v of None \<Rightarrow> JNull | Some x \<Rightarrow> JNumber x)"

definition ScoreImageQuality :: "quality_metrics \<Rightarrow> sp_headers \<Rightarrow> f64 option \<Rightarrow> jmap" where
  "ScoreImageQuality q h predictedPSF =
     (let total = wrap64 (fst (qm_Shape q) * snd (qm_Shape q));
          total = (if total < 1 then 1 else total);
          satFrac = fdiv (i2f (qm_SaturatedPixels q)) (i2f total);
          snrScore = unit_clamp (fdiv (qm_SNR q) SNRFullCredit);
          satScore = unit_clamp (fsub (Fin 1) (fdiv satFrac SaturationPenaltyFraction));
          (fwhmScore, src) = fwhm_score h predictedPSF;
          score = unit_clamp (fadd (fadd (fmul (ImageQualityWeights ''snr'') snrScore)
            (fmul (ImageQualityWeights ''saturation'') satScore)) (fmul (ImageQualityWeights ''fwhm'') fwhmScore))
      in [''score'' \<mapsto> JNumber (round4 score), ''snr'' \<mapsto> JNumber (qm_SNR q), ''noise_adu'' \<mapsto> JNumber (qm_NoiseADU q),
          ''saturation_fraction'' \<mapsto> JNumber (round6 satFrac), ''fwhm_arcsec'' \<mapsto> number_or_null (hd_FWHM h),
          ''fwhm_source'' \<mapsto> JString src, ''star_pixels'' \<mapsto> JInt (qm_StarPixels q)])"

definition exptime_ratio :: "sp_headers \<Rightarrow> jmap \<Rightarrow> f64 option" where
  "exptime_ratio h ctx =
     (case (hd_Exptime h, floatFromAny (ctx ''integration_time_requested'')) of
        (Some e, Some req) \<Rightarrow> if flt (Fin 0) req then Some (unit_clamp (fdiv e req)) else None
      | _ \<Rightarrow> None)"

definition filter_match :: "string \<Rightarrow> string \<Rightarrow> bool option" where
  "filter_match requested actual =
     (if requested \<noteq> [] \<and> actual \<noteq> []
      then Some (actual \<in> set (filter (\<lambda>f. f \<noteq> []) (map TrimSpace (Split requested (CHR '','')))))
      else None)"

definition ScoreTaskFidelity :: "sp_headers \<Rightarrow> jmap \<Rightarrow> jmap" where
  "ScoreTaskFidelity h ctx =
     (let ratio = exptime_ratio h ctx;
          requested = ToUpper (TrimSpace (stringFromAny (ctx ''filter_requested'')));
          actual = ToUpper (TrimSpace (hd_Filter h));
          match = filter_match requested actual;
          filterScore = (case match of None \<Rightarrow> FilterAbsentScore | Some True \<Rightarrow> Fin 1 | Some False \<Rightarrow> Fin 0);
          calstat = (let c = ToUpper (TrimSpace (hd_Calstat h)) in if c = [] then ''NONE'' else c);
          calBonus = (if calstat \<in> set CalibratedStatuses then CalibrationBonus else Fin 0);
          score = (case ratio of
              Some r \<Rightarrow> unit_clamp (fadd (fadd (fmul (dec 7 1) r) (fmul (dec 3 1) filterScore)) calBonus)
            | None \<Rightarrow> unit_clamp (fadd (fadd (fmul (Fin (1 / 2)) filterScore) (Fin (1 / 2))) (fmul calBonus (Fin (1 / 2)))))
      in [''score'' \<mapsto> JNumber (round4 score),
          ''filter_match'' \<mapsto> (case match of None \<Rightarrow> JNull | Some b \<Rightarrow> JBool b),
          ''filter_requested'' \<mapsto> nilIfEmpty requested, ''filter_actual'' \<mapsto> nilIfEmpty actual,
          ''calstat'' \<mapsto> JString calstat, ''exptime_ratio'' \<mapsto> number_or_null (map_option round4 ratio)])"

definition elapsed :: "gotime option \<Rightarrow> gotime option \<Rightarrow> f64 option" where
  "elapsed t0 t1 =
     (case (t0, t1) of (Some a, Some b) \<Rightarrow> Some (fMax (Fin 0) (Seconds (b - a))) | _ \<Rightarrow> None)"

definition ScoreTimeliness :: "(string \<Rightarrow> gotime option) \<Rightarrow> jmap \<Rightarrow> jmap" where
  "ScoreTimeliness parse ctx =
     (let assigned = parseISO8601 parse (stringFromAny (ctx ''assignment_sent_at''));
          uploadStr = (let u = stringFromAny (ctx ''upload_completed_at'') in
            if u = [] then stringFromAny (ctx ''upload_time'') else u);
          upload = parseISO8601 parse uploadStr;
          start = parseISO8601 parse (stringFromAny (ctx ''upload_started_at''));
          latency = elapsed assigned upload;
          duration = elapsed start upload;
          captureScore = (case latency of None \<Rightarrow> MissingTimelinessScore
            | Some sec \<Rightarrow> unit_clamp (fsub (Fin 1) (fdiv (fsub sec CaptureLatencyFullSec) (Fin 12600))));
          uploadScore = (case duration of None \<Rightarrow> captureScore
            | Some sec \<Rightarrow> unit_clamp (fsub (Fin 1) (fdiv (fsub sec UploadDurationFullSec) (Fin 3300))));
          score = unit_clamp (fadd (fmul TimelinessCaptureWeight captureScore) (fmul TimelinessUploadWeight uploadScore))
      in [''score'' \<mapsto> JNumber (round4 score), ''capture_latency_sec'' \<mapsto> number_or_null (map_option round1 latency),
          ''upload_duration_sec'' \<mapsto> number_or_null (map_option round1 duration)])"

definition HeadlineScore :: "jmap \<Rightarrow> int" where
  "HeadlineScore dimensions =
     (let total = foldl (\<lambda>t (key, weight). fadd t (fmul weight (DimScore dimensions key))) (Fin 0) CheapDimensionWeights
      in f2i (roundHalfEven (fmul (Fin 100) (unit_clamp total))))"

section \<open>Points and reputation\<close>

record points_breakdown =
  pb_BasePoints :: f64
  pb_QualityMultiplier :: f64
  pb_ExptimeFactor :: f64
  pb_TimelinessFactor :: f64
  pb_TenureMultiplier :: f64
  pb_CampaignMultiplier :: f64
  pb_OAExptime :: f64
  pb_PointsEarned :: f64

definition EMAUpdate :: "f64 option \<Rightarrow> f64 \<Rightarrow> f64 \<Rightarrow> f64" where
  "EMAUpdate previous sample alpha =
     (case previous of
        None \<Rightarrow> round4 sample
      | Some p \<Rightarrow> round4 (fadd (fmul (fsub (Fin 1) alpha) p) (fmul alpha sample)))"

definition exptime_factor :: "f64 \<Rightarrow> f64" where
  "exptime_factor exptime =
     (if flt (Fin 0) exptime then fMin (Fin 1) (fdiv exptime ExptimeCapSeconds) else Fin (1 / 4))"

definition half_up :: "f64 \<Rightarrow> f64" where
  "half_up x = fadd (Fin (1 / 2)) (fmul (Fin (1 / 2)) x)"

definition tenure :: "(f64 \<Rightarrow> f64) \<Rightarrow> f64 \<Rightarrow> f64" where
  "tenure log1p exposure = fadd (Fin 1) (fmul (log1p (fdiv (fMax (Fin 0) exposure) (Fin 3600))) TenureLogScale)"

definition ComputeFramePoints :: "(f64 \<Rightarrow> f64) \<Rightarrow> jmap \<Rightarrow> jmap \<Rightarrow> f64 \<Rightarrow> points_breakdown" where
  "ComputeFramePoints log1p grade telescopeStats multiplier =
     (let mult = (if fle multiplier (Fin 0) then Fin 1 else multiplier);
          dims = object_at grade ''dimensions'';
          quality = half_up (DimScore dims ''image_quality'');
          exptime = floatFromMap grade ''sp_exptime'';
          factor = exptime_factor exptime;
          timely = half_up (DimScore dims ''timeliness'');
          ten = tenure log1p (floatFromMap telescopeStats ''total_exposure_seconds'');
          points = fmul (fmul (fmul (fmul (fmul BasePoints quality) factor) timely) ten) mult
      in \<lparr>pb_BasePoints = BasePoints, pb_QualityMultiplier = round4 quality, pb_ExptimeFactor = round4 factor,
          pb_TimelinessFactor = round4 timely, pb_TenureMultiplier = round4 ten, pb_CampaignMultiplier = round4 mult,
          pb_OAExptime = exptime, pb_PointsEarned = round2 points\<rparr>)"

text \<open>\<open>now\<close> is the formatted time of the call.\<close>

definition BuildReputationPartial :: "string \<Rightarrow> jmap \<Rightarrow> int \<Rightarrow> jmap \<Rightarrow> f64 \<Rightarrow> f64 \<Rightarrow> jmap" where
  "BuildReputationPartial now stats headline dimensions pointsEarned exptime =
     (let prevReliability = floatPtrFromMap stats ''reliability_score'';
          prevHeadline = floatPtrFromMap stats ''task_quality_score'';
          imageQuality = DimScore dimensions ''image_quality'';
          totalPoints = fadd (floatFromMap stats ''total_points'') pointsEarned;
          frameCount = wrap64 (intFromMap stats ''frame_count'' + 1);
          totalExposure = fadd (floatFromMap stats ''total_exposure_seconds'') (fMax (Fin 0) exptime);
          perHour = (if flt (Fin 0) totalExposure then JNumber (round2 (fdiv totalPoints (fdiv totalExposure (Fin 3600)))) else JNull)
      in [''total_points'' \<mapsto> JNumber (round2 totalPoints), ''frame_count'' \<mapsto> JInt frameCount,
          ''total_exposure_seconds'' \<mapsto> JNumber (round1 totalExposure), ''points_per_hour'' \<mapsto> perHour,
          ''reliability_score'' \<mapsto> JNumber (EMAUpdate prevReliability imageQuality ReliabilityEMAAlpha),
          ''task_quality_score'' \<mapsto> JNumber (EMAUpdate prevHeadline (fdiv (i2f headline) (Fin 100)) HeadlineEMAAlpha),
          ''last_ingested_at'' \<mapsto> JString now, ''source'' \<mapsto> JString ''grade_ingest''])"

definition IsStackEligible :: "jmap \<Rightarrow> bool" where
  "IsStackEligible dimensions = fle StackEligibleMinQuality (DimScore dimensions ''image_quality'')"

definition MergeReputationStats :: "jmap \<Rightarrow> jmap \<Rightarrow> jmap" where
  "MergeReputationStats existing partial =
     (\<lambda>k. case partial k of None \<Rightarrow> existing k | Some JNull \<Rightarrow> None | Some v \<Rightarrow> Some v)"

end
