(* ===== verification/GradingProps.thy ===== *)
theory GradingProps
  imports Grading
begin

text \<open>
  The scores and points of \<open>shared/grading/\<close> stay within their bounds, with every rounding of \<open>float64\<close> and
  of the code's own decimal rounding.
\<close>

definition between :: "rat \<Rightarrow> rat \<Rightarrow> f64 \<Rightarrow> bool" where
  "between lo hi x \<longleftrightarrow> (\<exists>r. x = Fin r \<and> lo \<le> r \<and> r \<le> hi)"

lemma betweenE:
  assumes "between lo hi x" obtains r where "x = Fin r" "lo \<le> r" "r \<le> hi"
  using assms by (auto simp: between_def)

lemma between_Fin [simp]: "between lo hi (Fin r) \<longleftrightarrow> lo \<le> r \<and> r \<le> hi"
  by (simp add: between_def)

lemma between_mono: "between a b x \<Longrightarrow> c \<le> a \<Longrightarrow> b \<le> d \<Longrightarrow> between c d x"
  by (auto simp: between_def)

lemma between_fround:
  assumes "fround lo = Fin lo" "fround hi = Fin hi" "lo \<le> x" "x \<le> hi" shows "between lo hi (fround x)"
  by (rule fround_between [OF assms]) (simp add: between_def)

lemma between_fadd:
  assumes "between a b x" "between c d y" "fround (a + c) = Fin (a + c)" "fround (b + d) = Fin (b + d)"
  shows "between (a + c) (b + d) (fadd x y)"
proof -
  from assms obtain r s where "x = Fin r" "a \<le> r" "r \<le> b" "y = Fin s" "c \<le> s" "s \<le> d" by (auto elim!: betweenE)
  then show ?thesis using between_fround [OF assms(3,4), of "r + s"] by simp
qed

lemma between_fmul:
  assumes "between a b x" "between c d y" "0 \<le> a" "0 \<le> c" "fround (a * c) = Fin (a * c)" "fround (b * d) = Fin (b * d)"
  shows "between (a * c) (b * d) (fmul x y)"
proof -
  from assms obtain r s where rs: "x = Fin r" "a \<le> r" "r \<le> b" "y = Fin s" "c \<le> s" "s \<le> d" by (auto elim!: betweenE)
  then have "a * c \<le> r * s" "r * s \<le> b * d" using assms(3,4) by (auto intro: mult_mono)
  then show ?thesis using rs between_fround [OF assms(5,6)] by simp
qed

lemma unit_clamp_between: "x \<noteq> NaN \<Longrightarrow> between 0 1 (unit_clamp x)"
  by (cases x) (auto simp: unit_clamp_def clamp_def between_def)

lemma unit_clamp_NaN: "unit_clamp x = NaN \<longleftrightarrow> x = NaN"
  by (cases x) (auto simp: unit_clamp_def clamp_def)

lemma DimScore_between: "DimScore d k \<noteq> NaN \<Longrightarrow> between 0 1 (DimScore d k)"
  using unit_clamp_between unit_clamp_NaN by (auto simp: DimScore_def split: option.splits json.splits)

section \<open>Decimal rounding\<close>

lemma fround_quarter [simp]: "fround (1 / 4) = Fin (1 / 4)"
  using fround_exact [of 1 "- 2"] by (simp add: two_pow_def)

lemma tie_bounds: "fle (Fin (1 / 2)) (fround (1 / 2 + tie_eps))" "fle (Fin (1 / 4)) (fround (1 / 2 - tie_eps))"
  using fround_mono [of "1 / 2" "1 / 2 + tie_eps"] fround_mono [of "1 / 4" "1 / 2 - tie_eps"] by (simp_all add: tie_eps_def)

lemma roundHalfEven_Fin:
  assumes "\<bar>x\<bar> < 2 ^ 52"
  shows "\<exists>n. roundHalfEven (Fin x) = Fin (of_int n) \<and> \<lfloor>x\<rfloor> \<le> n \<and> n \<le> \<lceil>x\<rceil>"
proof -
  have f: "\<bar>\<lfloor>x\<rfloor>\<bar> \<le> 2 ^ 52"
  proof -
    have "- (2 ^ 52) \<le> \<lfloor>x\<rfloor>" using assms by (simp add: le_floor_iff)
    moreover have "\<lfloor>x\<rfloor> < 2 ^ 52" using assms by (simp add: floor_less_iff)
    ultimately show ?thesis unfolding abs_le_iff by linarith
  qed
  then have up: "fround (of_int \<lfloor>x\<rfloor> + 1) = Fin (of_int (\<lfloor>x\<rfloor> + 1))" using fround_of_int [of "\<lfloor>x\<rfloor> + 1"] by simp
  show ?thesis
  proof (cases "x = of_int \<lfloor>x\<rfloor>")
    case True
    have "\<not> flt (fround (1 / 2 + tie_eps)) (Fin 0)" "flt (Fin 0) (fround (1 / 2 - tie_eps))"
      using tie_bounds by (auto simp: fle_def elim!: flt.elims feq.elims)
    then have "roundHalfEven (Fin x) = Fin (of_int \<lfloor>x\<rfloor>)"
      using True by (simp add: roundHalfEven_def is_NaN_def is_Inf_def fsub_def Let_def)
    then show ?thesis by (intro exI [of _ "\<lfloor>x\<rfloor>"]) simp
  next
    case False
    then have c: "\<lceil>x\<rceil> = \<lfloor>x\<rfloor> + 1" by (simp add: ceiling_altdef)
    have "roundHalfEven (Fin x) = Fin (of_int \<lfloor>x\<rfloor>) \<or> roundHalfEven (Fin x) = Fin (of_int (\<lfloor>x\<rfloor> + 1))"
      using up by (simp add: roundHalfEven_def is_NaN_def is_Inf_def Let_def)
    then show ?thesis using c by (metis le_add_same_cancel1 order_refl zero_le_one)
  qed
qed

lemma roundN_between:
  assumes "between (of_int a / 10 ^ n) (of_int b / 10 ^ n) x" "\<bar>a\<bar> < 2 ^ 52" "\<bar>b\<bar> < 2 ^ 52"
    and lo: "fround (of_int a / 10 ^ n) = Fin (of_int a / 10 ^ n)" and hi: "fround (of_int b / 10 ^ n) = Fin (of_int b / 10 ^ n)"
  shows "between (of_int a / 10 ^ n) (of_int b / 10 ^ n) (roundN x n)"
proof -
  from assms(1) obtain r where r: "x = Fin r" "of_int a / 10 ^ n \<le> r" "r \<le> of_int b / 10 ^ n" by (rule betweenE)
  then have "of_int a \<le> r * 10 ^ n" "r * 10 ^ n \<le> of_int b" by (simp_all add: field_simps)
  moreover have "fround (of_int a) = Fin (of_int a)" "fround (of_int b) = Fin (of_int b)" using assms(2,3) by (simp_all add: fround_of_int)
  ultimately obtain z where z: "fround (r * 10 ^ n) = Fin z" "of_int a \<le> z" "z \<le> of_int b" by (metis fround_between)
  have "\<bar>z\<bar> < 2 ^ 52"
  proof -
    have "of_int \<bar>a\<bar> < (2 ^ 52 :: rat)" "of_int \<bar>b\<bar> < (2 ^ 52 :: rat)" using assms(2,3) by (metis of_int_less_iff of_int_numeral of_int_power)+
    then show ?thesis using z(2,3) by simp
  qed
  from roundHalfEven_Fin [OF this] obtain m where m: "roundHalfEven (Fin z) = Fin (of_int m)" "\<lfloor>z\<rfloor> \<le> m" "m \<le> \<lceil>z\<rceil>" by blast
  have "a \<le> m" "m \<le> b" using m z(2,3) by (meson ceiling_le dual_order.trans le_floor_iff)+
  then have "of_int a / 10 ^ n \<le> (of_int m / 10 ^ n :: rat)" "of_int m / 10 ^ n \<le> (of_int b / 10 ^ n :: rat)" by (simp_all add: divide_right_mono)
  with between_fround [OF lo hi this] r z m show ?thesis by (simp add: roundN_def Let_def)
qed

lemma round4_unit: "between 0 1 x \<Longrightarrow> between 0 1 (round4 x)"
  using roundN_between [of 0 4 "10 ^ 4" x] by (simp add: round4_def)

lemma round4_half: "between (1 / 2) 1 x \<Longrightarrow> between (1 / 2) 1 (round4 x)"
  using roundN_between [of 5000 4 "10 ^ 4" x] by (simp add: round4_def)

section \<open>The points of a frame\<close>

lemma half_up_between: "between 0 1 x \<Longrightarrow> between (1 / 2) 1 (half_up x)"
  using between_fadd [of "1 / 2" "1 / 2" "Fin (1 / 2)" 0 "1 / 2" "fmul (Fin (1 / 2)) x"]
    between_fmul [of "1 / 2" "1 / 2" "Fin (1 / 2)" 0 1 x] by (simp add: half_up_def)

lemma exptime_factor_between:
  assumes "x = Fin r" shows "between 0 1 (exptime_factor x)"
proof (cases "0 < r")
  case True
  have "fle (Fin 0) (fround (r / 60))" using True by (intro fround_nonneg) simp
  then show ?thesis using True assms
    by (auto simp: exptime_factor_def ExptimeCapSeconds_def fMin_def between_def fle_0_iff)
qed (simp add: exptime_factor_def assms)

lemma TenureLogScale_between: "between 0 (1 / 16) TenureLogScale"
proof -
  have "fround (1 / 16) = Fin (1 / 16)" using fround_exact [of 1 "- 4"] by (simp add: two_pow_def)
  then show ?thesis unfolding TenureLogScale_def dec_def by (intro between_fround) simp_all
qed

lemma tenure_between:
  assumes log1p: "\<And>r. 0 \<le> r \<Longrightarrow> r \<le> 10 ^ 15 \<Longrightarrow> between 0 40 (log1p (Fin r))" and x: "x = Fin r" "r \<le> 10 ^ 15"
  shows "between 1 4 (tenure log1p x)"
proof -
  have m: "fMax (Fin 0) x = Fin (max 0 r)" using x by (simp add: fMax_def max_def)
  have e: "fround (10 ^ 15) = Fin (10 ^ 15)" using fround_of_int [of "10 ^ 15"] by simp
  have "between 0 (10 ^ 15) (fround (max 0 r / 3600))"
    using x e by (intro between_fround) (auto simp: max_def divide_le_eq)
  then have "between 0 (10 ^ 15) (fdiv (fMax (Fin 0) x) (Fin 3600))" using m by simp
  then obtain q where q: "fdiv (fMax (Fin 0) x) (Fin 3600) = Fin q" "0 \<le> q" "q \<le> 10 ^ 15" by (rule betweenE)
  have "fround (5 / 2) = Fin (5 / 2)" using fround_exact [of 5 "- 1"] by (simp add: two_pow_def)
  then have "between 0 (5 / 2) (fmul (log1p (Fin q)) TenureLogScale)"
    using between_fmul [OF log1p [OF q(2,3)] TenureLogScale_between] by simp
  then have "between 0 3 (fmul (log1p (Fin q)) TenureLogScale)" by (rule between_mono) simp_all
  with between_fadd [of 1 1 "Fin 1" 0 3] have "between 1 4 (fadd (Fin 1) (fmul (log1p (Fin q)) TenureLogScale))" by simp
  then show ?thesis by (simp add: tenure_def q)
qed

lemma points_between:
  assumes "between (1 / 2) 1 q" "between 0 1 f" "between (1 / 2) 1 t" "between 1 4 n" "between 0 (of_nat M) m" "M \<le> 10 ^ 6"
  shows "between 0 (of_nat (40 * M)) (round2 (fmul (fmul (fmul (fmul (fmul BasePoints q) f) t) n) m))"
proof -
  have a: "between 5 10 (fmul BasePoints q)" using between_fmul [of 10 10 "Fin 10" "1 / 2" 1 q] assms(1) by (simp add: BasePoints_def)
  have b: "between 0 10 (fmul (fmul BasePoints q) f)" using between_fmul [OF a assms(2)] by simp
  have c: "between 0 10 (fmul (fmul (fmul BasePoints q) f) t)" using between_fmul [OF b assms(3)] by simp
  have d: "between 0 40 (fmul (fmul (fmul (fmul BasePoints q) f) t) n)" using between_fmul [OF c assms(4)] by simp
  have i: "of_nat M = (of_int (int M) :: rat)" by simp
  have r: "fround (40 * of_nat M) = Fin (40 * of_nat M)" using fround_of_int [of "40 * int M"] assms(6) by simp
  have e: "between 0 (40 * of_nat M) (fmul (fmul (fmul (fmul (fmul BasePoints q) f) t) n) m)"
    using between_fmul [OF d assms(5)] r by simp
  have "between (of_int 0 / 10 ^ 2) (of_int (4000 * int M) / 10 ^ 2) (roundN (fmul (fmul (fmul (fmul (fmul BasePoints q) f) t) n) m) 2)"
    by (rule roundN_between) (use e r assms(6) in \<open>auto simp: field_simps\<close>)
  then show ?thesis by (simp add: round2_def)
qed

section \<open>The headline and the averages\<close>

lemma dec_between: "0 \<le> n \<Longrightarrow> n \<le> 10 ^ k \<Longrightarrow> between 0 1 (dec n k)"
  unfolding dec_def by (intro between_fround) (simp_all add: divide_le_eq)

lemma weighted_not_NaN: "between 0 1 w \<Longrightarrow> between 0 1 x \<Longrightarrow> between 0 1 (fmul w x)"
  using between_fmul [of 0 1 w 0 1 x] by simp

lemma HeadlineScore_bounds:
  assumes "\<And>k. DimScore d k \<noteq> NaN" shows "0 \<le> HeadlineScore d \<and> HeadlineScore d \<le> 100"
proof -
  have u: "between 0 1 (DimScore d k)" for k by (rule DimScore_between [OF assms])
  let ?a = "fmul (dec 40 2) (DimScore d ''image_quality'')" and ?b = "fmul (dec 35 2) (DimScore d ''task_fidelity'')"
    and ?c = "fmul (Fin (1 / 4)) (DimScore d ''timeliness'')"
  have w: "between 0 1 ?a" "between 0 1 ?b" "between 0 1 ?c"
    by (rule weighted_not_NaN [OF dec_between u], simp, simp)+ (rule weighted_not_NaN [OF _ u], simp)
  let ?t = "foldl (\<lambda>t (key, weight). fadd t (fmul weight (DimScore d key))) (Fin 0) CheapDimensionWeights"
  have t: "?t = fadd (fadd (fadd (Fin 0) ?a) ?b) ?c" by (simp only: CheapDimensionWeights_def foldl.simps prod.case)
  have s0: "between 0 0 (Fin 0)" by simp
  have s1: "between 0 1 (fadd (Fin 0) ?a)" using between_fadd [OF s0 w(1)] by simp
  have s2: "between 0 2 (fadd (fadd (Fin 0) ?a) ?b)" using between_fadd [OF s1 w(2)] by simp
  have "between 0 3 ?t" unfolding t using between_fadd [OF s2 w(3)] by simp
  then have "?t \<noteq> NaN" by (auto simp: between_def)
  then have u1: "between 0 1 (unit_clamp ?t)" by (rule unit_clamp_between)
  have h: "between 0 100 (Fin 100)" by simp
  have "between 0 100 (fmul (Fin 100) (unit_clamp ?t))" using between_fmul [OF h u1] by simp
  then obtain r where r: "fmul (Fin 100) (unit_clamp ?t) = Fin r" "0 \<le> r" "r \<le> 100" by (rule betweenE)
  then obtain n where n: "roundHalfEven (Fin r) = Fin (of_int n)" "\<lfloor>r\<rfloor> \<le> n" "n \<le> \<lceil>r\<rceil>" using roundHalfEven_Fin [of r] by auto
  have "0 \<le> \<lfloor>r\<rfloor>" "\<lceil>r\<rceil> \<le> 100" using r by (simp_all add: ceiling_le_iff)
  then have "0 \<le> n" "n \<le> 100" using n(2,3) by linarith+
  then show ?thesis unfolding HeadlineScore_def Let_def r(1) n(1) by (simp add: Let_def int64_ok_def)
qed

lemma fle_below: "fle x (Fin c) \<longleftrightarrow> x = NInf \<or> (\<exists>r. x = Fin r \<and> r \<le> c)"
  by (cases x) (auto simp: fle_def)

lemma fle_above: "fle (Fin c) x \<longleftrightarrow> x = PInf \<or> (\<exists>r. x = Fin r \<and> c \<le> r)"
  by (cases x) (auto simp: fle_def)

text \<open>The decimal rounding absorbs an error far below its last digit.\<close>

lemma roundHalfEven_slack:
  assumes "0 \<le> x" "x \<le> of_nat b + 1 / 4" "b < 2 ^ 51"
  shows "\<exists>n. roundHalfEven (Fin x) = Fin (of_int n) \<and> 0 \<le> n \<and> n \<le> int b"
proof -
  have "(of_nat b :: rat) < 2 ^ 51" using assms(3) by (metis of_nat_less_iff of_nat_numeral of_nat_power)
  then have "\<bar>x\<bar> < 2 ^ 52" using assms(1,2) by simp
  from roundHalfEven_Fin [OF this] obtain n where n: "roundHalfEven (Fin x) = Fin (of_int n)" "\<lfloor>x\<rfloor> \<le> n" "n \<le> \<lceil>x\<rceil>" by blast
  have "0 \<le> n" using n(2) assms(1) by (meson order_trans zero_le_floor)
  show ?thesis
  proof (cases "x \<le> of_nat b")
    case True
    then have "\<lceil>x\<rceil> \<le> int b" by (simp add: ceiling_le_iff)
    with n \<open>0 \<le> n\<close> show ?thesis by (intro exI [of _ n]) simp
  next
    case False
    with assms(2) have fl: "\<lfloor>x\<rfloor> = int b" by (intro floor_unique) simp_all
    have e: "fround (3 / 8) = Fin (3 / 8)" using fround_exact [of 3 "- 3"] by (simp add: two_pow_def)
    have "fle (fround (x - of_nat b)) (Fin (1 / 4))" using fround_mono [of "x - of_nat b" "1 / 4"] assms(2) by simp
    moreover have "fle (Fin (3 / 8)) (fround (1 / 2 - tie_eps))" using fround_mono [of "3 / 8" "1 / 2 - tie_eps"] e by (simp add: tie_eps_def)
    moreover have "fle (Fin (1 / 2)) (fround (1 / 2 + tie_eps))" by (rule tie_bounds)
    ultimately have "\<not> flt (fround (1 / 2 + tie_eps)) (fround (x - of_nat b))" "flt (fround (x - of_nat b)) (fround (1 / 2 - tie_eps))"
      by (auto simp only: fle_below fle_above flt.simps)
    then have "roundHalfEven (Fin x) = Fin (of_int (int b))"
      using fl by (simp add: roundHalfEven_def is_NaN_def is_Inf_def fsub_def Let_def)
    then show ?thesis by (intro exI [of _ "int b"]) simp
  qed
qed

lemma grid: "0 \<le> m \<Longrightarrow> m < 2 ^ 53 \<Longrightarrow> fround (of_int m / 2 ^ 40) = Fin (of_int m / 2 ^ 40)"
  using fround_exact [of m "- 40"] by (simp add: two_pow_def)

lemma round4_slack:
  assumes "between 0 (1 + 1 / 2 ^ 40) x" shows "between 0 1 (round4 x)"
proof -
  from assms obtain r where r: "x = Fin r" "0 \<le> r" "r \<le> 1 + 1 / 2 ^ 40" by (rule betweenE)
  have "fround (of_int (10000 * 2 ^ 40 + 10000) / 2 ^ 40) = Fin (of_int (10000 * 2 ^ 40 + 10000) / 2 ^ 40)"
    using fround_exact [of "625 * (2 ^ 40 + 1)" "- 36"] by (simp add: two_pow_def)
  moreover have "r * 10 ^ 4 \<le> of_int (10000 * 2 ^ 40 + 10000) / 2 ^ 40" using r(3) by (simp add: field_simps)
  ultimately obtain z where z: "fround (r * 10 ^ 4) = Fin z" "0 \<le> z" "z \<le> of_int (10000 * 2 ^ 40 + 10000) / 2 ^ 40"
    using fround_between [of 0 "of_int (10000 * 2 ^ 40 + 10000) / 2 ^ 40" "r * 10 ^ 4"] r(2) by (metis fround_0 mult_nonneg_nonneg zero_le_numeral zero_le_power)
  then have "z \<le> of_nat 10000 + 1 / 4" by simp
  from roundHalfEven_slack [OF z(2) this] obtain n where n: "roundHalfEven (Fin z) = Fin (of_int n)" "0 \<le> n" "n \<le> 10000" by auto
  then have "0 \<le> (of_int n / 10 ^ 4 :: rat)" "of_int n / 10 ^ 4 \<le> (1 :: rat)" by (simp_all add: divide_le_eq)
  then have "between 0 1 (fround (of_int n / 10 ^ 4))" by (intro between_fround) simp_all
  then show ?thesis using r(1) z(1) n(1) by (simp add: round4_def roundN_def Let_def)
qed

lemma EMA_between:
  assumes alpha: "of_int m / 2 ^ 40 \<le> a" "a \<le> of_int (m + 1) / 2 ^ 40" "0 \<le> m" "m < 2 ^ 40"
    and p: "case previous of None \<Rightarrow> True | Some p \<Rightarrow> between 0 1 p" and s: "between 0 1 sample"
  shows "between 0 1 (EMAUpdate previous sample (Fin a))"
proof (cases previous)
  case None
  then show ?thesis using round4_unit [OF s] by (simp add: EMAUpdate_def)
next
  case (Some q)
  then have q: "between 0 1 q" using p by simp
  have g: "fround (of_int (2 ^ 40 - m) / 2 ^ 40) = Fin (of_int (2 ^ 40 - m) / 2 ^ 40)" "fround (of_int (m + 1) / 2 ^ 40) = Fin (of_int (m + 1) / 2 ^ 40)"
    using grid [of "2 ^ 40 - m"] grid [of "m + 1"] alpha by simp_all
  have "a \<le> 1" using alpha by (simp add: field_simps)
  have "(1 :: rat) - of_int m / 2 ^ 40 = of_int (2 ^ 40 - m) / 2 ^ 40" by (simp add: field_simps)
  then have "1 - a \<le> of_int (2 ^ 40 - m) / 2 ^ 40" using alpha(1) by linarith
  then have b: "between 0 (of_int (2 ^ 40 - m) / 2 ^ 40) (fsub (Fin 1) (Fin a))"
    using between_fround [OF fround_0 g(1), of "1 - a"] \<open>a \<le> 1\<close> by (simp add: fsub_def)
  have "0 \<le> a" using alpha by (meson divide_nonneg_pos of_int_0_le_iff order_trans zero_less_numeral zero_less_power)
  have A: "between 0 (of_int (2 ^ 40 - m) / 2 ^ 40) (fmul (fsub (Fin 1) (Fin a)) q)" using between_fmul [OF b q] g(1) by simp
  have B: "between 0 (of_int (m + 1) / 2 ^ 40) (fmul (Fin a) sample)"
    using between_fmul [of 0 "of_int (m + 1) / 2 ^ 40" "Fin a" 0 1, OF _ s] g(2) alpha \<open>0 \<le> a\<close> by simp
  have sum: "of_int (2 ^ 40 - m) / 2 ^ 40 + of_int (m + 1) / 2 ^ 40 = (1 + 1 / 2 ^ 40 :: rat)" by (simp add: field_simps)
  have f: "fround (1 + 1 / 2 ^ 40) = Fin (1 + 1 / 2 ^ 40)" using grid [of "2 ^ 40 + 1"] by (simp add: field_simps)
  have "between (0 + 0) (of_int (2 ^ 40 - m) / 2 ^ 40 + of_int (m + 1) / 2 ^ 40) (fadd (fmul (fsub (Fin 1) (Fin a)) q) (fmul (Fin a) sample))"
    by (rule between_fadd [OF A B]) (simp, simp only: sum f)
  then have "between 0 (1 + 1 / 2 ^ 40) (fadd (fmul (fsub (Fin 1) (Fin a)) q) (fmul (Fin a) sample))" by (simp only: sum add_0)
  from round4_slack [OF this] show ?thesis using Some by (simp add: EMAUpdate_def)
qed

lemma alphas:
  "between (of_int 164926744166 / 2 ^ 40) (of_int (164926744166 + 1) / 2 ^ 40) ReliabilityEMAAlpha"
  "between (of_int 109951162777 / 2 ^ 40) (of_int (109951162777 + 1) / 2 ^ 40) HeadlineEMAAlpha"
proof -
  have g: "fround (of_int m / 2 ^ 40) = Fin (of_int m / 2 ^ 40)" if "0 \<le> m" "m < 2 ^ 53" for m by (rule grid [OF that])
  show "between (of_int 164926744166 / 2 ^ 40) (of_int (164926744166 + 1) / 2 ^ 40) ReliabilityEMAAlpha"
    unfolding ReliabilityEMAAlpha_def dec_def by (rule between_fround) (rule g, simp, simp | simp)+
  show "between (of_int 109951162777 / 2 ^ 40) (of_int (109951162777 + 1) / 2 ^ 40) HeadlineEMAAlpha"
    unfolding HeadlineEMAAlpha_def dec_def by (rule between_fround) (rule g, simp, simp | simp)+
qed

lemma EMA_unit:
  assumes "case previous of None \<Rightarrow> True | Some p \<Rightarrow> between 0 1 p" "between 0 1 sample"
  shows "between 0 1 (EMAUpdate previous sample ReliabilityEMAAlpha)" "between 0 1 (EMAUpdate previous sample HeadlineEMAAlpha)"
proof -
  from alphas(1) obtain a where a: "ReliabilityEMAAlpha = Fin a" "of_int 164926744166 / 2 ^ 40 \<le> a" "a \<le> of_int (164926744166 + 1) / 2 ^ 40"
    by (rule betweenE)
  show "between 0 1 (EMAUpdate previous sample ReliabilityEMAAlpha)" unfolding a(1) by (rule EMA_between [OF a(2,3) _ _ assms]) simp_all
  from alphas(2) obtain b where b: "HeadlineEMAAlpha = Fin b" "of_int 109951162777 / 2 ^ 40 \<le> b" "b \<le> of_int (109951162777 + 1) / 2 ^ 40"
    by (rule betweenE)
  show "between 0 1 (EMAUpdate previous sample HeadlineEMAAlpha)" unfolding b(1) by (rule EMA_between [OF b(2,3) _ _ assms]) simp_all
qed

text \<open>C27: With every rounding: the factors of a frame are in [1/2, 1], [0, 1] and [1/2, 1], it earns between 0
  and 40 times the campaign's multiplier (for exposures whose logarithm is below 40), its headline is
  between 0 and 100, and the averages of the reputation stay in [0, 1].\<close>

theorem grading_bounded:
  assumes log1p: "\<And>r. 0 \<le> r \<Longrightarrow> r \<le> 10 ^ 15 \<Longrightarrow> between 0 40 (log1p (Fin r))"
    and dims: "\<And>k. DimScore (object_at grade ''dimensions'') k \<noteq> NaN"
    and exptime: "floatFromMap grade ''sp_exptime'' = Fin e"
    and exposure: "floatFromMap stats ''total_exposure_seconds'' = Fin x" "x \<le> 10 ^ 15"
    and mult: "fle scale (Fin 0) \<or> between 0 (of_nat M) scale" "1 \<le> M" "M \<le> 10 ^ 6"
    and previous: "case previous of None \<Rightarrow> True | Some p \<Rightarrow> between 0 1 p" and sample: "between 0 1 sample"
  shows "between (1 / 2) 1 (pb_QualityMultiplier (ComputeFramePoints log1p grade stats scale)) \<and>
    between 0 1 (pb_ExptimeFactor (ComputeFramePoints log1p grade stats scale)) \<and>
    between (1 / 2) 1 (pb_TimelinessFactor (ComputeFramePoints log1p grade stats scale)) \<and>
    between 0 (of_nat (40 * M)) (pb_PointsEarned (ComputeFramePoints log1p grade stats scale)) \<and>
    0 \<le> HeadlineScore (object_at grade ''dimensions'') \<and> HeadlineScore (object_at grade ''dimensions'') \<le> 100 \<and>
    between 0 1 (EMAUpdate previous sample ReliabilityEMAAlpha) \<and> between 0 1 (EMAUpdate previous sample HeadlineEMAAlpha)"
proof -
  note q = half_up_between [OF DimScore_between [OF dims], of "''image_quality''"]
  note t = half_up_between [OF DimScore_between [OF dims], of "''timeliness''"]
  note f = exptime_factor_between [OF exptime]
  note n = tenure_between [of log1p, OF log1p exposure]
  have m: "between 0 (of_nat M) (if fle scale (Fin 0) then Fin 1 else scale)" using mult(1,2) by auto
  show ?thesis
    using points_between [OF q f t n m mult(3)] round4_half [OF q] round4_unit [OF f] round4_half [OF t]
      HeadlineScore_bounds [of "object_at grade ''dimensions''", OF dims] EMA_unit [OF previous sample]
    by (simp add: ComputeFramePoints_def Let_def)
qed

text \<open>A frame whose exposure time is missing or zero earns more than one of 14 seconds.\<close>

lemma missing_exptime_earns_more: "flt (exptime_factor (Fin 14)) (exptime_factor (Fin 0))"
proof -
  have "fround (15 / 64) = Fin (15 / 64)" using fround_exact [of 15 "- 6"] by (simp add: two_pow_def)
  then have "fle (fround (14 / 60)) (Fin (15 / 64))" using fround_mono [of "14 / 60" "15 / 64"] by simp
  then show ?thesis by (auto simp: exptime_factor_def ExptimeCapSeconds_def fMin_def fle_below)
qed

definition demo_grade :: jmap where
  "demo_grade = [''dimensions'' \<mapsto> JObject [''image_quality'' \<mapsto> JObject [''score'' \<mapsto> JNumber (Fin (3 / 4))]], ''sp_exptime'' \<mapsto> JNumber (Fin 30)]"

theorem grading_bounded_witness:
  "between 0 (of_nat (40 * 2)) (pb_PointsEarned (ComputeFramePoints (\<lambda>x. Fin 1) demo_grade Map.empty (Fin 2)))"
proof -
  have d: "DimScore (object_at demo_grade ''dimensions'') k \<noteq> NaN" for k
    by (auto simp: demo_grade_def object_at_def DimScore_def unit_clamp_def clamp_def split: option.splits json.splits if_splits)
  have e: "floatFromMap demo_grade ''sp_exptime'' = Fin 30" by (simp add: demo_grade_def floatFromMap_def floatFromAny_def)
  have x: "floatFromMap Map.empty ''total_exposure_seconds'' = Fin 0" by (simp add: floatFromMap_def floatFromAny_def)
  from grading_bounded [of "\<lambda>x. Fin 1", OF _ d e x, of "Fin 2" 2 None "Fin 1"] show ?thesis by simp
qed

end
