(* ===== verification/WorkerQueue.thy ===== *)
theory WorkerQueue
  imports TaskProps
begin

text \<open>
  The queue of processing jobs that the bridge worker pulls (\<open>cmd/apiserver/worker_pending.go\<close>): a table,
  and a list in memory that takes a job when the table does not.  The state is shared with the upload
  endpoints; a transaction is one access to the database.
\<close>

section \<open>State\<close>

record worker_job =
  wj_TaskID :: int
  wj_CampaignID :: int
  wj_TelescopeID :: string
  wj_ObjectKey :: string
  wj_ObjectKeys :: "string list"
  wj_ProductMode :: string

record worker_row =
  wr_id :: nat
  wr_job :: worker_job
  wr_status :: string
  wr_created :: gotime

record grade_meta =
  gm_CampaignID :: int
  gm_TaskID :: int
  gm_TelescopeID :: string
  gm_ProductMode :: string
  gm_IntegrationTime :: f64
  gm_FilterRequested :: string
  gm_ClientUploadID :: string
  gm_ClockSource :: string
  gm_DetectorTempC :: f64

record upload_session =
  ps_SessionID :: string
  ps_S3UploadID :: string
  ps_NodeID :: string
  ps_TelescopeID :: string
  ps_ObjectPath :: string
  ps_Bucket :: string
  ps_Grade :: grade_meta
  ps_ExpiresAt :: gotime
  ps_CompletedAt :: "gotime option"

record upload_device =
  ud_NodeID :: string
  ud_UserID :: string
  ud_TelescopeID :: string

text \<open>\<open>us_devices\<close> is the table \<open>user_devices\<close>, by the hash of the token.\<close>

record upload_state =
  us_api :: api_state
  us_jobs :: "worker_row list"
  us_next_job :: nat
  us_memory :: "worker_job list"
  us_sessions :: "upload_session list"
  us_devices :: "string \<rightharpoonup> string \<times> string \<times> string option"

definition us_outcome :: "upload_state \<Rightarrow> outcome \<times> upload_state" where
  "us_outcome s = (case api_outcome (us_api s) of (oc, a) \<Rightarrow> (oc, s\<lparr>us_api := a\<rparr>))"

definition us_read :: "(upload_state \<Rightarrow> 'a) \<Rightarrow> upload_state \<Rightarrow> (db_error + 'a) \<times> upload_state" where
  "us_read f s = (case us_outcome s of (oc, s) \<Rightarrow> (if oc = Done then Inr (f s) else Inl DbError, s))"

definition us_exec :: "(upload_state \<Rightarrow> upload_state \<times> 'a) \<Rightarrow> upload_state \<Rightarrow> (db_error + 'a) \<times> upload_state" where
  "us_exec f s =
     (case us_outcome s of (oc, s) \<Rightarrow>
        if oc = Failed then (Inl DbError, s)
        else (case f s of (s', n) \<Rightarrow> (if oc = Lost then Inl DbError else Inr n, s')))"

section \<open>Enqueueing\<close>

definition workerPendingMax :: "string \<Rightarrow> int" where
  "workerPendingMax v =
     (case Atoi (TrimSpace v) of None \<Rightarrow> 1000
      | Some n \<Rightarrow> if TrimSpace v \<noteq> [] \<and> n > 0 then n else 1000)"

definition normalise_job :: "worker_job \<Rightarrow> worker_job" where
  "normalise_job j =
     (let j = (if wj_ProductMode j = [] then j\<lparr>wj_ProductMode := ''per_frame''\<rparr> else j);
          j = (if wj_ObjectKey j = [] \<and> wj_ObjectKeys j \<noteq> [] then j\<lparr>wj_ObjectKey := hd (wj_ObjectKeys j)\<rparr> else j)
      in if wj_ProductMode j = ''stack'' \<and> wj_ObjectKey j \<noteq> [] \<and> wj_ObjectKeys j = []
         then j\<lparr>wj_ObjectKeys := [wj_ObjectKey j]\<rparr> else j)"

definition add_key :: "string \<Rightarrow> worker_job \<Rightarrow> worker_job" where
  "add_key k j = (if k \<in> set (wj_ObjectKeys j) then j else j\<lparr>wj_ObjectKeys := wj_ObjectKeys j @ [k]\<rparr>)"

definition stack_of :: "int \<Rightarrow> worker_row \<Rightarrow> bool" where
  "stack_of task r \<longleftrightarrow>
     wj_TaskID (wr_job r) = task \<and> wj_ProductMode (wr_job r) = ''stack'' \<and> wr_status r = ''pending''"

text \<open>The statement that adds a frame to the pending stack of its task.\<close>

definition merge_stack :: "worker_job \<Rightarrow> upload_state \<Rightarrow> upload_state \<times> nat" where
  "merge_stack j s =
     (case sql_update (stack_of (wj_TaskID j)) (\<lambda>r. r\<lparr>wr_job := add_key (wj_ObjectKey j) (wr_job r)\<rparr>) (us_jobs s) of
        (rs, n) \<Rightarrow> (s\<lparr>us_jobs := rs\<rparr>, n))"

text \<open>The insertion, which does nothing when an open row has the same object; the mode has a check.\<close>

definition insert_job :: "gotime \<Rightarrow> worker_job \<Rightarrow> upload_state \<Rightarrow> upload_state" where
  "insert_job now j s =
     (if sql_exists (\<lambda>r. wj_ObjectKey (wr_job r) = wj_ObjectKey j \<and> wr_status r \<in> {''pending'', ''leased''}) (us_jobs s) then s
      else s\<lparr>us_jobs := us_jobs s @ [\<lparr>wr_id = us_next_job s, wr_job = j, wr_status = ''pending'', wr_created = now\<rparr>],
             us_next_job := us_next_job s + 1\<rparr>)"

text \<open>Memory: a stack takes all keys of the job.\<close>

fun merge_memory :: "worker_job \<Rightarrow> worker_job list \<Rightarrow> worker_job list option" where
  "merge_memory j [] = None"
| "merge_memory j (m # ms) =
     (if wj_TaskID m = wj_TaskID j \<and> wj_ProductMode m = ''stack'' then Some (fold add_key (wj_ObjectKeys j) m # ms)
      else map_option ((#) m) (merge_memory j ms))"

definition enqueue_memory :: "int \<Rightarrow> worker_job \<Rightarrow> upload_state \<Rightarrow> bool \<times> upload_state" where
  "enqueue_memory limit j s =
     (case (if wj_ProductMode j = ''stack'' then merge_memory j (us_memory s) else None) of
        Some ms \<Rightarrow> (True, s\<lparr>us_memory := ms\<rparr>)
      | None \<Rightarrow>
          if limit \<le> int (length (us_memory s)) then (False, s)
          else (True, s\<lparr>us_memory := us_memory s @ [j]\<rparr>))"

definition insert_or_keep :: "int \<Rightarrow> gotime \<Rightarrow> worker_job \<Rightarrow> upload_state \<Rightarrow> bool \<times> upload_state" where
  "insert_or_keep limit now j s =
     (case us_read (\<lambda>s. sql_count (\<lambda>r. wr_status r = ''pending'') (us_jobs s)) s of (c, s) \<Rightarrow>
        if (case c of Inr n \<Rightarrow> limit \<le> int n | Inl e \<Rightarrow> False) then (False, s)
        else (case us_exec (\<lambda>s. if wj_ProductMode j \<in> {''per_frame'', ''time_bin'', ''stack''}
                 then (insert_job now j s, True) else (s, False)) s of
            (Inr True, s) \<Rightarrow> (True, s)
          | (_, s) \<Rightarrow> enqueue_memory limit j s))"

text \<open>The result is \<open>False\<close> when the queue is full, which is its only error.\<close>

definition enqueueWorkerJob :: "int \<Rightarrow> gotime \<Rightarrow> worker_job \<Rightarrow> upload_state \<Rightarrow> bool \<times> upload_state" where
  "enqueueWorkerJob limit now job s =
     (let j = normalise_job job in
      if wj_ProductMode j = ''stack''
      then (case us_exec (merge_stack j) s of
          (Inr n, s) \<Rightarrow> if n > 0 then (True, s) else insert_or_keep limit now j s
        | (Inl e, s) \<Rightarrow> insert_or_keep limit now j s)
      else insert_or_keep limit now j s)"

section \<open>Claiming\<close>

definition claimable_job :: "worker_row \<Rightarrow> bool" where
  "claimable_job r \<longleftrightarrow> wr_status r = ''pending'' \<and>
     (wj_ProductMode (wr_job r) \<noteq> ''stack'' \<or> 2 \<le> length (wj_ObjectKeys (wr_job r)))"

text \<open>\<open>oldest\<close> is the database's order by \<open>created_at\<close>.\<close>

definition claim_tx ::
  "(worker_row list \<Rightarrow> worker_row list) \<Rightarrow> nat \<Rightarrow> upload_state \<Rightarrow> upload_state \<times> worker_row list" where
  "claim_tx oldest limit s =
     (let rows = take limit (oldest (filter claimable_job (us_jobs s))) in
      (s\<lparr>us_jobs := map (\<lambda>r. if wr_id r \<in> wr_id ` set rows \<and> wr_status r = ''pending''
           then r\<lparr>wr_status := ''done''\<rparr> else r) (us_jobs s)\<rparr>, rows))"

definition claimWorkerJobs ::
  "(worker_row list \<Rightarrow> worker_row list) \<Rightarrow> nat \<Rightarrow> upload_state \<Rightarrow> (db_error + worker_row list) \<times> upload_state" where
  "claimWorkerJobs oldest limit s = us_exec (claim_tx oldest limit) s"

section \<open>The endpoints\<close>

text \<open>The token of the worker, whether development mode is on, and the limit of the queue.\<close>

record worker_config =
  wc_token :: string
  wc_dev :: bool
  wc_limit :: int

definition requireWorkerAuth :: "worker_config \<Rightarrow> string \<Rightarrow> response option" where
  "requireWorkerAuth C auth =
     (let tok = TrimSpace (wc_token C) in
      if tok = [] then
        (if wc_dev C then None else Some (writeError 503 ''Worker API unavailable: WORKER_TOKEN not configured''))
      else if take 7 auth \<noteq> ''Bearer '' \<or> drop 7 auth \<noteq> tok then Some (writeError 401 ''Unauthorized'')
      else None)"

definition assertWorkerTokenConfigured :: "worker_config \<Rightarrow> bool" where
  "assertWorkerTokenConfigured C \<longleftrightarrow> TrimSpace (wc_token C) \<noteq> [] \<or> wc_dev C"

text \<open>The answer lists the jobs of the rows claimed and then those from memory.\<close>

datatype worker_reply = WorkerRefused response | WorkerJobs "worker_row list" "worker_job list"

definition handleWorkerPending ::
  "worker_config \<Rightarrow> (worker_row list \<Rightarrow> worker_row list) \<Rightarrow> string \<Rightarrow> upload_state \<Rightarrow> worker_reply \<times> upload_state" where
  "handleWorkerPending C oldest auth s =
     (case requireWorkerAuth C auth of
        Some r \<Rightarrow> (WorkerRefused r, s)
      | None \<Rightarrow>
          (case claimWorkerJobs oldest 100 s of (q, s) \<Rightarrow>
             (WorkerJobs (case q of Inl e \<Rightarrow> [] | Inr rows \<Rightarrow> rows) (us_memory s), s\<lparr>us_memory := []\<rparr>)))"

definition handleWorkerEnqueue ::
  "worker_config \<Rightarrow> gotime \<Rightarrow> string \<Rightarrow> worker_job option \<Rightarrow> upload_state \<Rightarrow> response \<times> upload_state" where
  "handleWorkerEnqueue C now auth body s =
     (case requireWorkerAuth C auth of
        Some r \<Rightarrow> (r, s)
      | None \<Rightarrow>
          (case body of
             None \<Rightarrow> (writeError 400 ''Invalid JSON'', s)
           | Some j \<Rightarrow>
               if wj_TaskID j = 0 \<or> wj_ObjectKey j = [] \<and> wj_ObjectKeys j = [] then
                 (writeError 400 ''task_id and object_key(s) required'', s)
               else (case enqueueWorkerJob (wc_limit C) now j s of
                   (ok, s) \<Rightarrow>
                     (if ok then \<lparr>rs_code = 200, rs_body = [(''ok'', ''true'')]\<rparr>
                      else writeError 503 ''Worker pending queue full'', s))))"

end
