(* ===== verification/Uploads.thy ===== *)
theory Uploads
  imports WorkerQueue
begin

text \<open>
  The upload endpoints of the API (\<open>cmd/apiserver/upload.go\<close>, \<open>upload_session.go\<close>, \<open>landing_url.go\<close>): a
  device with a token opens a session for a task it holds, asks for the URLs of the parts, and completes
  the upload, which closes the session and enqueues the frame for the worker.  The answers of the object
  store are arguments.
\<close>

section \<open>Requests\<close>

datatype 'a upload_body = BodyTooLarge | BodyReadError string | BodyBadJSON string | Body 'a

definition decodeUploadJSON :: "'a upload_body \<Rightarrow> response + 'a" where
  "decodeUploadJSON b =
     (case b of
        BodyTooLarge \<Rightarrow> Inl (writeError 413 ''request body too large'')
      | BodyReadError e \<Rightarrow> Inl (writeError 400 (''Invalid body: '' @ e))
      | BodyBadJSON e \<Rightarrow> Inl (writeError 400 (''Invalid JSON: '' @ e))
      | Body x \<Rightarrow> Inr x)"

record upload_start =
  su_CampaignID :: int
  su_TaskID :: int
  su_Filename :: string
  su_TelescopeID :: string
  su_IntegrationTime :: f64
  su_FilterRequested :: string
  su_ClientUploadID :: string
  su_ClockSource :: string
  su_DetectorTempC :: f64

definition sanitizeUploadFilename :: "string \<Rightarrow> string + string" where
  "sanitizeUploadFilename name =
     (let cleaned = map (\<lambda>c. if c = CHR 0x5C then CHR ''/'' else c) (TrimSpace name) in
      if cleaned = [] then Inl ''filename is required''
      else if CHR ''/'' \<in> set cleaned then Inl ''filename must be a single path segment''
      else if cleaned = ''.'' \<or> cleaned = ''..'' then Inl ''invalid filename''
      else if length cleaned > 128 then Inl ''filename too long''
      else Inr cleaned)"

text \<open>The settings: bucket, life of a session, hosts a landing URL must not have, the parsers of session
  ids (to their canonical form) and of URLs (scheme, host, whether it names a user, host name), the hash of a token.\<close>

record upload_config =
  uc_bucket :: string
  uc_ttl :: duration
  uc_deny :: string
  uc_limit :: int
  uc_uuid :: "string \<Rightarrow> string option"
  uc_parse_url :: "string \<Rightarrow> (string \<times> string \<times> bool \<times> string) option"
  uc_hash :: "string \<Rightarrow> string"

text \<open>What the object store answers.\<close>

record store_answers =
  sa_client :: bool
  sa_presign_client :: bool
  sa_initiate :: "string + string"
  sa_presign :: "string + string"
  sa_complete :: "string option"

definition uploadSessionTTL :: "(string \<Rightarrow> duration option) \<Rightarrow> string \<Rightarrow> duration" where
  "uploadSessionTTL parse raw =
     (if raw = [] then 6 * hour
      else (case parse raw of None \<Rightarrow> 6 * hour | Some d \<Rightarrow> if d > 0 then d else 6 * hour))"

definition landingDenyHosts :: "string \<Rightarrow> string list" where
  "landingDenyHosts raw =
     (let raw = TrimSpace raw in
      if raw = [] then [] else filter (\<lambda>p. p \<noteq> []) (map (\<lambda>p. TrimSpace (ToLower p)) (Split raw (CHR '',''))))"

definition assertDirectLandingURL :: "upload_config \<Rightarrow> string \<Rightarrow> bool" where
  "assertDirectLandingURL C url \<longleftrightarrow>
     url = [] \<or>
     (case uc_parse_url C url of
        None \<Rightarrow> False
      | Some (scheme, host, user, hostname) \<Rightarrow>
          scheme = ''https'' \<and> host \<noteq> [] \<and> \<not> user \<and> ToLower hostname \<notin> set (landingDenyHosts (uc_deny C)))"

section \<open>Devices\<close>

definition lookupDeviceByToken :: "upload_config \<Rightarrow> string \<Rightarrow> upload_state \<Rightarrow> upload_device option \<times> upload_state" where
  "lookupDeviceByToken C token s =
     (case us_read (\<lambda>s. us_devices s (uc_hash C token)) s of
        (Inr (Some (node, user, tel)), s) \<Rightarrow>
          (Some \<lparr>ud_NodeID = node, ud_UserID = user, ud_TelescopeID = (case tel of None \<Rightarrow> [] | Some t \<Rightarrow> t)\<rparr>, s)
      | (_, s) \<Rightarrow> (None, s))"

definition requireUploadDevice ::
  "upload_config \<Rightarrow> string \<Rightarrow> (upload_device \<Rightarrow> upload_state \<Rightarrow> response \<times> upload_state) \<Rightarrow> upload_state
   \<Rightarrow> response \<times> upload_state" where
  "requireUploadDevice C token handler s =
     (if token = [] then (writeError 401 ''Missing Authorization header'', s)
      else (case lookupDeviceByToken C token s of
          (None, s) \<Rightarrow> (writeError 401 ''Invalid or expired device token'', s)
        | (Some d, s) \<Rightarrow> handler d s))"

datatype upload_error = UploadNotFound | UploadForbidden | UploadExpired | UploadMismatch | UploadOther string

definition resolveUploadTelescopeID :: "upload_device \<Rightarrow> string \<Rightarrow> upload_error + string" where
  "resolveUploadTelescopeID d requested =
     (let requested = TrimSpace requested in
      if ud_TelescopeID d \<noteq> [] then
        (if requested \<noteq> [] \<and> requested \<noteq> ud_TelescopeID d then Inl UploadMismatch else Inr (ud_TelescopeID d))
      else if requested = [] then Inl (UploadOther ''telescope_id is required'') else Inr requested)"

section \<open>Sessions\<close>

definition authorizeUploadSession :: "gotime \<Rightarrow> upload_session \<Rightarrow> upload_device \<Rightarrow> upload_error option" where
  "authorizeUploadSession now p d =
     (if ps_CompletedAt p \<noteq> None then Some UploadNotFound
      else if ps_ExpiresAt p < now then Some UploadExpired
      else if ps_NodeID p \<noteq> ud_NodeID d then Some UploadForbidden
      else if ps_TelescopeID p \<noteq> ud_TelescopeID d then Some UploadForbidden
      else None)"

text \<open>\<open>sid\<close> is the id the database draws; the keys refuse an id or a store's upload id that is taken.\<close>

definition createUploadSession ::
  "upload_config \<Rightarrow> gotime \<Rightarrow> string \<Rightarrow> upload_device \<Rightarrow> string \<Rightarrow> string \<Rightarrow> grade_meta \<Rightarrow> upload_state
   \<Rightarrow> bool \<times> upload_state" where
  "createUploadSession C now sid d s3id path grade s =
     (case us_exec (\<lambda>s.
          if sql_exists (\<lambda>p. ps_SessionID p = sid \<or> ps_S3UploadID p = s3id) (us_sessions s) then (s, False)
          else (s\<lparr>us_sessions := us_sessions s @
            [\<lparr>ps_SessionID = sid, ps_S3UploadID = s3id, ps_NodeID = ud_NodeID d, ps_TelescopeID = ud_TelescopeID d,
              ps_ObjectPath = path, ps_Bucket = uc_bucket C, ps_Grade = grade, ps_ExpiresAt = now + uc_ttl C,
              ps_CompletedAt = None\<rparr>]\<rparr>, True)) s of
        (r, s) \<Rightarrow> (r = Inr True, s))"

definition getUploadSession ::
  "upload_config \<Rightarrow> string \<Rightarrow> upload_state \<Rightarrow> (upload_error + upload_session) \<times> upload_state" where
  "getUploadSession C sid s =
     (case us_read (\<lambda>s. case uc_uuid C sid of None \<Rightarrow> None
        | Some k \<Rightarrow> sql_find (\<lambda>p. ps_SessionID p = k) (us_sessions s)) s of
        (Inl e, s) \<Rightarrow> (Inl (UploadOther ''database''), s)
      | (Inr q, s) \<Rightarrow>
          (if uc_uuid C sid = None then Inl (UploadOther ''database'')
           else (case q of None \<Rightarrow> Inl UploadNotFound | Some p \<Rightarrow> Inr p), s))"

definition markUploadSessionComplete :: "gotime \<Rightarrow> string \<Rightarrow> upload_state \<Rightarrow> bool \<times> upload_state" where
  "markUploadSessionComplete now sid s =
     (case us_exec (\<lambda>s. case sql_update (\<lambda>p. ps_SessionID p = sid \<and> ps_CompletedAt p = None)
          (\<lambda>p. p\<lparr>ps_CompletedAt := Some now\<rparr>) (us_sessions s) of (ps, n) \<Rightarrow> (s\<lparr>us_sessions := ps\<rparr>, n)) s of
        (r, s) \<Rightarrow> ((case r of Inl e \<Rightarrow> False | Inr n \<Rightarrow> n > 0), s))"

definition deleteUploadSession :: "string \<Rightarrow> upload_state \<Rightarrow> upload_state" where
  "deleteUploadSession sid s =
     snd (us_exec (\<lambda>s. (s\<lparr>us_sessions := filter (\<lambda>p. ps_SessionID p \<noteq> sid) (us_sessions s)\<rparr>, ())) s)"

text \<open>\<open>soonest\<close> is the database's order by \<open>expires_at\<close>.\<close>

definition expired_session :: "gotime \<Rightarrow> upload_session \<Rightarrow> bool" where
  "expired_session now p \<longleftrightarrow> ps_CompletedAt p = None \<and> ps_ExpiresAt p < now"

definition listExpiredUploadSessions ::
  "(upload_session list \<Rightarrow> upload_session list) \<Rightarrow> gotime \<Rightarrow> int \<Rightarrow> upload_state
   \<Rightarrow> (db_error + upload_session list) \<times> upload_state" where
  "listExpiredUploadSessions soonest now limit =
     us_read (\<lambda>s. take (nat (if limit \<le> 0 then 100 else limit)) (soonest (filter (expired_session now) (us_sessions s))))"

definition sweepExpiredUploadSessions ::
  "(upload_session list \<Rightarrow> upload_session list) \<Rightarrow> gotime \<Rightarrow> upload_state \<Rightarrow> upload_state" where
  "sweepExpiredUploadSessions soonest now s =
     (case listExpiredUploadSessions soonest now 50 s of
        (Inl e, s) \<Rightarrow> s
      | (Inr ps, s) \<Rightarrow> fold (\<lambda>p. deleteUploadSession (ps_SessionID p)) ps s)"

definition writeUploadSessionError :: "upload_error \<Rightarrow> response" where
  "writeUploadSessionError e =
     (case e of
        UploadNotFound \<Rightarrow> writeError 404 ''Upload not found''
      | UploadForbidden \<Rightarrow> writeError 403 ''Upload session not owned by this device''
      | UploadExpired \<Rightarrow> writeError 410 ''Upload session expired''
      | _ \<Rightarrow> writeError 500 ''Upload session error'')"

section \<open>The endpoints\<close>

definition upload_denied :: "auth_error \<Rightarrow> response" where
  "upload_denied e =
     (case e of
        AuthTaskNotFound \<Rightarrow> writeError 404 ''task not found''
      | AuthNotAssigned \<Rightarrow> writeError 403 ''telescope is not assigned to this task''
      | AuthTerminal \<Rightarrow> writeError 403 ''task is not open for upload''
      | _ \<Rightarrow> writeError 500 ''Failed to validate task assignment'')"

definition check_assignment :: "string \<Rightarrow> int \<Rightarrow> upload_state \<Rightarrow> auth_error option \<times> upload_state" where
  "check_assignment tel i s = (case validateUploadAssignment tel i (us_api s) of (e, a) \<Rightarrow> (e, s\<lparr>us_api := a\<rparr>))"

definition product_mode :: "int \<Rightarrow> upload_state \<Rightarrow> string \<times> upload_state" where
  "product_mode i s =
     (case us_read (\<lambda>s. extra_by_id i (us_api s)) s of
        (Inr (Some x), s) \<Rightarrow> (tx_product_mode x, s)
      | (_, s) \<Rightarrow> (''per_frame'', s))"

definition object_path :: "upload_start \<Rightarrow> string \<Rightarrow> string" where
  "object_path r filename = Itoa (su_CampaignID r) @ ''/'' @ Itoa (su_TaskID r) @ ''/'' @ filename"

definition start_grade :: "upload_start \<Rightarrow> string \<Rightarrow> string \<Rightarrow> grade_meta" where
  "start_grade r tel mode =
     \<lparr>gm_CampaignID = su_CampaignID r, gm_TaskID = su_TaskID r, gm_TelescopeID = tel, gm_ProductMode = mode,
      gm_IntegrationTime = su_IntegrationTime r, gm_FilterRequested = su_FilterRequested r,
      gm_ClientUploadID = su_ClientUploadID r, gm_ClockSource = su_ClockSource r, gm_DetectorTempC = su_DetectorTempC r\<rparr>"

definition start_upload ::
  "upload_config \<Rightarrow> store_answers \<Rightarrow> gotime \<Rightarrow> string \<Rightarrow> upload_start \<Rightarrow> string \<Rightarrow> upload_device \<Rightarrow> upload_state
   \<Rightarrow> response \<times> upload_state" where
  "start_upload C A now sid r filename d s =
     (case check_assignment (ud_TelescopeID d) (su_TaskID r) s of
        (Some e, s) \<Rightarrow> (upload_denied e, s)
      | (None, s) \<Rightarrow>
          (case product_mode (su_TaskID r) s of (mode, s) \<Rightarrow>
             if \<not> sa_client A then (writeError 503 ''Storage backend unavailable'', s)
             else (case sa_initiate A of
                 Inl e \<Rightarrow> (writeError 500 (''Failed to start multipart upload: '' @ e), s)
               | Inr s3id \<Rightarrow>
                   (let path = object_path r filename in
                    case createUploadSession C now sid d s3id path (start_grade r (ud_TelescopeID d) mode) s of
                      (False, s) \<Rightarrow> (writeError 500 ''Failed to persist upload session'', s)
                    | (True, s) \<Rightarrow> (\<lparr>rs_code = 200, rs_body = [(''upload_id'', sid), (''file_path'', path)]\<rparr>, s)))))"

definition handleUploadStart ::
  "upload_config \<Rightarrow> store_answers \<Rightarrow> gotime \<Rightarrow> string \<Rightarrow> upload_start upload_body \<Rightarrow> upload_device \<Rightarrow> upload_state
   \<Rightarrow> response \<times> upload_state" where
  "handleUploadStart C A now sid body d s =
     (case decodeUploadJSON body of
        Inl r \<Rightarrow> (r, s)
      | Inr r \<Rightarrow>
          (case sanitizeUploadFilename (su_Filename r) of
             Inl e \<Rightarrow> (writeError 400 e, s)
           | Inr filename \<Rightarrow>
               (case resolveUploadTelescopeID d (su_TelescopeID r) of
                  Inl UploadMismatch \<Rightarrow> (writeError 403 ''telescope_id does not match authenticated device'', s)
                | Inl (UploadOther e) \<Rightarrow> (writeError 400 e, s)
                | Inl e \<Rightarrow> (writeError 400 [], s)
                | Inr tel \<Rightarrow> start_upload C A now sid r filename (d\<lparr>ud_TelescopeID := tel\<rparr>) s)))"

text \<open>The common beginning of the two other endpoints: the session, if it is the device's and open.\<close>

definition open_session ::
  "upload_config \<Rightarrow> gotime \<Rightarrow> string \<Rightarrow> upload_device \<Rightarrow> upload_state \<Rightarrow> (response + upload_session) \<times> upload_state" where
  "open_session C now sid d s =
     (case getUploadSession C sid s of
        (Inl e, s) \<Rightarrow> (Inl (writeUploadSessionError e), s)
      | (Inr p, s) \<Rightarrow>
          (case authorizeUploadSession now p d of
             Some e \<Rightarrow> (Inl (writeUploadSessionError e), s)
           | None \<Rightarrow> (Inr p, s)))"

definition handleUploadPresign ::
  "upload_config \<Rightarrow> store_answers \<Rightarrow> gotime \<Rightarrow> (string \<times> int) upload_body \<Rightarrow> upload_device \<Rightarrow> upload_state
   \<Rightarrow> response \<times> upload_state" where
  "handleUploadPresign C A now body d s =
     (case decodeUploadJSON body of
        Inl r \<Rightarrow> (r, s)
      | Inr (sid, part) \<Rightarrow>
          (case open_session C now sid d s of
             (Inl r, s) \<Rightarrow> (r, s)
           | (Inr p, s) \<Rightarrow>
               (if \<not> sa_presign_client A then writeError 503 ''Storage backend unavailable''
                else (case sa_presign A of
                    Inl e \<Rightarrow> writeError 500 (''Failed to generate presigned URL: '' @ e)
                  | Inr url \<Rightarrow>
                      if \<not> assertDirectLandingURL C url
                      then writeError 500 ''presign URL host invalid for bandwidth policy''
                      else \<lparr>rs_code = 200, rs_body = [(''presigned_url'', url), (''part_number'', Itoa part)]\<rparr>), s)))"

definition frame_job :: "upload_session \<Rightarrow> worker_job" where
  "frame_job p =
     (let g = ps_Grade p in
      \<lparr>wj_TaskID = gm_TaskID g, wj_CampaignID = gm_CampaignID g, wj_TelescopeID = gm_TelescopeID g,
       wj_ObjectKey = ps_ObjectPath p, wj_ObjectKeys = [], wj_ProductMode = gm_ProductMode g\<rparr>)"

definition handleUploadComplete ::
  "upload_config \<Rightarrow> store_answers \<Rightarrow> gotime \<Rightarrow> string upload_body \<Rightarrow> upload_device \<Rightarrow> upload_state
   \<Rightarrow> response \<times> upload_state" where
  "handleUploadComplete C A now body d s =
     (case decodeUploadJSON body of
        Inl r \<Rightarrow> (r, s)
      | Inr sid \<Rightarrow>
          (case open_session C now sid d s of
             (Inl r, s) \<Rightarrow> (r, s)
           | (Inr p, s) \<Rightarrow>
               if \<not> sa_client A then (writeError 503 ''Storage backend unavailable'', s)
               else (case sa_complete A of
                   Some e \<Rightarrow> (writeError 500 (''Failed to complete upload: '' @ e), s)
                 | None \<Rightarrow>
                     (case markUploadSessionComplete now (ps_SessionID p) s of (_, s) \<Rightarrow>
                        (case enqueueWorkerJob (uc_limit C) now (frame_job p) s of
                           (False, s) \<Rightarrow> (writeError 503 ''Worker pending queue full'', s)
                         | (True, s) \<Rightarrow> (\<lparr>rs_code = 200, rs_body = [(''file_path'', ps_ObjectPath p)]\<rparr>, s))))))"

end
