(* ===== verification/Grades.thy ===== *)
theory Grades
  imports GradingProps Uploads
begin

text \<open>
  The ingestion of grades (\<open>cmd/apiserver/grades.go\<close>, \<open>grades_coerce.go\<close>, \<open>grades_object_key.go\<close>,
  \<open>grades_auth.go\<close>, \<open>grades_catalog.go\<close> and the deliveries of \<open>inbox.go\<close> and \<open>developer_inbox.go\<close>): one frame
  row per idempotency key, points for the telescope, the debit of the task's budget, deliveries and
  events, and an entry of the catalogue.  A body is decoded without \<open>UseNumber\<close>, so its numbers are
  \<open>float64\<close>.
\<close>

section \<open>State\<close>

text \<open>A row of \<open>frame_grades\<close>, without the copy of the breakdown of its points.\<close>

record frame_grade =
  fg_id :: int
  fg_upload :: "string option"
  fg_key :: string
  fg_task :: "int option"
  fg_telescope :: string
  fg_headline :: int
  fg_dimensions :: jmap
  fg_points :: f64
  fg_stack :: bool
  fg_exptime :: f64
  fg_grader :: "string option"
  fg_quality :: jmap
  fg_created :: gotime

record inbox_delivery =
  in_user :: string
  in_campaign :: string
  in_task :: int
  in_task_public :: "string option"
  in_frame :: int
  in_upload :: "string option"
  in_status :: string
  in_reason :: "string option"
  in_raw_key :: "string option"
  in_graded_key :: "string option"
  in_points :: f64
  in_stack :: bool

record developer_delivery =
  dv_user :: string
  dv_task :: int
  dv_status :: string
  dv_reason :: "string option"
  dv_graded_key :: "string option"
  dv_spec :: string
  dv_frame :: int
  dv_upload :: "string option"

text \<open>A row of the catalogue: its text columns and its numbers by name.\<close>

record catalog_row =
  ct_upload :: "string option"
  ct_telescope :: string
  ct_object_key :: string
  ct_text :: "string \<Rightarrow> string option"
  ct_number :: "string \<Rightarrow> f64 option"
  ct_date :: "gotime option"
  ct_headline :: int
  ct_stack :: bool

text \<open>\<open>gr_stats\<close> is the column \<open>reputation_stats\<close> of the telescopes, \<open>gr_exposure\<close> the column
  \<open>accumulated_exposure_seconds\<close> of the tasks and \<open>gr_scale\<close> the \<open>points_multiplier\<close> of the campaigns.\<close>

record grades_db =
  gr_up :: upload_state
  gr_frames :: "frame_grade list"
  gr_next :: int
  gr_stats :: "string \<Rightarrow> jmap option"
  gr_exposure :: "int \<Rightarrow> f64"
  gr_scale :: "string \<Rightarrow> f64 option"
  gr_inbox :: "inbox_delivery list"
  gr_developer :: "developer_delivery list"
  gr_catalog :: "catalog_row list"

definition on_api_state :: "(api_state \<Rightarrow> 'a \<times> api_state) \<Rightarrow> grades_db \<Rightarrow> 'a \<times> grades_db" where
  "on_api_state f s = (case f (us_api (gr_up s)) of (r, a) \<Rightarrow> (r, s\<lparr>gr_up := (gr_up s)\<lparr>us_api := a\<rparr>\<rparr>))"

definition gr_read :: "(grades_db \<Rightarrow> 'a) \<Rightarrow> grades_db \<Rightarrow> (db_error + 'a) \<times> grades_db" where
  "gr_read f s = (case on_api_state api_outcome s of (oc, s) \<Rightarrow> (if oc = Done then Inr (f s) else Inl DbError, s))"

definition gr_exec :: "(grades_db \<Rightarrow> grades_db \<times> 'a) \<Rightarrow> grades_db \<Rightarrow> (db_error + 'a) \<times> grades_db" where
  "gr_exec f s =
     (case on_api_state api_outcome s of (oc, s) \<Rightarrow>
        if oc = Failed then (Inl DbError, s)
        else (case f s of (s', n) \<Rightarrow> (if oc = Lost then Inl DbError else Inr n, s')))"

definition null_string :: "string \<Rightarrow> string option" where
  "null_string s = (if s = [] then None else Some s)"

section \<open>Authentication and coercion\<close>

text \<open>\<open>header\<close> reads a header of the request.\<close>

definition gradesIngestTokenValid :: "string \<Rightarrow> (string \<Rightarrow> string) \<Rightarrow> bool" where
  "gradesIngestTokenValid expected header \<longleftrightarrow>
     expected \<noteq> [] \<and>
     (HasPrefix (header ''Authorization'') ''Bearer '' \<and> drop 7 (header ''Authorization'') = expected \<or>
      list_ex (\<lambda>h. header h = expected) [''Grades-Ingest-Token'', ''X-Grades-Ingest-Token'', ''GRADES_INGEST_TOKEN''])"

definition intFromAnyOK :: "json option \<Rightarrow> int option" where
  "intFromAnyOK v = (case v of Some (JNumber x) \<Rightarrow> Some (f2i x) | Some (JInt n) \<Rightarrow> Some n | _ \<Rightarrow> None)"

definition intFromAny :: "json option \<Rightarrow> int" where
  "intFromAny v = (case intFromAnyOK v of None \<Rightarrow> 0 | Some n \<Rightarrow> n)"

definition resolveOAExptime :: "jmap \<Rightarrow> jmap \<Rightarrow> f64" where
  "resolveOAExptime data dimensions =
     (case floatFromAny (data ''sp_exptime'') of
        Some v \<Rightarrow> v
      | None \<Rightarrow>
          (case (floatFromAny (object_at dimensions ''task_fidelity'' ''exptime_ratio''), floatFromAny (data ''integration_time_requested'')) of
             (Some ratio, Some requested) \<Rightarrow> if flt (Fin 0) requested then fmul ratio requested else Fin 0
           | _ \<Rightarrow> Fin 0))"

definition fmax0 :: "f64 \<Rightarrow> f64" where
  "fmax0 b = (if flt b (Fin 0) then Fin 0 else b)"

section \<open>Object keys\<close>

fun join_slash :: "string list \<Rightarrow> string" where
  "join_slash [] = []"
| "join_slash [p] = p"
| "join_slash (p # q # ps) = p @ ''/'' @ join_slash (q # ps)"

text \<open>\<open>path.Clean\<close> of a relative path without \<open>..\<close>, which is the only case it is called in.\<close>

definition clean_path :: "string \<Rightarrow> string" where
  "clean_path k =
     (let segs = filter (\<lambda>x. x \<noteq> [] \<and> x \<noteq> ''.'') (Split k (CHR ''/''))
      in if segs = [] then ''.'' else join_slash segs)"

definition dot_dot_text :: string where
  "dot_dot_text = ''object key must not contain '' @ [CHR 0x27] @ ''..'' @ [CHR 0x27]"

definition canonicalizeLandingObjectKey :: "string \<Rightarrow> string + string" where
  "canonicalizeLandingObjectKey key =
     (let k = map (\<lambda>c. if c = CHR 0x5C then CHR ''/'' else c) (TrimSpace key) in
      if k = [] then Inl ''object key is empty''
      else if HasPrefix k ''/'' then Inl ''object key must be relative''
      else if ''..'' \<in> set (Split k (CHR ''/'')) then Inl dot_dot_text
      else (let cleaned = clean_path k in
        if cleaned = ''.'' \<or> cleaned = [] then Inl ''object key is empty''
        else if HasPrefix cleaned ''../'' \<or> cleaned = ''..'' \<or> HasPrefix cleaned ''/'' then Inl dot_dot_text
        else Inr cleaned))"

definition isObjectStoreKey :: "string \<Rightarrow> bool" where
  "isObjectStoreKey key \<longleftrightarrow>
     (let k = TrimSpace key in k \<noteq> [] \<and> \<not> HasPrefix k ''/'' \<and> Index k ''://'' = None)"

definition landingPrefix :: "string \<Rightarrow> int \<Rightarrow> string" where
  "landingPrefix campaignID taskID = campaignID @ ''/'' @ Itoa taskID @ ''/''"

definition objectKeyUnderLandingPrefix :: "string \<Rightarrow> string \<Rightarrow> int \<Rightarrow> bool" where
  "objectKeyUnderLandingPrefix cleaned campaignID taskID \<longleftrightarrow>
     campaignID \<noteq> [] \<and> HasPrefix cleaned (landingPrefix campaignID taskID) \<or>
     (case Split cleaned (CHR ''/'') of
        p # t # q # ps \<Rightarrow> p \<noteq> [] \<and> p \<noteq> ''.'' \<and> p \<noteq> ''..'' \<and> t = Itoa taskID
      | _ \<Rightarrow> False)"

definition stringField :: "jmap \<Rightarrow> string \<Rightarrow> string" where
  "stringField m key = stringFromAny (m key)"

definition collectGradeObjectKeys :: "jmap \<Rightarrow> string list" where
  "collectGradeObjectKeys data =
     (let keys = filter isObjectStoreKey
        [stringField data ''object_key'', stringField data ''graded_object_key'', stringField (object_at data ''quality_metrics'') ''object_key'']
      in rev (remdups (rev keys)))"

text \<open>Rows of the queue or of the sessions that name the key for another task or telescope; a failing probe
  passes.\<close>

definition assertObjectKeyNotForeignRegistered :: "string \<Rightarrow> int \<Rightarrow> string \<Rightarrow> grades_db \<Rightarrow> bool \<times> grades_db" where
  "assertObjectKeyNotForeignRegistered key taskID telescopeID s =
     (case gr_read (\<lambda>s. sql_exists (\<lambda>r. wj_ObjectKey (wr_job r) = key \<and> wj_TaskID (wr_job r) \<noteq> taskID) (us_jobs (gr_up s))) s of
        (Inl e, s) \<Rightarrow> (True, s)
      | (Inr True, s) \<Rightarrow> (False, s)
      | (Inr False, s) \<Rightarrow>
          if telescopeID = [] then (True, s)
          else (case gr_read (\<lambda>s. sql_exists (\<lambda>p. ps_ObjectPath p = key \<and> ps_TelescopeID p \<noteq> telescopeID) (us_sessions (gr_up s))) s of
              (q, s) \<Rightarrow> (q \<noteq> Inr True, s)))"

fun check_object_keys :: "string \<Rightarrow> int \<Rightarrow> string \<Rightarrow> string list \<Rightarrow> grades_db \<Rightarrow> string option \<times> grades_db" where
  "check_object_keys camp task tel [] s = (None, s)"
| "check_object_keys camp task tel (key # keys) s =
     (case canonicalizeLandingObjectKey key of
        Inl e \<Rightarrow> (Some (''object key outside landing prefix ('' @ e @ '')''), s)
      | Inr cleaned \<Rightarrow>
          if \<not> objectKeyUnderLandingPrefix cleaned camp task
          then (Some (''object key outside landing prefix for task '' @ Itoa task), s)
          else (case assertObjectKeyNotForeignRegistered cleaned task tel s of
              (False, s) \<Rightarrow> (Some ''object key registered to another task or telescope'', s)
            | (True, s) \<Rightarrow> check_object_keys camp task tel keys s))"

definition validateGradeIngestObjectKeys :: "jmap \<Rightarrow> int option \<Rightarrow> string \<Rightarrow> grades_db \<Rightarrow> string option \<times> grades_db" where
  "validateGradeIngestObjectKeys data taskPK telescopeID s =
     (let keys = collectGradeObjectKeys data in
      if keys = [] then (None, s)
      else (case taskPK of
          None \<Rightarrow> (Some ''object key requires a valid task_id'', s)
        | Some task \<Rightarrow>
            (case on_api_state (api_read (campaign_of_task task)) s of
               (q, s) \<Rightarrow> check_object_keys (case q of Inr (Some c) \<Rightarrow> c | _ \<Rightarrow> []) task telescopeID keys s)))"

section \<open>Deliveries\<close>

definition delivery_status :: "jmap \<Rightarrow> bool \<Rightarrow> string \<times> string option" where
  "delivery_status data stackEligible =
     (if intFromAny (data ''headline'') \<le> 0 \<and> \<not> stackEligible then (''failed'', Some ''frame not stack-eligible'')
      else (''completed'', None))"

definition inbox_owner :: "int \<Rightarrow> api_state \<Rightarrow> (string \<times> string \<times> string option) option" where
  "inbox_owner task a =
     (case campaign_of_task task a of
        Some c \<Rightarrow>
          (case as_owner a c of
             Some u \<Rightarrow> if c = [] \<or> u = [] then None else Some (c, u, map_option tx_public_id (extra_by_id task a))
           | None \<Rightarrow> None)
      | None \<Rightarrow> None)"

definition createInboxDeliveryFromGrade ::
  "int \<Rightarrow> int option \<Rightarrow> string \<Rightarrow> jmap \<Rightarrow> f64 \<Rightarrow> bool \<Rightarrow> grades_db \<Rightarrow> grades_db" where
  "createInboxDeliveryFromGrade frameID taskPK uploadID data points stackEligible s =
     (case taskPK of
        None \<Rightarrow> s
      | Some task \<Rightarrow>
          (case on_api_state (api_read (inbox_owner task)) s of
             (Inr (Some (c, u, public)), s) \<Rightarrow>
               (let raw = (let k = stringField data ''object_key'' in
                      if k = [] then stringField (object_at data ''quality_metrics'') ''object_key'' else k);
                    graded = (let k = stringField data ''graded_object_key'' in if k = [] then raw else k);
                    (status, reason) = delivery_status data stackEligible
                in snd (gr_exec (\<lambda>s. (s\<lparr>gr_inbox := gr_inbox s @
                     [\<lparr>in_user = u, in_campaign = c, in_task = task, in_task_public = public, in_frame = frameID,
                       in_upload = null_string uploadID, in_status = status, in_reason = reason,
                       in_raw_key = null_string raw, in_graded_key = null_string graded, in_points = points,
                       in_stack = stackEligible\<rparr>]\<rparr>, ())) s))
           | (_, s) \<Rightarrow> s))"

definition createDeveloperDeliveryFromGrade ::
  "int \<Rightarrow> int option \<Rightarrow> string \<Rightarrow> jmap \<Rightarrow> bool \<Rightarrow> grades_db \<Rightarrow> grades_db" where
  "createDeveloperDeliveryFromGrade frameID taskPK uploadID data stackEligible s =
     (case taskPK of
        None \<Rightarrow> s
      | Some task \<Rightarrow>
          (case on_api_state (api_read (extra_by_id task)) s of
             (Inr (Some x), s) \<Rightarrow>
               (case tx_developer x of
                  None \<Rightarrow> s
                | Some u \<Rightarrow>
                    if u = [] then s
                    else (let graded = (let k = stringField data ''graded_object_key'' in
                             if k = [] then stringField data ''object_key'' else k);
                          (status, reason) = delivery_status data stackEligible
                      in snd (gr_exec (\<lambda>s. (s\<lparr>gr_developer := gr_developer s @
                           [\<lparr>dv_user = u, dv_task = task, dv_status = status, dv_reason = reason, dv_graded_key = null_string graded,
                             dv_spec = (case tx_original_spec x of None \<Rightarrow> ''{}'' | Some o1 \<Rightarrow> o1), dv_frame = frameID, dv_upload = null_string uploadID\<rparr>]\<rparr>, ())) s)))
           | (_, s) \<Rightarrow> s))"

definition emitCampaignAlert :: "string \<Rightarrow> string \<Rightarrow> string \<Rightarrow> int option \<Rightarrow> api_state \<Rightarrow> api_state" where
  "emitCampaignAlert cid type msg task s =
     (case api_read (\<lambda>s. as_owner s cid) s of
        (Inr (Some u), s) \<Rightarrow>
          if u = [] then s
          else emitResearcherEvent \<lparr>ev_user = u, ev_kind = ''alert'', ev_type = type, ev_message = msg, ev_campaign = cid, ev_task = task\<rparr> s
      | (_, s) \<Rightarrow> s)"

definition announce_grade :: "int option \<Rightarrow> bool \<Rightarrow> grades_db \<Rightarrow> grades_db" where
  "announce_grade taskPK stackEligible s =
     (case taskPK of
        None \<Rightarrow> s
      | Some task \<Rightarrow>
          (case on_api_state (api_read (campaign_of_task task)) s of
             (Inr (Some cid), s) \<Rightarrow>
               if cid = [] then s
               else (let emit = (\<lambda>f s. snd (on_api_state (\<lambda>a. ((), f a)) s));
                         s = emit (emitCampaignUpdate cid ''frame.graded'' ''Frame graded and ingested'' (Some task)) s
                     in if \<not> stackEligible
                        then emit (emitCampaignAlert cid ''frame.rejected'' (''Frame not stack-eligible '' @ [CHR 0xE2, CHR 0x80, CHR 0x94] @ '' review quality'') (Some task)) s
                        else (case gr_read (\<lambda>s. sql_count (\<lambda>f. fg_task f = Some task \<and> fg_stack f) (gr_frames s)) s of
                            (n, s) \<Rightarrow> emit (emitCampaignUpdate cid ''stack.progress'' ''Stack-eligible frame count updated'' (Some task)) s))
           | (_, s) \<Rightarrow> s))"

section \<open>The catalogue\<close>

text \<open>Column and field of the texts and numbers that the catalogue takes from a grade.\<close>

definition catalog_texts :: "(string \<times> string \<times> string) list" where
  "catalog_texts =
     [(''filter'', ''sp_filter'', ''filter''), (''calstat'', ''sp_calstat'', ''calstat''), (''campaign_id'', ''campaign_id'', ''campaign_id''),
      (''frame_id'', ''frame_id'', ''frame_id''), (''checksum_sha256'', ''checksum_sha256'', ''checksum_sha256''),
      (''phot_flag'', ''phot_flag'', ''phot_flag'')]"

definition catalog_numbers :: "(string \<times> string \<times> string) list" where
  "catalog_numbers =
     [(''ra_deg'', ''sp_ra'', ''ra_deg''), (''dec_deg'', ''sp_dec'', ''dec_deg''), (''fwhm_arcsec'', ''sp_fwhm'', ''fwhm_arcsec''),
      (''snr'', ''sp_snr'', ''snr''), (''mjd_obs'', ''mjd_obs'', ''mjd_obs''), (''airmass'', ''airmass'', ''airmass''), (''zp'', ''zp'', ''zp'')]"

definition first_text :: "string \<Rightarrow> string \<Rightarrow> string" where
  "first_text a b = (if a = [] then b else a)"

definition catalog_text :: "(json \<Rightarrow> string) \<Rightarrow> jmap \<Rightarrow> string \<Rightarrow> string option" where
  "catalog_text sprint data col =
     (let nested = object_at data ''frame_catalog'' in
      if col = ''task_id'' then
        null_string (first_text (case data ''task_id'' of None \<Rightarrow> [] | Some JNull \<Rightarrow> [] | Some v \<Rightarrow> sprint v)
          (stringFromAny (nested ''task_id'')))
      else (case map_of catalog_texts col of
          None \<Rightarrow> None
        | Some (field, inner) \<Rightarrow> null_string (first_text (stringFromAny (data field)) (stringFromAny (nested inner)))))"

definition catalog_number :: "f64 \<Rightarrow> jmap \<Rightarrow> string \<Rightarrow> f64 option" where
  "catalog_number oaExptime data col =
     (let nested = object_at data ''frame_catalog'' in
      if col = ''exptime_sec'' then Some (case floatFromAny (data ''sp_exptime'') of None \<Rightarrow> oaExptime | Some x \<Rightarrow> x)
      else (case map_of catalog_numbers col of
          None \<Rightarrow> None
        | Some (field, inner) \<Rightarrow> (case floatFromAny (data field) of Some x \<Rightarrow> Some x | None \<Rightarrow> floatFromAny (nested inner))))"

definition catalog_key :: "jmap \<Rightarrow> string" where
  "catalog_key data =
     (let uploadID = stringFromAny (data ''upload_id'');
          k = first_text (stringFromAny (data ''object_key'')) (stringFromAny (object_at data ''quality_metrics'' ''object_key''));
          k = (if k = [] \<and> uploadID \<noteq> [] then ''upload/'' @ uploadID else k);
          n = stringFromAny (object_at data ''frame_catalog'' ''object_key'')
      in if k = [] then [] else if n \<noteq> [] then n else k)"

definition catalog_date :: "jmap \<Rightarrow> string" where
  "catalog_date data =
     first_text (stringFromAny (data ''sp_dateobs'')) (stringFromAny (object_at data ''frame_catalog'' ''date_obs''))"

definition merge_catalog :: "catalog_row \<Rightarrow> catalog_row \<Rightarrow> catalog_row" where
  "merge_catalog c old =
     c\<lparr>ct_upload := ct_upload old,
       ct_text := (\<lambda>k. case ct_text c k of None \<Rightarrow> ct_text old k | x \<Rightarrow> x),
       ct_number := (\<lambda>k. case ct_number c k of None \<Rightarrow> ct_number old k | x \<Rightarrow> x),
       ct_date := (case ct_date c of None \<Rightarrow> ct_date old | x \<Rightarrow> x)\<rparr>"

text \<open>\<open>timestamptz\<close> is the database's conversion, \<open>sprint\<close> is \<open>fmt.Sprint\<close>.  A date or headline that the columns
  do not take makes the statement fail, which the caller ignores.\<close>

definition upsertFrameCatalogFromGrade ::
  "(string \<Rightarrow> gotime option) \<Rightarrow> (json \<Rightarrow> string) \<Rightarrow> jmap \<Rightarrow> string \<Rightarrow> int \<Rightarrow> bool \<Rightarrow> f64 \<Rightarrow> grades_db \<Rightarrow> grades_db" where
  "upsertFrameCatalogFromGrade timestamptz sprint data telescope headline stackEligible oaExptime s =
     (if catalog_key data = [] then s
      else (let d = catalog_date data;
                c = \<lparr>ct_upload = null_string (stringFromAny (data ''upload_id'')), ct_telescope = telescope, ct_object_key = catalog_key data,
                     ct_text = catalog_text sprint data, ct_number = catalog_number oaExptime data,
                     ct_date = (if d = [] then None else timestamptz d),
                     ct_headline = headline, ct_stack = stackEligible\<rparr>
            in snd (gr_exec (\<lambda>s.
                 if d \<noteq> [] \<and> timestamptz d = None \<or> headline < - 32768 \<or> 32767 < headline then (s, ())
                 else if ct_upload c \<noteq> None \<and> list_ex (\<lambda>r. ct_upload r = ct_upload c) (gr_catalog s)
                 then (s\<lparr>gr_catalog := map (\<lambda>r. if ct_upload r = ct_upload c then merge_catalog c r else r) (gr_catalog s)\<rparr>, ())
                 else (s\<lparr>gr_catalog := gr_catalog s @ [c]\<rparr>, ())) s)))"

section \<open>Ingestion\<close>

text \<open>The clock, the formatted clock, \<open>math.Log1p\<close> and the conversions of the catalogue.\<close>

record grade_env =
  ge_now :: gotime
  ge_now_text :: string
  ge_log1p :: "f64 \<Rightarrow> f64"
  ge_timestamptz :: "string \<Rightarrow> gotime option"
  ge_sprint :: "json \<Rightarrow> string"

datatype grade_reply = GradeRefused int string | GradeDuplicate int | GradeFailed string | GradeIngested int f64 bool jmap

definition ingest_task :: "jmap \<Rightarrow> grades_db \<Rightarrow> (int option \<times> f64) \<times> grades_db" where
  "ingest_task data s =
     (case intFromAnyOK (data ''task_id'') of
        None \<Rightarrow> ((None, Fin 1), s)
      | Some tid \<Rightarrow>
          (case on_api_state (api_read (task_by_id tid)) s of
             (Inr (Some t), s) \<Rightarrow>
               (case gr_read (\<lambda>s. case tk_campaign t of None \<Rightarrow> Fin 1
                    | Some c \<Rightarrow> (case gr_scale s c of None \<Rightarrow> Fin 1 | Some x \<Rightarrow> x)) s of
                  (Inl e, s) \<Rightarrow> ((Some tid, Fin 1), s)
                | (Inr x, s) \<Rightarrow> ((Some tid, x), s))
           | (_, s) \<Rightarrow> ((None, Fin 1), s)))"

definition quality_columns :: "jmap \<Rightarrow> jmap" where
  "quality_columns data =
     (let q = object_at data ''quality_metrics'';
          q = (case data ''sp_emulator'' of None \<Rightarrow> q | Some v \<Rightarrow> q(''sp_emulator'' \<mapsto> v));
          t = stringFromAny (data ''data_tier'');
          q = (if t = [] then q else q(''data_tier'' \<mapsto> JString t));
          q = (case data ''science_eligible'' of None \<Rightarrow> q | Some v \<Rightarrow> q(''science_eligible'' \<mapsto> v));
          k = stringFromAny (data ''object_key'')
      in if k = [] then q else q(''object_key'' \<mapsto> JString k))"

definition points_of :: "(f64 \<Rightarrow> f64) \<Rightarrow> jmap \<Rightarrow> jmap \<Rightarrow> jmap \<Rightarrow> f64 \<Rightarrow> points_breakdown" where
  "points_of log1p data dimensions stats scale =
     ComputeFramePoints log1p [''dimensions'' \<mapsto> JObject dimensions, ''sp_exptime'' \<mapsto> JNumber (resolveOAExptime data dimensions)] stats scale"

text \<open>The columns have widths, and the key is unique.\<close>

definition frame_fits :: "frame_grade \<Rightarrow> grades_db \<Rightarrow> bool" where
  "frame_fits f s \<longleftrightarrow>
     length (fg_key f) \<le> 128 \<and> length (fg_telescope f) \<le> 100 \<and> \<bar>fg_headline f\<bar> < 2 ^ 31 \<and>
     (case fg_upload f of None \<Rightarrow> True | Some u \<Rightarrow> length u \<le> 64) \<and>
     (case fg_grader f of None \<Rightarrow> True | Some u \<Rightarrow> length u \<le> 32) \<and>
     gr_stats s (fg_telescope f) \<noteq> None \<and> \<not> list_ex (\<lambda>r. fg_key r = fg_key f) (gr_frames s)"

definition insert_frame :: "frame_grade \<Rightarrow> grades_db \<Rightarrow> grades_db \<times> int option" where
  "insert_frame f s =
     (if frame_fits f s
      then (s\<lparr>gr_frames := gr_frames s @ [f\<lparr>fg_id := gr_next s\<rparr>], gr_next := gr_next s + 1\<rparr>, Some (gr_next s))
      else (s, None))"

text \<open>What a column of numbers reads back: \<open>json.Marshal\<close> refuses infinities and NaN, and then stores nothing.\<close>

definition finite_number :: "json option \<Rightarrow> bool" where
  "finite_number v = (case v of Some (JNumber x) \<Rightarrow> \<not> is_NaN x \<and> \<not> is_Inf x | _ \<Rightarrow> True)"

definition stored_stats :: "jmap \<Rightarrow> jmap" where
  "stored_stats m =
     (if list_all (\<lambda>k. finite_number (m k))
          [''total_points'', ''total_exposure_seconds'', ''points_per_hour'', ''reliability_score'', ''task_quality_score'']
      then (\<lambda>k. case m k of Some (JInt n) \<Rightarrow> Some (JNumber (i2f n)) | x \<Rightarrow> x)
      else Map.empty)"

text \<open>The end of an ingestion, once its row is in the table.\<close>

definition after_insert ::
  "grade_env \<Rightarrow> jmap \<Rightarrow> int option \<Rightarrow> string \<Rightarrow> jmap \<Rightarrow> jmap \<Rightarrow> int \<Rightarrow> f64 \<Rightarrow> bool \<Rightarrow> f64 \<Rightarrow> int \<Rightarrow> grades_db
   \<Rightarrow> grade_reply \<times> grades_db" where
  "after_insert E data taskPK tel dimensions stats headline points stackEligible oaExptime frameID s =
     (case on_api_state (applyTaskBudgetDebit (ge_now E) taskPK tel oaExptime stackEligible) s of
        (False, s) \<Rightarrow> (GradeFailed ''budget'', s)
      | (True, s) \<Rightarrow>
          (let uploadID = stringFromAny (data ''upload_id'');
               s = createInboxDeliveryFromGrade frameID taskPK uploadID data points stackEligible s;
               s = createDeveloperDeliveryFromGrade frameID taskPK uploadID data stackEligible s;
               s = announce_grade taskPK stackEligible s;
               merged = MergeReputationStats stats (BuildReputationPartial (ge_now_text E) stats headline dimensions points oaExptime)
           in case gr_exec (\<lambda>s. (s\<lparr>gr_stats := (\<lambda>t. if t = tel then map_option (\<lambda>x. stored_stats merged) (gr_stats s t) else gr_stats s t)\<rparr>, ())) s of
                (Inl e, s) \<Rightarrow> (GradeFailed ''update reputation'', s)
              | (Inr u, s) \<Rightarrow>
                  (GradeIngested frameID points stackEligible merged,
                   upsertFrameCatalogFromGrade (ge_timestamptz E) (ge_sprint E) data tel headline stackEligible oaExptime s)))"

definition add_exposure :: "int option \<Rightarrow> f64 \<Rightarrow> grades_db \<Rightarrow> grades_db" where
  "add_exposure taskPK oaExptime s =
     (case taskPK of
        None \<Rightarrow> s
      | Some i \<Rightarrow>
          snd (gr_exec (\<lambda>s. (s\<lparr>gr_exposure := (gr_exposure s)(i := fadd (gr_exposure s i) (fmax0 oaExptime))\<rparr>, ())) s))"

definition ingest_frame ::
  "grade_env \<Rightarrow> jmap \<Rightarrow> string \<Rightarrow> string \<Rightarrow> jmap \<Rightarrow> grades_db \<Rightarrow> grade_reply \<times> grades_db" where
  "ingest_frame E data key tel stats s =
     (let dimensions = object_at data ''dimensions'';
          headline = intFromAny (data ''headline'');
          oaExptime = resolveOAExptime data dimensions
      in case ingest_task data s of ((taskPK, scale), s) \<Rightarrow>
        (case validateGradeIngestObjectKeys data taskPK tel s of
           (Some e, s) \<Rightarrow> (GradeRefused 400 e, s)
         | (None, s) \<Rightarrow>
             (let points = pb_PointsEarned (points_of (ge_log1p E) data dimensions stats scale);
                  stackEligible = IsStackEligible dimensions;
                  s = add_exposure taskPK oaExptime s;
                  f = \<lparr>fg_id = 0, fg_upload = null_string (stringFromAny (data ''upload_id'')), fg_key = key, fg_task = taskPK,
                       fg_telescope = tel, fg_headline = headline, fg_dimensions = dimensions, fg_points = points,
                       fg_stack = stackEligible, fg_exptime = oaExptime,
                       fg_grader = null_string (stringFromAny (data ''grader_version'')), fg_quality = quality_columns data,
                       fg_created = ge_now E\<rparr>
              in case gr_exec (insert_frame f) s of
                   (Inr (Some frameID), s) \<Rightarrow> after_insert E data taskPK tel dimensions stats headline points stackEligible oaExptime frameID s
                 | (_, s) \<Rightarrow> (GradeFailed ''insert frame_grade'', s))))"

definition ingestGradePayload :: "grade_env \<Rightarrow> jmap \<Rightarrow> grades_db \<Rightarrow> grade_reply \<times> grades_db" where
  "ingestGradePayload E data s =
     (let key = stringFromAny (data ''idempotency_key'') in
      if key = [] then (GradeRefused 400 ''Missing idempotency_key'', s)
      else (case gr_read (\<lambda>s. sql_find (\<lambda>f. fg_key f = key) (gr_frames s)) s of
          (Inl e, s) \<Rightarrow> (GradeFailed ''duplicate check'', s)
        | (Inr (Some f), s) \<Rightarrow> (GradeDuplicate (fg_id f), s)
        | (Inr None, s) \<Rightarrow>
            (let tel = stringFromAny (data ''telescope_id'') in
             if tel = [] then (GradeRefused 400 ''Missing telescope_id'', s)
             else (case gr_read (\<lambda>s. gr_stats s tel) s of
                 (Inl e, s) \<Rightarrow> (GradeFailed ''telescope lookup'', s)
               | (Inr None, s) \<Rightarrow> (GradeRefused 404 ''Telescope not found'', s)
               | (Inr (Some stats), s) \<Rightarrow> ingest_frame E data key tel stats s))))"

definition reply_code :: "grade_reply \<Rightarrow> int" where
  "reply_code r = (case r of GradeRefused c e \<Rightarrow> c | GradeDuplicate i \<Rightarrow> 409 | GradeFailed e \<Rightarrow> 500 | GradeIngested i p b m \<Rightarrow> 201)"

definition handleGradesIngest ::
  "grade_env \<Rightarrow> string \<Rightarrow> (string \<Rightarrow> string) \<Rightarrow> jmap option \<Rightarrow> grades_db \<Rightarrow> grade_reply \<times> grades_db" where
  "handleGradesIngest E expected header body s =
     (if \<not> gradesIngestTokenValid expected header then (GradeRefused 401 ''Unauthorized'', s)
      else (case body of
          None \<Rightarrow> (GradeRefused 400 ''JSON body required'', s)
        | Some data \<Rightarrow> ingestGradePayload E data s))"

text \<open>\<open>newest\<close> is the database's order by \<open>created_at\<close>, latest first.\<close>

definition handleTelescopePoints ::
  "(frame_grade list \<Rightarrow> frame_grade list) \<Rightarrow> string \<Rightarrow> grades_db \<Rightarrow> (response + jmap \<times> frame_grade list) \<times> grades_db" where
  "handleTelescopePoints newest externalID s =
     (if externalID = [] then (Inl (writeError 400 ''telescope id required''), s)
      else (case gr_read (\<lambda>s. gr_stats s externalID) s of
          (Inl e, s) \<Rightarrow> (Inl (writeError 500 ''database error''), s)
        | (Inr None, s) \<Rightarrow> (Inl (writeError 404 ''Telescope not found''), s)
        | (Inr (Some stats), s) \<Rightarrow>
            (case gr_read (\<lambda>s. take 20 (newest (filter (\<lambda>f. fg_telescope f = externalID) (gr_frames s)))) s of
               (Inl e, s) \<Rightarrow> (Inl (writeError 500 ''database error''), s)
             | (Inr fs, s) \<Rightarrow> (Inr (stats, fs), s))))"

end
