(* ===== verification/UploadProps.thy ===== *)
theory UploadProps
  imports Uploads
begin

text \<open>
  What the uploads and the worker queue promise together: a queued row is handed to the worker at most
  once, an acknowledged frame is queued, and only the device that opened a session for a task it holds can
  go on with it.
\<close>

section \<open>Accesses\<close>

lemma us_exec_run:
  assumes "us_exec f s = (r, s')"
  obtains (failed) a where "same_data (us_api s) a" "r = Inl DbError" "s' = s\<lparr>us_api := a\<rparr>"
  | (ran) a n where "same_data (us_api s) a" "f (s\<lparr>us_api := a\<rparr>) = (s', n)" "r = Inl DbError \<or> r = Inr n"
proof -
  obtain oc a where o: "api_outcome (us_api s) = (oc, a)" by force
  note k = api_outcome_same [OF o]
  show thesis
  proof (cases "oc = Failed")
    case True
    with assms o failed [OF k] show thesis by (simp add: us_exec_def us_outcome_def)
  next
    case False
    obtain s1 n where f: "f (s\<lparr>us_api := a\<rparr>) = (s1, n)" by force
    with assms o False ran [OF k] show thesis by (auto simp: us_exec_def us_outcome_def split: if_splits)
  qed
qed

lemma us_read_run:
  assumes "us_read f s = (r, s')"
  obtains a where "same_data (us_api s) a" "s' = s\<lparr>us_api := a\<rparr>" "r = Inl DbError \<or> r = Inr (f s')"
proof -
  obtain oc a where o: "api_outcome (us_api s) = (oc, a)" by force
  from assms o that [OF api_outcome_same [OF o]] show thesis by (auto simp: us_read_def us_outcome_def split: if_splits)
qed

section \<open>Rows are handed out once\<close>

definition jobs_ok :: "upload_state \<Rightarrow> bool" where
  "jobs_ok s \<longleftrightarrow> distinct (map wr_id (us_jobs s)) \<and> (\<forall>r \<in> set (us_jobs s). wr_id r < us_next_job s)"

definition waiting :: "upload_state \<Rightarrow> nat set" where
  "waiting s = wr_id ` {r \<in> set (us_jobs s). wr_status r = ''pending''}"

text \<open>No step brings a row back into the queue: what waits afterwards waited before or is new.\<close>

definition queue_step :: "upload_state \<Rightarrow> upload_state \<Rightarrow> bool" where
  "queue_step s s' \<longleftrightarrow> (jobs_ok s \<longrightarrow> jobs_ok s' \<and> us_next_job s \<le> us_next_job s' \<and> waiting s' \<subseteq> waiting s \<union> {us_next_job s..})"

interpretation queue: respected queue_step
proof unfold_locales
  fix s t u
  assume st: "queue_step s t" and tu: "queue_step t u"
  show "queue_step s u"
    unfolding queue_step_def
  proof (rule impI)
    assume "jobs_ok s"
    with st have a: "jobs_ok t" "us_next_job s \<le> us_next_job t" "waiting t \<subseteq> waiting s \<union> {us_next_job s..}"
      by (auto simp: queue_step_def)
    with tu have b: "jobs_ok u" "us_next_job t \<le> us_next_job u" "waiting u \<subseteq> waiting t \<union> {us_next_job t..}"
      by (auto simp: queue_step_def)
    have "waiting u \<subseteq> waiting s \<union> {us_next_job s..}"
    proof
      fix x assume "x \<in> waiting u"
      with b(3) have "x \<in> waiting t \<or> us_next_job t \<le> x" by (meson UnE atLeast_iff subsetD)
      with a(2,3) show "x \<in> waiting s \<union> {us_next_job s..}" by (meson UnCI atLeast_iff order_trans subsetD)
    qed
    with a b show "jobs_ok u \<and> us_next_job s \<le> us_next_job u \<and> waiting u \<subseteq> waiting s \<union> {us_next_job s..}" by simp
  qed
qed (simp add: queue_step_def)

lemma queue_same: "us_jobs s' = us_jobs s \<Longrightarrow> us_next_job s' = us_next_job s \<Longrightarrow> queue_step s s'"
  by (auto simp: queue_step_def jobs_ok_def waiting_def)

lemma queue_exec:
  assumes "\<And>s. queue_step s (fst (f s))" shows "queue_step s (snd (us_exec f s))"
proof -
  obtain r s' where e: "us_exec f s = (r, s')" by force
  have q: "queue_step s (s\<lparr>us_api := a\<rparr>)" for a by (rule queue_same) simp_all
  from e show ?thesis
  proof (cases rule: us_exec_run)
    case (failed a)
    with e q show ?thesis by simp
  next
    case (ran a n)
    have "queue_step s (fst (f (s\<lparr>us_api := a\<rparr>)))" by (rule queue.transitive [OF q assms])
    with e ran show ?thesis by simp
  qed
qed

lemma queue_read: "queue_step s (snd (us_read f s))"
proof -
  obtain r s' where e: "us_read f s = (r, s')" by force
  then show ?thesis by (rule us_read_run) (use e queue_same in auto)
qed

lemma queue_update:
  assumes "\<And>r. wr_id (f r) = wr_id r" "\<And>r. wr_status (f r) = ''pending'' \<Longrightarrow> wr_status r = ''pending''"
  shows "queue_step s (s\<lparr>us_jobs := map f (us_jobs s)\<rparr>)"
  using assms by (auto simp: queue_step_def jobs_ok_def waiting_def comp_def)

lemma queue_merge: "queue_step s (fst (merge_stack j s))"
  unfolding merge_stack_def sql_update_def by (simp, rule queue_update) (auto simp: add_key_def stack_of_def split: if_splits)

lemma queue_insert: "queue_step s (insert_job now j s)"
  by (auto simp: insert_job_def queue_step_def jobs_ok_def waiting_def)

lemma queue_memory: "queue_step s (snd (enqueue_memory n j s))"
  by (auto simp: enqueue_memory_def intro!: queue_same split: option.split)

lemma queue_enqueue: "queue_step s (snd (enqueueWorkerJob n now j s))"
proof -
  have ins: "queue_step s0 (snd (insert_or_keep n now j s))" if "queue_step s0 s" for s0 s j
    unfolding insert_or_keep_def
  proof (rule queue.bind [OF queue_read that])
    fix x t assume t: "queue_step s0 t"
    have e: "queue_step t (fst (if wj_ProductMode j \<in> {''per_frame'', ''time_bin'', ''stack''} then (insert_job now j t, True) else (t, False)))" for t
      by (simp add: queue_insert queue.reflexive)
    show "queue_step s0 (snd (if (case x of Inr c \<Rightarrow> n \<le> int c | Inl e \<Rightarrow> False) then (False, t)
        else (case us_exec (\<lambda>s. if wj_ProductMode j \<in> {''per_frame'', ''time_bin'', ''stack''} then (insert_job now j s, True) else (s, False)) t of
          (Inr True, s) \<Rightarrow> (True, s) | (_, s) \<Rightarrow> enqueue_memory n j s)))"
      using t by (auto intro!: queue.bind [OF queue_exec [OF e]] queue.call [OF queue_memory] simp del: insert_iff split: sum.split bool.split)
  qed
  show ?thesis unfolding enqueueWorkerJob_def Let_def
    by (auto intro!: queue.bind [OF queue_exec [OF queue_merge]] queue.reflexive ins split: sum.split)
qed

section \<open>Every event\<close>

text \<open>
  The requests that change the queue and the sessions, the sweep of expired sessions (which runs every five
  minutes), and whatever the rest of the program does to its own tables.
\<close>

datatype upload_event =
    UploadStart store_answers gotime string "upload_start upload_body" string
  | UploadPresign store_answers gotime "(string \<times> int) upload_body" string
  | UploadComplete store_answers gotime "string upload_body" string
  | UploadSweep gotime
  | WorkerPush gotime string "worker_job option"
  | WorkerPull string
  | Elsewhere api_state

fun upload_event_step ::
  "upload_config \<Rightarrow> worker_config \<Rightarrow> (worker_row list \<Rightarrow> worker_row list) \<Rightarrow> (upload_session list \<Rightarrow> upload_session list)
   \<Rightarrow> upload_event \<Rightarrow> upload_state \<Rightarrow> worker_row list \<times> upload_state" where
  "upload_event_step C W oldest soonest (UploadStart A now sid body token) s =
     ([], snd (requireUploadDevice C token (handleUploadStart C A now sid body) s))"
| "upload_event_step C W oldest soonest (UploadPresign A now body token) s =
     ([], snd (requireUploadDevice C token (handleUploadPresign C A now body) s))"
| "upload_event_step C W oldest soonest (UploadComplete A now body token) s =
     ([], snd (requireUploadDevice C token (handleUploadComplete C A now body) s))"
| "upload_event_step C W oldest soonest (UploadSweep now) s = ([], sweepExpiredUploadSessions soonest now s)"
| "upload_event_step C W oldest soonest (WorkerPush now auth body) s = ([], snd (handleWorkerEnqueue W now auth body s))"
| "upload_event_step C W oldest soonest (WorkerPull auth) s =
     (case handleWorkerPending W oldest auth s of
        (WorkerJobs rows ms, s) \<Rightarrow> (rows, s)
      | (WorkerRefused r, s) \<Rightarrow> ([], s))"
| "upload_event_step C W oldest soonest (Elsewhere a) s = ([], s\<lparr>us_api := a\<rparr>)"

text \<open>The rows of the answers to the worker over a run.\<close>

fun handed ::
  "upload_config \<Rightarrow> worker_config \<Rightarrow> (worker_row list \<Rightarrow> worker_row list) \<Rightarrow> (upload_session list \<Rightarrow> upload_session list)
   \<Rightarrow> upload_event list \<Rightarrow> upload_state \<Rightarrow> worker_row list" where
  "handed C W oldest soonest [] s = []"
| "handed C W oldest soonest (e # es) s =
     (case upload_event_step C W oldest soonest e s of (rows, s) \<Rightarrow> rows @ handed C W oldest soonest es s)"

section \<open>Sessions leave the queue alone\<close>

lemma queue_sessions: "queue_step s (s\<lparr>us_sessions := ps\<rparr>)"
  by (rule queue_same) simp_all

lemma queue_api: "queue_step s (s\<lparr>us_api := a\<rparr>)"
  by (rule queue_same) simp_all

lemma queue_create: "queue_step s (snd (createUploadSession C now sid d s3id path grade s))"
  unfolding createUploadSession_def
  by (rule queue.bind [OF queue_exec]) (auto simp: queue_sessions queue.reflexive)

lemma queue_get: "queue_step s (snd (getUploadSession C sid s))"
  unfolding getUploadSession_def
  by (rule queue.bind [OF queue_read queue.reflexive]) (auto split: sum.split option.split)

lemma queue_mark: "queue_step s (snd (markUploadSessionComplete now sid s))"
  unfolding markUploadSessionComplete_def
  by (rule queue.bind [OF queue_exec]) (auto simp: split_def queue_sessions queue.reflexive)

lemma queue_delete: "queue_step s (deleteUploadSession sid s)"
  unfolding deleteUploadSession_def by (rule queue_exec) (simp add: queue_sessions)

lemma queue_sweep: "queue_step s (sweepExpiredUploadSessions soonest now s)"
proof -
  obtain q t where l: "listExpiredUploadSessions soonest now 50 s = (q, t)" by force
  then have t: "queue_step s t" using queue_read unfolding listExpiredUploadSessions_def by (metis snd_conv)
  show ?thesis
  proof (cases q)
    case (Inl e)
    with l t show ?thesis by (simp add: sweepExpiredUploadSessions_def)
  next
    case (Inr ps)
    have "queue_step s (fold (\<lambda>p. deleteUploadSession (ps_SessionID p)) ps t)" by (rule queue.folds [OF t queue_delete])
    with l Inr show ?thesis by (simp add: sweepExpiredUploadSessions_def)
  qed
qed

section \<open>The endpoints\<close>

lemma queue_device:
  assumes "\<And>d s. queue_step s (snd (h d s))"
  shows "queue_step s (snd (requireUploadDevice C token h s))"
proof -
  have l: "queue_step s (snd (lookupDeviceByToken C token s))"
    unfolding lookupDeviceByToken_def
    by (rule queue.bind [OF queue_read queue.reflexive]) (auto split: sum.split option.split prod.split)
  show ?thesis unfolding requireUploadDevice_def
    by (auto intro!: queue.bind [OF l] queue.call [OF assms] queue.reflexive split: option.split)
qed

lemma queue_open: "queue_step s (snd (open_session C now sid d s))"
  unfolding open_session_def
  by (rule queue.bind [OF queue_get queue.reflexive]) (auto split: sum.split option.split)

lemma queue_start: "queue_step s (snd (start_upload C A now sid r filename d s))"
proof -
  have c: "queue_step s (snd (check_assignment tel i s))" for tel i s
    by (auto simp: check_assignment_def split_def queue_api)
  have p: "queue_step s (snd (product_mode i s))" for i s
    unfolding product_mode_def
    by (rule queue.bind [OF queue_read queue.reflexive]) (auto split: sum.split option.split)
  have k: "queue_step s0 t \<Longrightarrow> queue_step s0 (snd (case createUploadSession C now sid d s3id path g t of
      (False, s) \<Rightarrow> (x, s) | (True, s) \<Rightarrow> (y, s)))" for s0 t s3id path g and x y :: response
    by (rule queue.bind [OF queue_create]) (auto split: bool.split)
  show ?thesis unfolding start_upload_def Let_def
    by (auto intro!: queue.bind [OF c] queue.bind [OF p] k queue.reflexive split: option.split sum.split)
qed

lemma queue_handlers:
  "queue_step s (snd (handleUploadStart C A now sid opening d s))"
  "queue_step s (snd (handleUploadPresign C A now asking d s))"
  "queue_step s (snd (handleUploadComplete C A now closing d s))"
  "queue_step s (snd (handleWorkerEnqueue W now auth job s))"
proof -
  show "queue_step s (snd (handleUploadStart C A now sid opening d s))"
    unfolding handleUploadStart_def by (auto simp: queue_start queue.reflexive split: sum.split upload_error.split)
  show "queue_step s (snd (handleUploadPresign C A now asking d s))"
    unfolding handleUploadPresign_def
    by (auto intro!: queue.bind [OF queue_open] queue.reflexive split: sum.split)
  have e: "queue_step s0 t \<Longrightarrow> queue_step s0 (snd (case enqueueWorkerJob n now j t of
      (False, s) \<Rightarrow> (x, s) | (True, s) \<Rightarrow> (y, s)))" for s0 t n j and x y :: response
    by (rule queue.bind [OF queue_enqueue]) (auto split: bool.split)
  show "queue_step s (snd (handleUploadComplete C A now closing d s))"
    unfolding handleUploadComplete_def
    by (auto intro!: queue.bind [OF queue_open] queue.bind [OF queue_mark] e queue.reflexive split: sum.split option.split)
  show "queue_step s (snd (handleWorkerEnqueue W now auth job s))"
    unfolding handleWorkerEnqueue_def
    by (auto intro!: queue.bind [OF queue_enqueue] queue.reflexive split: option.split)
qed

section \<open>Handing out\<close>

lemma claim_rows:
  assumes "\<And>xs. mset (oldest xs) = mset xs" and e: "claim_tx oldest n s = (s', rows)"
  shows "queue_step s s'"
    and "jobs_ok s \<Longrightarrow> distinct (map wr_id rows) \<and> wr_id ` set rows \<subseteq> waiting s \<and>
      wr_id ` set rows \<inter> waiting s' = {} \<and> (\<forall>i \<in> wr_id ` set rows. i < us_next_job s')"
proof -
  let ?all = "oldest (filter claimable_job (us_jobs s))"
  from e have rows: "rows = take n ?all" by (simp add: claim_tx_def Let_def)
  from e have s': "s' = s\<lparr>us_jobs := map (\<lambda>r. if wr_id r \<in> wr_id ` set rows \<and> wr_status r = ''pending''
      then r\<lparr>wr_status := ''done''\<rparr> else r) (us_jobs s)\<rparr>"
    unfolding rows by (auto simp: claim_tx_def Let_def)
  show "queue_step s s'" unfolding s' by (rule queue_update) (auto split: if_splits)
  assume ok: "jobs_ok s"
  have m: "mset ?all = mset (filter claimable_job (us_jobs s))" by (rule assms(1))
  then have set: "set ?all = set (filter claimable_job (us_jobs s))" by (rule mset_eq_setD)
  have "distinct (map wr_id (filter claimable_job (us_jobs s)))"
    using ok by (simp add: jobs_ok_def distinct_map_filter)
  moreover have "mset (map wr_id ?all) = mset (map wr_id (filter claimable_job (us_jobs s)))" using m by simp
  ultimately have "distinct (map wr_id ?all)" by (metis mset_eq_imp_distinct_iff)
  then have d: "distinct (map wr_id rows)" by (simp add: rows take_map [symmetric] distinct_take)
  have sub: "set rows \<subseteq> {r \<in> set (us_jobs s). wr_status r = ''pending''}"
    using set set_take_subset [of n ?all] by (auto simp: rows claimable_job_def)
  have "wr_id ` set rows \<inter> waiting s' = {}"
    by (auto simp: s' waiting_def split: if_splits) (metis imageI)
  moreover have "\<forall>i \<in> wr_id ` set rows. i < us_next_job s'" using sub ok by (auto simp: s' jobs_ok_def)
  moreover have "wr_id ` set rows \<subseteq> waiting s" using sub by (auto simp: waiting_def)
  ultimately show "distinct (map wr_id rows) \<and> wr_id ` set rows \<subseteq> waiting s \<and>
      wr_id ` set rows \<inter> waiting s' = {} \<and> (\<forall>i \<in> wr_id ` set rows. i < us_next_job s')" using d by blast
qed

lemma pending_rows:
  assumes perm: "\<And>xs. mset (oldest xs) = mset xs" and ok: "jobs_ok s"
    and e: "handleWorkerPending W oldest auth s = (WorkerJobs rows ms, s')"
  shows "queue_step s s' \<and> distinct (map wr_id rows) \<and> wr_id ` set rows \<subseteq> waiting s \<and>
    wr_id ` set rows \<inter> waiting s' = {} \<and> (\<forall>i \<in> wr_id ` set rows. i < us_next_job s')"
proof -
  obtain q t where q: "us_exec (claim_tx oldest 100) s = (q, t)" by force
  from e q have r: "rows = (case q of Inl e \<Rightarrow> [] | Inr rows \<Rightarrow> rows)" and s': "s' = t\<lparr>us_memory := []\<rparr>"
    by (auto simp: handleWorkerPending_def claimWorkerJobs_def split: option.splits)
  have w: "waiting s' = waiting t" "us_next_job s' = us_next_job t" and st: "queue_step t s'"
    by (auto simp: s' waiting_def intro!: queue_same)
  from q show ?thesis
  proof (cases rule: us_exec_run)
    case (failed a)
    have "queue_step s t" unfolding failed(3) by (rule queue_api)
    with failed r st show ?thesis by (auto intro: queue.transitive)
  next
    case (ran a rows')
    let ?s = "s\<lparr>us_api := a\<rparr>"
    have o: "jobs_ok ?s" "waiting ?s = waiting s" using ok by (auto simp: jobs_ok_def waiting_def)
    note c = claim_rows [OF perm ran(2)]
    have "queue_step s s'" by (rule queue.transitive [OF queue.transitive [OF queue_api c(1)] st])
    with c(2) [OF o(1)] ran(3) r w o(2) show ?thesis by auto
  qed
qed

lemma event_rows:
  assumes perm: "\<And>xs. mset (oldest xs) = mset xs" and ok: "jobs_ok s"
    and e: "upload_event_step C W oldest soonest ev s = (rows, s')"
  shows "queue_step s s' \<and> distinct (map wr_id rows) \<and> wr_id ` set rows \<subseteq> waiting s \<and>
    wr_id ` set rows \<inter> waiting s' = {} \<and> (\<forall>i \<in> wr_id ` set rows. i < us_next_job s')"
proof (cases ev)
  case (WorkerPull auth)
  show ?thesis
  proof (cases "handleWorkerPending W oldest auth s")
    case (Pair x t)
    with e WorkerPull show ?thesis
    proof (cases x)
      case (WorkerRefused r)
      with Pair have "t = s"
        by (auto simp: handleWorkerPending_def split: option.splits prod.splits)
      with e Pair WorkerRefused WorkerPull show ?thesis by (simp add: queue.reflexive)
    next
      case (WorkerJobs rs ms)
      with e Pair WorkerPull pending_rows [OF perm ok, of W auth rs ms t] show ?thesis by simp
    qed
  qed
qed (use e queue_device [OF queue_handlers(1)] queue_device [OF queue_handlers(2)] queue_device [OF queue_handlers(3)]
    queue_handlers(4) queue_sweep queue_api in auto)

lemma handed_rows:
  assumes perm: "\<And>xs. mset (oldest xs) = mset xs" and ok: "jobs_ok s"
  shows "distinct (map wr_id (handed C W oldest soonest es s)) \<and>
    wr_id ` set (handed C W oldest soonest es s) \<subseteq> waiting s \<union> {us_next_job s..}"
  using ok
proof (induction es arbitrary: s)
  case (Cons e es)
  obtain rows t where e: "upload_event_step C W oldest soonest e s = (rows, t)" by force
  note r = event_rows [OF perm Cons.prems e]
  then have q: "jobs_ok t" "us_next_job s \<le> us_next_job t" "waiting t \<subseteq> waiting s \<union> {us_next_job s..}"
    using Cons.prems by (auto simp: queue_step_def)
  let ?h = "handed C W oldest soonest es t"
  note ih = Cons.IH [OF q(1)]
  have apart: "wr_id ` set rows \<inter> wr_id ` set ?h = {}"
  proof -
    { fix i assume i: "i \<in> wr_id ` set rows" and h: "i \<in> wr_id ` set ?h"
      from h ih have "i \<in> waiting t \<or> us_next_job t \<le> i" by (meson UnE atLeast_iff subsetD)
      moreover from i r have "i \<notin> waiting t" "i < us_next_job t" by auto
      ultimately have False by simp }
    then show ?thesis by blast
  qed
  have "i \<in> waiting s \<union> {us_next_job s..}" if "i \<in> wr_id ` set (rows @ ?h)" for i
  proof (cases "i \<in> wr_id ` set rows")
    case True
    with r show ?thesis by blast
  next
    case False
    with that have "i \<in> wr_id ` set ?h" by auto
    with ih have "i \<in> waiting t \<or> us_next_job t \<le> i" by (meson UnE atLeast_iff subsetD)
    with q show ?thesis by (meson UnCI atLeast_iff order_trans subsetD)
  qed
  then have "wr_id ` set (rows @ ?h) \<subseteq> waiting s \<union> {us_next_job s..}" by blast
  moreover from r ih apart have "distinct (map wr_id (rows @ ?h))" by simp
  ultimately show ?case using e by simp
qed simp

text \<open>C24: Over any run of uploads, pushes, pulls, sweeps and database faults, no row of the worker's queue is
  in two answers to the worker, nor twice in one: claiming marks it, and nothing brings it back.\<close>

theorem rows_handed_once:
  assumes "\<And>xs. mset (oldest xs) = mset xs" and "distinct (map wr_id (us_jobs s))"
    and "\<And>r. r \<in> set (us_jobs s) \<Longrightarrow> wr_id r < us_next_job s"
  shows "distinct (map wr_id (handed C W oldest soonest es s))"
  using handed_rows [of oldest s C W soonest es] assms by (simp add: jobs_ok_def)

section \<open>An acknowledged frame is queued\<close>

definition job_keys :: "worker_job \<Rightarrow> string set" where
  "job_keys j = insert (wj_ObjectKey j) (set (wj_ObjectKeys j))"

text \<open>The frame waits: a row that is not finished, or a job in memory, names it.\<close>

definition frame_queued :: "string \<Rightarrow> upload_state \<Rightarrow> bool" where
  "frame_queued k s \<longleftrightarrow>
     (\<exists>r \<in> set (us_jobs s). wr_status r \<in> {''pending'', ''leased''} \<and> k \<in> job_keys (wr_job r)) \<or>
     (\<exists>m \<in> set (us_memory s). k \<in> job_keys m)"

lemma frame_in_row: "r \<in> set (us_jobs s) \<Longrightarrow> wr_status r \<in> {''pending'', ''leased''} \<Longrightarrow> k \<in> job_keys (wr_job r) \<Longrightarrow> frame_queued k s"
  unfolding frame_queued_def by blast

lemma frame_in_memory: "m \<in> set (us_memory s) \<Longrightarrow> k \<in> job_keys m \<Longrightarrow> frame_queued k s"
  unfolding frame_queued_def by blast

lemma add_key_keys: "job_keys (add_key k j) = insert k (job_keys j)"
  by (auto simp: add_key_def job_keys_def)

lemma add_keys_keys: "job_keys (fold add_key ks j) = set ks \<union> job_keys j"
  by (induction ks arbitrary: j) (auto simp: add_key_keys)

lemma frame_merged:
  assumes "fst (merge_stack j s) = s'" "snd (merge_stack j s) > 0"
  shows "frame_queued (wj_ObjectKey j) s'"
proof -
  from assms(2) obtain r where r: "r \<in> set (us_jobs s)" "stack_of (wj_TaskID j) r"
    by (force simp: merge_stack_def sql_update_def filter_empty_conv)
  show ?thesis
  proof (rule frame_in_row)
    show "r\<lparr>wr_job := add_key (wj_ObjectKey j) (wr_job r)\<rparr> \<in> set (us_jobs s')"
      using r assms(1) by (force simp: merge_stack_def sql_update_def)
  qed (use r in \<open>auto simp: stack_of_def add_key_keys\<close>)
qed

lemma frame_inserted: "frame_queued (wj_ObjectKey j) (insert_job now j s)"
proof (cases "sql_exists (\<lambda>r. wj_ObjectKey (wr_job r) = wj_ObjectKey j \<and> wr_status r \<in> {''pending'', ''leased''}) (us_jobs s)")
  case True
  then obtain r where "r \<in> set (us_jobs s)" "wj_ObjectKey (wr_job r) = wj_ObjectKey j" "wr_status r \<in> {''pending'', ''leased''}"
    by (auto simp: sql_exists_def list_ex_iff)
  with True show ?thesis by (auto simp: insert_job_def job_keys_def intro: frame_in_row)
next
  case False
  then show ?thesis by (simp add: insert_job_def frame_queued_def job_keys_def)
qed

lemma frame_merged_memory:
  assumes "merge_memory j ms = Some ms'" "k \<in> set (wj_ObjectKeys j)"
  shows "\<exists>m \<in> set ms'. k \<in> job_keys m"
  using assms by (induction j ms arbitrary: ms' rule: merge_memory.induct) (auto simp: add_keys_keys split: if_splits)

lemma frame_kept:
  assumes "enqueue_memory n j s = (True, s')" "wj_ProductMode j = ''stack'' \<Longrightarrow> wj_ObjectKey j \<in> set (wj_ObjectKeys j)"
  shows "frame_queued (wj_ObjectKey j) s'"
proof (cases "if wj_ProductMode j = ''stack'' then merge_memory j (us_memory s) else None")
  case None
  with assms(1) have "us_memory s' = us_memory s @ [j]" by (auto simp: enqueue_memory_def split: if_splits)
  then show ?thesis by (auto simp: frame_queued_def job_keys_def)
next
  case (Some ms)
  then have "merge_memory j (us_memory s) = Some ms" and m: "wj_ProductMode j = ''stack''" by (auto split: if_splits)
  from frame_merged_memory [OF this(1) assms(2) [OF m]] assms(1) Some show ?thesis
    by (auto simp: enqueue_memory_def intro: frame_in_memory)
qed

lemma frame_insert_or_keep:
  assumes e: "insert_or_keep n now j s = (True, s')"
    and k: "wj_ProductMode j = ''stack'' \<Longrightarrow> wj_ObjectKey j \<in> set (wj_ObjectKeys j)"
  shows "frame_queued (wj_ObjectKey j) s'"
proof -
  let ?ins = "\<lambda>s. if wj_ProductMode j \<in> {''per_frame'', ''time_bin'', ''stack''} then (insert_job now j s, True) else (s, False)"
  obtain c s1 where c: "us_read (\<lambda>s. sql_count (\<lambda>r. wr_status r = ''pending'') (us_jobs s)) s = (c, s1)" by force
  obtain q s2 where q: "us_exec ?ins s1 = (q, s2)" by force
  show ?thesis
  proof (cases "q = Inr True")
    case True
    with q have "\<exists>a. s2 = insert_job now j (s1\<lparr>us_api := a\<rparr>)"
      by (cases rule: us_exec_run) (auto split: if_splits)
    moreover have "s' = s2" using e c q True by (auto simp: insert_or_keep_def split: if_splits)
    ultimately show ?thesis using frame_inserted by blast
  next
    case False
    then have "enqueue_memory n j s2 = (True, s')" using e c q
      by (auto simp: insert_or_keep_def simp del: insert_iff split: if_splits sum.splits bool.splits)
    then show ?thesis by (rule frame_kept) (rule k)
  qed
qed

lemma frame_enqueued:
  assumes e: "enqueueWorkerJob n now j s = (True, s')" and k: "wj_ObjectKeys j = []" "wj_ObjectKey j \<noteq> []"
  shows "frame_queued (wj_ObjectKey j) s'"
proof -
  let ?j = "normalise_job j"
  have o: "wj_ObjectKey ?j = wj_ObjectKey j" using k by (simp add: normalise_job_def Let_def)
  have m: "wj_ProductMode ?j = ''stack'' \<Longrightarrow> wj_ObjectKey ?j \<in> set (wj_ObjectKeys ?j)"
    using k by (auto simp: normalise_job_def Let_def split: if_splits)
  obtain q t where q: "us_exec (merge_stack ?j) s = (q, t)" by force
  show ?thesis
  proof (cases "wj_ProductMode ?j = ''stack'' \<and> (\<exists>c. q = Inr c \<and> c > 0)")
    case True
    then obtain c where c: "q = Inr c" "c > 0" by blast
    from q c have "\<exists>a. fst (merge_stack ?j (s\<lparr>us_api := a\<rparr>)) = t \<and> snd (merge_stack ?j (s\<lparr>us_api := a\<rparr>)) > 0"
      by (cases rule: us_exec_run) (auto, metis fst_conv snd_conv)
    moreover have "s' = t" using e q True c by (simp add: enqueueWorkerJob_def Let_def)
    ultimately show ?thesis using frame_merged o by metis
  next
    case False
    then have "\<exists>t. insert_or_keep n now ?j t = (True, s')" using e q
      by (auto simp: enqueueWorkerJob_def Let_def split: if_splits sum.splits)
    then show ?thesis using frame_insert_or_keep m o by metis
  qed
qed

section \<open>Who can go on with a session\<close>

lemma device_run:
  assumes "requireUploadDevice C token h s = (r, s')" "rs_code r = 200"
  obtains node user tel a where "us_devices s (uc_hash C token) = Some (node, user, tel)" "same_data (us_api s) a"
    "h \<lparr>ud_NodeID = node, ud_UserID = user, ud_TelescopeID = (case tel of None \<Rightarrow> [] | Some t \<Rightarrow> t)\<rparr>
       (s\<lparr>us_api := a\<rparr>) = (r, s')"
proof -
  obtain q t where q: "us_read (\<lambda>s. us_devices s (uc_hash C token)) s = (q, t)" by force
  from q show thesis
  proof (rule us_read_run)
    fix a assume a: "same_data (us_api s) a" "t = s\<lparr>us_api := a\<rparr>" "q = Inl DbError \<or> q = Inr (us_devices t (uc_hash C token))"
    note e = assms(1) [unfolded requireUploadDevice_def lookupDeviceByToken_def q]
    have tok: "token \<noteq> []"
    proof
      assume "token = []"
      with e have "rs_code r = 401" by (auto simp: writeError_def)
      with assms(2) show False by simp
    qed
    show thesis
    proof (cases q)
      case (Inl x)
      with e tok have "rs_code r = 401" by (auto simp: writeError_def)
      with assms(2) show thesis by simp
    next
      case (Inr u)
      show thesis
      proof (cases u)
        case None
        with Inr e tok have "rs_code r = 401" by (auto simp: writeError_def)
        with assms(2) show thesis by simp
      next
        case (Some v)
        obtain node user tel where v: "v = (node, user, tel)" by (cases v)
        have "us_devices s (uc_hash C token) = Some (node, user, tel)" using a Inr Some v by simp
        moreover have "h \<lparr>ud_NodeID = node, ud_UserID = user, ud_TelescopeID = (case tel of None \<Rightarrow> [] | Some t \<Rightarrow> t)\<rparr>
          (s\<lparr>us_api := a\<rparr>) = (r, s')" using e tok Inr Some v a(2) by simp
        ultimately show thesis using a(1) that by blast
      qed
    qed
  qed
qed

lemma open_run:
  assumes "open_session C now sid d s = (Inr p, s')"
  obtains a where "same_data (us_api s) a" "s' = s\<lparr>us_api := a\<rparr>" "p \<in> set (us_sessions s)" "uc_uuid C sid = Some (ps_SessionID p)"
    "authorizeUploadSession now p d = None"
proof -
  obtain q t where q: "us_read (\<lambda>s. case uc_uuid C sid of None \<Rightarrow> None | Some k \<Rightarrow> sql_find (\<lambda>p. ps_SessionID p = k) (us_sessions s)) s = (q, t)" by force
  from q show thesis
  proof (rule us_read_run)
    fix a assume a: "same_data (us_api s) a" "t = s\<lparr>us_api := a\<rparr>"
      "q = Inl DbError \<or> q = Inr (case uc_uuid C sid of None \<Rightarrow> None | Some k \<Rightarrow> sql_find (\<lambda>p. ps_SessionID p = k) (us_sessions t))"
    have g: "getUploadSession C sid s = (Inr p, t) \<and> authorizeUploadSession now p d = None \<and> s' = t"
      using assms q by (auto simp: open_session_def getUploadSession_def split: sum.splits if_splits option.splits)
    then have "q = Inr (Some p)" using q
      by (auto simp: getUploadSession_def split: sum.splits if_splits option.splits)
    with a obtain k where "uc_uuid C sid = Some k" "sql_find (\<lambda>p. ps_SessionID p = k) (us_sessions s) = Some p"
      by (auto split: option.splits)
    then have "p \<in> set (us_sessions s)" "uc_uuid C sid = Some (ps_SessionID p)" by (auto simp: sql_find_def find_Some_iff)
    with g a show thesis by (intro that) auto
  qed
qed

lemma authorised:
  "authorizeUploadSession now p d = None \<longleftrightarrow>
     ps_CompletedAt p = None \<and> now \<le> ps_ExpiresAt p \<and> ps_NodeID p = ud_NodeID d \<and> ps_TelescopeID p = ud_TelescopeID d"
  by (auto simp: authorizeUploadSession_def)

text \<open>C23: An upload is acknowledged only to the device of an unfinished, unexpired session of the same node
  and telescope, after the store completed the object, and then the frame is queued for the worker: a row
  that is not finished or a job in memory names it.  This covers a full table, a full memory, a database
  that fails at any access and one whose answer is lost.\<close>

theorem acknowledged_frame_queued:
  assumes "\<And>p. p \<in> set (us_sessions s) \<Longrightarrow> ps_ObjectPath p \<noteq> []"
    and run: "requireUploadDevice C token (handleUploadComplete C A now body) s = (r, s')" and ok: "rs_code r = 200"
  shows "\<exists>sid p node user tel. body = Body sid \<and> uc_uuid C sid = Some (ps_SessionID p) \<and> p \<in> set (us_sessions s) \<and>
    us_devices s (uc_hash C token) = Some (node, user, tel) \<and>
    ps_NodeID p = node \<and> ps_TelescopeID p = (case tel of None \<Rightarrow> [] | Some t \<Rightarrow> t) \<and>
    ps_CompletedAt p = None \<and> now \<le> ps_ExpiresAt p \<and> sa_complete A = None \<and>
    rs_body r = [(''file_path'', ps_ObjectPath p)] \<and> frame_queued (ps_ObjectPath p) s'"
proof -
  from run ok show ?thesis
  proof (rule device_run)
    fix node user tel a
    let ?d = "\<lparr>ud_NodeID = node, ud_UserID = user, ud_TelescopeID = (case tel of None \<Rightarrow> [] | Some t \<Rightarrow> t)\<rparr>"
    let ?s = "s\<lparr>us_api := a\<rparr>"
    assume dev: "us_devices s (uc_hash C token) = Some (node, user, tel)" and h: "handleUploadComplete C A now body ?d ?s = (r, s')"
    from h ok obtain sid where b: "body = Body sid"
      by (auto simp: handleUploadComplete_def decodeUploadJSON_def writeError_def split: upload_body.splits)
    obtain q t where q: "open_session C now sid ?d ?s = (q, t)" by force
    have "\<exists>p. q = Inr p"
    proof (cases q)
      case (Inl e)
      then have "rs_code e \<noteq> 200" using q
        by (auto simp: open_session_def writeUploadSessionError_def writeError_def
            split: prod.splits sum.splits option.splits upload_error.splits)
      with h b q Inl ok show ?thesis by (simp add: handleUploadComplete_def decodeUploadJSON_def)
    qed simp
    then obtain p where p: "q = Inr p" by blast
    obtain m t1 where m: "markUploadSessionComplete now (ps_SessionID p) t = (m, t1)" by force
    obtain k t2 where k: "enqueueWorkerJob (uc_limit C) now (frame_job p) t1 = (k, t2)" by force
    have "sa_complete A = None \<and> k \<and> t2 = s' \<and> rs_body r = [(''file_path'', ps_ObjectPath p)]"
      using h b q p m k ok by (auto simp: handleUploadComplete_def decodeUploadJSON_def writeError_def split: if_splits option.splits bool.splits)
    moreover from q p obtain "p \<in> set (us_sessions s)" "uc_uuid C sid = Some (ps_SessionID p)" "authorizeUploadSession now p ?d = None"
      by (auto elim!: open_run)
    moreover have "frame_queued (ps_ObjectPath p) s'"
      using frame_enqueued [of "uc_limit C" now "frame_job p" t1 s'] k calculation assms(1) by (simp add: frame_job_def Let_def)
    ultimately show ?thesis using dev b by (auto simp: authorised)
  qed
qed

section \<open>Opening a session\<close>

text \<open>An open task the telescope works on: an active assignment, or the column of a task without any.\<close>

definition holds_task :: "string \<Rightarrow> int \<Rightarrow> api_state \<Rightarrow> bool" where
  "holds_task tel i s \<longleftrightarrow>
     (case task_by_id i s of
        None \<Rightarrow> False
      | Some t \<Rightarrow> \<not> upload_closed (tk_status t) \<and>
          (sql_exists (\<lambda>r. ta_task r = i \<and> ta_node r = tel \<and> ta_active r) (w_assignments (as_world s)) \<or>
           \<not> sql_exists (\<lambda>r. ta_task r = i) (w_assignments (as_world s)) \<and> tk_assigned t = Some tel))"

lemma validate_holds:
  assumes "validateUploadAssignment tel i s = (None, s')"
  shows "holds_task tel i s"
proof -
  from assms have pos: "tel \<noteq> []" "0 < i" by (auto simp: validateUploadAssignment_def split: if_splits)
  obtain q t where q: "api_read (task_by_id i) s = (q, t)" by force
  note d = same_dataD [OF api_read_same [OF q]]
  have qv: "q = Inl DbError \<or> q = Inr (task_by_id i s)" using q d by (auto elim!: api_read_run)
  obtain x u where x: "lookupTaskAssignmentAuth tel i t = (x, u)" by force
  then have xv: "x = Inl DbError \<or> x = Inr (sql_exists (\<lambda>r. ta_task r = i \<and> ta_node r = tel \<and> ta_active r) (w_assignments (as_world s)),
      sql_exists (\<lambda>r. ta_task r = i) (w_assignments (as_world s)))"
    using d(2) same_dataD(2) [OF api_read_same [OF x [unfolded lookupTaskAssignmentAuth_def]]]
    by (auto simp: lookupTaskAssignmentAuth_def Let_def elim!: api_read_run)
  show ?thesis using assms pos q x qv xv
    by (auto simp: validateUploadAssignment_def legacy_holder_def holds_task_def split: option.splits if_splits)
qed

lemma check_run:
  assumes "check_assignment tel i s = (e, s')"
  shows "\<exists>a. s' = s\<lparr>us_api := a\<rparr> \<and> same_data (us_api s) a" and "e = None \<Longrightarrow> holds_task tel i (us_api s)"
  using assms validate_holds validate_same by (auto simp: check_assignment_def split: prod.splits)

lemma holds_same:
  assumes "same_data a b" shows "holds_task tel i b = holds_task tel i a"
  by (simp add: holds_task_def same_dataD [OF assms] cong: option.case_cong)

lemma mode_run: "product_mode i s = (m, s') \<Longrightarrow> \<exists>a. s' = s\<lparr>us_api := a\<rparr>"
  by (auto simp: product_mode_def elim!: us_read_run split: prod.splits sum.splits option.splits)

lemma create_run:
  assumes "createUploadSession C now sid d s3id path g s = (True, s')"
  shows "us_sessions s' = us_sessions s @
    [\<lparr>ps_SessionID = sid, ps_S3UploadID = s3id, ps_NodeID = ud_NodeID d, ps_TelescopeID = ud_TelescopeID d,
      ps_ObjectPath = path, ps_Bucket = uc_bucket C, ps_Grade = g, ps_ExpiresAt = now + uc_ttl C, ps_CompletedAt = None\<rparr>]
    \<and> us_jobs s' = us_jobs s \<and> us_memory s' = us_memory s \<and> \<not> sql_exists (\<lambda>p. ps_SessionID p = sid) (us_sessions s)"
proof -
  obtain q t where q: "us_exec (\<lambda>s. if sql_exists (\<lambda>p. ps_SessionID p = sid \<or> ps_S3UploadID p = s3id) (us_sessions s) then (s, False)
          else (s\<lparr>us_sessions := us_sessions s @
            [\<lparr>ps_SessionID = sid, ps_S3UploadID = s3id, ps_NodeID = ud_NodeID d, ps_TelescopeID = ud_TelescopeID d,
              ps_ObjectPath = path, ps_Bucket = uc_bucket C, ps_Grade = g, ps_ExpiresAt = now + uc_ttl C,
              ps_CompletedAt = None\<rparr>]\<rparr>, True)) s = (q, t)" by force
  with assms have "q = Inr True" "s' = t" by (simp_all add: createUploadSession_def)
  with q show ?thesis by (cases rule: us_exec_run) (auto simp: sql_exists_def list_ex_iff split: if_splits)
qed

lemma start_run:
  assumes "start_upload C A now sid q filename d s = (r, s')" "rs_code r = 200"
  shows "\<exists>s3id mode. sa_initiate A = Inr s3id \<and> holds_task (ud_TelescopeID d) (su_TaskID q) (us_api s) \<and>
    us_sessions s' = us_sessions s @
      [\<lparr>ps_SessionID = sid, ps_S3UploadID = s3id, ps_NodeID = ud_NodeID d, ps_TelescopeID = ud_TelescopeID d,
        ps_ObjectPath = object_path q filename, ps_Bucket = uc_bucket C,
        ps_Grade = start_grade q (ud_TelescopeID d) mode, ps_ExpiresAt = now + uc_ttl C, ps_CompletedAt = None\<rparr>] \<and>
    us_jobs s' = us_jobs s \<and> us_memory s' = us_memory s \<and> \<not> sql_exists (\<lambda>p. ps_SessionID p = sid) (us_sessions s)"
proof -
  obtain e s1 where e: "check_assignment (ud_TelescopeID d) (su_TaskID q) s = (e, s1)" by force
  obtain m s2 where m: "product_mode (su_TaskID q) s1 = (m, s2)" by force
  from check_run(1) [OF e] mode_run [OF m] obtain a where s2: "s2 = s\<lparr>us_api := a\<rparr>" by auto
  have en: "e = None"
    using assms e by (cases e) (auto simp: start_upload_def upload_denied_def writeError_def split: auth_error.splits)
  obtain s3id where i: "sa_initiate A = Inr s3id" "sa_client A"
    using assms e m en by (auto simp: start_upload_def writeError_def split: if_splits sum.splits)
  obtain b s3 where c: "createUploadSession C now sid d s3id (object_path q filename) (start_grade q (ud_TelescopeID d) m) s2 = (b, s3)"
    by force
  have "b \<and> s3 = s'" using assms e m en i c by (cases b) (auto simp: start_upload_def writeError_def Let_def)
  with c have "createUploadSession C now sid d s3id (object_path q filename) (start_grade q (ud_TelescopeID d) m) s2 = (True, s')" by simp
  from create_run [OF this] have "us_sessions s' = us_sessions s2 @
      [\<lparr>ps_SessionID = sid, ps_S3UploadID = s3id, ps_NodeID = ud_NodeID d, ps_TelescopeID = ud_TelescopeID d,
        ps_ObjectPath = object_path q filename, ps_Bucket = uc_bucket C,
        ps_Grade = start_grade q (ud_TelescopeID d) m, ps_ExpiresAt = now + uc_ttl C, ps_CompletedAt = None\<rparr>] \<and>
      us_jobs s' = us_jobs s2 \<and> us_memory s' = us_memory s2 \<and> \<not> sql_exists (\<lambda>p. ps_SessionID p = sid) (us_sessions s2)" .
  then show ?thesis using i check_run(2) [OF e en] s2 by (intro exI [of _ s3id] exI [of _ m]) simp
qed

text \<open>C22: A session opens exactly as told: only for a device whose token is known, with a plain file name of
  at most 128 characters, and for a telescope that holds the named open task when the request is checked.
  It carries the device's node and that telescope, expires after the configured life, and opens nothing
  else.\<close>

theorem session_opened_for_holder:
  assumes run: "requireUploadDevice C token (handleUploadStart C A now sid body) s = (r, s')" and ok: "rs_code r = 200"
  shows "\<exists>q filename node user bound tel s3id mode.
    body = Body q \<and> us_devices s (uc_hash C token) = Some (node, user, bound) \<and>
    sanitizeUploadFilename (su_Filename q) = Inr filename \<and> filename \<noteq> [] \<and> length filename \<le> 128 \<and> CHR ''/'' \<notin> set filename \<and>
    (bound = None \<or> bound = Some [] \<or> bound = Some tel) \<and> holds_task tel (su_TaskID q) (us_api s) \<and>
    us_sessions s' = us_sessions s @
      [\<lparr>ps_SessionID = sid, ps_S3UploadID = s3id, ps_NodeID = node, ps_TelescopeID = tel,
        ps_ObjectPath = object_path q filename, ps_Bucket = uc_bucket C, ps_Grade = start_grade q tel mode,
        ps_ExpiresAt = now + uc_ttl C, ps_CompletedAt = None\<rparr>] \<and>
    us_jobs s' = us_jobs s \<and> us_memory s' = us_memory s \<and> \<not> sql_exists (\<lambda>p. ps_SessionID p = sid) (us_sessions s)"
proof -
  from run ok show ?thesis
  proof (rule device_run)
    fix node user bound a
    let ?d = "\<lparr>ud_NodeID = node, ud_UserID = user, ud_TelescopeID = (case bound of None \<Rightarrow> [] | Some t \<Rightarrow> t)\<rparr>"
    let ?s = "s\<lparr>us_api := a\<rparr>"
    assume dev: "us_devices s (uc_hash C token) = Some (node, user, bound)" and a: "same_data (us_api s) a"
      and h: "handleUploadStart C A now sid body ?d ?s = (r, s')"
    from h ok obtain q where b: "body = Body q"
      by (auto simp: handleUploadStart_def decodeUploadJSON_def writeError_def split: upload_body.splits)
    from h ok b obtain filename where f: "sanitizeUploadFilename (su_Filename q) = Inr filename"
      by (auto simp: handleUploadStart_def decodeUploadJSON_def writeError_def split: sum.splits)
    then have plain: "filename \<noteq> []" "length filename \<le> 128" "CHR ''/'' \<notin> set filename"
      by (auto simp: sanitizeUploadFilename_def Let_def split: if_splits)
    from h ok b f obtain tel where t: "resolveUploadTelescopeID ?d (su_TelescopeID q) = Inr tel"
      by (auto simp: handleUploadStart_def decodeUploadJSON_def writeError_def split: sum.splits upload_error.splits)
    then have bound: "bound = None \<or> bound = Some [] \<or> bound = Some tel"
      by (auto simp: resolveUploadTelescopeID_def Let_def split: if_splits option.splits)
    from h b f t have "start_upload C A now sid q filename (?d\<lparr>ud_TelescopeID := tel\<rparr>) ?s = (r, s')"
      by (simp add: handleUploadStart_def decodeUploadJSON_def)
    from start_run [OF this ok] show ?thesis using dev b f plain bound holds_same [OF a] by simp blast
  qed
qed

section \<open>What modelling showed\<close>

text \<open>A device without a linked telescope opens sessions that it can never go on with.\<close>

lemma unbound_device_stuck:
  assumes "ps_TelescopeID p \<noteq> []"
  shows "authorizeUploadSession now p \<lparr>ud_NodeID = node, ud_UserID = user, ud_TelescopeID = []\<rparr> \<noteq> None"
  using assms by (simp add: authorised)

text \<open>Two telescopes of a cohort that send the same file name: one key, and one job.\<close>

lemma insert_known:
  assumes "r \<in> set (us_jobs s)" "wj_ObjectKey (wr_job r) = wj_ObjectKey j" "wr_status r \<in> {''pending'', ''leased''}"
  shows "insert_job now j s = s"
proof -
  have "sql_exists (\<lambda>r. wj_ObjectKey (wr_job r) = wj_ObjectKey j \<and> wr_status r \<in> {''pending'', ''leased''}) (us_jobs s)"
    unfolding sql_exists_def list_ex_iff using assms by blast
  then show ?thesis unfolding insert_job_def by (rule if_P)
qed

lemma same_name_one_job:
  assumes "wj_ObjectKey j' = wj_ObjectKey j" shows "insert_job now' j' (insert_job now j s) = insert_job now j s"
proof -
  have "\<exists>r \<in> set (us_jobs (insert_job now j s)). wj_ObjectKey (wr_job r) = wj_ObjectKey j \<and> wr_status r \<in> {''pending'', ''leased''}"
  proof (cases "sql_exists (\<lambda>r. wj_ObjectKey (wr_job r) = wj_ObjectKey j \<and> wr_status r \<in> {''pending'', ''leased''}) (us_jobs s)")
    case True
    then show ?thesis unfolding insert_job_def if_P [OF True] by (simp add: sql_exists_def list_ex_iff)
  next
    case False
    then show ?thesis unfolding insert_job_def if_not_P [OF False] by simp
  qed
  then show ?thesis using assms insert_known by metis
qed

lemma object_path_ignores_telescope: "object_path (q\<lparr>su_TelescopeID := tel\<rparr>) filename = object_path q filename"
  by (simp add: object_path_def)

section \<open>A run\<close>

definition demo_uploads :: upload_config where
  "demo_uploads = \<lparr>uc_bucket = ''frames'', uc_ttl = 6 * hour, uc_deny = [], uc_limit = 1, uc_uuid = Some,
     uc_parse_url = (\<lambda>x. None), uc_hash = (\<lambda>x. x)\<rparr>"

definition demo_worker :: worker_config where
  "demo_worker = \<lparr>wc_token = ''w'', wc_dev = False, wc_limit = 1\<rparr>"

definition demo_answers :: store_answers where
  "demo_answers = \<lparr>sa_client = True, sa_presign_client = True, sa_initiate = Inr ''m1'', sa_presign = Inl [], sa_complete = None\<rparr>"

definition demo_start :: upload_start where
  "demo_start = \<lparr>su_CampaignID = 7, su_TaskID = 1, su_Filename = ''a.fits'', su_TelescopeID = [], su_IntegrationTime = Fin 30,
     su_FilterRequested = ''V'', su_ClientUploadID = ''c1'', su_ClockSource = ''gps'', su_DetectorTempC = Fin 0\<rparr>"

definition demo_session :: upload_session where
  "demo_session = \<lparr>ps_SessionID = ''s1'', ps_S3UploadID = ''m1'', ps_NodeID = ''d1'', ps_TelescopeID = ''n1'',
     ps_ObjectPath = ''7/1/a.fits'', ps_Bucket = ''frames'', ps_Grade = start_grade demo_start ''n1'' ''per_frame'',
     ps_ExpiresAt = 100, ps_CompletedAt = None\<rparr>"

definition demo_frame :: "nat \<Rightarrow> string \<Rightarrow> worker_row" where
  "demo_frame i key = \<lparr>wr_id = i, wr_job = (frame_job demo_session)\<lparr>wj_ObjectKey := key\<rparr>, wr_status = ''pending'', wr_created = 0\<rparr>"

definition demo_upload :: "api_state \<Rightarrow> worker_row list \<Rightarrow> upload_session list \<Rightarrow> upload_state" where
  "demo_upload a js ps = \<lparr>us_api = a, us_jobs = js, us_next_job = 9, us_memory = [], us_sessions = ps,
     us_devices = [''t1'' \<mapsto> (''d1'', ''u1'', Some ''n1'')]\<rparr>"

lemmas demo_upload_defs = demo_uploads_def demo_worker_def demo_answers_def demo_start_def demo_session_def demo_upload_def
  demo_frame_def

lemma quiet_us:
  assumes "w_faults (as_world (us_api s)) = []"
  shows "us_read f s = (Inr (f s), s)" "us_exec g s = (case g s of (s', n) \<Rightarrow> (Inr n, s'))"
  using assms by (simp_all add: us_read_def us_exec_def us_outcome_def api_outcome_def next_outcome_def split: prod.split)

definition demo_queue :: upload_state where
  "demo_queue = demo_upload demo_api [demo_frame 1 ''a'', demo_frame 2 ''b''] []"

lemma demo_queue_fields [simp]:
  "w_faults (as_world (us_api demo_queue)) = []" "us_jobs demo_queue = [demo_frame 1 ''a'', demo_frame 2 ''b'']"
  "us_memory demo_queue = []" "wr_id (demo_frame i k) = i" "wr_status (demo_frame i k) = ''pending''"
  "wr_created (demo_frame i k) = 0" "us_next_job demo_queue = 9" "claimable_job (demo_frame i k)"
  by (simp_all add: demo_queue_def demo_upload_defs demo_world_def claimable_job_def frame_job_def start_grade_def Let_def)

lemma demo_worker_auth [simp]: "requireWorkerAuth demo_worker ''Bearer w'' = None"
  by code_simp

lemma demo_handed:
  "map wr_id (handed demo_uploads demo_worker (sort_key wr_created) (\<lambda>x. x) [WorkerPull ''Bearer w'', WorkerPull ''Bearer w''] demo_queue)
     = [1, 2]"
  by (simp add: quiet_us handleWorkerPending_def claimWorkerJobs_def claim_tx_def claimable_job_def [of "wr_status_update f r" for f r] Let_def)

theorem rows_handed_once_witness:
  "let h = handed demo_uploads demo_worker (sort_key wr_created) (\<lambda>x. x) [WorkerPull ''Bearer w'', WorkerPull ''Bearer w''] demo_queue
   in distinct (map wr_id h) \<and> map wr_id h = [1, 2]"
proof -
  have "distinct (map wr_id (us_jobs demo_queue))" "\<And>r. r \<in> set (us_jobs demo_queue) \<Longrightarrow> wr_id r < us_next_job demo_queue"
    by auto
  note rows_handed_once [of "sort_key wr_created", OF mset_sort this]
  with demo_handed show ?thesis by (simp add: Let_def)
qed

lemma demo_closed:
  "rs_code (fst (requireUploadDevice demo_uploads ''t1'' (handleUploadComplete demo_uploads demo_answers 5 (Body ''s1''))
     (demo_upload demo_api [] [demo_session]))) = 200"
  by (simp add: demo_upload_defs demo_world_def quiet_us requireUploadDevice_def lookupDeviceByToken_def handleUploadComplete_def
      decodeUploadJSON_def open_session_def getUploadSession_def sql_find_def authorizeUploadSession_def
      markUploadSessionComplete_def sql_update_def enqueueWorkerJob_def normalise_job_def frame_job_def start_grade_def
      insert_or_keep_def sql_count_def Let_def)

theorem acknowledged_frame_queued_witness:
  "let out = requireUploadDevice demo_uploads ''t1'' (handleUploadComplete demo_uploads demo_answers 5 (Body ''s1''))
       (demo_upload demo_api [] [demo_session])
   in rs_code (fst out) = 200 \<and> frame_queued ''7/1/a.fits'' (snd out)"
proof -
  have p: "ps_ObjectPath p \<noteq> []" "ps_ObjectPath p = ''7/1/a.fits''" if "p \<in> set (us_sessions (demo_upload demo_api [] [demo_session]))" for p
    using that by (auto simp: demo_upload_def demo_session_def)
  show ?thesis
    using acknowledged_frame_queued [OF p(1) prod.collapse [symmetric] demo_closed] p(2) demo_closed by (auto simp: Let_def)
qed

definition demo_held :: api_state where
  "demo_held = demo_api\<lparr>as_world := demo_world\<lparr>w_tasks := [demo_row\<lparr>tk_assigned := Some ''n1''\<rparr>]\<rparr>\<rparr>"

lemma demo_opened:
  "rs_code (fst (requireUploadDevice demo_uploads ''t1'' (handleUploadStart demo_uploads demo_answers 5 ''s2'' (Body demo_start))
     (demo_upload demo_held [] []))) = 200"
proof -
  have open_task: "\<not> upload_closed (tk_status demo_row)" by code_simp
  have name: "sanitizeUploadFilename ''a.fits'' = Inr ''a.fits''" by code_simp
  have tel: "resolveUploadTelescopeID \<lparr>ud_NodeID = ''d1'', ud_UserID = ''u1'', ud_TelescopeID = ''n1''\<rparr> [] = Inr ''n1''" by code_simp
  have trim: "TrimSpace ''n1'' = ''n1''" by code_simp
  show ?thesis using open_task
    by (simp add: demo_upload_defs demo_held_def demo_world_def quiet_us requireUploadDevice_def lookupDeviceByToken_def handleUploadStart_def
      decodeUploadJSON_def name tel start_upload_def check_assignment_def validateUploadAssignment_def lookupTaskAssignmentAuth_def
      quiet_read task_by_id_def sql_find_def sql_exists_def legacy_holder_def trim product_mode_def extra_by_id_def
      createUploadSession_def Let_def)
qed

theorem session_opened_for_holder_witness:
  "let out = requireUploadDevice demo_uploads ''t1'' (handleUploadStart demo_uploads demo_answers 5 ''s2'' (Body demo_start))
       (demo_upload demo_held [] [])
   in map ps_SessionID (us_sessions (snd out)) = [''s2''] \<and> map ps_NodeID (us_sessions (snd out)) = [''d1'']"
  using session_opened_for_holder [OF prod.collapse [symmetric] demo_opened] by (auto simp: Let_def demo_upload_def demo_uploads_def)

text \<open>A full queue refuses the frame, but the session is closed: the retry finds no upload and the frame is
  not queued.\<close>

lemma full_queue_drops_frame:
  "let go = requireUploadDevice demo_uploads ''t1'' (handleUploadComplete demo_uploads demo_answers 5 (Body ''s1''));
       first = go (demo_upload demo_api [demo_frame 1 ''a''] [demo_session]); again = go (snd first)
   in rs_code (fst first) = 503 \<and> rs_code (fst again) = 404 \<and> \<not> frame_queued ''7/1/a.fits'' (snd again)"
  by (simp add: demo_upload_defs demo_world_def quiet_us requireUploadDevice_def lookupDeviceByToken_def handleUploadComplete_def
      decodeUploadJSON_def open_session_def getUploadSession_def sql_find_def authorizeUploadSession_def
      markUploadSessionComplete_def sql_update_def enqueueWorkerJob_def normalise_job_def frame_job_def start_grade_def
      insert_or_keep_def sql_count_def writeError_def writeUploadSessionError_def frame_queued_def job_keys_def Let_def)

end
