(* ===== verification/GradesProps.thy ===== *)
theory GradesProps
  imports Grades UploadProps
begin

text \<open>
  What the ingestion of grades promises: a grade is paid once however often it is delivered, what an accepted
  one writes, and which object keys it may carry.
\<close>

section \<open>Accesses\<close>

definition same_but_faults :: "grades_db \<Rightarrow> grades_db \<Rightarrow> bool" where
  "same_but_faults s s' \<longleftrightarrow> (\<exists>a. same_data (us_api (gr_up s)) a \<and> s' = s\<lparr>gr_up := (gr_up s)\<lparr>us_api := a\<rparr>\<rparr>)"

lemma outcome_run:
  assumes "on_api_state api_outcome s = (oc, s')" shows "same_but_faults s s'"
proof -
  obtain oc' a where o: "api_outcome (us_api (gr_up s)) = (oc', a)" by force
  with assms api_outcome_same [OF o] show ?thesis by (auto simp: on_api_state_def same_but_faults_def)
qed

lemma gr_read_run:
  assumes "gr_read f s = (r, s')"
  shows "same_but_faults s s'" "r = Inl DbError \<or> r = Inr (f s')"
proof -
  obtain oc t where o: "on_api_state api_outcome s = (oc, t)" by force
  from assms o have "s' = t \<and> (r = Inl DbError \<or> r = Inr (f s'))" by (auto simp: gr_read_def split: if_splits)
  with outcome_run [OF o] show "same_but_faults s s'" "r = Inl DbError \<or> r = Inr (f s')" by auto
qed

lemma gr_exec_run:
  assumes "gr_exec f s = (r, s')"
  obtains (failed) "same_but_faults s s'" "r = Inl DbError"
  | (ran) t n where "same_but_faults s t" "f t = (s', n)" "r = Inl DbError \<or> r = Inr n"
proof -
  obtain oc t where o: "on_api_state api_outcome s = (oc, t)" by force
  note k = outcome_run [OF o]
  show thesis
  proof (cases "oc = Failed")
    case True
    with assms o k show thesis by (intro failed) (auto simp: gr_exec_def)
  next
    case False
    obtain u n where f: "f t = (u, n)" by force
    show thesis by (rule ran [OF k]) (use assms o False f in \<open>auto simp: gr_exec_def split: if_splits\<close>)
  qed
qed

lemma same_grades [simp]:
  assumes "same_but_faults s s'"
  shows "gr_frames s' = gr_frames s" "gr_stats s' = gr_stats s" "gr_scale s' = gr_scale s" "gr_next s' = gr_next s" "gr_exposure s' = gr_exposure s"
  using assms by (auto simp: same_but_faults_def)

section \<open>What leaves the grades alone\<close>

definition keeps_grades :: "grades_db \<Rightarrow> grades_db \<Rightarrow> bool" where
  "keeps_grades s s' \<longleftrightarrow> gr_frames s' = gr_frames s \<and> gr_stats s' = gr_stats s"

interpretation kept_grades: respected keeps_grades
  by unfold_locales (auto simp: keeps_grades_def)

lemma kept_api: "keeps_grades s (snd (on_api_state f s))"
  by (simp add: keeps_grades_def on_api_state_def split: prod.split)

lemma kept_read: "keeps_grades s (snd (gr_read f s))"
  using gr_read_run(1) [of f s] by (metis keeps_grades_def prod.collapse same_grades(1,2))

lemma kept_exec:
  assumes "\<And>s. keeps_grades s (fst (f s))" shows "keeps_grades s (snd (gr_exec f s))"
proof -
  obtain r s' where e: "gr_exec f s = (r, s')" by force
  then show ?thesis
  proof (cases rule: gr_exec_run)
    case failed
    with e show ?thesis by (simp add: keeps_grades_def)
  next
    case (ran t n)
    with assms [of t] e show ?thesis by (simp add: keeps_grades_def)
  qed
qed

lemma kept_inbox: "keeps_grades s (createInboxDeliveryFromGrade i t u d p b s)"
proof -
  have "keeps_grades s0 x \<Longrightarrow> keeps_grades s0 (snd (gr_exec (\<lambda>s. (s\<lparr>gr_inbox := gr_inbox s @ [z]\<rparr>, ())) x))" for s0 x z
    by (rule kept_grades.call [OF kept_exec]) (simp_all add: keeps_grades_def)
  moreover have "keeps_grades s (snd (on_api_state f s))" for f :: "api_state \<Rightarrow> (db_error + (string \<times> string \<times> string option) option) \<times> api_state"
    by (rule kept_api)
  ultimately show ?thesis
    unfolding createInboxDeliveryFromGrade_def
    by (auto simp: split_def Let_def kept_grades.reflexive split: option.split sum.split)
qed

lemma kept_developer: "keeps_grades s (createDeveloperDeliveryFromGrade i t u d b s)"
proof -
  have "keeps_grades s0 x \<Longrightarrow> keeps_grades s0 (snd (gr_exec (\<lambda>s. (s\<lparr>gr_developer := gr_developer s @ [z]\<rparr>, ())) x))" for s0 x z
    by (rule kept_grades.call [OF kept_exec]) (simp_all add: keeps_grades_def)
  moreover have "keeps_grades s (snd (on_api_state f s))" for f :: "api_state \<Rightarrow> (db_error + task_extra option) \<times> api_state"
    by (rule kept_api)
  ultimately show ?thesis
    unfolding createDeveloperDeliveryFromGrade_def
    by (auto simp: split_def Let_def kept_grades.reflexive split: option.split sum.split)
qed

lemma kept_announce: "keeps_grades s (announce_grade t b s)"
proof -
  have a: "keeps_grades s0 x \<Longrightarrow> keeps_grades s0 (snd (on_api_state f x))" for s0 x and f :: "api_state \<Rightarrow> 'a \<times> api_state"
    by (rule kept_grades.call [OF kept_api])
  have r: "keeps_grades s0 x \<Longrightarrow> keeps_grades s0 (snd (gr_read f x))" for s0 x and f :: "grades_db \<Rightarrow> nat"
    by (rule kept_grades.call [OF kept_read])
  show ?thesis
    unfolding announce_grade_def
    by (auto simp: split_def Let_def kept_grades.reflexive intro!: a r kept_grades.call [OF kept_api] kept_api split: option.split sum.split)
qed

lemma kept_catalog: "keeps_grades s (upsertFrameCatalogFromGrade z p d t h b x s)"
  unfolding upsertFrameCatalogFromGrade_def Let_def
  by (auto simp: kept_grades.reflexive intro!: kept_exec) (auto simp: keeps_grades_def)

lemma kept_exposure: "keeps_grades s (add_exposure t x s)"
  unfolding add_exposure_def
  by (auto simp: kept_grades.reflexive intro!: kept_exec split: option.split) (auto simp: keeps_grades_def)

lemma kept_foreign: "keeps_grades s (snd (assertObjectKeyNotForeignRegistered k t tel s))"
  unfolding assertObjectKeyNotForeignRegistered_def
  by (auto intro!: kept_grades.bind [OF kept_read] kept_grades.reflexive split: sum.split bool.split)

lemma kept_check: "keeps_grades s (snd (check_object_keys c t tel ks s))"
proof (induction ks arbitrary: s)
  case (Cons k ks)
  show ?case
    by (auto intro!: kept_grades.bind [OF kept_foreign] kept_grades.reflexive kept_grades.call [OF Cons.IH] split: sum.split bool.split)
qed (simp add: kept_grades.reflexive)

lemma kept_validate: "keeps_grades s (snd (validateGradeIngestObjectKeys d t tel s))"
  unfolding validateGradeIngestObjectKeys_def Let_def
  by (auto intro!: kept_grades.bind [OF kept_api] kept_grades.call [OF kept_check] kept_grades.reflexive split: option.split)

lemma kept_task: "keeps_grades s (snd (ingest_task d s))"
  unfolding ingest_task_def
  by (auto intro!: kept_grades.bind [OF kept_api] kept_grades.bind [OF kept_read] kept_grades.reflexive split: option.split sum.split)

section \<open>One ingestion\<close>

lemma after_run:
  assumes "after_insert E data taskPK tel dims stats headline points b x i s = (r, s')"
  shows "gr_frames s' = gr_frames s"
    and "r = GradeIngested j pts b' m \<Longrightarrow> j = i \<and> pts = points \<and> b' = b \<and>
      m = MergeReputationStats stats (BuildReputationPartial (ge_now_text E) stats headline dims points x) \<and>
      gr_stats s' = (\<lambda>t. if t = tel then map_option (\<lambda>x. stored_stats m) (gr_stats s t) else gr_stats s t)"
proof -
  obtain ok s1 where d: "on_api_state (applyTaskBudgetDebit (ge_now E) taskPK tel x b) s = (ok, s1)" by force
  have k1: "keeps_grades s s1" using kept_api [of s] d by (metis snd_conv)
  define s2 where "s2 = announce_grade taskPK b (createDeveloperDeliveryFromGrade i taskPK (stringFromAny (data ''upload_id'')) data b
    (createInboxDeliveryFromGrade i taskPK (stringFromAny (data ''upload_id'')) data points b s1))"
  have k2: "keeps_grades s s2" unfolding s2_def
    by (intro kept_grades.call [OF kept_announce] kept_grades.call [OF kept_developer] kept_grades.call [OF kept_inbox] k1)
  define merged where "merged = MergeReputationStats stats (BuildReputationPartial (ge_now_text E) stats headline dims points x)"
  let ?up = "\<lambda>s. (s\<lparr>gr_stats := (\<lambda>t. if t = tel then map_option (\<lambda>x. stored_stats merged) (gr_stats s t) else gr_stats s t)\<rparr>, ())"
  obtain q s3 where q: "gr_exec ?up s2 = (q, s3)" by force
  have f3: "gr_frames s3 = gr_frames s" using q k2 by (cases rule: gr_exec_run) (auto simp: keeps_grades_def)
  have r: "(r, s') = (if \<not> ok then (GradeFailed ''budget'', s1)
    else case q of Inl e \<Rightarrow> (GradeFailed ''update reputation'', s3)
      | Inr u \<Rightarrow> (GradeIngested i points b merged,
          upsertFrameCatalogFromGrade (ge_timestamptz E) (ge_sprint E) data tel headline b x s3))"
    using assms d q [unfolded s2_def merged_def] 
    by (cases ok; cases q) (simp_all add: after_insert_def Let_def merged_def)
  show "gr_frames s' = gr_frames s"
    using r f3 k1 kept_catalog [of s3] by (auto simp: keeps_grades_def split: if_splits sum.splits)
  assume "r = GradeIngested j pts b' m"
  with r obtain u where u: "ok" "q = Inr u" "j = i" "pts = points" "b' = b" "m = merged"
    "s' = upsertFrameCatalogFromGrade (ge_timestamptz E) (ge_sprint E) data tel headline b x s3"
    by (auto split: if_splits sum.splits)
  have "gr_stats s3 = (\<lambda>t. if t = tel then map_option (\<lambda>x. stored_stats merged) (gr_stats s t) else gr_stats s t)"
    using q u(2) k2 by (cases rule: gr_exec_run) (auto simp: keeps_grades_def)
  then show "j = i \<and> pts = points \<and> b' = b \<and>
      m = MergeReputationStats stats (BuildReputationPartial (ge_now_text E) stats headline dims points x) \<and>
      gr_stats s' = (\<lambda>t. if t = tel then map_option (\<lambda>x. stored_stats m) (gr_stats s t) else gr_stats s t)"
    using u(3,4,5,7) kept_catalog [of s3] unfolding u(6) by (simp add: keeps_grades_def, simp add: merged_def)
qed

text \<open>What a grade is worth to the telescope \<open>tel\<close> with the reputation \<open>stats\<close>.\<close>

definition worth :: "grade_env \<Rightarrow> jmap \<Rightarrow> jmap \<Rightarrow> f64 \<Rightarrow> f64" where
  "worth E data stats scale = pb_PointsEarned (points_of (ge_log1p E) data (object_at data ''dimensions'') stats scale)"

definition reputation :: "grade_env \<Rightarrow> jmap \<Rightarrow> jmap \<Rightarrow> f64 \<Rightarrow> jmap" where
  "reputation E data stats points =
     MergeReputationStats stats (BuildReputationPartial (ge_now_text E) stats (intFromAny (data ''headline'')) (object_at data ''dimensions'')
       points (resolveOAExptime data (object_at data ''dimensions'')))"

lemma frame_run:
  assumes "ingest_frame E data key tel stats s = (r, s')"
  shows "gr_frames s' = gr_frames s \<or>
      (\<exists>f. gr_frames s' = gr_frames s @ [f] \<and> fg_key f = key \<and> \<not> list_ex (\<lambda>g. fg_key g = key) (gr_frames s))"
    and "r = GradeIngested i pts b m \<Longrightarrow>
      \<exists>f task scale s1 s2. gr_frames s' = gr_frames s @ [f] \<and> \<not> list_ex (\<lambda>g. fg_key g = key) (gr_frames s) \<and>
        fg_key f = key \<and> fg_telescope f = tel \<and> fg_task f = task \<and> fg_points f = pts \<and> fg_stack f = b \<and>
        ingest_task data s = ((task, scale), s1) \<and> validateGradeIngestObjectKeys data task tel s1 = (None, s2) \<and>
        pts = worth E data stats scale \<and> b = IsStackEligible (object_at data ''dimensions'') \<and> m = reputation E data stats pts \<and>
        gr_stats s' = (\<lambda>t. if t = tel then map_option (\<lambda>x. stored_stats m) (gr_stats s t) else gr_stats s t)"
proof -
  let ?dims = "object_at data ''dimensions''"
  let ?x = "resolveOAExptime data ?dims"
  obtain task scale s1 where t: "ingest_task data s = ((task, scale), s1)" by (metis prod.collapse)
  obtain e s2 where v: "validateGradeIngestObjectKeys data task tel s1 = (e, s2)" by force
  have k1: "keeps_grades s s1" using kept_task [of s data] t by simp
  have k2: "keeps_grades s s2" using kept_validate [of s1 data task tel] v by (intro kept_grades.transitive [OF k1]) simp
  have k3: "keeps_grades s (add_exposure task ?x s2)" by (rule kept_grades.call [OF kept_exposure k2])
  define f where "f = \<lparr>fg_id = 0, fg_upload = null_string (stringFromAny (data ''upload_id'')), fg_key = key, fg_task = task,
    fg_telescope = tel, fg_headline = intFromAny (data ''headline''), fg_dimensions = ?dims, fg_points = worth E data stats scale,
    fg_stack = IsStackEligible ?dims, fg_exptime = ?x, fg_grader = null_string (stringFromAny (data ''grader_version'')),
    fg_quality = quality_columns data, fg_created = ge_now E\<rparr>"
  obtain q s3 where q: "gr_exec (insert_frame f) (add_exposure task ?x s2) = (q, s3)" by force
  have ins: "gr_frames s3 = gr_frames s \<and> q \<noteq> Inr (Some i) \<or>
    (\<exists>n. gr_frames s3 = gr_frames s @ [f\<lparr>fg_id := n\<rparr>] \<and> \<not> list_ex (\<lambda>g. fg_key g = key) (gr_frames s))" for i
    using q
  proof (cases rule: gr_exec_run)
    case failed
    with k3 show ?thesis by (simp add: keeps_grades_def)
  next
    case (ran u n)
    with k3 show ?thesis by (auto simp: keeps_grades_def insert_frame_def frame_fits_def f_def split: if_splits)
  qed
  have stats3: "gr_stats s3 = gr_stats s" using q
    by (cases rule: gr_exec_run) (use k3 in \<open>auto simp: keeps_grades_def insert_frame_def split: if_splits\<close>)
  have run: "(r, s') = (case e of Some m \<Rightarrow> (GradeRefused 400 m, s2)
    | None \<Rightarrow> (case q of Inr (Some j) \<Rightarrow>
        after_insert E data task tel ?dims stats (intFromAny (data ''headline'')) (worth E data stats scale) (IsStackEligible ?dims) ?x j s3
      | _ \<Rightarrow> (GradeFailed ''insert frame_grade'', s3)))"
    using assms t v q [unfolded f_def worth_def]
    by (cases e; cases q) (simp_all add: ingest_frame_def Let_def worth_def split: option.splits)
  show "gr_frames s' = gr_frames s \<or>
      (\<exists>f. gr_frames s' = gr_frames s @ [f] \<and> fg_key f = key \<and> \<not> list_ex (\<lambda>g. fg_key g = key) (gr_frames s))"
  proof (cases e)
    case (Some m)
    with run k2 show ?thesis by (simp add: keeps_grades_def)
  next
    case None
    have "gr_frames s' = gr_frames s3"
      using run None after_run(1) by (auto split: sum.splits option.splits) (metis)+
    with ins [of 0] show ?thesis by (auto simp: f_def)
  qed
  assume r: "r = GradeIngested i pts b m"
  with run have e: "e = None" by (auto split: option.splits)
  with run r obtain j where j: "q = Inr (Some j)" by (auto split: option.splits sum.splits)
  have a: "after_insert E data task tel ?dims stats (intFromAny (data ''headline'')) (worth E data stats scale) (IsStackEligible ?dims) ?x j s3 = (r, s')"
    using run e j by simp
  from ins [of j] j obtain n where n: "gr_frames s3 = gr_frames s @ [f\<lparr>fg_id := n\<rparr>]" "\<not> list_ex (\<lambda>g. fg_key g = key) (gr_frames s)" by auto
  note facts = after_run(1) [OF a] after_run(2) [OF a r, unfolded stats3] n t v e
  show "\<exists>f task scale s1 s2. gr_frames s' = gr_frames s @ [f] \<and> \<not> list_ex (\<lambda>g. fg_key g = key) (gr_frames s) \<and>
        fg_key f = key \<and> fg_telescope f = tel \<and> fg_task f = task \<and> fg_points f = pts \<and> fg_stack f = b \<and>
        ingest_task data s = ((task, scale), s1) \<and> validateGradeIngestObjectKeys data task tel s1 = (None, s2) \<and>
        pts = worth E data stats scale \<and> b = IsStackEligible (object_at data ''dimensions'') \<and> m = reputation E data stats pts \<and>
        gr_stats s' = (\<lambda>t. if t = tel then map_option (\<lambda>x. stored_stats m) (gr_stats s t) else gr_stats s t)"
    by (rule exI [of _ "f\<lparr>fg_id := n\<rparr>"], rule exI [of _ task], rule exI [of _ scale], rule exI [of _ s1], rule exI [of _ s2])
      (use facts in \<open>simp add: f_def reputation_def\<close>)
qed

lemma ingest_run:
  assumes "ingestGradePayload E data s = (r, s')"
  shows "gr_frames s' = gr_frames s \<or>
      (\<exists>f. gr_frames s' = gr_frames s @ [f] \<and> fg_key f = stringFromAny (data ''idempotency_key'') \<and>
        \<not> list_ex (\<lambda>g. fg_key g = stringFromAny (data ''idempotency_key'')) (gr_frames s))"
    and "r = GradeIngested i pts b m \<Longrightarrow>
      \<exists>tel stats s0. tel \<noteq> [] \<and> tel = stringFromAny (data ''telescope_id'') \<and> gr_stats s tel = Some stats \<and>
        gr_frames s0 = gr_frames s \<and> gr_stats s0 = gr_stats s \<and> stringFromAny (data ''idempotency_key'') \<noteq> [] \<and>
        ingest_frame E data (stringFromAny (data ''idempotency_key'')) tel stats s0 = (r, s')"
proof -
  let ?k = "stringFromAny (data ''idempotency_key'')" and ?tel = "stringFromAny (data ''telescope_id'')"
  obtain q s1 where q: "gr_read (\<lambda>s. sql_find (\<lambda>f. fg_key f = ?k) (gr_frames s)) s = (q, s1)" by force
  obtain u s2 where u: "gr_read (\<lambda>s. gr_stats s ?tel) s1 = (u, s2)" by force
  have k1: "gr_frames s1 = gr_frames s" "gr_stats s1 = gr_stats s" using gr_read_run(1) [OF q] by simp_all
  then have k2: "gr_frames s2 = gr_frames s" "gr_stats s2 = gr_stats s" using gr_read_run(1) [OF u] by simp_all
  have uv: "u = Inl DbError \<or> u = Inr (gr_stats s ?tel)" using gr_read_run(2) [OF u] k2 by simp
  have run: "?k \<noteq> [] \<and> ?tel \<noteq> [] \<and> (\<exists>stats. u = Inr (Some stats) \<and> ingest_frame E data ?k ?tel stats s2 = (r, s'))"
    if "r = GradeIngested i' pts' b' m'" for i' pts' b' m'
    using assms q u that by (auto simp: ingestGradePayload_def Let_def split: if_splits sum.splits option.splits)
  have "s' = s \<or> s' = s1 \<or> s' = s2 \<or> (\<exists>stats. ingest_frame E data ?k ?tel stats s2 = (r, s'))"
    using assms q u by (auto simp: ingestGradePayload_def Let_def split: if_splits sum.splits option.splits)
  then show "gr_frames s' = gr_frames s \<or> (\<exists>f. gr_frames s' = gr_frames s @ [f] \<and> fg_key f = ?k \<and> \<not> list_ex (\<lambda>g. fg_key g = ?k) (gr_frames s))"
  proof (elim disjE conjE exE)
    fix stats assume "ingest_frame E data ?k ?tel stats s2 = (r, s')"
    from frame_run(1) [OF this] k2 show ?thesis by simp
  qed (use k1 k2 in simp_all)
  assume "r = GradeIngested i pts b m"
  from run [OF this] obtain stats where "?k \<noteq> []" "?tel \<noteq> []" "u = Inr (Some stats)" "ingest_frame E data ?k ?tel stats s2 = (r, s')"
    by (elim conjE exE)
  moreover from this uv have "gr_stats s ?tel = Some stats" by simp
  ultimately show "\<exists>tel stats s0. tel \<noteq> [] \<and> tel = ?tel \<and> gr_stats s tel = Some stats \<and>
        gr_frames s0 = gr_frames s \<and> gr_stats s0 = gr_stats s \<and> ?k \<noteq> [] \<and> ingest_frame E data ?k tel stats s0 = (r, s')"
    using k2 by (intro exI [of _ ?tel] exI [of _ stats] exI [of _ s2]) simp
qed

lemma check_object_keys_ok:
  assumes "check_object_keys c task tel ks s = (None, s')" "k \<in> set ks"
  shows "\<exists>cleaned. canonicalizeLandingObjectKey k = Inr cleaned \<and> objectKeyUnderLandingPrefix cleaned c task"
  using assms by (induction ks arbitrary: s) (auto split: sum.splits if_splits prod.splits bool.splits)

lemma validate_ok:
  assumes "validateGradeIngestObjectKeys data task tel s = (None, s')" "k \<in> set (collectGradeObjectKeys data)"
  shows "\<exists>i c cleaned. task = Some i \<and> canonicalizeLandingObjectKey k = Inr cleaned \<and> objectKeyUnderLandingPrefix cleaned c i"
  using assms check_object_keys_ok
  by (auto simp: validateGradeIngestObjectKeys_def Let_def split: if_splits option.splits prod.splits) blast+

lemma ingest_task_known:
  assumes "ingest_task data s = ((Some i, scale), s')"
  shows "task_by_id i (us_api (gr_up s)) \<noteq> None \<and> intFromAnyOK (data ''task_id'') = Some i"
proof -
  obtain n where n: "intFromAnyOK (data ''task_id'') = Some n" using assms by (auto simp: ingest_task_def split: option.splits)
  obtain q a where q: "api_read (task_by_id n) (us_api (gr_up s)) = (q, a)" by force
  have "q = Inl DbError \<or> q = Inr (task_by_id n (us_api (gr_up s)))"
    using q same_dataD(13) [OF api_read_same [OF q]] by (auto elim!: api_read_run)
  with assms n q show ?thesis by (auto simp: ingest_task_def on_api_state_def split: sum.splits option.splits prod.splits)
qed


section \<open>Repeated deliveries\<close>

datatype grade_event = Ingest grade_env "string \<Rightarrow> string" "jmap option" | Around grades_db

text \<open>\<open>Around\<close> is anything the rest of the program does to the other tables.\<close>

fun grade_run :: "string \<Rightarrow> grade_event list \<Rightarrow> grades_db \<Rightarrow> (jmap option \<times> grade_reply) list" where
  "grade_run expected [] s = []"
| "grade_run expected (Around g # es) s = grade_run expected es (g\<lparr>gr_frames := gr_frames s\<rparr>)"
| "grade_run expected (Ingest E header body # es) s =
     (case handleGradesIngest E expected header body s of (r, s) \<Rightarrow> (body, r) # grade_run expected es s)"

fun paid :: "string \<Rightarrow> jmap option \<times> grade_reply \<Rightarrow> bool" where
  "paid k (Some d, GradeIngested i p b m) = (stringFromAny (d ''idempotency_key'') = k)"
| "paid k _ = False"

lemma handle_frames:
  assumes "handleGradesIngest E expected header body s = (r, s')"
  shows "list_ex (\<lambda>g. fg_key g = k) (gr_frames s) \<Longrightarrow> \<not> paid k (body, r) \<and> list_ex (\<lambda>g. fg_key g = k) (gr_frames s')"
    and "paid k (body, r) \<Longrightarrow> list_ex (\<lambda>g. fg_key g = k) (gr_frames s')"
proof -
  have p: "\<exists>d f. body = Some d \<and> gr_frames s' = gr_frames s @ [f] \<and> fg_key f = k \<and> \<not> list_ex (\<lambda>g. fg_key g = k) (gr_frames s)"
    if "paid k (body, r)"
  proof -
    from that obtain d i q b m where b: "body = Some d" "r = GradeIngested i q b m" "stringFromAny (d ''idempotency_key'') = k"
      by (cases "(k, body, r)" rule: paid.cases) auto
    with assms have "ingestGradePayload E d s = (r, s')" by (auto simp: handleGradesIngest_def split: if_splits)
    from ingest_run(2) [OF this b(2)] obtain tel stats s0 where i: "gr_frames s0 = gr_frames s"
      "ingest_frame E d k tel stats s0 = (r, s')" using b(3) by blast
    from frame_run(2) [OF i(2) b(2)] i(1) b(1) show ?thesis by auto
  qed
  from p show "paid k (body, r) \<Longrightarrow> list_ex (\<lambda>g. fg_key g = k) (gr_frames s')" by auto
  assume known: "list_ex (\<lambda>g. fg_key g = k) (gr_frames s)"
  have "gr_frames s' = gr_frames s \<or> (\<exists>f. gr_frames s' = gr_frames s @ [f])"
    using assms ingest_run(1) by (auto simp: handleGradesIngest_def split: if_splits option.splits) blast
  with known p show "\<not> paid k (body, r) \<and> list_ex (\<lambda>g. fg_key g = k) (gr_frames s')" by auto
qed

lemma run_paid:
  "length (filter (paid k) (grade_run expected es s)) \<le> (if list_ex (\<lambda>g. fg_key g = k) (gr_frames s) then 0 else 1)"
proof (induction es arbitrary: s)
  case (Cons e es)
  show ?case
  proof (cases e)
    case (Around g)
    with Cons.IH [of "g\<lparr>gr_frames := gr_frames s\<rparr>"] show ?thesis by simp
  next
    case (Ingest E header body)
    obtain r s' where h: "handleGradesIngest E expected header body s = (r, s')" by force
    show ?thesis using Cons.IH [of s'] handle_frames [OF h, of k] Ingest h by (auto split: if_splits)
  qed
qed simp

text \<open>C25: However often a grade is delivered and whatever fails or happens in between, each idempotency key is
  accepted at most once, so its points are paid at most once, and not at all when its row is already
  there.\<close>

theorem grade_paid_once:
  "length (filter (paid k) (grade_run expected events s)) \<le> 1 - length (filter (\<lambda>f. fg_key f = k) (gr_frames s))"
  using run_paid [of k expected events s] by (cases "filter (\<lambda>f. fg_key f = k) (gr_frames s)") (auto simp: list_ex_iff filter_empty_conv split: if_splits)

section \<open>What modelling showed\<close>

text \<open>The key of the nested \<open>frame_catalog\<close> document enters the catalogue without the check that the other keys pass.\<close>

lemma nested_catalog_key_unchecked:
  assumes "catalog_key data \<noteq> []" "k \<noteq> []"
  shows "collectGradeObjectKeys (data(''frame_catalog'' \<mapsto> v)) = collectGradeObjectKeys data \<and>
    catalog_key (data(''frame_catalog'' \<mapsto> JObject [''object_key'' \<mapsto> JString k])) = k"
  using assms by (auto simp: collectGradeObjectKeys_def catalog_key_def object_at_def stringField_def stringFromAny_def Let_def split: if_splits)

text \<open>The prefix check takes a key of any campaign.\<close>

lemma foreign_campaign_accepted: "objectKeyUnderLandingPrefix ''other/1/x'' ''mine'' 1"
  by code_simp

definition demo_env :: grade_env where
  "demo_env = \<lparr>ge_now = 5, ge_now_text = ''now'', ge_log1p = (\<lambda>x. Fin 0), ge_timestamptz = (\<lambda>x. None), ge_sprint = (\<lambda>x. ''1'')\<rparr>"

definition demo_grades :: "outcome list \<Rightarrow> grades_db" where
  "demo_grades fs = \<lparr>gr_up = demo_upload (demo_api\<lparr>as_world := demo_world\<lparr>w_tasks := [demo_row], w_faults := fs\<rparr>\<rparr>) [] [], gr_frames = [], gr_next = 1,
     gr_stats = [''n1'' \<mapsto> Map.empty], gr_exposure = (\<lambda>i. Fin 0), gr_scale = (\<lambda>c. None), gr_inbox = [], gr_developer = [], gr_catalog = []\<rparr>"

definition demo_data :: jmap where
  "demo_data = [''idempotency_key'' \<mapsto> JString ''k1'', ''telescope_id'' \<mapsto> JString ''n1'', ''sp_exptime'' \<mapsto> JNumber (Fin 30),
     ''dimensions'' \<mapsto> JObject [''image_quality'' \<mapsto> JObject [''score'' \<mapsto> JNumber (Fin (3 / 4))]]]"

definition token_header :: "string \<Rightarrow> string" where
  "token_header h = (if h = ''Grades-Ingest-Token'' then ''t'' else [])"

lemma demo_token: "gradesIngestTokenValid ''t'' token_header"
  by (simp add: gradesIngestTokenValid_def token_header_def)

lemmas demo_grade_defs = demo_env_def demo_grades_def demo_data_def handleGradesIngest_def demo_token ingestGradePayload_def ingest_frame_def
  gr_read_def gr_exec_def on_api_state_def api_outcome_def next_outcome_def demo_upload_def demo_world_def
  stringFromAny_def sql_find_def ingest_task_def intFromAnyOK_def validateGradeIngestObjectKeys_def collectGradeObjectKeys_def
  stringField_def object_at_def isObjectStoreKey_def TrimSpace_def add_exposure_def insert_frame_def frame_fits_def
  null_string_def intFromAny_def after_insert_def applyTaskBudgetDebit_def createInboxDeliveryFromGrade_def
  createDeveloperDeliveryFromGrade_def announce_grade_def upsertFrameCatalogFromGrade_def catalog_key_def first_text_def

lemma demo_accepted:
  "\<exists>i pts b m. fst (handleGradesIngest demo_env ''t'' token_header (Some demo_data) (demo_grades [])) = GradeIngested i pts b m"
  by (simp add: demo_grade_defs Let_def)


text \<open>A row that the table refuses has already counted its exposure, at every attempt.\<close>

definition demo_wide :: jmap where
  "demo_wide = demo_data(''task_id'' \<mapsto> JNumber (Fin 1), ''grader_version'' \<mapsto> JString (replicate 33 (CHR ''v'')))"

lemma refused_row_counts_exposure:
  "let out = handleGradesIngest demo_env ''t'' token_header (Some demo_wide) (demo_grades [])
   in reply_code (fst out) = 500 \<and> gr_frames (snd out) = [] \<and> gr_exposure (snd out) 1 = fadd (Fin 0) (fmax0 (Fin 30))"
  by (simp add: demo_grade_defs demo_wide_def Let_def reply_code_def resolveOAExptime_def floatFromAny_def task_by_id_def api_read_def int64_ok_def trunc_rat_def)

text \<open>When the debit fails after the row is written, the answer is an error, the retry is a duplicate, and the
  reputation never sees the frame.\<close>

lemma demo_eligible: "IsStackEligible (object_at demo_data ''dimensions'')"
proof -
  have "fle (fround (3 / 10)) (Fin (3 / 4))"
    using fround_mono [of "3 / 10" "3 / 4"] fround_exact [of 3 "- 2"] by (simp add: two_pow_def)
  then show ?thesis
    by (simp add: IsStackEligible_def StackEligibleMinQuality_def dec_def demo_data_def object_at_def DimScore_def unit_clamp_def clamp_def)
qed

lemma failed_debit_loses_reputation:
  "let go = handleGradesIngest demo_env ''t'' token_header (Some (demo_data(''task_id'' \<mapsto> JNumber (Fin 1))));
       first = go (demo_grades [Done, Done, Done, Done, Done, Done, Failed]); again = go (snd first)
   in reply_code (fst first) = 500 \<and> reply_code (fst again) = 409 \<and> gr_stats (snd again) = [''n1'' \<mapsto> Map.empty]"
  using demo_eligible
  by (simp add: demo_grade_defs Let_def reply_code_def resolveOAExptime_def floatFromAny_def task_by_id_def api_read_def int64_ok_def trunc_rat_def fle_def)

end
