(* ===== verification/RateLimit.thy ===== *)
theory RateLimit
  imports TaskApi
begin

text \<open>
  The rate limits of the authentication endpoints (\<open>cmd/apiserver/auth_rate_limit.go\<close> and the three
  limited handlers of \<open>auth_proxy.go\<close>).  The interface \<open>rateLimitBackend\<close> is a record of functions with two
  implementations, in memory and on Redis; the locale \<open>window_backend\<close> states what the limiter needs of
  one, and both are interpretations of it.  The identity service is a status per call.
\<close>

section \<open>The client\<close>

record http_client =
  hc_forwarded_for :: string
  hc_real_ip :: string
  hc_remote :: string

definition clientIP :: "http_client \<Rightarrow> string" where
  "clientIP c =
     (if hc_forwarded_for c \<noteq> [] then TrimSpace (takeWhile (\<lambda>x. x \<noteq> CHR '','') (hc_forwarded_for c))
      else if hc_real_ip c \<noteq> [] then TrimSpace (hc_real_ip c)
      else if CHR '':'' \<in> set (hc_remote c) then rev (tl (dropWhile (\<lambda>x. x \<noteq> CHR '':'') (rev (hc_remote c))))
      else hc_remote c)"

definition normalizeAuthUsername :: "string \<Rightarrow> string" where
  "normalizeAuthUsername u = ToLower (TrimSpace u)"

fun join_colon :: "string list \<Rightarrow> string" where
  "join_colon [] = []"
| "join_colon [p] = p"
| "join_colon (p # q # ps) = p @ '':'' @ join_colon (q # ps)"

definition authRateLimitKey :: "string list \<Rightarrow> string" where
  "authRateLimitKey parts = ''oa:ratelimit:auth:'' @ join_colon parts"

section \<open>The backends\<close>

text \<open>A failing access is \<open>None\<close>; otherwise the count of the open window and the time it has left.\<close>

record 's rateLimitBackend =
  rb_count :: "string \<Rightarrow> gotime \<Rightarrow> 's \<Rightarrow> (nat \<times> duration) option \<times> 's"
  rb_increment :: "string \<Rightarrow> duration \<Rightarrow> gotime \<Rightarrow> 's \<Rightarrow> (nat \<times> duration) option \<times> 's"

text \<open>In memory: a bucket has a count and an expiry, which is zero in a fresh bucket.\<close>

type_synonym memory_rates = "string \<rightharpoonup> nat \<times> gotime option"

definition mem_bucket :: "string \<Rightarrow> memory_rates \<Rightarrow> nat \<times> gotime option" where
  "mem_bucket key m = (case m key of None \<Rightarrow> (0, None) | Some b \<Rightarrow> b)"

definition mem_count :: "string \<Rightarrow> gotime \<Rightarrow> memory_rates \<Rightarrow> (nat \<times> duration) option \<times> memory_rates" where
  "mem_count key now m =
     (let b = mem_bucket key m; m = m(key \<mapsto> b) in
      case b of
        (n, None) \<Rightarrow> (Some (n, 0), m)
      | (n, Some e) \<Rightarrow> (if e < now then Some (0, 0) else Some (n, max 0 (e - now)), m))"

definition mem_increment ::
  "string \<Rightarrow> duration \<Rightarrow> gotime \<Rightarrow> memory_rates \<Rightarrow> (nat \<times> duration) option \<times> memory_rates" where
  "mem_increment key window now m =
     (let (n, x) = mem_bucket key m;
          (n, e) = (case x of None \<Rightarrow> (0, now + window) | Some e \<Rightarrow> if e < now then (0, now + window) else (n, e))
      in (Some (n + 1, max 0 (e - now)), m(key \<mapsto> (n + 1, Some e))))"

definition memoryRateBackend :: "memory_rates rateLimitBackend" where
  "memoryRateBackend = \<lparr>rb_count = mem_count, rb_increment = mem_increment\<rparr>"

text \<open>On Redis: a key has its count and its expiry, if it has one, and lives until then; \<open>secs\<close> is how Redis
  reports the time left, and each command has an outcome.\<close>

record redis_rates =
  rr_keys :: "string \<rightharpoonup> nat \<times> gotime option"
  rr_faults :: "outcome list"

definition rr_outcome :: "redis_rates \<Rightarrow> outcome \<times> redis_rates" where
  "rr_outcome r = (case rr_faults r of [] \<Rightarrow> (Done, r) | f # fs \<Rightarrow> (f, r\<lparr>rr_faults := fs\<rparr>))"

definition rr_live :: "gotime \<Rightarrow> string \<Rightarrow> redis_rates \<Rightarrow> (nat \<times> gotime option) option" where
  "rr_live now key r =
     (case rr_keys r key of
        Some (n, Some e) \<Rightarrow> if e < now then None else Some (n, Some e)
      | x \<Rightarrow> x)"

definition rr_ttl :: "(duration \<Rightarrow> duration) \<Rightarrow> gotime \<Rightarrow> string \<Rightarrow> redis_rates \<Rightarrow> duration option \<times> redis_rates" where
  "rr_ttl secs now key r =
     (case rr_outcome r of (oc, r) \<Rightarrow>
        (if oc \<noteq> Done then None
         else Some (case rr_live now key r of None \<Rightarrow> - 2 | Some (n, None) \<Rightarrow> - 1 | Some (n, Some e) \<Rightarrow> secs (e - now)), r))"

definition redis_count ::
  "(duration \<Rightarrow> duration) \<Rightarrow> string \<Rightarrow> gotime \<Rightarrow> redis_rates \<Rightarrow> (nat \<times> duration) option \<times> redis_rates" where
  "redis_count secs key now r =
     (case rr_outcome r of (oc, r) \<Rightarrow>
        if oc \<noteq> Done then (None, r)
        else (case rr_live now key r of
            None \<Rightarrow> (Some (0, 0), r)
          | Some (n, x) \<Rightarrow> (case rr_ttl secs now key r of (t, r) \<Rightarrow> (map_option (Pair n) t, r))))"

definition rr_incr :: "gotime \<Rightarrow> string \<Rightarrow> redis_rates \<Rightarrow> nat \<times> redis_rates" where
  "rr_incr now key r =
     (let v = (case rr_live now key r of None \<Rightarrow> (1, None) | Some (n, x) \<Rightarrow> (n + 1, x))
      in (fst v, r\<lparr>rr_keys := (rr_keys r)(key \<mapsto> v)\<rparr>))"

definition rr_expire :: "gotime \<Rightarrow> string \<Rightarrow> duration \<Rightarrow> redis_rates \<Rightarrow> redis_rates" where
  "rr_expire now key window r =
     (case rr_outcome r of (oc, r) \<Rightarrow>
        if oc = Failed then r
        else (case rr_live now key r of None \<Rightarrow> r
            | Some (n, x) \<Rightarrow> r\<lparr>rr_keys := (rr_keys r)(key \<mapsto> (n, Some (now + window)))\<rparr>))"

definition redis_increment ::
  "(duration \<Rightarrow> duration) \<Rightarrow> string \<Rightarrow> duration \<Rightarrow> gotime \<Rightarrow> redis_rates \<Rightarrow> (nat \<times> duration) option \<times> redis_rates" where
  "redis_increment secs key window now r =
     (case rr_outcome r of (oc, r) \<Rightarrow>
        if oc = Failed then (None, r)
        else (case rr_incr now key r of (n, r) \<Rightarrow>
            if oc = Lost then (None, r)
            else (let r = (if n = 1 then rr_expire now key window r else r)
                  in case rr_ttl secs now key r of (t, r) \<Rightarrow> (map_option (Pair n) t, r))))"

definition redisRateBackend :: "(duration \<Rightarrow> duration) \<Rightarrow> redis_rates rateLimitBackend" where
  "redisRateBackend secs = \<lparr>rb_count = redis_count secs, rb_increment = redis_increment secs\<rparr>"

section \<open>The limiter\<close>

definition clampRetryAfter :: "duration \<Rightarrow> duration" where
  "clampRetryAfter d = (if d < second then second else d)"

definition isLimited :: "'s rateLimitBackend \<Rightarrow> string \<Rightarrow> nat \<Rightarrow> gotime \<Rightarrow> 's \<Rightarrow> duration option \<times> 's" where
  "isLimited B key limit now s =
     (case rb_count B key now s of
        (None, s) \<Rightarrow> (None, s)
      | (Some (n, ttl), s) \<Rightarrow> (if limit \<le> n then Some (clampRetryAfter ttl) else None, s))"

definition recordHit ::
  "'s rateLimitBackend \<Rightarrow> string \<Rightarrow> nat \<Rightarrow> duration \<Rightarrow> gotime \<Rightarrow> 's \<Rightarrow> duration option \<times> 's" where
  "recordHit B key limit window now s =
     (case rb_increment B key window now s of
        (None, s) \<Rightarrow> (None, s)
      | (Some (n, ttl), s) \<Rightarrow> (if limit < n then Some (clampRetryAfter ttl) else None, s))"

text \<open>The answer names the seconds to wait.\<close>

datatype auth_reply = BadAuthBody | RateLimited int | Forwarded int

definition writeRateLimited :: "duration \<Rightarrow> auth_reply" where
  "writeRateLimited d = RateLimited (let secs = d div second in if secs < 1 then 1 else secs)"

section \<open>The endpoints\<close>

definition minute :: duration where
  "minute = 60 * second"

definition authLoginFailLimit :: nat where "authLoginFailLimit = 10"
definition authLoginFailWindow :: duration where "authLoginFailWindow = 15 * minute"
definition authRegisterLimit :: nat where "authRegisterLimit = 5"
definition authRegisterWindow :: duration where "authRegisterWindow = hour"
definition authRefreshLimit :: nat where "authRefreshLimit = 60"
definition authRefreshWindow :: duration where "authRefreshWindow = hour"

definition limited_proxy ::
  "'s rateLimitBackend \<Rightarrow> string \<Rightarrow> nat \<Rightarrow> duration \<Rightarrow> gotime \<Rightarrow> int \<Rightarrow> 's \<Rightarrow> auth_reply \<times> 's" where
  "limited_proxy B key limit window now status s =
     (case isLimited B key limit now s of
        (Some d, s) \<Rightarrow> (writeRateLimited d, s)
      | (None, s) \<Rightarrow>
          (case recordHit B key limit window now s of
             (Some d, s) \<Rightarrow> (writeRateLimited d, s)
           | (None, s) \<Rightarrow> (Forwarded status, s)))"

definition register_key :: "http_client \<Rightarrow> string" where
  "register_key c = authRateLimitKey [''register'', clientIP c]"

definition refresh_key :: "http_client \<Rightarrow> string" where
  "refresh_key c = authRateLimitKey [''refresh'', clientIP c]"

definition login_key :: "http_client \<Rightarrow> string \<Rightarrow> string" where
  "login_key c user = authRateLimitKey [''login'', clientIP c, normalizeAuthUsername user]"

definition handleAuthRegister :: "'s rateLimitBackend \<Rightarrow> http_client \<Rightarrow> gotime \<Rightarrow> int \<Rightarrow> 's \<Rightarrow> auth_reply \<times> 's" where
  "handleAuthRegister B c now status s =
     limited_proxy B (register_key c) authRegisterLimit authRegisterWindow now status s"

definition handleAuthRefresh :: "'s rateLimitBackend \<Rightarrow> http_client \<Rightarrow> gotime \<Rightarrow> int \<Rightarrow> 's \<Rightarrow> auth_reply \<times> 's" where
  "handleAuthRefresh B c now status s =
     limited_proxy B (refresh_key c) authRefreshLimit authRefreshWindow now status s"

text \<open>The user name of a body that is not JSON is empty; \<open>None\<close> is a body that cannot be read.\<close>

definition handleAuthLogin ::
  "'s rateLimitBackend \<Rightarrow> http_client \<Rightarrow> string option \<Rightarrow> gotime \<Rightarrow> int \<Rightarrow> 's \<Rightarrow> auth_reply \<times> 's" where
  "handleAuthLogin B c user now status s =
     (case user of
        None \<Rightarrow> (BadAuthBody, s)
      | Some u \<Rightarrow>
          (let key = login_key c u in
           case isLimited B key authLoginFailLimit now s of
             (Some d, s) \<Rightarrow> (writeRateLimited d, s)
           | (None, s) \<Rightarrow>
               (Forwarded status,
                if status = 401 then snd (recordHit B key authLoginFailLimit authLoginFailWindow now s) else s)))"

datatype auth_call = Register http_client | Login http_client "string option" | Refresh http_client

fun auth_serve :: "'s rateLimitBackend \<Rightarrow> auth_call \<Rightarrow> gotime \<Rightarrow> int \<Rightarrow> 's \<Rightarrow> auth_reply \<times> 's" where
  "auth_serve B (Register c) now status s = handleAuthRegister B c now status s"
| "auth_serve B (Login c user) now status s = handleAuthLogin B c user now status s"
| "auth_serve B (Refresh c) now status s = handleAuthRefresh B c now status s"

fun auth_run :: "'s rateLimitBackend \<Rightarrow> (auth_call \<times> gotime \<times> int) list \<Rightarrow> 's \<Rightarrow> auth_reply list" where
  "auth_run B [] s = []"
| "auth_run B ((c, now, status) # cs) s =
     (case auth_serve B c now status s of (r, s) \<Rightarrow> r # auth_run B cs s)"

section \<open>The contract: a counter of fixed windows\<close>

text \<open>A window has a count and an end, and is open until then.\<close>

type_synonym windows = "string \<Rightarrow> (nat \<times> gotime) option"

definition hits :: "windows \<Rightarrow> string \<Rightarrow> gotime \<Rightarrow> nat" where
  "hits w key now = (case w key of None \<Rightarrow> 0 | Some (n, e) \<Rightarrow> if e < now then 0 else n)"

definition hit :: "string \<Rightarrow> duration \<Rightarrow> gotime \<Rightarrow> windows \<Rightarrow> windows" where
  "hit key window now w =
     w(key := Some (case w key of
         None \<Rightarrow> (1, now + window)
       | Some (n, e) \<Rightarrow> if e < now then (1, now + window) else (n + 1, e)))"

datatype verdict = Unread | Refused | Passed int

fun verdict_of :: "auth_reply \<Rightarrow> verdict" where
  "verdict_of BadAuthBody = Unread"
| "verdict_of (RateLimited d) = Refused"
| "verdict_of (Forwarded st) = Passed st"

definition spec_guard :: "string \<Rightarrow> nat \<Rightarrow> duration \<Rightarrow> gotime \<Rightarrow> int \<Rightarrow> windows \<Rightarrow> verdict \<times> windows" where
  "spec_guard key limit window now status w =
     (if limit \<le> hits w key now then (Refused, w) else (Passed status, hit key window now w))"

fun spec_serve :: "auth_call \<Rightarrow> gotime \<Rightarrow> int \<Rightarrow> windows \<Rightarrow> verdict \<times> windows" where
  "spec_serve (Register c) now status w = spec_guard (register_key c) 5 hour now status w"
| "spec_serve (Refresh c) now status w = spec_guard (refresh_key c) 60 hour now status w"
| "spec_serve (Login c None) now status w = (Unread, w)"
| "spec_serve (Login c (Some u)) now status w =
     (if 10 \<le> hits w (login_key c u) now then (Refused, w)
      else (Passed status, if status = 401 then hit (login_key c u) (15 * minute) now w else w))"

fun spec_run :: "(auth_call \<times> gotime \<times> int) list \<Rightarrow> windows \<Rightarrow> verdict list" where
  "spec_run [] w = []"
| "spec_run ((c, now, status) # cs) w = (case spec_serve c now status w of (v, w) \<Rightarrow> v # spec_run cs w)"

text \<open>What the limiter needs of a backend: it counts the hits of the windows it stands for.\<close>

locale window_backend =
  fixes B :: "'s rateLimitBackend" and view :: "'s \<Rightarrow> windows" and ok :: "'s \<Rightarrow> bool"
  assumes counts: "ok s \<Longrightarrow> \<exists>ttl s'. rb_count B key now s = (Some (hits (view s) key now, ttl), s') \<and> ok s' \<and> view s' = view s"
    and increments: "ok s \<Longrightarrow> \<exists>ttl s'. rb_increment B key window now s = (Some (Suc (hits (view s) key now), ttl), s') \<and>
      ok s' \<and> view s' = hit key window now (view s)"
begin

lemma limited:
  assumes "ok s"
  shows "\<exists>s' d. isLimited B key limit now s = (if limit \<le> hits (view s) key now then Some d else None, s') \<and> ok s' \<and> view s' = view s"
  using counts [OF assms, of key now] by (auto simp: isLimited_def)

lemma records:
  assumes "ok s"
  shows "\<exists>s' d. recordHit B key limit window now s = (if limit \<le> hits (view s) key now then Some d else None, s') \<and>
    ok s' \<and> view s' = hit key window now (view s)"
  using increments [OF assms, of key window now] by (auto simp: recordHit_def less_Suc_eq_le)

lemma guards:
  assumes "ok s"
  shows "\<exists>r s'. limited_proxy B key limit window now status s = (r, s') \<and> ok s' \<and>
    (verdict_of r, view s') = spec_guard key limit window now status (view s)"
proof -
  obtain s1 d where l: "isLimited B key limit now s = (if limit \<le> hits (view s) key now then Some d else None, s1)"
    "ok s1" "view s1 = view s" using limited [OF assms] by blast
  obtain s2 d' where r: "recordHit B key limit window now s1 = (if limit \<le> hits (view s) key now then Some d' else None, s2)"
    "ok s2" "view s2 = hit key window now (view s)" using records [OF l(2), of key limit window now] l(3) by auto
  show ?thesis using l r by (auto simp: limited_proxy_def spec_guard_def writeRateLimited_def)
qed

lemma serves:
  assumes "ok s"
  shows "\<exists>r s'. auth_serve B c now status s = (r, s') \<and> ok s' \<and> (verdict_of r, view s') = spec_serve c now status (view s)"
proof (cases c)
  case (Login cl user)
  show ?thesis
  proof (cases user)
    case (Some u)
    let ?k = "login_key cl u"
    obtain s1 d where l: "isLimited B ?k 10 now s = (if 10 \<le> hits (view s) ?k now then Some d else None, s1)"
      "ok s1" "view s1 = view s" using limited [OF assms] by blast
    obtain s2 x where r: "recordHit B ?k 10 (15 * minute) now s1 = (x, s2)" "ok s2" "view s2 = hit ?k (15 * minute) now (view s)"
      using records [OF l(2), of ?k 10 "15 * minute" now] l(3) by auto
    show ?thesis using Login Some l r
      by (auto simp: handleAuthLogin_def authLoginFailLimit_def authLoginFailWindow_def writeRateLimited_def)
  qed (use Login assms in \<open>auto simp: handleAuthLogin_def\<close>)
qed (use guards [OF assms] in \<open>auto simp: handleAuthRegister_def handleAuthRefresh_def authRegisterLimit_def authRegisterWindow_def
    authRefreshLimit_def authRefreshWindow_def\<close>)

lemma runs: "ok s \<Longrightarrow> map verdict_of (auth_run B cs s) = spec_run cs (view s)"
proof (induction cs arbitrary: s)
  case (Cons call cs)
  obtain c now status where call: "call = (c, now, status)" by (cases call)
  obtain r s' where s': "auth_serve B c now status s = (r, s')" "ok s'" "(verdict_of r, view s') = spec_serve c now status (view s)"
    using serves [OF Cons.prems] by blast
  from Cons.IH [OF s'(2)] s' call show ?case by (simp flip: s'(3))
qed simp

end

section \<open>Both backends keep it\<close>

definition mem_view :: "memory_rates \<Rightarrow> windows" where
  "mem_view m k = (case m k of Some (n, Some e) \<Rightarrow> Some (n, e) | _ \<Rightarrow> None)"

definition mem_ok :: "memory_rates \<Rightarrow> bool" where
  "mem_ok m \<longleftrightarrow> (\<forall>k n. m k = Some (n, None) \<longrightarrow> n = 0)"

interpretation memory: window_backend memoryRateBackend mem_view mem_ok
proof unfold_locales
  fix s :: memory_rates and key now window
  assume ok: "mem_ok s"
  show "\<exists>ttl s'. rb_count memoryRateBackend key now s = (Some (hits (mem_view s) key now, ttl), s') \<and> mem_ok s' \<and> mem_view s' = mem_view s"
  proof (cases "s key")
    case None
    then show ?thesis using ok
      by (auto simp: memoryRateBackend_def mem_count_def mem_bucket_def hits_def mem_view_def mem_ok_def Let_def)
  next
    case (Some b)
    then have "s(key \<mapsto> b) = s" by auto
    with Some ok show ?thesis
      by (cases b) (auto simp: memoryRateBackend_def mem_count_def mem_bucket_def hits_def mem_view_def mem_ok_def Let_def
          split: option.split)
  qed
  show "\<exists>ttl s'. rb_increment memoryRateBackend key window now s = (Some (Suc (hits (mem_view s) key now), ttl), s') \<and>
      mem_ok s' \<and> mem_view s' = hit key window now (mem_view s)"
    using ok by (auto simp: memoryRateBackend_def mem_increment_def mem_bucket_def hits_def hit_def mem_view_def mem_ok_def Let_def
        split: option.split)
qed

definition redis_view :: "redis_rates \<Rightarrow> windows" where
  "redis_view r k = (case rr_keys r k of Some (n, Some e) \<Rightarrow> Some (n, e) | _ \<Rightarrow> None)"

text \<open>Without faults every key has an expiry.\<close>

definition redis_ok :: "redis_rates \<Rightarrow> bool" where
  "redis_ok r \<longleftrightarrow> rr_faults r = [] \<and> (\<forall>k n x. rr_keys r k = Some (n, x) \<longrightarrow> 0 < n \<and> x \<noteq> None)"

lemma quiet_rates: "rr_faults r = [] \<Longrightarrow> rr_outcome r = (Done, r)"
  by (simp add: rr_outcome_def)

interpretation redis: window_backend "redisRateBackend secs" redis_view redis_ok for secs
proof unfold_locales
  fix s :: redis_rates and key now window
  assume ok: "redis_ok s"
  then have f: "rr_faults s = []" by (simp add: redis_ok_def)
  show "\<exists>ttl s'. rb_count (redisRateBackend secs) key now s = (Some (hits (redis_view s) key now, ttl), s') \<and> redis_ok s' \<and> redis_view s' = redis_view s"
    using ok f by (auto simp: redisRateBackend_def redis_count_def rr_ttl_def quiet_rates rr_live_def hits_def redis_view_def redis_ok_def
        split: option.split)
  show "\<exists>ttl s'. rb_increment (redisRateBackend secs) key window now s = (Some (Suc (hits (redis_view s) key now), ttl), s') \<and>
      redis_ok s' \<and> redis_view s' = hit key window now (redis_view s)"
    using ok f by (auto simp: redisRateBackend_def redis_increment_def rr_incr_def rr_expire_def rr_ttl_def quiet_rates rr_live_def
        hits_def hit_def redis_view_def redis_ok_def Let_def fun_eq_iff split: option.split)
qed

definition no_keys :: redis_rates where
  "no_keys = \<lparr>rr_keys = Map.empty, rr_faults = []\<rparr>"

lemma memory_run: "map verdict_of (auth_run memoryRateBackend calls Map.empty) = spec_run calls (\<lambda>k. None)"
proof -
  have "mem_ok Map.empty" "mem_view Map.empty = (\<lambda>k. None)" by (auto simp: mem_ok_def mem_view_def)
  with memory.runs show ?thesis by metis
qed

lemma redis_run: "map verdict_of (auth_run (redisRateBackend secs) calls no_keys) = spec_run calls (\<lambda>k. None)"
proof -
  have "redis_ok no_keys" "redis_view no_keys = (\<lambda>k. None)" by (auto simp: redis_ok_def redis_view_def no_keys_def)
  with redis.runs show ?thesis by metis
qed

text \<open>C28: From the start, and while Redis answers, the limiter decides every request the same in memory and on
  Redis, namely as a counter of fixed windows: at most 5 registrations and 60 refreshes of an address in
  the hour that the first of them opens, and no login of an address and user after 10 wrong passwords in a
  quarter of an hour.\<close>

theorem backends_agree:
  "map verdict_of (auth_run memoryRateBackend calls Map.empty) = spec_run calls (\<lambda>k. None) \<and>
   map verdict_of (auth_run (redisRateBackend secs) calls no_keys) = spec_run calls (\<lambda>k. None)"
  by (simp add: memory_run redis_run)

section \<open>Guessing passwords\<close>

text \<open>The wrong passwords of one address and user that reached the identity service.\<close>

fun wrong_login :: "string \<Rightarrow> (auth_call \<times> gotime \<times> int) \<times> verdict \<Rightarrow> bool" where
  "wrong_login key ((Login c (Some u), now, status), Passed st) = (login_key c u = key \<and> st = 401)"
| "wrong_login key _ = False"

lemma keys_apart:
  "register_key c \<noteq> login_key c' u" "refresh_key c \<noteq> login_key c' u"
  by (simp_all add: register_key_def refresh_key_def login_key_def authRateLimitKey_def)

lemma spec_passed: "fst (spec_serve c now status w) = Passed st \<Longrightarrow> st = status"
  by (cases "(c, now, status, w)" rule: spec_serve.cases) (auto simp: spec_guard_def split: if_splits)

lemma hit_other: "j \<noteq> key \<Longrightarrow> hit j window now w key = w key"
  by (simp add: hit_def)

text \<open>One call: the budget of the key shrinks by one exactly when a wrong password passes.\<close>

definition spent :: "string \<Rightarrow> gotime \<Rightarrow> windows \<Rightarrow> nat \<Rightarrow> bool" where
  "spent key until w m \<longleftrightarrow> (case w key of None \<Rightarrow> m = 0 | Some (n, e) \<Rightarrow> n = m \<and> until \<le> e)"

lemma spent_step:
  assumes "spent key until w m" and key: "key = login_key c0 u0" and "t0 \<le> now" "now \<le> until" "until \<le> t0 + 15 * minute"
  shows "if wrong_login key ((c, now, status), fst (spec_serve c now status w))
    then m < 10 \<and> spent key until (snd (spec_serve c now status w)) (Suc m)
    else spent key until (snd (spec_serve c now status w)) m"
proof -
  have h: "hits w key now = m" using assms by (auto simp: spent_def hits_def split: option.splits)
  have k: "spent key until (hit key (15 * minute) now w) (Suc m)"
    using assms by (auto simp: spent_def hit_def split: option.splits)
  have o: "spent key until (hit j x now w) m" if "j \<noteq> key" for j x using assms(1) hit_other [OF that] by (simp add: spent_def)
  show ?thesis
  proof (cases c)
    case (Register cl)
    with assms(1) o [OF keys_apart(1) [of cl c0 u0, folded key]] show ?thesis by (simp add: spec_guard_def)
  next
    case (Refresh cl)
    with assms(1) o [OF keys_apart(2) [of cl c0 u0, folded key]] show ?thesis by (simp add: spec_guard_def)
  next
    case (Login cl user)
    show ?thesis
    proof (cases user)
      case (Some u)
      show ?thesis
      proof (cases "login_key cl u = key")
        case True
        with Login Some h k assms(1) show ?thesis by auto
      next
        case False
        with Login Some o assms(1) show ?thesis by auto
      qed
    qed (use Login assms(1) in simp)
  qed
qed

lemma spent_run:
  assumes "spent key until w m" "m \<le> 10" and key: "key = login_key c0 u0"
    and "\<And>c now st. (c, now, st) \<in> set cs \<Longrightarrow> t0 \<le> now \<and> now \<le> until" and "until \<le> t0 + 15 * minute"
  shows "m + length (filter (wrong_login key) (zip cs (spec_run cs w))) \<le> 10"
  using assms
proof (induction cs arbitrary: w m)
  case (Cons call cs)
  obtain c now status where call: "call = (c, now, status)" by (cases call)
  obtain v w' where s: "spec_serve c now status w = (v, w')" by force
  from Cons.prems(4) call have "t0 \<le> now" "now \<le> until" by auto
  note st = spent_step [OF Cons.prems(1) key this Cons.prems(5), of c status, unfolded s fst_conv snd_conv]
  have rest: "\<And>c now st. (c, now, st) \<in> set cs \<Longrightarrow> t0 \<le> now \<and> now \<le> until" using Cons.prems(4) by auto
  show ?case
  proof (cases "wrong_login key ((c, now, status), v)")
    case True
    have "spent key until w' (Suc m)" "Suc m \<le> 10" using st True by (simp_all only: if_True Suc_le_eq)
    from Cons.IH [OF this key rest Cons.prems(5)] True show ?thesis using call s by simp
  next
    case False
    have "spent key until w' m" using st False by (simp only: if_False)
    from Cons.IH [OF this Cons.prems(2) key rest Cons.prems(5)] False show ?thesis using call s by simp
  qed
qed simp


section \<open>What modelling showed\<close>

text \<open>A failing count lets the request pass, and an expiry that Redis did not take leaves a key that counts
  for ever: no later moment is free again.\<close>

lemma limiter_fails_open:
  assumes "rr_faults r = Failed # fs" shows "fst (isLimited (redisRateBackend secs) key limit now r) = None"
  using assms by (simp add: isLimited_def redisRateBackend_def redis_count_def rr_outcome_def)

lemma lost_expiry_counts:
  assumes "rr_keys r key = None" "rr_faults r = [Done, Failed]"
  shows "rr_keys (snd (recordHit (redisRateBackend secs) key limit window now r)) key = Some (1, None)"
  using assms by (simp add: recordHit_def redisRateBackend_def redis_increment_def rr_outcome_def rr_incr_def rr_live_def rr_expire_def
      rr_ttl_def Let_def split: prod.split)

lemma lost_expiry_limits_for_ever:
  assumes "rr_keys r key = Some (n, None)" "limit \<le> n" "rr_faults r = []"
  shows "fst (isLimited (redisRateBackend secs) key limit now r) = Some second"
  using assms by (simp add: isLimited_def redisRateBackend_def redis_count_def rr_ttl_def quiet_rates rr_live_def clampRetryAfter_def)

section \<open>A run\<close>

definition demo_client :: http_client where
  "demo_client = \<lparr>hc_forwarded_for = [], hc_real_ip = [], hc_remote = ''10.0.0.7:5123''\<rparr>"

definition demo_guesses :: "(auth_call \<times> gotime \<times> int) list" where
  "demo_guesses = map (\<lambda>i. (Login demo_client (Some ''eve''), int i, 401)) [0..<13]"

lemma guess_verdicts: "spec_run demo_guesses (\<lambda>k. None) = replicate 10 (Passed 401) @ [Refused, Refused, Refused]"
  by (simp add: demo_guesses_def upt_rec hits_def hit_def minute_def eval_nat_numeral)


end
