(* ===== verification/BoardWatch.thy ===== *)
theory BoardWatch
  imports Collector
begin

text \<open>
  The pier's live view of the campaign boards (\<open>internal/pieragent/boardwatch.go\<close>): recent messages per
  campaign, the messages not yet given to researcher code, the retained metadata and the advisory
  presence of every pier.  The decoders of the three payloads are arguments.  A Go map that is only
  read by key is a function; the metadata map, which is also ranged over, is a list of entries.
\<close>

section \<open>Messages\<close>

record board_note =
  bn_TaskID :: string
  bn_CampaignID :: string
  bn_NodeID :: string
  bn_MessageID :: string
  bn_Message :: string
  bn_EventType :: string
  bn_Payload :: string
  bn_SentAt :: gotime

definition SameBoardMessage :: "board_note \<Rightarrow> board_note \<Rightarrow> bool" where
  "SameBoardMessage a b =
     (if bn_MessageID a \<noteq> [] \<or> bn_MessageID b \<noteq> []
      then bn_MessageID a \<noteq> [] \<and> bn_MessageID a = bn_MessageID b
      else bn_NodeID a = bn_NodeID b \<and> bn_SentAt a = bn_SentAt b \<and> bn_Message a = bn_Message b
        \<and> bn_EventType a = bn_EventType b \<and> bn_Payload a = bn_Payload b)"

record pier_summary =
  ps_NodeID :: string
  ps_Online :: bool
  ps_SiteLat :: "f64 option"
  ps_SiteLon :: "f64 option"

record board_watch =
  bw_notes :: "string \<Rightarrow> board_note list"
  bw_pending :: "string \<Rightarrow> board_note list"
  bw_metadata :: "(string \<times> node_metadata) list"
  bw_presence :: "string \<Rightarrow> bool"

definition newBoardWatch :: board_watch where
  "newBoardWatch = \<lparr>bw_notes = \<lambda>_. [], bw_pending = \<lambda>_. [], bw_metadata = [], bw_presence = \<lambda>_. False\<rparr>"

definition maxBoardMessagesPerCampaign :: nat where
  "maxBoardMessagesPerCampaign = 512"

section \<open>Handlers\<close>

definition drop_author :: "string \<Rightarrow> board_note list \<Rightarrow> board_note list" where
  "drop_author nodeID = filter (\<lambda>n. bn_NodeID n \<noteq> nodeID)"

definition forget_author :: "string \<Rightarrow> string \<Rightarrow> board_watch \<Rightarrow> board_watch" where
  "forget_author campaignID nodeID bw =
     bw\<lparr>bw_notes := (bw_notes bw)(campaignID := drop_author nodeID (bw_notes bw campaignID)),
        bw_pending := (bw_pending bw)(campaignID := drop_author nodeID (bw_pending bw campaignID))\<rparr>"

definition last_messages :: "board_note list \<Rightarrow> board_note list" where
  "last_messages ns =
     (if length ns > maxBoardMessagesPerCampaign then drop (length ns - maxBoardMessagesPerCampaign) ns else ns)"

definition accept_note :: "string \<Rightarrow> board_note \<Rightarrow> board_watch \<Rightarrow> board_watch" where
  "accept_note campaignID note bw =
     (if list_ex (\<lambda>previous. SameBoardMessage previous note) (bw_notes bw campaignID) then bw
      else bw\<lparr>bw_notes := (bw_notes bw)(campaignID := last_messages (bw_notes bw campaignID @ [note])),
              bw_pending := (bw_pending bw)(campaignID := last_messages (bw_pending bw campaignID @ [note]))\<rparr>)"

definition onBoardMessage ::
  "(string \<Rightarrow> board_note option) \<Rightarrow> string \<Rightarrow> string \<Rightarrow> bool \<Rightarrow> board_watch \<Rightarrow> board_watch" where
  "onBoardMessage decode topic payload retained bw =
     (case Split (TrimPrefix topic (TopicPrefix TopicCampaignBoard)) (CHR ''/'') of
        [campaignID, nodeID] \<Rightarrow>
          if campaignID = [] \<or> nodeID = [] then bw
          else if payload = [] then forget_author campaignID nodeID bw
          else (case decode payload of
              None \<Rightarrow> bw
            | Some note \<Rightarrow>
                (let note = note\<lparr>bn_NodeID := nodeID\<rparr>;
                     bw = (if retained \<and> bn_MessageID note = [] then forget_author campaignID nodeID bw else bw)
                 in accept_note campaignID note bw))
      | _ \<Rightarrow> bw)"

definition onStatusMessage :: "(string \<Rightarrow> status_message option) \<Rightarrow> string \<Rightarrow> board_watch \<Rightarrow> board_watch" where
  "onStatusMessage decode payload bw =
     (case decode payload of
        None \<Rightarrow> bw
      | Some st \<Rightarrow>
          if sm_NodeID st = [] then bw
          else bw\<lparr>bw_presence := (bw_presence bw)(sm_NodeID st :=
                 sm_Status st = NodeStatusOnline \<or> sm_Status st = NodeStatusIdle \<or> sm_Status st = NodeStatusBusy)\<rparr>)"

definition onMetadataMessage :: "(string \<Rightarrow> node_metadata option) \<Rightarrow> string \<Rightarrow> board_watch \<Rightarrow> board_watch" where
  "onMetadataMessage decode payload bw =
     (case decode payload of
        None \<Rightarrow> bw
      | Some m \<Rightarrow>
          if nm_NodeID m = [] then bw
          else bw\<lparr>bw_metadata := (nm_NodeID m, m) # filter (\<lambda>e. fst e \<noteq> nm_NodeID m) (bw_metadata bw)\<rparr>)"

section \<open>What researcher code sees\<close>

definition note_less :: "board_note \<Rightarrow> board_note \<Rightarrow> bool" where
  "note_less a b =
     (if bn_SentAt a = bn_SentAt b then
        (if bn_NodeID a = bn_NodeID b then string_less (bn_MessageID a) (bn_MessageID b)
         else string_less (bn_NodeID a) (bn_NodeID b))
      else bn_SentAt a < bn_SentAt b)"

definition sortBoardMessages :: "board_note list \<Rightarrow> board_note list" where
  "sortBoardMessages ns = SliceStable note_less ns"

definition boardSnapshot :: "string \<Rightarrow> board_watch \<Rightarrow> board_note list" where
  "boardSnapshot campaignID bw =
     (if bw_notes bw campaignID = [] then [] else sortBoardMessages (bw_notes bw campaignID))"

definition drainBoardSnapshot :: "string \<Rightarrow> board_watch \<Rightarrow> board_note list \<times> board_watch" where
  "drainBoardSnapshot campaignID bw =
     (if bw_pending bw campaignID = [] then ([], bw)
      else (sortBoardMessages (bw_pending bw campaignID),
            bw\<lparr>bw_pending := (bw_pending bw)(campaignID := [])\<rparr>))"

text \<open>The piers of a campaign; \<open>range\<close> over the set \<open>seen\<close> in any order, then \<open>sort.Strings\<close>.\<close>

definition roster_ids :: "string \<Rightarrow> string \<Rightarrow> board_watch \<Rightarrow> string list" where
  "roster_ids campaignID selfNodeID bw =
     remdups ((if selfNodeID \<noteq> [] then [selfNodeID] else [])
       @ filter (\<lambda>i. i \<noteq> []) (map bn_NodeID (bw_notes bw campaignID))
       @ map fst (filter (\<lambda>e. campaignID \<in> set (nm_EnabledCampaignIDs (snd e))) (bw_metadata bw)))"

definition pier_summary_of :: "string \<Rightarrow> board_watch \<Rightarrow> string \<Rightarrow> pier_summary" where
  "pier_summary_of selfNodeID bw i =
     \<lparr>ps_NodeID = i, ps_Online = (if i = selfNodeID then True else bw_presence bw i),
      ps_SiteLat = Option.bind (map_of (bw_metadata bw) i) nm_SiteLat,
      ps_SiteLon = Option.bind (map_of (bw_metadata bw) i) nm_SiteLon\<rparr>"

definition pierRoster :: "string \<Rightarrow> string \<Rightarrow> board_watch \<Rightarrow> pier_summary list" where
  "pierRoster campaignID selfNodeID bw =
     map (pier_summary_of selfNodeID bw) (SliceStable string_less (roster_ids campaignID selfNodeID bw))"

section \<open>Invariant\<close>

text \<open>The events of a pier's life: board, status and metadata messages, and drains before a run.\<close>

datatype board_event = EvBoard string string bool | EvStatus string | EvMetadata string | EvDrain string

record board_codec =
  bd_note :: "string \<Rightarrow> board_note option"
  bd_status :: "string \<Rightarrow> status_message option"
  bd_metadata :: "string \<Rightarrow> node_metadata option"

fun board_step :: "board_codec \<Rightarrow> board_event \<Rightarrow> board_watch \<Rightarrow> board_watch" where
  "board_step D (EvBoard topic payload retained) bw = onBoardMessage (bd_note D) topic payload retained bw"
| "board_step D (EvStatus payload) bw = onStatusMessage (bd_status D) payload bw"
| "board_step D (EvMetadata payload) bw = onMetadataMessage (bd_metadata D) payload bw"
| "board_step D (EvDrain campaignID) bw = snd (drainBoardSnapshot campaignID bw)"

definition run_board :: "board_codec \<Rightarrow> board_event list \<Rightarrow> board_watch \<Rightarrow> board_watch" where
  "run_board D es bw = fold (board_step D) es bw"

text \<open>
  The pending messages are the newest of the recent ones, no two recent messages are the same, and
  every one carries the identity of its topic.
\<close>

definition campaign_ok :: "board_watch \<Rightarrow> string \<Rightarrow> bool" where
  "campaign_ok bw c \<longleftrightarrow>
     suffix (bw_pending bw c) (bw_notes bw c) \<and> length (bw_notes bw c) \<le> maxBoardMessagesPerCampaign \<and>
     sorted_wrt (\<lambda>a b. \<not> SameBoardMessage a b) (bw_notes bw c) \<and> list_all (\<lambda>n. bn_NodeID n \<noteq> []) (bw_notes bw c)"

definition board_ok :: "board_watch \<Rightarrow> bool" where
  "board_ok bw \<longleftrightarrow> (\<forall>c. campaign_ok bw c) \<and> distinct (map fst (bw_metadata bw))
     \<and> list_all (\<lambda>e. fst e \<noteq> [] \<and> nm_NodeID (snd e) = fst e) (bw_metadata bw)"

lemma suffix_filter: "suffix xs ys \<Longrightarrow> suffix (filter P xs) (filter P ys)"
  by (auto simp: suffix_def)

lemma last_messages_alt: "last_messages ns = drop (length ns - maxBoardMessagesPerCampaign) ns"
  by (simp add: last_messages_def)

lemma suffix_last_messages: "suffix xs ys \<Longrightarrow> suffix (last_messages xs) (last_messages ys)"
  unfolding last_messages_alt by (auto simp: suffix_def drop_append)

lemma last_messages_keeps:
  "length (last_messages ns) \<le> maxBoardMessagesPerCampaign"
  "sorted_wrt P ns \<Longrightarrow> sorted_wrt P (last_messages ns)" "set (last_messages ns) \<subseteq> set ns"
  by (simp_all add: last_messages_alt sorted_wrt_drop set_drop_subset)

lemma campaign_ok_forget: "campaign_ok bw c \<Longrightarrow> campaign_ok (forget_author k n bw) c"
  using le_trans [OF length_filter_le]
  by (auto simp: campaign_ok_def forget_author_def drop_author_def suffix_filter sorted_wrt_filter list_all_iff)

lemma campaign_ok_accept:
  assumes "campaign_ok bw c" "bn_NodeID note \<noteq> []"
  shows "campaign_ok (accept_note k note bw) c"
proof (cases "list_ex (\<lambda>previous. SameBoardMessage previous note) (bw_notes bw k) \<or> c \<noteq> k")
  case True
  with assms(1) show ?thesis by (auto simp: accept_note_def campaign_ok_def)
next
  case False
  then have "sorted_wrt (\<lambda>a b. \<not> SameBoardMessage a b) (bw_notes bw c @ [note])"
    using assms(1) by (auto simp: campaign_ok_def sorted_wrt_append list_ex_iff)
  moreover have "suffix (bw_pending bw c @ [note]) (bw_notes bw c @ [note])"
    using assms(1) by (auto simp: campaign_ok_def suffix_def)
  moreover have "list_all (\<lambda>n. bn_NodeID n \<noteq> []) (last_messages (bw_notes bw c @ [note]))"
    using assms last_messages_keeps(3) [of "bw_notes bw c @ [note]"]
    by (auto simp: campaign_ok_def list_all_iff)
  ultimately show ?thesis using False assms
    by (simp add: accept_note_def campaign_ok_def suffix_last_messages last_messages_keeps)
qed

lemma meta_forget [simp]: "bw_metadata (forget_author k n bw) = bw_metadata bw"
  by (simp add: forget_author_def)

lemma meta_accept [simp]: "bw_metadata (accept_note k n bw) = bw_metadata bw"
  by (simp add: accept_note_def)

lemma board_ok_forget: "board_ok bw \<Longrightarrow> board_ok (forget_author k n bw)"
  by (simp add: board_ok_def campaign_ok_forget)

lemma board_ok_accept: "board_ok bw \<Longrightarrow> bn_NodeID note \<noteq> [] \<Longrightarrow> board_ok (accept_note k note bw)"
  by (simp add: board_ok_def campaign_ok_accept)

lemma board_ok_message: "board_ok bw \<Longrightarrow> board_ok (onBoardMessage decode topic payload retained bw)"
  unfolding onBoardMessage_def Let_def
  by (auto intro!: board_ok_forget board_ok_accept split: list.splits option.splits)

lemma board_ok_event: "board_ok bw \<Longrightarrow> board_ok (board_step D e bw)"
proof (induction D e bw rule: board_step.induct)
  case (2 D payload bw)
  then show ?case by (auto simp: onStatusMessage_def board_ok_def campaign_ok_def split: option.split)
next
  case (3 D payload bw)
  then show ?case
    by (auto simp: onMetadataMessage_def board_ok_def campaign_ok_def list_all_iff
        distinct_map_filter split: option.split)
next
  case (4 D c bw)
  then show ?case by (auto simp: drainBoardSnapshot_def board_ok_def campaign_ok_def)
qed (simp add: board_ok_message)

lemma board_ok_run: "board_ok bw \<Longrightarrow> board_ok (run_board D es bw)"
  unfolding run_board_def by (induction es arbitrary: bw) (simp_all add: board_ok_event)

lemma board_ok_new: "board_ok newBoardWatch"
  by (simp add: board_ok_def campaign_ok_def newBoardWatch_def)

section \<open>Order\<close>

lemma strict_weak_vimage: "strict_weak lt \<Longrightarrow> strict_weak (\<lambda>x y. lt (f x) (f y))"
  unfolding strict_weak_def by blast

lemma strict_weak_lex:
  assumes "strict_weak lt" "\<And>a b. \<not> lt a b \<Longrightarrow> \<not> lt b a \<Longrightarrow> a = b" "strict_weak lt'"
  shows "strict_weak (\<lambda>x y. if f x = f y then lt' x y else lt (f x) (f y))"
proof -
  have irr: "\<not> lt a a" and tr: "lt a b \<Longrightarrow> lt b c \<Longrightarrow> lt a c" and co: "lt a c \<Longrightarrow> lt a b \<or> lt b c" for a b c
    using assms(1) unfolding strict_weak_def by blast+
  have irr': "\<not> lt' x x" and tr': "lt' x y \<Longrightarrow> lt' y z \<Longrightarrow> lt' x z" and co': "lt' x z \<Longrightarrow> lt' x y \<or> lt' y z" for x y z
    using assms(3) unfolding strict_weak_def by blast+
  show ?thesis unfolding strict_weak_def
  proof (intro conjI allI impI)
    fix x y z
    assume a: "if f x = f y then lt' x y else lt (f x) (f y)" "if f y = f z then lt' y z else lt (f y) (f z)"
    show "if f x = f z then lt' x z else lt (f x) (f z)"
      using a irr tr tr' by (metis (full_types))
  next
    fix x y z assume a: "if f x = f z then lt' x z else lt (f x) (f z)"
    show "(if f x = f y then lt' x y else lt (f x) (f y)) \<or> (if f y = f z then lt' y z else lt (f y) (f z))"
    proof (cases "f x = f y \<or> f y = f z")
      case True
      then show ?thesis using a co' by (auto split: if_splits)
    next
      case False
      then show ?thesis using a co assms(2) by (metis (full_types))
    qed
  qed (simp add: irr')
qed

lemma strict_weak_note_less: "strict_weak note_less"
proof -
  have "strict_weak (\<lambda>x y. if bn_NodeID x = bn_NodeID y then string_less (bn_MessageID x) (bn_MessageID y)
      else string_less (bn_NodeID x) (bn_NodeID y))"
    by (rule strict_weak_lex [OF strict_weak_string_less _ strict_weak_vimage [OF strict_weak_string_less]])
      (rule string_less_total)
  from strict_weak_lex [OF _ _ this, of "(<)" bn_SentAt] have "strict_weak (\<lambda>x y. if bn_SentAt x = bn_SentAt y then
      (if bn_NodeID x = bn_NodeID y then string_less (bn_MessageID x) (bn_MessageID y)
       else string_less (bn_NodeID x) (bn_NodeID y)) else bn_SentAt x < bn_SentAt y)"
    using strict_weak_key [of "\<lambda>x. x :: gotime"] by fastforce
  then show ?thesis by (simp add: note_less_def [abs_def])
qed

lemma sortBoardMessages_props:
  "mset (sortBoardMessages ns) = mset ns" "sorted (map bn_SentAt (sortBoardMessages ns))"
proof -
  show "mset (sortBoardMessages ns) = mset ns" by (simp add: sortBoardMessages_def mset_SliceStable)
  have "sorted_wrt (\<lambda>a b. \<not> note_less b a) (sortBoardMessages ns)"
    unfolding sortBoardMessages_def by (rule SliceStable_ordered [OF strict_weak_note_less])
  then show "sorted (map bn_SentAt (sortBoardMessages ns))"
    unfolding sorted_map by (rule sorted_wrt_mono_rel [rotated]) (auto simp: note_less_def split: if_splits)
qed

section \<open>Properties\<close>


definition demo_note :: board_note where
  "demo_note = \<lparr>bn_TaskID = [], bn_CampaignID = ''c1'', bn_NodeID = ''liar'', bn_MessageID = ''m1'',
     bn_Message = ''hello'', bn_EventType = ''note'', bn_Payload = [], bn_SentAt = 5\<rparr>"

definition demo_board_codec :: board_codec where
  "demo_board_codec = \<lparr>bd_note = \<lambda>s. Some demo_note, bd_status = \<lambda>s. None, bd_metadata = \<lambda>s. None\<rparr>"

definition demo_board :: board_watch where
  "demo_board = run_board demo_board_codec [EvBoard ''/board/campaign/c1/n7'' ''x'' False,
     EvBoard ''/board/campaign/c1/n7'' ''x'' True] newBoardWatch"

lemma demo_board_notes:
  "bw_notes demo_board ''c1'' = [demo_note\<lparr>bn_NodeID := ''n7''\<rparr>]"
  "drainBoardSnapshot ''c1'' demo_board =
     ([demo_note\<lparr>bn_NodeID := ''n7''\<rparr>], demo_board\<lparr>bw_pending := (bw_pending demo_board)(''c1'' := [])\<rparr>)"
  by (simp_all add: demo_board_def run_board_def onBoardMessage_def TrimPrefix_def HasPrefix_def
      demo_board_codec_def demo_note_def accept_note_def newBoardWatch_def last_messages_def
      maxBoardMessagesPerCampaign_def drainBoardSnapshot_def sortBoardMessages_def SliceStable_def
      SameBoardMessage_def Let_def)


lemma sorted_string_strict:
  "sorted_wrt (\<lambda>x y. \<not> string_less y x) xs \<Longrightarrow> distinct xs \<Longrightarrow> sorted_wrt string_less xs"
proof (induction xs)
  case (Cons x xs)
  then have "string_less x y" if "y \<in> set xs" for y
    using that string_less_total [of x y] by auto
  with Cons show ?case by simp
qed simp

text \<open>The roster of a campaign lists, once each and in order of the ids, the pier itself, every author
  of a recent message and every pier whose metadata enables the campaign; the pier itself is
  always online.\<close>

theorem roster_exact:
  assumes "bw = run_board D es newBoardWatch" "self \<noteq> []"
  shows "sorted_wrt string_less (map ps_NodeID (pierRoster c self bw)) \<and>
    set (map ps_NodeID (pierRoster c self bw)) =
      {self} \<union> bn_NodeID ` set (bw_notes bw c) \<union>
      nm_NodeID ` snd ` {e \<in> set (bw_metadata bw). c \<in> set (nm_EnabledCampaignIDs (snd e))} \<and>
    (\<forall>p \<in> set (pierRoster c self bw). ps_NodeID p = self \<longrightarrow> ps_Online p)"
proof (intro conjI)
  have ok: "board_ok bw" using board_ok_run [OF board_ok_new, of D es] assms(1) by simp
  let ?ids = "SliceStable string_less (roster_ids c self bw)"
  have ids: "map ps_NodeID (pierRoster c self bw) = ?ids"
    by (simp add: pierRoster_def pier_summary_of_def comp_def)
  have d: "distinct ?ids"
    using mset_SliceStable [of string_less "roster_ids c self bw"]
    by (metis distinct_remdups mset_eq_imp_distinct_iff roster_ids_def)
  have "sorted_wrt (\<lambda>x y. \<not> string_less y x) ?ids" by (rule SliceStable_ordered) simp
  then have "sorted_wrt string_less ?ids" using d by (rule sorted_string_strict)
  then show "sorted_wrt string_less (map ps_NodeID (pierRoster c self bw))" by (simp only: ids)
  have "set ?ids = set (roster_ids c self bw)" by (metis mset_SliceStable set_mset_mset)
  moreover have "set (filter (\<lambda>i. i \<noteq> []) (map bn_NodeID (bw_notes bw c))) = bn_NodeID ` set (bw_notes bw c)"
    using ok by (auto simp: board_ok_def campaign_ok_def list_all_iff)
  moreover have "fst e = nm_NodeID (snd e)" if "e \<in> set (bw_metadata bw)" for e
    using ok that by (simp add: board_ok_def list_all_iff)
  then have "map fst (filter (\<lambda>e. c \<in> set (nm_EnabledCampaignIDs (snd e))) (bw_metadata bw)) =
      map (\<lambda>e. nm_NodeID (snd e)) (filter (\<lambda>e. c \<in> set (nm_EnabledCampaignIDs (snd e))) (bw_metadata bw))"
    by (intro map_cong) auto
  then have "set (map fst (filter (\<lambda>e. c \<in> set (nm_EnabledCampaignIDs (snd e))) (bw_metadata bw))) =
      nm_NodeID ` snd ` {e \<in> set (bw_metadata bw). c \<in> set (nm_EnabledCampaignIDs (snd e))}"
    by (simp only: set_map set_filter image_image)
  ultimately have "set ?ids = {self} \<union> bn_NodeID ` set (bw_notes bw c) \<union>
      nm_NodeID ` snd ` {e \<in> set (bw_metadata bw). c \<in> set (nm_EnabledCampaignIDs (snd e))}"
    using assms(2) unfolding roster_ids_def set_remdups set_append by simp
  then show "set (map ps_NodeID (pierRoster c self bw)) = {self} \<union> bn_NodeID ` set (bw_notes bw c) \<union>
      nm_NodeID ` snd ` {e \<in> set (bw_metadata bw). c \<in> set (nm_EnabledCampaignIDs (snd e))}"
    by (simp only: ids)
qed (auto simp: pierRoster_def pier_summary_of_def)

end
