(* ===== verification/PierCode.thy ===== *)
theory PierCode
  imports BoardWatch
begin

text \<open>
  On-pier researcher code, the agent's side (\<open>internal/pieragent/research.go\<close>): the runner is started once
  per captured frame with a job, and each record it prints is checked against the campaign's grants
  before it has an effect.  The runner process, the codecs, the artifact server, the message ids
  and the broker are arguments; the run timeout only bounds the runner process.
\<close>

section \<open>State\<close>

text \<open>
  An assignment as the pier decodes it.  A grant map that is absent from the message is nil and is told
  apart from one that is present.
\<close>

record received_assign = assign_payload +
  ra_GrantsPresent :: bool

definition pier_grants :: "received_assign \<Rightarrow> grants" where
  "pier_grants a = (if ra_GrantsPresent a then ap_PierCodeGrants a else DefaultPierCodeGrants)"

record pier_code =
  pc_RunnerPath :: string
  pc_CacheDir :: string
  pc_Wired :: bool
  pc_state :: "string \<Rightarrow> string option"
  pc_pending :: "string \<Rightarrow> next_capture option"

record pier_job =
  pj_CampaignID :: string
  pj_TaskID :: string
  pj_FramePath :: string
  pj_ArtifactPath :: string
  pj_ArtifactSHA256 :: string
  pj_Grants :: grants
  pj_PierCodeDisabled :: bool
  pj_PrevState :: "string option"
  pj_BoardNotes :: "board_note list"
  pj_CampaignPiers :: "pier_summary list"
  pj_NextCaptureBounds :: capture_bounds

record pier_codec =
  px_sha256 :: "string \<Rightarrow> string"
  px_parse_uri :: "string \<Rightarrow> url option"
  px_parse_ip :: "string \<Rightarrow> ip option"
  px_record :: "string \<Rightarrow> runner_record option"
  px_message :: "string \<Rightarrow> string"
  px_next_capture :: "string \<Rightarrow> next_capture option"

text \<open>What the world answers during one run.\<close>

record run_answers =
  rn_get :: "string \<Rightarrow> string + string"
  rn_io :: io_faults
  rn_runner :: "pier_job \<Rightarrow> string \<times> bool"
  rn_post_fails :: "board_note \<Rightarrow> bool"
  rn_message_id :: "nat \<Rightarrow> string"
  rn_now :: gotime

datatype pier_error =
    FetchFailed fetch_error
  | BadRecordLine string
  | RunnerReported string
  | Refused grant_error
  | NoPublisher string
  | PublishFailed
  | BadNextCapture
  | OutOfBounds pier_code_error
  | UnhandledAction string
  | RunnerExited

section \<open>The next capture\<close>

definition nextCaptureBounds :: "received_assign \<Rightarrow> capture_bounds" where
  "nextCaptureBounds a =
     (let maxExposure = ap_IntegrationTime a;
          maxExposure = (if fle maxExposure (Fin 0) then Fin 30 else maxExposure)
      in \<lparr>cb_MinExposureSec = Fin 0, cb_MaxExposureSec = maxExposure, cb_MinGain = Fin 0, cb_MaxGain = Fin 0,
          cb_AllowedFilters = ap_RequiredFilters a\<rparr>)"

definition nextCaptureAllowed :: "received_assign \<Rightarrow> bool" where
  "nextCaptureAllowed a =
     (if ap_PierCode a = None \<or> ap_PierCodeDisabled a then False
      else GrantAllows (pier_grants a) ActionNextCapture)"

definition takePendingCapture ::
  "string \<Rightarrow> capture_bounds \<Rightarrow> bool \<Rightarrow> pier_code option \<Rightarrow> (pier_code_error + next_capture option) \<times> pier_code option" where
  "takePendingCapture campaignID bounds allowed pc =
     (case pc of
        None \<Rightarrow> (Inr None, None)
      | Some c \<Rightarrow>
          (let p = pc_pending c campaignID;
               c = c\<lparr>pc_pending := (pc_pending c)(campaignID := None)\<rparr>
           in (case p of
                 None \<Rightarrow> Inr None
               | Some q \<Rightarrow>
                   if \<not> allowed then Inr None
                   else (case ValidateNextCapture bounds q of Some e \<Rightarrow> Inl e | None \<Rightarrow> Inr (Some q)),
               Some c)))"

section \<open>Applying a record\<close>

definition boardEventType :: "string \<Rightarrow> string" where
  "boardEventType action =
     (if action = ActionInboxAlert then ''alert''
      else if action = ActionUrgencyFlag then ''urgency''
      else if action = ActionRequestTime then ''request_time''
      else ''note'')"

type_synonym run_state = "pier_code \<times> board_note list"

definition post_note :: "run_answers \<Rightarrow> board_note \<Rightarrow> run_state \<Rightarrow> pier_error option \<times> run_state" where
  "post_note W note s =
     (if rn_post_fails W note then (Some PublishFailed, s) else (None, (fst s, snd s @ [note])))"

definition board_record ::
  "pier_codec \<Rightarrow> run_answers \<Rightarrow> string \<Rightarrow> received_assign \<Rightarrow> string \<Rightarrow> string \<Rightarrow> runner_record \<Rightarrow> run_state
   \<Rightarrow> pier_error option \<times> run_state" where
  "board_record D W nodeID a eventType payload rec s =
     (if \<not> pc_Wired (fst s) then (Some (NoPublisher (rr_Action rec)), s)
      else post_note W \<lparr>bn_TaskID = [], bn_CampaignID = ap_CampaignID a, bn_NodeID = nodeID,
             bn_MessageID = rn_message_id W (length (snd s)), bn_Message = px_message D (rr_Payload rec),
             bn_EventType = eventType, bn_Payload = payload, bn_SentAt = rn_now W\<rparr> s)"

definition next_capture_record ::
  "pier_codec \<Rightarrow> received_assign \<Rightarrow> runner_record \<Rightarrow> run_state \<Rightarrow> pier_error option \<times> run_state" where
  "next_capture_record D a rec s =
     (case px_next_capture D (rr_Payload rec) of
        None \<Rightarrow> (Some BadNextCapture, s)
      | Some p \<Rightarrow>
          (case ValidateNextCapture (nextCaptureBounds a) p of
             Some e \<Rightarrow> (Some (OutOfBounds e), s)
           | None \<Rightarrow> (None, ((fst s)\<lparr>pc_pending := (pc_pending (fst s))(ap_CampaignID a \<mapsto> p)\<rparr>, snd s))))"

definition apply_record ::
  "pier_codec \<Rightarrow> run_answers \<Rightarrow> string \<Rightarrow> received_assign \<Rightarrow> grants \<Rightarrow> runner_record \<Rightarrow> run_state
   \<Rightarrow> pier_error option \<times> run_state" where
  "apply_record D W nodeID a grants rec s =
     (if rr_Action rec = ActionState then
        (None, if length (rr_Payload rec) \<le> 65536
           then ((fst s)\<lparr>pc_state := (pc_state (fst s))(ap_CampaignID a \<mapsto> rr_Payload rec)\<rparr>, snd s) else s)
      else if rr_Action rec = ActionDone then (None, s)
      else if rr_Action rec = ActionError then (Some (RunnerReported (rr_Msg rec)), s)
      else (case CheckRecordGrant rec grants of
          Some e \<Rightarrow> (Some (Refused e), s)
        | None \<Rightarrow>
            if rr_Action rec = ActionBoardPost then board_record D W nodeID a ''note'' [] rec s
            else if rr_Action rec = ActionInboxAlert \<or> rr_Action rec = ActionUrgencyFlag \<or> rr_Action rec = ActionRequestTime
              then board_record D W nodeID a (boardEventType (rr_Action rec)) (rr_Payload rec) rec s
            else if rr_Action rec = ActionNextCapture then next_capture_record D a rec s
            else if rr_Action rec = ActionReadFrame \<or> rr_Action rec = ActionBoardRead \<or> rr_Action rec = ActionListPiers
              then (None, s)
            else (Some (UnhandledAction (rr_Action rec)), s)))"

text \<open>All records are applied; the first error is kept.\<close>

fun apply_records ::
  "pier_codec \<Rightarrow> run_answers \<Rightarrow> string \<Rightarrow> received_assign \<Rightarrow> grants \<Rightarrow> runner_record list \<Rightarrow> pier_error option
   \<Rightarrow> run_state \<Rightarrow> pier_error option \<times> run_state" where
  "apply_records D W nodeID a grants [] err s = (err, s)"
| "apply_records D W nodeID a grants (rec # recs) err s =
     (case apply_record D W nodeID a grants rec s of
        (e, s') \<Rightarrow> apply_records D W nodeID a grants recs (if err = None then e else err) s')"

section \<open>A run\<close>

fun parse_lines :: "(string \<Rightarrow> runner_record option) \<Rightarrow> string list \<Rightarrow> pier_error + runner_record list" where
  "parse_lines decode [] = Inr []"
| "parse_lines decode (line # lines) =
     (if line = [] then parse_lines decode lines
      else (case decode line of
          None \<Rightarrow> Inl (BadRecordLine line)
        | Some rec \<Rightarrow> (case parse_lines decode lines of Inl e \<Rightarrow> Inl e | Inr recs \<Rightarrow> Inr (rec # recs))))"

definition parseRecords :: "(string \<Rightarrow> runner_record option) \<Rightarrow> string \<Rightarrow> pier_error + runner_record list" where
  "parseRecords decode out = parse_lines decode (Split (TrimSpace out) (CHR 0x0A))"

definition pier_enabled :: "pier_code option \<Rightarrow> bool" where
  "pier_enabled pc = (case pc of None \<Rightarrow> False | Some c \<Rightarrow> pc_RunnerPath c \<noteq> [])"

definition make_job ::
  "received_assign \<Rightarrow> grants \<Rightarrow> string \<Rightarrow> string \<Rightarrow> string option \<Rightarrow> board_note list \<Rightarrow> pier_summary list \<Rightarrow> pier_job" where
  "make_job a grants framePath artifactPath prev board piers =
     \<lparr>pj_CampaignID = ap_CampaignID a, pj_TaskID = Itoa (ap_TaskID a), pj_FramePath = framePath,
      pj_ArtifactPath = artifactPath,
      pj_ArtifactSHA256 = (case ap_PierCode a of Some r \<Rightarrow> pr_SHA256 r | None \<Rightarrow> []),
      pj_Grants = grants, pj_PierCodeDisabled = ap_PierCodeDisabled a, pj_PrevState = prev,
      pj_BoardNotes = board, pj_CampaignPiers = piers, pj_NextCaptureBounds = nextCaptureBounds a\<rparr>"

definition run_pier_code ::
  "pier_codec \<Rightarrow> run_answers \<Rightarrow> string \<Rightarrow> received_assign \<Rightarrow> string \<Rightarrow> board_note list \<Rightarrow> pier_summary list
   \<Rightarrow> filesys \<times> pier_code option \<times> board_note list \<Rightarrow> pier_error option \<times> filesys \<times> pier_code option \<times> board_note list" where
  "run_pier_code D W nodeID a framePath board piers st =
     (case st of (fs, pc, posts) \<Rightarrow>
       (case pc of
          None \<Rightarrow> (None, st)
        | Some c \<Rightarrow>
            if \<not> pier_enabled pc \<or> ap_PierCode a = None \<or> ap_PierCodeDisabled a then (None, st)
            else (let grants = pier_grants a in
              case FetchVerifiedArtifact (px_sha256 D) (px_parse_uri D) (px_parse_ip D) (rn_get W) (rn_io W)
                     (ap_PierCode a) (pc_CacheDir c) fs of
                (Inl e, fs) \<Rightarrow> (Some (FetchFailed e), fs, pc, posts)
              | (Inr artifactPath, fs) \<Rightarrow>
                  (case rn_runner W (make_job a grants framePath artifactPath (pc_state c (ap_CampaignID a)) board piers) of
                     (stdout, runErr) \<Rightarrow>
                       (case parseRecords (px_record D) stdout of
                          Inl e \<Rightarrow> (Some e, fs, pc, posts)
                        | Inr recs \<Rightarrow>
                            (case apply_records D W nodeID a grants recs None (c, posts) of
                               (applyErr, c, posts) \<Rightarrow>
                                 (if applyErr = None \<and> runErr \<and> recs = [] then Some RunnerExited else applyErr,
                                  fs, Some c, posts)))))))"

section \<open>Lemmas\<close>

text \<open>What one run may change, given the grants: notes of this pier for this campaign, the campaign's
  own carried state and its own pending override.\<close>

definition confined :: "string \<Rightarrow> received_assign \<Rightarrow> grants \<Rightarrow> run_state \<Rightarrow> run_state \<Rightarrow> bool" where
  "confined nodeID a grants s s' \<longleftrightarrow>
     (\<exists>new. snd s' = snd s @ new \<and>
        (\<forall>n \<in> set new. bn_CampaignID n = ap_CampaignID a \<and> bn_NodeID n = nodeID \<and>
           (\<exists>act \<in> {ActionBoardPost, ActionInboxAlert, ActionUrgencyFlag, ActionRequestTime}.
              GrantAllows grants act \<and> bn_EventType n = boardEventType act))) \<and>
     (\<forall>k. k \<noteq> ap_CampaignID a \<longrightarrow> pc_state (fst s') k = pc_state (fst s) k \<and> pc_pending (fst s') k = pc_pending (fst s) k) \<and>
     (pc_pending (fst s') (ap_CampaignID a) = pc_pending (fst s) (ap_CampaignID a) \<or>
        (\<exists>p. pc_pending (fst s') (ap_CampaignID a) = Some p \<and> ValidateNextCapture (nextCaptureBounds a) p = None \<and>
           GrantAllows grants ActionNextCapture)) \<and>
     (pc_state (fst s') (ap_CampaignID a) = pc_state (fst s) (ap_CampaignID a) \<or>
        (\<exists>b. pc_state (fst s') (ap_CampaignID a) = Some b \<and> length b \<le> 65536)) \<and>
     pc_RunnerPath (fst s') = pc_RunnerPath (fst s) \<and> pc_CacheDir (fst s') = pc_CacheDir (fst s)"

lemma confined_refl [simp]: "confined nodeID a g s s"
  by (auto simp: confined_def)

lemma confined_trans:
  assumes "confined nodeID a g s t" "confined nodeID a g t u"
  shows "confined nodeID a g s u"
proof -
  obtain new new' where n: "snd t = snd s @ new" "snd u = snd t @ new'"
      "\<forall>n \<in> set (new @ new'). bn_CampaignID n = ap_CampaignID a \<and> bn_NodeID n = nodeID \<and>
        (\<exists>act \<in> {ActionBoardPost, ActionInboxAlert, ActionUrgencyFlag, ActionRequestTime}.
           GrantAllows g act \<and> bn_EventType n = boardEventType act)"
    using assms unfolding confined_def set_append by (elim conjE exE) blast
  then have "snd u = snd s @ (new @ new')" by simp
  moreover have "pc_pending (fst u) (ap_CampaignID a) = pc_pending (fst s) (ap_CampaignID a) \<or>
      (\<exists>p. pc_pending (fst u) (ap_CampaignID a) = Some p \<and> ValidateNextCapture (nextCaptureBounds a) p = None \<and>
         GrantAllows g ActionNextCapture)"
    using assms unfolding confined_def by metis
  moreover have "pc_state (fst u) (ap_CampaignID a) = pc_state (fst s) (ap_CampaignID a) \<or>
      (\<exists>b. pc_state (fst u) (ap_CampaignID a) = Some b \<and> length b \<le> 65536)"
    using assms unfolding confined_def by metis
  ultimately show ?thesis
    using assms n(3) unfolding confined_def by (intro conjI exI [of _ "new @ new'"]) simp_all
qed

lemma boardEventType_post: "boardEventType ActionBoardPost = ''note''"
  by (simp add: boardEventType_def action_names)

lemma confined_board_record:
  assumes "GrantAllows g (rr_Action rec)" "eventType = boardEventType (rr_Action rec)"
    "rr_Action rec \<in> {ActionBoardPost, ActionInboxAlert, ActionUrgencyFlag, ActionRequestTime}"
  shows "confined nodeID a g s (snd (board_record D W nodeID a eventType payload rec s))"
  using assms by (auto simp: confined_def board_record_def post_note_def)

lemma confined_next_capture:
  "GrantAllows g ActionNextCapture \<Longrightarrow> confined nodeID a g s (snd (next_capture_record D a rec s))"
  by (auto simp: confined_def next_capture_record_def split: option.splits)

lemma confined_state_record:
  "length b \<le> 65536 \<Longrightarrow>
     confined nodeID a g s ((fst s)\<lparr>pc_state := (pc_state (fst s))(ap_CampaignID a \<mapsto> b)\<rparr>, snd s)"
  by (auto simp: confined_def)

lemma apply_record_refused:
  assumes "CheckRecordGrant rec g = Some e"
  shows "snd (apply_record D W nodeID a g rec s) = s"
proof -
  have "rr_Action rec \<noteq> ActionState" "rr_Action rec \<noteq> ActionDone" "rr_Action rec \<noteq> ActionError"
    using assms CheckRecordGrant_None_iff [of rec g] by auto
  with assms show ?thesis by (simp add: apply_record_def)
qed

lemma confined_apply_record: "confined nodeID a g s (snd (apply_record D W nodeID a g rec s))"
proof (cases "CheckRecordGrant rec g")
  case None
  then consider "rr_Action rec = ActionState" | "rr_Action rec = ActionDone" | "rr_Action rec = ActionError"
    | "rr_Action rec \<notin> {ActionState, ActionDone, ActionError}" "GrantAllows g (rr_Action rec)"
    by (auto simp: CheckRecordGrant_None_iff)
  then show ?thesis
  proof cases
    case 4
    let ?ok = "\<lambda>r. confined nodeID a g s (snd r)"
    have post: "rr_Action rec = ActionBoardPost \<Longrightarrow> ?ok (board_record D W nodeID a ''note'' [] rec s)"
      using 4 by (intro confined_board_record) (simp_all add: boardEventType_post)
    have alert: "rr_Action rec = ActionInboxAlert \<or> rr_Action rec = ActionUrgencyFlag \<or> rr_Action rec = ActionRequestTime \<Longrightarrow>
        ?ok (board_record D W nodeID a (boardEventType (rr_Action rec)) (rr_Payload rec) rec s)"
      using 4 by (intro confined_board_record) auto
    have capture: "rr_Action rec = ActionNextCapture \<Longrightarrow> ?ok (next_capture_record D a rec s)"
      using 4 by (intro confined_next_capture) auto
    have none: "?ok (e, s)" for e :: "pier_error option" by simp
    show ?thesis
      using 4(1) unfolding apply_record_def None
      by (simp only: option.case insert_iff empty_iff simp_thms de_Morgan_disj if_False split: if_split)
        (use post alert capture none in blast)
  qed (simp_all add: apply_record_def confined_state_record)
qed (simp add: apply_record_refused)

lemma confined_apply_records: "confined nodeID a g s (snd (apply_records D W nodeID a g recs err s))"
proof (induction recs arbitrary: err s)
  case (Cons rec recs)
  obtain e s' where r: "apply_record D W nodeID a g rec s = (e, s')" by (metis surj_pair)
  with confined_apply_record [of nodeID a g s D W rec] have "confined nodeID a g s s'" by simp
  with Cons show ?case by (simp add: r confined_trans)
qed simp

lemma apply_records_confined:
  "apply_records D W nodeID a g recs err s = (e, s') \<Longrightarrow> confined nodeID a g s s'"
  using confined_apply_records [of nodeID a g s D W recs err] by simp

lemma run_confined:
  assumes "run_pier_code D W nodeID a framePath board piers (fs, Some c, posts) = (err, fs', pc', posts')"
  shows "\<exists>c'. pc' = Some c' \<and> confined nodeID a (pier_grants a) (c, posts) (c', posts')"
  using assms
  by (auto simp: run_pier_code_def Let_def split: option.splits if_splits prod.splits sum.splits
      dest: apply_records_confined)

lemma run_posts_fetched:
  assumes "run_pier_code D W nodeID a framePath board piers (fs, Some c, posts) = (err, fs', pc', posts')"
    "posts' \<noteq> posts"
  shows "\<exists>r path. ap_PierCode a = Some r \<and>
    FetchVerifiedArtifact (px_sha256 D) (px_parse_uri D) (px_parse_ip D) (rn_get W) (rn_io W)
      (Some r) (pc_CacheDir c) fs = (Inr path, fs')"
  using assms
  by (auto simp: run_pier_code_def Let_def split: option.splits if_splits prod.splits sum.splits)

section \<open>Properties\<close>

text \<open>C17: Whatever a campaign's code prints, one run of it changes only what the campaign was granted: it
  posts notes of this pier on this campaign's board, for granted actions; it leaves the carried state and the
  pending capture of every other campaign alone, and its own pending capture stays within the
  bounds of the assignment; nothing changes when the campaign's kill switch is set or no
  artifact is assigned; and the code that ran is an artifact whose bytes hash to the reference.\<close>

theorem pier_effects_confined:
  assumes "run_pier_code D W nodeID a framePath board piers (fs, Some c, posts) = (err, fs', pc', posts')"
  shows "(\<exists>c'. pc' = Some c' \<and> confined nodeID a (pier_grants a) (c, posts) (c', posts')) \<and>
    (ap_PierCode a = None \<or> ap_PierCodeDisabled a \<longrightarrow> fs' = fs \<and> pc' = Some c \<and> posts' = posts) \<and>
    (posts' \<noteq> posts \<longrightarrow> (\<exists>r b. ap_PierCode a = Some r \<and> fs' (ArtifactCachePath r (pc_CacheDir c)) = Some b \<and>
       px_sha256 D b = pr_SHA256 r))"
proof (intro conjI impI)
  show "\<exists>c'. pc' = Some c' \<and> confined nodeID a (pier_grants a) (c, posts) (c', posts')"
    by (rule run_confined [OF assms])
  show "fs' = fs" "pc' = Some c" "posts' = posts" if "ap_PierCode a = None \<or> ap_PierCodeDisabled a"
    using assms that by (auto simp: run_pier_code_def)
  show "\<exists>r b. ap_PierCode a = Some r \<and> fs' (ArtifactCachePath r (pc_CacheDir c)) = Some b \<and> px_sha256 D b = pr_SHA256 r"
    if "posts' \<noteq> posts"
    using run_posts_fetched [OF assms that] by (metis Fetch_Inr VerifyArtifactBytes_ok(1))
qed

definition demo_assign :: received_assign where
  "demo_assign = \<lparr>ap_TaskID = 7, ap_CampaignID = ''c1'', ap_Priority = 1, ap_Name = ''t'', ap_IntegrationTime = Fin 60,
     ap_RequiredFilters = [''R''], ap_TargetRA = Some (Fin 150), ap_TargetDec = Some (Fin 20),
     ap_MinAltitudeDeg = None, ap_HandoffUrgency = [], ap_ScheduledEndAt = None, ap_PierCodeGrants = Map.empty,
     ap_PierCode = Some demo_ref, ap_PierCodeDisabled = False, ra_GrantsPresent = False\<rparr>"

definition demo_codec :: pier_codec where
  "demo_codec = \<lparr>px_sha256 = \<lambda>b. replicate 64 (CHR ''a''), px_parse_uri = \<lambda>s. Some demo_url, px_parse_ip = \<lambda>s. None,
     px_record = \<lambda>s. Some \<lparr>rr_Action = s, rr_Payload = [], rr_OK = True, rr_Msg = []\<rparr>,
     px_message = \<lambda>s. ''seen'', px_next_capture = \<lambda>s. None\<rparr>"

definition demo_answers :: run_answers where
  "demo_answers = \<lparr>rn_get = \<lambda>u. Inr ''code'', rn_io = no_faults, rn_runner = \<lambda>j. (''board_post'', False),
     rn_post_fails = \<lambda>n. False, rn_message_id = \<lambda>n. ''m'', rn_now = 9\<rparr>"

definition demo_pier :: pier_code where
  "demo_pier = \<lparr>pc_RunnerPath = ''runner'', pc_CacheDir = ''c'', pc_Wired = True, pc_state = \<lambda>_. None, pc_pending = \<lambda>_. None\<rparr>"

definition demo_post :: board_note where
  "demo_post = \<lparr>bn_TaskID = [], bn_CampaignID = ''c1'', bn_NodeID = ''n1'', bn_MessageID = ''m'', bn_Message = ''seen'',
     bn_EventType = ''note'', bn_Payload = [], bn_SentAt = 9\<rparr>"

lemma demo_run:
  "run_pier_code demo_codec demo_answers ''n1'' demo_assign ''f'' [] [] (\<lambda>p. None, Some demo_pier, [])
   = (None, [ArtifactCachePath demo_ref ''c'' \<mapsto> ''code''], Some demo_pier, [demo_post])"
proof -
  have f: "FetchVerifiedArtifact (px_sha256 demo_codec) (px_parse_uri demo_codec) (px_parse_ip demo_codec)
      (rn_get demo_answers) (rn_io demo_answers) (ap_PierCode demo_assign) (pc_CacheDir demo_pier) (\<lambda>p. None)
      = (Inr (ArtifactCachePath demo_ref ''c''), [ArtifactCachePath demo_ref ''c'' \<mapsto> ''code''])"
    using demo_fetch by (simp add: demo_codec_def demo_answers_def demo_assign_def demo_pier_def)
  have r: "parseRecords (px_record demo_codec) ''board_post'' =
      Inr [\<lparr>rr_Action = ''board_post'', rr_Payload = [], rr_OK = True, rr_Msg = []\<rparr>]"
    by (simp add: parseRecords_def TrimSpace_def is_space_def demo_codec_def)
  have "apply_records demo_codec demo_answers ''n1'' demo_assign (pier_grants demo_assign)
      [\<lparr>rr_Action = ''board_post'', rr_Payload = [], rr_OK = True, rr_Msg = []\<rparr>] None (demo_pier, [])
      = (None, demo_pier, [demo_post])"
    by (simp add: apply_record_def board_record_def post_note_def CheckRecordGrant_def GrantAllows_def
        IsPierCodeAction_def PierCodeActions_def action_names pier_grants_def DefaultPierCodeGrants_def
        demo_assign_def demo_pier_def demo_answers_def demo_codec_def demo_post_def)
  then show ?thesis using f r
    by (simp add: run_pier_code_def pier_enabled_def Let_def)
      (simp add: demo_pier_def demo_assign_def demo_answers_def)
qed

theorem pier_effects_confined_witness:
  "confined ''n1'' demo_assign (pier_grants demo_assign) (demo_pier, []) (demo_pier, [demo_post])"
  using pier_effects_confined [OF demo_run] by simp

text \<open>A pending override that the capture takes is within the bounds of the assignment it is taken for,
  and is taken once.\<close>

lemma takePending_ok:
  assumes "takePendingCapture k b allowed pc = (Inr (Some q), pc')"
  shows "ValidateNextCapture b q = None" "allowed" "takePendingCapture k b' allowed' pc' = (Inr None, pc')"
  using assms
  by (auto simp: takePendingCapture_def Let_def split: option.splits if_splits)

end
