(* ===== verification/Agent.thy ===== *)
theory Agent
  imports PierCode
begin

text \<open>
  The pier agent (\<open>internal/pieragent/agent.go\<close>, and \<open>handleCommandMessage\<close> and \<open>processCapturedTask\<close> of
  \<open>main.go\<close>) as interleaved handlers.  Each accepted command starts a handler; a handler is its program
  counter \<open>pc\<close> with the local variables it still needs, and one step of it goes from one access of the
  shared state or of a device to the next.  The shared state is the stop flag, the two locks, the
  current task and the pier's boards and code state.  \<open>answers\<close> are the replies of the devices and
  the clock to one step, so any order of handlers and any device behaviour is a run.  Sleeping between two
  polls is the time that passes between two steps.  The log records device calls in their order; it
  is only written.
\<close>

section \<open>Configuration and state\<close>

record safety_config =
  sc_SiteLat :: "f64 option"
  sc_SiteLon :: "f64 option"
  sc_MountLimits :: "mount_limits option"
  sc_HorizonProfile :: "horizon_profile option"
  sc_ObstructionMask :: obstruction_mask

record agent =
  ag_NodeID :: string
  ag_HasWheel :: bool
  ag_Safety :: safety_config
  ag_CaptureDir :: string
  ag_SlewTimeout :: duration
  ag_ExposureTimeout :: duration
  ag_math :: mathlib
  ag_codec :: pier_codec
  ag_hmac :: "string \<Rightarrow> string \<Rightarrow> string"
  ag_secret :: string
  ag_parse_time :: "string \<Rightarrow> gotime option"
  ag_stamp :: "gotime \<Rightarrow> string"
  ag_decode_command :: "string \<Rightarrow> command option"
  ag_decode_assign :: "string \<Rightarrow> received_assign option"
  ag_decode_preempt :: "string \<Rightarrow> (int \<times> received_assign) option"

datatype device = Mount | Camera | FilterWheel

datatype device_event =
    StopRequested
  | StopCleared
  | Sensed "f64 option" "f64 option" gotime
  | LookedUp string int
  | SlewTo f64 f64
  | MoveWheel int
  | StartExposure f64
  | Aborted device
  | AbortReturned

record answers =
  an_now :: gotime
  an_alt :: "f64 option"
  an_az :: "f64 option"
  an_moving :: "bool option"
  an_ready :: "bool option"
  an_index :: "int option"
  an_fails :: bool
  an_run :: run_answers

record rig =
  rg_stop :: bool
  rg_hardware :: "nat option"
  rg_capture :: "nat option"
  rg_task :: "(int \<times> int) option"
  rg_code :: "pier_code option"
  rg_board :: board_watch
  rg_files :: filesys
  rg_posts :: "board_note list"
  rg_log :: "(nat \<times> device_event) list"

record capture =
  ct_task :: received_assign
  ct_ra :: f64
  ct_dec :: f64
  ct_duration :: f64
  ct_filter :: string

text \<open>The three calls that set hardware in motion; a filter is moved for the task or for an override.\<close>

datatype start = Slew | Wheel bool string int | Expose

datatype capture_error =
    Cancelled string
  | NoTarget int
  | UnsafeTarget f64 f64 f64 f64
  | CallFailed start
  | PollFailed start bool
  | TimedOut start bool
  | NoWheel string
  | LookupFailed string
  | FilterMissing string
  | OverrideRefused pier_code_error
  | ImageFailed
  | NotWritten
  | AbortFailed device

datatype pc =
    Prepare received_assign
  | Enter received_assign
  | Begin received_assign
  | Gate capture
  | BeforeSlew capture
  | Lock start capture
  | Check start capture
  | Issue start capture
  | Arm start capture
  | PollStop start gotime capture
  | PollDevice start gotime capture
  | AfterSlew capture
  | FindFilter bool string capture
  | Override capture
  | ReadImage capture
  | WriteCapture capture
  | Leave received_assign "capture_error + string"
  | Process received_assign string
  | RequestStop "received_assign option"
  | LockAbort "received_assign option"
  | AbortDevice device "device option" "received_assign option"
  | Finished "capture_error option"

section \<open>The safety decision\<close>

definition checkSlewSafety ::
  "agent \<Rightarrow> f64 \<Rightarrow> f64 \<Rightarrow> f64 option \<Rightarrow> f64 option \<Rightarrow> f64 option \<Rightarrow> gotime \<Rightarrow> bool" where
  "checkSlewSafety A targetRA targetDec minAltitudeDeg currentAlt currentAz now =
     (let s = ag_Safety A;
          safety = \<lparr>ts_ObstructionMask = sc_ObstructionMask s, ts_MountLimits = sc_MountLimits s,
            ts_HorizonProfile = sc_HorizonProfile s, ts_SiteLat = sc_SiteLat s, ts_SiteLon = sc_SiteLon s,
            ts_MountAltDeg = currentAlt, ts_MountAzDeg = currentAz\<rparr>
      in if sc_ObstructionMask s \<noteq> [] \<and> (currentAlt = None \<or> currentAz = None) then False
         else PassesAltAzSafety (ag_math A) targetRA targetDec minAltitudeDeg safety now)"

definition unsafe_target :: "agent \<Rightarrow> f64 \<Rightarrow> f64 \<Rightarrow> gotime \<Rightarrow> capture_error" where
  "unsafe_target A ra dec now =
     (case (sc_SiteLat (ag_Safety A), sc_SiteLon (ag_Safety A)) of
        (Some lat, Some lon) \<Rightarrow>
          (case ComputeTargetAltAz (ag_math A) ra dec lat lon now of (alt, az) \<Rightarrow> UnsafeTarget ra dec alt az)
      | _ \<Rightarrow> UnsafeTarget ra dec (Fin 0) (Fin 0))"

text \<open>The position is used only when both reads succeed.\<close>

definition sense :: "answers \<Rightarrow> f64 option \<times> f64 option" where
  "sense an = (case (an_alt an, an_az an) of (Some alt, Some az) \<Rightarrow> (Some alt, Some az) | _ \<Rightarrow> (None, None))"

section \<open>Steps of a capture\<close>

abbreviation logged :: "nat \<Rightarrow> device_event \<Rightarrow> rig \<Rightarrow> rig" where
  "logged i e rig \<equiv> rig\<lparr>rg_log := rg_log rig @ [(i, e)]\<rparr>"

definition CurrentTask :: "rig \<Rightarrow> (int \<times> int) option" where
  "CurrentTask rig = rg_task rig"

text \<open>A failure on the way out of \<open>ExecuteAssignTask\<close>; the deferred calls run in \<open>Leave\<close>.\<close>

definition fail :: "capture \<Rightarrow> capture_error \<Rightarrow> pc" where
  "fail c e = Leave (ct_task c) (Inl e)"

definition cancelled :: "start \<Rightarrow> capture_error" where
  "cancelled st = (case st of
       Slew \<Rightarrow> Cancelled ''capture cancelled before slew''
     | Wheel _ _ _ \<Rightarrow> Cancelled ''filter selection cancelled before movement''
     | Expose \<Rightarrow> Cancelled ''capture cancelled before exposure'')"

definition cancelled_wait :: "start \<Rightarrow> capture_error" where
  "cancelled_wait st = (case st of
       Slew \<Rightarrow> Cancelled ''slew cancelled''
     | Wheel _ _ _ \<Rightarrow> Cancelled ''filter selection cancelled''
     | Expose \<Rightarrow> Cancelled ''exposure cancelled'')"

definition start_event :: "start \<Rightarrow> capture \<Rightarrow> device_event" where
  "start_event st c = (case st of
       Slew \<Rightarrow> SlewTo (fdiv (ct_ra c) (Fin 15)) (ct_dec c)
     | Wheel _ _ idx \<Rightarrow> MoveWheel idx
     | Expose \<Rightarrow> StartExposure (ct_duration c))"

definition device_of :: "start \<Rightarrow> device" where
  "device_of st = (case st of Slew \<Rightarrow> Mount | Wheel _ _ _ \<Rightarrow> FilterWheel | Expose \<Rightarrow> Camera)"

definition timeout_of :: "agent \<Rightarrow> start \<Rightarrow> duration" where
  "timeout_of A st = (case st of Slew \<Rightarrow> ag_SlewTimeout A | Wheel _ _ _ \<Rightarrow> 30 * second | Expose \<Rightarrow> ag_ExposureTimeout A)"

text \<open>\<open>Slewing\<close> and \<open>IsMoving\<close> say that the device is still busy, \<open>ImageReady\<close> that it is done.\<close>

definition still_busy :: "start \<Rightarrow> answers \<Rightarrow> bool option" where
  "still_busy st an = (case st of Expose \<Rightarrow> map_option Not (an_ready an) | _ \<Rightarrow> an_moving an)"

text \<open>Where the capture goes on when the started motion has ended.\<close>

definition after_start :: "start \<Rightarrow> capture \<Rightarrow> pc" where
  "after_start st c = (case st of
       Slew \<Rightarrow> AfterSlew c
     | Wheel override name _ \<Rightarrow> if override then Lock Expose (c\<lparr>ct_filter := name\<rparr>) else Override c
     | Expose \<Rightarrow> ReadImage c)"

text \<open>\<open>waitForSlewComplete\<close>, \<open>waitForImageReady\<close> and the loop of \<open>selectFilter\<close> have one shape: check the
  stop flag, poll the device, abort it on an error or past the deadline.\<close>

definition poll_device ::
  "nat \<Rightarrow> answers \<Rightarrow> start \<Rightarrow> gotime \<Rightarrow> capture \<Rightarrow> rig \<Rightarrow> pc \<times> rig" where
  "poll_device i an st deadline c rig =
     (case still_busy st an of
        None \<Rightarrow> (fail c (PollFailed st (an_fails an)), logged i (Aborted (device_of st)) rig)
      | Some busy \<Rightarrow>
          if \<not> busy then (after_start st c, rig)
          else if deadline < an_now an
            then (fail c (TimedOut st (an_fails an)), logged i (Aborted (device_of st)) rig)
          else (PollStop st deadline c, rig))"

definition base_exposure :: "received_assign \<Rightarrow> f64" where
  "base_exposure t = (if fle (ap_IntegrationTime t) (Fin 0) then Fin 30 else ap_IntegrationTime t)"

definition override_step :: "agent \<Rightarrow> capture \<Rightarrow> rig \<Rightarrow> pc \<times> rig" where
  "override_step A c rig =
     (let t = ct_task c; c = c\<lparr>ct_duration := base_exposure t\<rparr> in
      case takePendingCapture (ap_CampaignID t) (nextCaptureBounds t) (nextCaptureAllowed t) (rg_code rig) of
        (Inl e, code) \<Rightarrow> (fail c (OverrideRefused e), rig\<lparr>rg_code := code\<rparr>)
      | (Inr None, code) \<Rightarrow> (Lock Expose c, rig\<lparr>rg_code := code\<rparr>)
      | (Inr (Some ov), code) \<Rightarrow>
          (let c = (case nc_ExposureSec ov of
                      Some v \<Rightarrow> if flt (Fin 0) v then c\<lparr>ct_duration := v\<rparr> else c
                    | None \<Rightarrow> c)
           in (case nc_Filter ov of
                 None \<Rightarrow> Lock Expose c
               | Some f \<Rightarrow> if \<not> ag_HasWheel A then fail c (NoWheel f) else FindFilter True f c,
               rig\<lparr>rg_code := code\<rparr>)))"

definition capture_path :: "agent \<Rightarrow> received_assign \<Rightarrow> gotime \<Rightarrow> string" where
  "capture_path A t now = ag_CaptureDir A @ ''/task-'' @ Itoa (ap_TaskID t) @ ''_'' @ ag_stamp A now @ ''.fits''"

definition process_captured :: "agent \<Rightarrow> answers \<Rightarrow> received_assign \<Rightarrow> string \<Rightarrow> rig \<Rightarrow> rig" where
  "process_captured A an t path rig =
     (if rg_code rig = None \<or> ap_PierCode t = None then rig
      else (case drainBoardSnapshot (ap_CampaignID t) (rg_board rig) of
        (board, bw) \<Rightarrow>
          (case run_pier_code (ag_codec A) (an_run an) (ag_NodeID A) t path board
                  (pierRoster (ap_CampaignID t) (ag_NodeID A) bw) (rg_files rig, rg_code rig, rg_posts rig) of
             (err, files, code, posts) \<Rightarrow>
               rig\<lparr>rg_board := bw, rg_files := files, rg_code := code, rg_posts := posts\<rparr>)))"

lemma process_captured_fields [simp]:
  "rg_log (process_captured A an t path rig) = rg_log rig" "rg_stop (process_captured A an t path rig) = rg_stop rig"
  "rg_hardware (process_captured A an t path rig) = rg_hardware rig"
  "rg_capture (process_captured A an t path rig) = rg_capture rig"
  "rg_task (process_captured A an t path rig) = rg_task rig"
  by (simp_all add: process_captured_def split: prod.split)

text \<open>\<open>prepareNewAssignment\<close>: the stop flag is cleared under the hardware lock.\<close>

definition prepareNewAssignment :: "nat \<Rightarrow> rig \<Rightarrow> rig option" where
  "prepareNewAssignment i rig =
     (if rg_hardware rig = None then Some ((logged i StopCleared rig)\<lparr>rg_stop := False\<rparr>) else None)"

text \<open>The look-up at the start of \<open>selectFilter\<close>.\<close>

definition find_filter :: "nat \<Rightarrow> answers \<Rightarrow> bool \<Rightarrow> string \<Rightarrow> capture \<Rightarrow> rig \<Rightarrow> pc \<times> rig" where
  "find_filter i an ov name c rig =
     (case an_index an of
        None \<Rightarrow> (fail c (LookupFailed name), rig)
      | Some idx \<Rightarrow> (if idx < 0 then fail c (FilterMissing name) else Lock (Wheel ov name idx) c,
                     logged i (LookedUp name idx) rig))"

text \<open>The calls of \<open>AbortTask\<close> under the hardware lock, one device after the other; the first error in that order
  is reported.  A preempting command goes on with its own assignment, as \<open>HandlePreemptTask\<close> does.\<close>

fun abort_step ::
  "agent \<Rightarrow> nat \<Rightarrow> answers \<Rightarrow> device \<Rightarrow> device option \<Rightarrow> received_assign option \<Rightarrow> rig \<Rightarrow> pc \<times> rig" where
  "abort_step A i an Mount err next rig =
     (AbortDevice Camera (if an_fails an then Some Mount else err) next, logged i (Aborted Mount) rig)"
| "abort_step A i an Camera err next rig =
     (AbortDevice FilterWheel (if an_fails an \<and> err = None then Some Camera else err) next, logged i (Aborted Camera) rig)"
| "abort_step A i an FilterWheel err next rig =
     (let err = (if ag_HasWheel A \<and> an_fails an \<and> err = None then Some FilterWheel else err);
          rig = (if ag_HasWheel A then logged i (Aborted FilterWheel) rig else rig)
      in (case err of Some d \<Rightarrow> Finished (Some (AbortFailed d))
          | None \<Rightarrow> (case next of Some t \<Rightarrow> Prepare t | None \<Rightarrow> Finished None),
          (logged i AbortReturned rig)\<lparr>rg_hardware := None\<rparr>))"

declare prepareNewAssignment_def [simp] find_filter_def [simp]

section \<open>One step of a handler\<close>

text \<open>\<open>None\<close>: the handler waits for a lock, or has finished.\<close>

fun handler_step :: "agent \<Rightarrow> nat \<Rightarrow> answers \<Rightarrow> pc \<Rightarrow> rig \<Rightarrow> (pc \<times> rig) option" where
  "handler_step A i an (Prepare t) rig =
     map_option (Pair (Enter t)) (prepareNewAssignment i rig)"
| "handler_step A i an (Enter t) rig =
     (if rg_capture rig = None then Some (Begin t, rig\<lparr>rg_capture := Some i\<rparr>) else None)"
| "handler_step A i an (Begin t) rig = Some
     (if rg_stop rig then (Leave t (Inl (Cancelled ''capture cancelled before assignment'')), rig)
      else (case (ap_TargetRA t, ap_TargetDec t) of
          (Some ra, Some dec) \<Rightarrow>
            (Gate \<lparr>ct_task = t, ct_ra = ra, ct_dec = dec, ct_duration = Fin 0, ct_filter = []\<rparr>,
             rig\<lparr>rg_task := Some (ap_TaskID t, ap_Priority t)\<rparr>)
        | _ \<Rightarrow> (Leave t (Inl (NoTarget (ap_TaskID t))), rig)))"
| "handler_step A i an (Gate c) rig = Some
     (case sense an of (alt, az) \<Rightarrow>
        (if checkSlewSafety A (ct_ra c) (ct_dec c) (ap_MinAltitudeDeg (ct_task c)) alt az (an_now an)
         then BeforeSlew c else fail c (unsafe_target A (ct_ra c) (ct_dec c) (an_now an)),
         logged i (Sensed alt az (an_now an)) rig))"
| "handler_step A i an (BeforeSlew c) rig = Some
     (if rg_stop rig then fail c (cancelled Slew) else Lock Slew c, rig)"
| "handler_step A i an (Lock st c) rig =
     (if rg_hardware rig = None then Some (Check st c, rig\<lparr>rg_hardware := Some i\<rparr>) else None)"
| "handler_step A i an (Check st c) rig = Some
     (if rg_stop rig then (fail c (cancelled st), rig\<lparr>rg_hardware := None\<rparr>) else (Issue st c, rig))"
| "handler_step A i an (Issue st c) rig = Some
     (if an_fails an then fail c (CallFailed st) else Arm st c,
      (logged i (start_event st c) rig)\<lparr>rg_hardware := None\<rparr>)"
| "handler_step A i an (Arm st c) rig = Some (PollStop st (an_now an + timeout_of A st) c, rig)"
| "handler_step A i an (PollStop st deadline c) rig = Some
     (if rg_stop rig then fail c (cancelled_wait st) else PollDevice st deadline c, rig)"
| "handler_step A i an (PollDevice st deadline c) rig = Some (poll_device i an st deadline c rig)"
| "handler_step A i an (AfterSlew c) rig = Some
     (if rg_stop rig then fail c (Cancelled ''capture cancelled after slew'')
      else (case ap_RequiredFilters (ct_task c) of
          [] \<Rightarrow> Override c
        | f # _ \<Rightarrow> if \<not> ag_HasWheel A then fail c (NoWheel f) else FindFilter False f (c\<lparr>ct_filter := f\<rparr>)), rig)"
| "handler_step A i an (FindFilter ov name c) rig = Some (find_filter i an ov name c rig)"
| "handler_step A i an (Override c) rig = Some (override_step A c rig)"
| "handler_step A i an (ReadImage c) rig = Some (if an_fails an then fail c ImageFailed else WriteCapture c, rig)"
| "handler_step A i an (WriteCapture c) rig = Some
     (Leave (ct_task c) (if an_fails an then Inl NotWritten else Inr (capture_path A (ct_task c) (an_now an))), rig)"
| "handler_step A i an (Leave t res) rig = Some
     (case res of Inl e \<Rightarrow> Finished (Some e) | Inr path \<Rightarrow> Process t path,
      rig\<lparr>rg_task := None, rg_capture := None\<rparr>)"
| "handler_step A i an (Process t path) rig = Some (Finished None, process_captured A an t path rig)"
| "handler_step A i an (RequestStop next) rig = Some
     (LockAbort next, (logged i StopRequested rig)\<lparr>rg_stop := True\<rparr>)"
| "handler_step A i an (LockAbort next) rig =
     (if rg_hardware rig = None then Some (AbortDevice Mount None next, rig\<lparr>rg_hardware := Some i\<rparr>) else None)"
| "handler_step A i an (AbortDevice d err next) rig = Some (abort_step A i an d err next rig)"
| "handler_step A i an (Finished e) rig = None"

section \<open>Commands\<close>

text \<open>
  \<open>handleCommandMessage\<close>: decode, check the address, the signature and the age, and dispatch on the
  type.  \<open>now\<close> and \<open>now'\<close> are the two readings of the clock.
\<close>

definition verified :: "agent \<Rightarrow> gotime \<Rightarrow> gotime \<Rightarrow> command \<Rightarrow> bool" where
  "verified A now now' cmd \<longleftrightarrow>
     \<not> (cmd_NodeID cmd \<noteq> [] \<and> cmd_NodeID cmd \<noteq> ag_NodeID A) \<and>
     VerifyCommandSignature (ag_hmac A) (ag_parse_time A) now (ag_secret A) (cmd_Type cmd) (ag_NodeID A)
       (cmd_SentAt cmd) (cmd_Sig cmd) (cmd_Payload cmd) = None \<and>
     (case ag_parse_time A (cmd_SentAt cmd) of None \<Rightarrow> False | Some sentAt \<Rightarrow> now' - sentAt \<le> CommandMaxAge)"

definition dispatch :: "agent \<Rightarrow> command \<Rightarrow> pc option" where
  "dispatch A cmd =
     (if cmd_Type cmd = ''assign_task'' then map_option Prepare (ag_decode_assign A (cmd_Payload cmd))
      else if cmd_Type cmd = ''preempt_task'' then
        map_option (\<lambda>p. RequestStop (Some (snd p))) (ag_decode_preempt A (cmd_Payload cmd))
      else if cmd_Type cmd = ''abort_task'' then Some (RequestStop None)
      else None)"

definition handleCommandMessage :: "agent \<Rightarrow> gotime \<Rightarrow> gotime \<Rightarrow> string \<Rightarrow> (command \<times> pc) option" where
  "handleCommandMessage A now now' raw =
     (case ag_decode_command A raw of
        None \<Rightarrow> None
      | Some cmd \<Rightarrow> if verified A now now' cmd then map_option (Pair cmd) (dispatch A cmd) else None)"

section \<open>Runs\<close>

record pier =
  pr_rig :: rig
  pr_handlers :: "(command \<times> pc) list"

datatype choice = Receive gotime gotime string | Work nat answers | Hear board_codec board_event

fun pier_exec :: "agent \<Rightarrow> choice \<Rightarrow> pier \<Rightarrow> pier option" where
  "pier_exec A (Receive now now' raw) s =
     (case handleCommandMessage A now now' raw of
        None \<Rightarrow> Some s
      | Some h \<Rightarrow> Some (s\<lparr>pr_handlers := pr_handlers s @ [h]\<rparr>))"
| "pier_exec A (Work i an) s =
     (if i < length (pr_handlers s) then
        (case pr_handlers s ! i of (cmd, pc) \<Rightarrow>
          (case handler_step A i an pc (pr_rig s) of
             None \<Rightarrow> None
           | Some (pc', rig') \<Rightarrow> Some \<lparr>pr_rig = rig', pr_handlers = (pr_handlers s)[i := (cmd, pc')]\<rparr>))
      else None)"
| "pier_exec A (Hear D e) s = Some (s\<lparr>pr_rig := (pr_rig s)\<lparr>rg_board := board_step D e (rg_board (pr_rig s))\<rparr>\<rparr>)"

definition idle_rig :: "pier_code option \<Rightarrow> rig" where
  "idle_rig code = \<lparr>rg_stop = False, rg_hardware = None, rg_capture = None, rg_task = None, rg_code = code,
     rg_board = newBoardWatch, rg_files = Map.empty, rg_posts = [], rg_log = []\<rparr>"

inductive pier_runs :: "agent \<Rightarrow> pier \<Rightarrow> bool" for A :: agent where
  boot: "pier_runs A \<lparr>pr_rig = idle_rig code, pr_handlers = []\<rparr>"
| step: "pier_runs A s \<Longrightarrow> pier_exec A c s = Some s' \<Longrightarrow> pier_runs A s'"

fun pier_run :: "agent \<Rightarrow> choice list \<Rightarrow> pier \<Rightarrow> pier option" where
  "pier_run A [] s = Some s"
| "pier_run A (c # cs) s = Option.bind (pier_exec A c s) (pier_run A cs)"

lemma pier_run_runs: "pier_runs A s \<Longrightarrow> pier_run A cs s = Some s' \<Longrightarrow> pier_runs A s'"
  by (induction cs arbitrary: s) (auto split: Option.bind_splits intro: pier_runs.step)

section \<open>What a run keeps\<close>

text \<open>The assignment a verified command carries.\<close>

definition commanded :: "agent \<Rightarrow> command \<Rightarrow> received_assign \<Rightarrow> bool" where
  "commanded A cmd t \<longleftrightarrow> (\<exists>now now'. verified A now now' cmd) \<and>
     ((cmd_Type cmd = ''assign_task'' \<and> ag_decode_assign A (cmd_Payload cmd) = Some t) \<or>
      (cmd_Type cmd = ''preempt_task'' \<and> (\<exists>p. ag_decode_preempt A (cmd_Payload cmd) = Some (p, t))))"

fun task_of :: "pc \<Rightarrow> received_assign option" where
  "task_of (Prepare t) = Some t"
| "task_of (Enter t) = Some t"
| "task_of (Begin t) = Some t"
| "task_of (Gate c) = Some (ct_task c)"
| "task_of (BeforeSlew c) = Some (ct_task c)"
| "task_of (Lock st c) = Some (ct_task c)"
| "task_of (Check st c) = Some (ct_task c)"
| "task_of (Issue st c) = Some (ct_task c)"
| "task_of (Arm st c) = Some (ct_task c)"
| "task_of (PollStop st d c) = Some (ct_task c)"
| "task_of (PollDevice st d c) = Some (ct_task c)"
| "task_of (AfterSlew c) = Some (ct_task c)"
| "task_of (FindFilter ov name c) = Some (ct_task c)"
| "task_of (Override c) = Some (ct_task c)"
| "task_of (ReadImage c) = Some (ct_task c)"
| "task_of (WriteCapture c) = Some (ct_task c)"
| "task_of (Leave t res) = Some t"
| "task_of (Process t path) = Some t"
| "task_of (RequestStop next) = next"
| "task_of (LockAbort next) = next"
| "task_of (AbortDevice d err next) = next"
| "task_of (Finished e) = None"

definition aimed :: "capture \<Rightarrow> bool" where
  "aimed c \<longleftrightarrow> ap_TargetRA (ct_task c) = Some (ct_ra c) \<and> ap_TargetDec (ct_task c) = Some (ct_dec c)"

definition safe_aim :: "agent \<Rightarrow> nat \<Rightarrow> (nat \<times> device_event) list \<Rightarrow> capture \<Rightarrow> bool" where
  "safe_aim A i L c \<longleftrightarrow> (\<exists>alt az now. (i, Sensed alt az now) \<in> set L \<and>
     checkSlewSafety A (ct_ra c) (ct_dec c) (ap_MinAltitudeDeg (ct_task c)) alt az now)"

definition exposure_ok :: "received_assign \<Rightarrow> f64 \<Rightarrow> bool" where
  "exposure_ok t d \<longleftrightarrow> \<not> flt (base_exposure t) d"

fun ready :: "agent \<Rightarrow> nat \<Rightarrow> (nat \<times> device_event) list \<Rightarrow> start \<Rightarrow> capture \<Rightarrow> bool" where
  "ready A i L Slew c = safe_aim A i L c"
| "ready A i L (Wheel ov name idx) c = ((i, LookedUp name idx) \<in> set L \<and> 0 \<le> idx \<and>
     name \<in> set (ap_RequiredFilters (ct_task c)) \<and> (ov \<longrightarrow> exposure_ok (ct_task c) (ct_duration c)))"
| "ready A i L Expose c = exposure_ok (ct_task c) (ct_duration c)"

fun pc_ok :: "agent \<Rightarrow> nat \<Rightarrow> (nat \<times> device_event) list \<Rightarrow> pc \<Rightarrow> bool" where
  "pc_ok A i L (Gate c) = aimed c"
| "pc_ok A i L (BeforeSlew c) = (aimed c \<and> safe_aim A i L c)"
| "pc_ok A i L (Lock st c) = (aimed c \<and> ready A i L st c)"
| "pc_ok A i L (Check st c) = (aimed c \<and> ready A i L st c)"
| "pc_ok A i L (Issue st c) = (aimed c \<and> ready A i L st c)"
| "pc_ok A i L (Arm st c) = (aimed c \<and> ready A i L st c)"
| "pc_ok A i L (PollStop st d c) = (aimed c \<and> ready A i L st c)"
| "pc_ok A i L (PollDevice st d c) = (aimed c \<and> ready A i L st c)"
| "pc_ok A i L (AfterSlew c) = aimed c"
| "pc_ok A i L (FindFilter ov name c) =
     (aimed c \<and> name \<in> set (ap_RequiredFilters (ct_task c)) \<and> (ov \<longrightarrow> exposure_ok (ct_task c) (ct_duration c)))"
| "pc_ok A i L (Override c) = aimed c"
| "pc_ok A i L (LockAbort next) = ((i, StopRequested) \<in> set L)"
| "pc_ok A i L (AbortDevice d err next) = ((i, StopRequested) \<in> set L \<and>
     (d \<noteq> Mount \<longrightarrow> (i, Aborted Mount) \<in> set L) \<and> (d = FilterWheel \<longrightarrow> (i, Aborted Camera) \<in> set L))"
| "pc_ok A i L _ = True"

lemma pc_ok_mono: "pc_ok A i L pc \<Longrightarrow> set L \<subseteq> set L' \<Longrightarrow> pc_ok A i L' pc"
proof -
  have r: "ready A i L st c \<Longrightarrow> set L \<subseteq> set L' \<Longrightarrow> ready A i L' st c" for st c
    by (cases st) (auto simp: safe_aim_def)
  show "pc_ok A i L pc \<Longrightarrow> set L \<subseteq> set L' \<Longrightarrow> pc_ok A i L' pc"
    by (cases pc) (auto simp: safe_aim_def intro: r)
qed

text \<open>What holds of a device event, given the log before it.\<close>

fun event_ok :: "agent \<Rightarrow> command \<Rightarrow> nat \<Rightarrow> (nat \<times> device_event) list \<Rightarrow> device_event \<Rightarrow> bool" where
  "event_ok A cmd i L (SlewTo r d) = (\<exists>t ra alt az now. commanded A cmd t \<and> ap_TargetRA t = Some ra \<and>
     ap_TargetDec t = Some d \<and> r = fdiv ra (Fin 15) \<and> (i, Sensed alt az now) \<in> set L \<and>
     checkSlewSafety A ra d (ap_MinAltitudeDeg t) alt az now)"
| "event_ok A cmd i L (MoveWheel idx) = (\<exists>t name. commanded A cmd t \<and> 0 \<le> idx \<and>
     (i, LookedUp name idx) \<in> set L \<and> name \<in> set (ap_RequiredFilters t))"
| "event_ok A cmd i L (StartExposure d) = (\<exists>t. commanded A cmd t \<and> exposure_ok t d)"
| "event_ok A cmd i L AbortReturned = ((i, StopRequested) \<in> set L \<and> (i, Aborted Mount) \<in> set L \<and>
     (i, Aborted Camera) \<in> set L \<and> (ag_HasWheel A \<longrightarrow> (i, Aborted FilterWheel) \<in> set L))"
| "event_ok A cmd i L _ = True"

fun events_ok :: "agent \<Rightarrow> command \<Rightarrow> nat \<Rightarrow> (nat \<times> device_event) list \<Rightarrow> device_event list \<Rightarrow> bool" where
  "events_ok A cmd i L [] = True"
| "events_ok A cmd i L (e # es) = (event_ok A cmd i L e \<and> events_ok A cmd i (L @ [(i, e)]) es)"

lemma start_event_ok:
  "aimed c \<Longrightarrow> ready A i L st c \<Longrightarrow> commanded A cmd (ct_task c) \<Longrightarrow> event_ok A cmd i L (start_event st c)"
  by (cases st) (auto simp: start_event_def aimed_def safe_aim_def intro!: exI [of _ "ct_task c"])

lemma after_start_ok: "aimed c \<Longrightarrow> ready A i L st c \<Longrightarrow> pc_ok A i L (after_start st c)"
  by (cases st) (auto simp: after_start_def aimed_def)

lemma after_start_task: "task_of (after_start st c) = Some (ct_task c)"
  by (cases st) (auto simp: after_start_def)

declare flt_irrefl [simp]

lemma override_exposure:
  assumes "ValidateNextCapture (nextCaptureBounds t) q = None" "nc_ExposureSec q = Some v"
  shows "exposure_ok t v"
proof -
  have m: "cb_MaxExposureSec (nextCaptureBounds t) = base_exposure t"
    by (simp add: nextCaptureBounds_def base_exposure_def Let_def)
  have "validate_exposure (nextCaptureBounds t) (Some v) = None"
    using assms by (simp add: ValidateNextCapture_def split: option.splits)
  then have "\<not> (flt (Fin 0) (base_exposure t) \<and> flt (base_exposure t) v)"
    by (auto simp: validate_exposure_def m split: if_splits)
  moreover have "\<not> flt (Fin 0) (base_exposure t) \<Longrightarrow> \<not> flt (base_exposure t) v"
    by (cases "ap_IntegrationTime t") (auto simp: base_exposure_def fle_def split: if_splits)
  ultimately show ?thesis by (auto simp: exposure_ok_def)
qed

lemma override_filter:
  assumes "ValidateNextCapture (nextCaptureBounds t) q = None" "nc_Filter q = Some f"
  shows "f \<in> set (ap_RequiredFilters t)"
  using assms
  by (auto simp: ValidateNextCapture_def validate_filter_def nextCaptureBounds_def Let_def split: option.splits if_splits)

lemma override_step_ok:
  assumes "aimed c" "override_step A c rig = (pc', rig')"
  shows "pc_ok A i L pc'" "task_of pc' = Some (ct_task c)" "rg_log rig' = rg_log rig"
    "rg_stop rig' = rg_stop rig" "rg_hardware rig' = rg_hardware rig" "rg_capture rig' = rg_capture rig"
proof -
  have a: "aimed (c\<lparr>ct_duration := d\<rparr>)" for d using assms(1) by (simp add: aimed_def)
  have b: "exposure_ok t (base_exposure t)" for t by (simp add: exposure_ok_def)
  show "pc_ok A i L pc'" "task_of pc' = Some (ct_task c)" "rg_log rig' = rg_log rig"
    "rg_stop rig' = rg_stop rig" "rg_hardware rig' = rg_hardware rig" "rg_capture rig' = rg_capture rig"
    using assms(2)
    by (auto simp: override_step_def fail_def Let_def a b split: prod.splits sum.splits option.splits if_splits
        dest!: takePending_ok(1) intro: override_exposure override_filter)
qed

lemma poll_device_ok:
  assumes "aimed c" "ready A i L st c" "poll_device i an st deadline c rig = (pc', rig')"
  shows "pc_ok A i L pc'" "task_of pc' = Some (ct_task c)"
    "\<exists>es. rg_log rig' = rg_log rig @ map (Pair i) es \<and> set es \<subseteq> {Aborted (device_of st)}"
    "rg_stop rig' = rg_stop rig" "rg_hardware rig' = rg_hardware rig" "rg_capture rig' = rg_capture rig"
  using assms
  by (auto simp: poll_device_def fail_def after_start_ok after_start_task split: option.splits if_splits
      intro: exI [of _ "[]"] exI [of _ "[x]" for x])

lemma safe_aim_sensed:
  "checkSlewSafety A (ct_ra c) (ct_dec c) (ap_MinAltitudeDeg (ct_task c)) alt az now \<Longrightarrow>
     safe_aim A i (L @ [(i, Sensed alt az now)]) c"
  by (auto simp: safe_aim_def)

text \<open>One step of a handler: its new program counter is fit for its task, and the events it adds to the log
  are permitted.\<close>

lemma step_keeps:
  assumes "handler_step A i an pc rig = Some (pc', rig')" "pc_ok A i (rg_log rig) pc"
    "\<And>t. task_of pc = Some t \<Longrightarrow> commanded A cmd t"
  shows "(\<exists>es. rg_log rig' = rg_log rig @ map (Pair i) es \<and> events_ok A cmd i (rg_log rig) es) \<and>
    pc_ok A i (rg_log rig') pc' \<and> (\<forall>t. task_of pc' = Some t \<longrightarrow> commanded A cmd t)"
proof (cases pc)
  case (PollDevice st d c)
  with assms have p: "poll_device i an st d c rig = (pc', rig')" "aimed c" "ready A i (rg_log rig) st c" by simp_all
  from poll_device_ok(3) [OF p(2,3,1)] obtain es where es: "rg_log rig' = rg_log rig @ map (Pair i) es"
    "set es \<subseteq> {Aborted (device_of st)}" by blast
  have "set es \<subseteq> {Aborted d} \<Longrightarrow> events_ok A cmd i L es" for L d by (induction es arbitrary: L) auto
  with es(2) have "events_ok A cmd i L es" for L by blast
  moreover have "pc_ok A i (rg_log rig') pc'"
    by (rule pc_ok_mono [OF poll_device_ok(1) [OF p(2,3,1)]]) (simp add: es)
  ultimately show ?thesis using assms(3) poll_device_ok(2) [OF p(2,3,1)] PollDevice es by auto
next
  case (Override c)
  with assms have p: "override_step A c rig = (pc', rig')" "aimed c" by simp_all
  from override_step_ok [OF p(2,1)] show ?thesis using assms(3) Override
    by (auto intro!: exI [of _ "[]"])
next
  case (Issue st c)
  with assms have p: "aimed c" "ready A i (rg_log rig) st c" "commanded A cmd (ct_task c)" by simp_all
  from start_event_ok [OF this] show ?thesis using assms(1) Issue p
    by (auto simp: fail_def split: if_splits intro!: exI [of _ "[start_event st c]"] intro: pc_ok_mono)
next
  case (AbortDevice d err k)
  show ?thesis
  proof (cases d)
    case FilterWheel
    then show ?thesis using assms AbortDevice
      by (cases "ag_HasWheel A") (auto simp: Let_def split: if_splits option.splits
          intro!: exI [of _ "(if ag_HasWheel A then [Aborted FilterWheel] else []) @ [AbortReturned]"])
  qed (use assms AbortDevice in \<open>auto intro!: exI [of _ "[Aborted d]"]\<close>)
next
  case (Gate c)
  then show ?thesis using assms
    by (auto simp: fail_def split: if_splits prod.splits intro!: safe_aim_sensed
        exI [of _ "[Sensed (fst (sense an)) (snd (sense an)) (an_now an)]"])
qed (use assms in \<open>auto simp: fail_def aimed_def exposure_ok_def split: if_splits option.splits list.splits sum.splits prod.splits
      intro: exI [of _ "[]"] exI [of _ "[e]" for e]\<close>)

section \<open>Stopping\<close>

text \<open>The stop flag as the log tells it, and the time between the return of an abort and the next
  preparation of an assignment.\<close>

fun stop_event :: "nat \<times> device_event \<Rightarrow> bool \<Rightarrow> bool" where
  "stop_event (_, StopRequested) b = True"
| "stop_event (_, StopCleared) b = False"
| "stop_event _ b = b"

definition stop_after :: "(nat \<times> device_event) list \<Rightarrow> bool" where
  "stop_after L = fold stop_event L False"

definition halted :: "(nat \<times> device_event) list \<Rightarrow> bool" where
  "halted L \<longleftrightarrow> (\<exists>a i b c. L = a @ (i, StopRequested) # b @ (i, AbortReturned) # c \<and>
     StopCleared \<notin> snd ` set (b @ c))"

fun is_start :: "device_event \<Rightarrow> bool" where
  "is_start (SlewTo _ _) = True"
| "is_start (MoveWheel _) = True"
| "is_start (StartExposure _) = True"
| "is_start _ = False"

fun holds_hardware :: "pc \<Rightarrow> bool" where
  "holds_hardware (Check _ _) = True"
| "holds_hardware (Issue _ _) = True"
| "holds_hardware (AbortDevice _ _ _) = True"
| "holds_hardware _ = False"

fun in_capture :: "pc \<Rightarrow> bool" where
  "in_capture (Prepare _) = False"
| "in_capture (Enter _) = False"
| "in_capture (Process _ _) = False"
| "in_capture (RequestStop _) = False"
| "in_capture (LockAbort _) = False"
| "in_capture (AbortDevice _ _ _) = False"
| "in_capture (Finished _) = False"
| "in_capture _ = True"

fun issuing :: "pc \<Rightarrow> bool" where
  "issuing (Issue _ _) = True"
| "issuing _ = False"

lemma issuing_holds: "issuing pc \<Longrightarrow> holds_hardware pc"
  by (cases pc) auto

lemma stop_event_True: "e \<noteq> (i, StopCleared) \<Longrightarrow> snd e \<noteq> StopCleared \<Longrightarrow> stop_event e True"
  by (cases e; cases "snd e") auto

lemma fold_stop_True: "StopCleared \<notin> snd ` set L \<Longrightarrow> fold stop_event L True"
proof (induction L)
  case (Cons e L)
  then have "stop_event e True = True" using stop_event_True [of e] by fastforce
  with Cons show ?case by simp
qed simp

lemma halted_stop:
  assumes "halted L" shows "stop_after L"
proof -
  obtain a i b c where s: "L = a @ (i, StopRequested) # b @ (i, AbortReturned) # c" "StopCleared \<notin> snd ` set (b @ c)"
    using assms unfolding halted_def by blast
  have "fold stop_event (b @ (i, AbortReturned) # c) True" by (rule fold_stop_True) (use s(2) in auto)
  then show ?thesis by (simp add: stop_after_def s(1))
qed

lemma stop_after_snoc [simp]: "stop_after (L @ [e]) = stop_event e (stop_after L)"
  by (simp add: stop_after_def)

lemma halted_snoc:
  assumes "halted (L @ [(i, e)])" shows "halted L \<or> e = AbortReturned"
proof -
  from assms obtain a j b c where s: "L @ [(i, e)] = a @ (j, StopRequested) # b @ (j, AbortReturned) # c"
    "StopCleared \<notin> snd ` set (b @ c)" unfolding halted_def by blast
  show ?thesis
  proof (cases c rule: rev_cases)
    case Nil
    with s show ?thesis by auto
  next
    case (snoc c' z)
    with s show ?thesis unfolding halted_def by (auto intro: exI [of _ a] exI [of _ j] exI [of _ b] exI [of _ c'])
  qed
qed

lemma halted_append: "halted (L @ map (Pair i) es) \<Longrightarrow> halted L \<or> AbortReturned \<in> set es"
proof (induction es rule: rev_induct)
  case (snoc e es)
  then have "halted ((L @ map (Pair i) es) @ [(i, e)])" by simp
  from halted_snoc [OF this] snoc.IH show ?case by auto
qed simp

lemma poll_device_locks:
  assumes "poll_device i an st deadline c rig = (pc', rig')"
  shows "\<not> holds_hardware pc'" "in_capture pc'" "\<not> issuing pc'" "rg_hardware rig' = rg_hardware rig" "rg_capture rig' = rg_capture rig"
    "rg_stop rig' = rg_stop rig" "rg_log rig' = rg_log rig \<or> rg_log rig' = rg_log rig @ [(i, Aborted (device_of st))]"
  using assms
  by (auto simp: poll_device_def fail_def after_start_def split: option.splits if_splits start.splits)

lemma override_step_locks:
  assumes "override_step A c rig = (pc', rig')"
  shows "\<not> holds_hardware pc'" "in_capture pc'" "\<not> issuing pc'" "rg_hardware rig' = rg_hardware rig" "rg_capture rig' = rg_capture rig"
    "rg_stop rig' = rg_stop rig" "rg_log rig' = rg_log rig"
  using assms
  by (auto simp: override_step_def fail_def Let_def split: option.splits if_splits sum.splits prod.splits)

text \<open>One step and the locks: a handler that holds the hardware lock, or is in its capture, took the lock itself.\<close>

lemma step_locks:
  assumes "handler_step A i an pc rig = Some (pc', rig')"
    "holds_hardware pc \<Longrightarrow> rg_hardware rig = Some i" "in_capture pc \<Longrightarrow> rg_capture rig = Some i"
  shows "holds_hardware pc' \<Longrightarrow> rg_hardware rig' = Some i" "in_capture pc' \<Longrightarrow> rg_capture rig' = Some i"
    "j \<noteq> i \<Longrightarrow> rg_hardware rig = Some j \<Longrightarrow> rg_hardware rig' = Some j"
    "j \<noteq> i \<Longrightarrow> rg_capture rig = Some j \<Longrightarrow> rg_capture rig' = Some j"
proof -
  have "(holds_hardware pc' \<longrightarrow> rg_hardware rig' = Some i) \<and> (in_capture pc' \<longrightarrow> rg_capture rig' = Some i) \<and>
    (j \<noteq> i \<longrightarrow> (rg_hardware rig = Some j \<longrightarrow> rg_hardware rig' = Some j) \<and>
      (rg_capture rig = Some j \<longrightarrow> rg_capture rig' = Some j))"
  proof (cases pc)
    case (PollDevice st d c)
    with assms have "poll_device i an st d c rig = (pc', rig')" by simp
    from poll_device_locks [OF this] show ?thesis using assms(3) PollDevice by auto
  next
    case (Override c)
    with assms have "override_step A c rig = (pc', rig')" by simp
    from override_step_locks [OF this] show ?thesis using assms(3) Override by auto
  next
    case (AbortDevice d err k)
    then show ?thesis using assms by (cases d) (auto simp: Let_def split: if_splits option.splits)
  qed (use assms in \<open>auto simp: fail_def split: if_splits option.splits list.splits sum.splits prod.splits\<close>)
  then show "holds_hardware pc' \<Longrightarrow> rg_hardware rig' = Some i" "in_capture pc' \<Longrightarrow> rg_capture rig' = Some i"
    "j \<noteq> i \<Longrightarrow> rg_hardware rig = Some j \<Longrightarrow> rg_hardware rig' = Some j"
    "j \<noteq> i \<Longrightarrow> rg_capture rig = Some j \<Longrightarrow> rg_capture rig' = Some j" by blast+
qed

lemma stop_after_two [simp]: "stop_after (L @ [x, y]) = stop_event y (stop_event x (stop_after L))"
  by (simp add: stop_after_def)

lemma step_stop:
  assumes "handler_step A i an pc rig = Some (pc', rig')" "rg_stop rig = stop_after (rg_log rig)"
  shows "rg_stop rig' = stop_after (rg_log rig')"
proof (cases pc)
  case (PollDevice st d c)
  with assms have "poll_device i an st d c rig = (pc', rig')" by simp
  from poll_device_locks(6,7) [OF this] show ?thesis using assms(2) by (elim disjE) simp_all
next
  case (Override c)
  with assms have "override_step A c rig = (pc', rig')" by simp
  from override_step_locks(6,7) [OF this] show ?thesis using assms(2) by simp
next
  case (AbortDevice d err k)
  then show ?thesis using assms by (cases d) (auto simp: Let_def split: if_splits option.splits)
next
  case (Issue st c)
  then show ?thesis using assms by (cases st) (auto simp: start_event_def)
qed (use assms in \<open>auto simp: fail_def split: if_splits option.splits list.splits sum.splits prod.splits\<close>)

text \<open>A handler only starts a device after a check under the lock, and a return of an abort is the work
  of a handler that held the lock.\<close>

lemma step_issue:
  assumes "handler_step A i an pc rig = Some (pc', rig')"
  shows "issuing pc' \<Longrightarrow> \<not> rg_stop rig" "\<not> issuing pc \<Longrightarrow> rg_log rig' = rg_log rig @ map (Pair i) es \<Longrightarrow> list_all (\<lambda>e. \<not> is_start e) es"
    "issuing pc \<Longrightarrow> \<exists>e. rg_log rig' = rg_log rig @ [(i, e)] \<and> e \<noteq> AbortReturned"
    "rg_log rig' = rg_log rig @ map (Pair i) es \<Longrightarrow> AbortReturned \<in> set es \<Longrightarrow> holds_hardware pc"
    "issuing pc' \<Longrightarrow> rg_log rig' = rg_log rig"
proof -
  have "(issuing pc' \<longrightarrow> \<not> rg_stop rig) \<and>
    (\<not> issuing pc \<longrightarrow> rg_log rig' = rg_log rig @ map (Pair i) es \<longrightarrow> list_all (\<lambda>e. \<not> is_start e) es) \<and>
    (issuing pc \<longrightarrow> (\<exists>e. rg_log rig' = rg_log rig @ [(i, e)] \<and> e \<noteq> AbortReturned)) \<and>
    (rg_log rig' = rg_log rig @ map (Pair i) es \<longrightarrow> AbortReturned \<in> set es \<longrightarrow> holds_hardware pc) \<and>
    (issuing pc' \<longrightarrow> rg_log rig' = rg_log rig)"
  proof (cases pc)
    case (PollDevice st d c)
    with assms have "poll_device i an st d c rig = (pc', rig')" by simp
    from poll_device_locks [OF this] show ?thesis using PollDevice by (auto simp: map_eq_Cons_conv)
  next
    case (Override c)
    with assms have "override_step A c rig = (pc', rig')" by simp
    from override_step_locks [OF this] show ?thesis using Override by auto
  next
    case (AbortDevice d err k)
    then show ?thesis using assms
      by (cases d) (auto simp: Let_def map_eq_Cons_conv Cons_eq_map_conv split: if_splits option.splits)
  next
    case (Issue st c)
    then show ?thesis using assms
      by (cases st) (auto simp: start_event_def fail_def Cons_eq_map_conv split: if_splits)
  qed (use assms in \<open>auto simp: fail_def Cons_eq_map_conv split: if_splits option.splits list.splits sum.splits prod.splits\<close>)
  then show "issuing pc' \<Longrightarrow> \<not> rg_stop rig"
    "\<not> issuing pc \<Longrightarrow> rg_log rig' = rg_log rig @ map (Pair i) es \<Longrightarrow> list_all (\<lambda>e. \<not> is_start e) es"
    "issuing pc \<Longrightarrow> \<exists>e. rg_log rig' = rg_log rig @ [(i, e)] \<and> e \<noteq> AbortReturned"
    "rg_log rig' = rg_log rig @ map (Pair i) es \<Longrightarrow> AbortReturned \<in> set es \<Longrightarrow> holds_hardware pc"
    "issuing pc' \<Longrightarrow> rg_log rig' = rg_log rig"
    by blast+
qed

section \<open>The invariant of all runs\<close>

definition log_ok :: "agent \<Rightarrow> command list \<Rightarrow> (nat \<times> device_event) list \<Rightarrow> bool" where
  "log_ok A cmds L \<longleftrightarrow> (\<forall>pre i e post. L = pre @ (i, e) # post \<longrightarrow>
     i < length cmds \<and> event_ok A (cmds ! i) i pre e \<and> (is_start e \<longrightarrow> \<not> halted pre))"

definition handler_ok :: "agent \<Rightarrow> rig \<Rightarrow> nat \<Rightarrow> command \<times> pc \<Rightarrow> bool" where
  "handler_ok A rig i h \<longleftrightarrow> pc_ok A i (rg_log rig) (snd h) \<and> (\<forall>t. task_of (snd h) = Some t \<longrightarrow> commanded A (fst h) t) \<and>
     (holds_hardware (snd h) \<longrightarrow> rg_hardware rig = Some i) \<and> (in_capture (snd h) \<longrightarrow> rg_capture rig = Some i) \<and>
     (issuing (snd h) \<longrightarrow> \<not> halted (rg_log rig))"

definition pier_ok :: "agent \<Rightarrow> pier \<Rightarrow> bool" where
  "pier_ok A s \<longleftrightarrow> log_ok A (map fst (pr_handlers s)) (rg_log (pr_rig s)) \<and>
     (\<forall>i < length (pr_handlers s). handler_ok A (pr_rig s) i (pr_handlers s ! i)) \<and>
     rg_stop (pr_rig s) = stop_after (rg_log (pr_rig s))"

lemma log_ok_snoc:
  assumes "log_ok A cmds L" "i < length cmds" "event_ok A (cmds ! i) i L e" "is_start e \<Longrightarrow> \<not> halted L"
  shows "log_ok A cmds (L @ [(i, e)])"
  unfolding log_ok_def
proof (intro allI impI)
  fix pre j x post assume s: "L @ [(i, e)] = pre @ (j, x) # post"
  show "j < length cmds \<and> event_ok A (cmds ! j) j pre x \<and> (is_start x \<longrightarrow> \<not> halted pre)"
  proof (cases post rule: rev_cases)
    case Nil
    with s assms show ?thesis by simp
  next
    case (snoc post' y)
    with s have "L = pre @ (j, x) # post'" by simp
    with assms(1) show ?thesis unfolding log_ok_def by blast
  qed
qed

lemma log_ok_append:
  assumes "log_ok A cmds L" "i < length cmds" "events_ok A (cmds ! i) i L es"
    "list_all (\<lambda>e. \<not> is_start e) es \<or> (length es = 1 \<and> \<not> halted L)"
  shows "log_ok A cmds (L @ map (Pair i) es)"
  using assms
proof (induction es arbitrary: L)
  case (Cons e es)
  have "log_ok A cmds (L @ [(i, e)])" using Cons.prems by (intro log_ok_snoc) auto
  with Cons.IH [of "L @ [(i, e)]"] Cons.prems show ?case by auto
qed simp

lemma log_ok_receive: "log_ok A cmds L \<Longrightarrow> log_ok A (cmds @ [c]) L"
  unfolding log_ok_def by (metis length_append_singleton less_SucI nth_append)

lemma dispatch_ok:
  assumes "handleCommandMessage A now now' raw = Some (cmd, pc)"
  shows "pc_ok A i L pc" "task_of pc = Some t \<Longrightarrow> commanded A cmd t" "\<not> holds_hardware pc" "\<not> in_capture pc" "\<not> issuing pc"
  using assms
  by (auto simp: handleCommandMessage_def dispatch_def commanded_def split: option.splits if_splits)

lemma work_ok:
  assumes ok: "pier_ok A \<lparr>pr_rig = rig, pr_handlers = hs\<rparr>" and i: "i < length hs" "hs ! i = (cmd, pc)"
    and st: "handler_step A i an pc rig = Some (pc', rig')"
  shows "pier_ok A \<lparr>pr_rig = rig', pr_handlers = hs[i := (cmd, pc')]\<rparr>"
proof -
  have h: "handler_ok A rig j (hs ! j)" if "j < length hs" for j using ok that by (simp add: pier_ok_def)
  from h [OF i(1)] i(2) have hi: "pc_ok A i (rg_log rig) pc" "\<And>t. task_of pc = Some t \<Longrightarrow> commanded A cmd t"
    "holds_hardware pc \<Longrightarrow> rg_hardware rig = Some i" "in_capture pc \<Longrightarrow> rg_capture rig = Some i"
    "issuing pc \<Longrightarrow> \<not> halted (rg_log rig)" by (auto simp: handler_ok_def)
  from step_keeps [OF st hi(1,2)] obtain es where es: "rg_log rig' = rg_log rig @ map (Pair i) es"
    "events_ok A cmd i (rg_log rig) es" "pc_ok A i (rg_log rig') pc'" "\<forall>t. task_of pc' = Some t \<longrightarrow> commanded A cmd t"
    by blast
  have cmds: "map fst (hs[i := (cmd, pc')]) = map fst hs" using i by (simp add: map_update list_update_same_conv)
  have "list_all (\<lambda>e. \<not> is_start e) es \<or> (length es = 1 \<and> \<not> halted (rg_log rig))"
    using step_issue(2,3) [OF st] hi(5) es(1) by (cases "issuing pc") auto
  with ok es(2) i have "log_ok A (map fst hs) (rg_log rig')"
    unfolding es(1) by (intro log_ok_append) (auto simp: pier_ok_def)
  moreover have "rg_stop rig' = stop_after (rg_log rig')" using ok by (intro step_stop [OF st]) (simp add: pier_ok_def)
  moreover have "handler_ok A rig' i (cmd, pc')"
  proof -
    have "\<not> halted (rg_log rig')" if "issuing pc'"
      using step_issue(1,5) [OF st that] halted_stop ok by (auto simp: pier_ok_def)
    then show ?thesis using es step_locks(1,2) [OF st hi(3,4)] by (auto simp: handler_ok_def)
  qed
  moreover have "handler_ok A rig' j (hs ! j)" if "j < length hs" "j \<noteq> i" for j
  proof -
    have hj: "handler_ok A rig j (hs ! j)" by (rule h [OF that(1)])
    have "\<not> halted (rg_log rig')" if "issuing (snd (hs ! j))"
    proof
      assume "halted (rg_log rig')"
      then have "halted (rg_log rig) \<or> AbortReturned \<in> set es" unfolding es(1) by (rule halted_append)
      moreover have "\<not> halted (rg_log rig)" using hj that by (simp add: handler_ok_def)
      ultimately have "holds_hardware pc" using step_issue(4) [OF st es(1)] by blast
      then have "rg_hardware rig = Some i" by (rule hi(3))
      moreover have "rg_hardware rig = Some j" using hj that issuing_holds by (auto simp: handler_ok_def)
      ultimately show False using \<open>j \<noteq> i\<close> by simp
    qed
    moreover have "pc_ok A j (rg_log rig') (snd (hs ! j))"
      by (rule pc_ok_mono [of _ _ "rg_log rig"]) (use hj es(1) in \<open>auto simp: handler_ok_def\<close>)
    ultimately show ?thesis using hj step_locks(3,4) [OF st hi(3,4) that(2)] by (auto simp: handler_ok_def)
  qed
  ultimately show ?thesis using i cmds by (simp add: pier_ok_def nth_list_update)
qed

lemma pier_ok_exec:
  assumes "pier_ok A s" "pier_exec A c s = Some s'"
  shows "pier_ok A s'"
proof (cases c)
  case (Receive now now' raw)
  show ?thesis
  proof (cases "handleCommandMessage A now now' raw")
    case None
    with assms Receive show ?thesis by simp
  next
    case (Some h)
    with dispatch_ok [of A now now' raw "fst h" "snd h"] have "handler_ok A (pr_rig s) i h" for i
      by (simp add: handler_ok_def)
    with assms Receive Some show ?thesis
      by (auto simp: pier_ok_def log_ok_receive nth_append less_Suc_eq)
  qed
next
  case (Work i an)
  obtain rig hs where s: "s = \<lparr>pr_rig = rig, pr_handlers = hs\<rparr>" by (cases s) auto
  from assms(2) Work s obtain cmd pc pc' rig' where w: "i < length hs" "hs ! i = (cmd, pc)"
    "handler_step A i an pc rig = Some (pc', rig')" "s' = \<lparr>pr_rig = rig', pr_handlers = hs[i := (cmd, pc')]\<rparr>"
    by (auto split: if_splits option.splits prod.splits)
  show ?thesis unfolding w(4) by (rule work_ok [OF assms(1) [unfolded s] w(1-3)])
next
  case (Hear D e)
  with assms show ?thesis by (auto simp: pier_ok_def handler_ok_def)
qed

lemma pier_ok_runs: "pier_runs A s \<Longrightarrow> pier_ok A s"
proof (induction rule: pier_runs.induct)
  case (boot code)
  then show ?case by (simp add: pier_ok_def log_ok_def idle_rig_def stop_after_def)
qed (rule pier_ok_exec)

lemma captures_exclusive:
  assumes "pier_runs A s" "i < length (pr_handlers s)" "j < length (pr_handlers s)"
    "in_capture (snd (pr_handlers s ! i))" "in_capture (snd (pr_handlers s ! j))"
  shows "i = j"
proof -
  have h: "handler_ok A (pr_rig s) k (pr_handlers s ! k)" if "k < length (pr_handlers s)" for k
    using pier_ok_runs [OF assms(1)] that by (simp add: pier_ok_def)
  show ?thesis using h [OF assms(2)] h [OF assms(3)] assms(4,5) by (simp add: handler_ok_def)
qed

text \<open>The comment in \<open>ExecuteAssignTask\<close> says that an unknown position only skips the check of the slew
  path; with an obstruction mask the target is rejected.\<close>

lemma unknown_position_rejected:
  assumes "sc_ObstructionMask (ag_Safety A) \<noteq> []" "an_alt an = None"
  shows "\<exists>rig'. handler_step A i an (Gate c) rig = Some (fail c (unsafe_target A (ct_ra c) (ct_dec c) (an_now an)), rig')"
  using assms by (simp add: sense_def checkSlewSafety_def Let_def)

section \<open>Properties\<close>

text \<open>C15: Whatever commands arrive, however their handlers interleave and whatever the devices answer,
  hardware is only set in motion on behalf of a verified command: a slew goes to its target after
  the safety check passed with the position and time read in the same capture; the filter wheel
  moves to the position of a required filter; an exposure is at most the task's.\<close>

theorem hardware_starts_gated:
  assumes "pier_runs A s" "rg_log (pr_rig s) = pre @ (i, e) # post" "cmd = fst (pr_handlers s ! i)"
  shows "(\<forall>r d. e = SlewTo r d \<longrightarrow> (\<exists>t ra alt az now. commanded A cmd t \<and> ap_TargetRA t = Some ra \<and>
       ap_TargetDec t = Some d \<and> r = fdiv ra (Fin 15) \<and> (i, Sensed alt az now) \<in> set pre \<and>
       checkSlewSafety A ra d (ap_MinAltitudeDeg t) alt az now)) \<and>
    (\<forall>idx. e = MoveWheel idx \<longrightarrow> (\<exists>t name. commanded A cmd t \<and> 0 \<le> idx \<and>
       (i, LookedUp name idx) \<in> set pre \<and> name \<in> set (ap_RequiredFilters t))) \<and>
    (\<forall>x. e = StartExposure x \<longrightarrow> (\<exists>t. commanded A cmd t \<and> \<not> flt (base_exposure t) x))"
proof -
  have "log_ok A (map fst (pr_handlers s)) (rg_log (pr_rig s))"
    using pier_ok_runs [OF assms(1)] by (simp add: pier_ok_def)
  with assms(2) have "i < length (pr_handlers s)" "event_ok A (map fst (pr_handlers s) ! i) i pre e"
    unfolding log_ok_def by force+
  with assms(3) have "event_ok A cmd i pre e" by simp
  then show ?thesis by (auto simp: exposure_ok_def)
qed

text \<open>C16: When an abort has returned, it has called the abort of every device, and no device is started
  after it until a new assignment has been prepared since the abort was requested.\<close>

theorem abort_holds_until_assignment:
  assumes "pier_runs A s"
    "rg_log (pr_rig s) = a @ (i, StopRequested) # b @ (i, AbortReturned) # c @ (j, e) # d"
  shows "(i, Aborted Mount) \<in> set (a @ b) \<and> (i, Aborted Camera) \<in> set (a @ b) \<and>
    (ag_HasWheel A \<longrightarrow> (i, Aborted FilterWheel) \<in> set (a @ b)) \<and>
    (is_start e \<longrightarrow> StopCleared \<in> snd ` set (b @ c))"
proof -
  let ?L = "rg_log (pr_rig s)"
  have ok: "event_ok A (map fst (pr_handlers s) ! k) k pre x \<and> (is_start x \<longrightarrow> \<not> halted pre)"
    if "?L = pre @ (k, x) # post" for pre k x post
    using pier_ok_runs [OF assms(1)] that unfolding pier_ok_def log_ok_def by blast
  have "?L = (a @ (i, StopRequested) # b) @ (i, AbortReturned) # (c @ (j, e) # d)" using assms(2) by simp
  from ok [OF this] have "(i, Aborted Mount) \<in> set (a @ b) \<and> (i, Aborted Camera) \<in> set (a @ b) \<and>
      (ag_HasWheel A \<longrightarrow> (i, Aborted FilterWheel) \<in> set (a @ b))" by auto
  moreover have "?L = (a @ (i, StopRequested) # b @ (i, AbortReturned) # c) @ (j, e) # d" using assms(2) by simp
  from ok [OF this] have "is_start e \<longrightarrow> StopCleared \<in> snd ` set (b @ c)" unfolding halted_def by blast
  ultimately show ?thesis by blast
qed

text \<open>No wait for a device lasts: when the polls of a wait are at least \<open>delta\<close> apart, one of the first
  \<open>(deadline - start) div delta + 2\<close> polls leaves the loop, whatever the device answers.\<close>

theorem waits_end:
  assumes "0 < delta" "\<And>k. an_now (an k) + delta \<le> an_now (an (Suc k))"
  shows "\<exists>k \<le> nat ((deadline - an_now (an 0)) div delta + 1).
    fst (poll_device i (an k) st deadline c (rig k)) \<noteq> PollStop st deadline c"
proof -
  define k where "k = nat ((deadline - an_now (an 0)) div delta + 1)"
  have "an_now (an 0) + int n * delta \<le> an_now (an n)" for n
  proof (induction n)
    case (Suc n)
    with assms(2) [of n] show ?case by (simp add: algebra_simps)
  qed simp
  then have "an_now (an 0) + int k * delta \<le> an_now (an k)" .
  moreover have "deadline - an_now (an 0) < ((deadline - an_now (an 0)) div delta + 1) * delta"
    using assms(1) by (metis add.commute div_mult_mod_eq distrib_right mult_1 add_less_cancel_left pos_mod_bound)
  moreover have "((deadline - an_now (an 0)) div delta + 1) * delta \<le> int k * delta"
    using assms(1) by (intro mult_right_mono) (auto simp: k_def)
  ultimately have "deadline < an_now (an k)" by linarith
  then have "fst (poll_device i (an k) st deadline c (rig k)) \<noteq> PollStop st deadline c"
    by (auto simp: poll_device_def fail_def after_start_def split: option.splits start.splits)
  then show ?thesis unfolding k_def by blast
qed

section \<open>A run\<close>

definition demo_task :: received_assign where
  "demo_task = demo_assign\<lparr>ap_RequiredFilters := [], ap_PierCode := None\<rparr>"

definition demo_capture :: capture where
  "demo_capture = \<lparr>ct_task = demo_task, ct_ra = Fin 150, ct_dec = Fin 20, ct_duration = Fin 60, ct_filter = []\<rparr>"

definition demo_agent :: agent where
  "demo_agent = \<lparr>ag_NodeID = ''n1'', ag_HasWheel = False,
     ag_Safety = \<lparr>sc_SiteLat = Some (Fin 0), sc_SiteLon = Some (Fin 0), sc_MountLimits = None, sc_HorizonProfile = None,
       sc_ObstructionMask = []\<rparr>,
     ag_CaptureDir = ''d'', ag_SlewTimeout = 2 * minute, ag_ExposureTimeout = 30 * minute, ag_math = demo_math,
     ag_codec = demo_codec, ag_hmac = \<lambda>k m. ''s'', ag_secret = ''k'', ag_parse_time = \<lambda>s. Some 0, ag_stamp = \<lambda>t. ''t'',
     ag_decode_command = \<lambda>raw. Some \<lparr>cmd_Type = raw, cmd_NodeID = ''n1'', cmd_Payload = [], cmd_SentAt = [], cmd_Sig = ''s''\<rparr>,
     ag_decode_assign = \<lambda>s. Some demo_task, ag_decode_preempt = \<lambda>s. Some (7, demo_task\<lparr>ap_TaskID := 8\<rparr>)\<rparr>"

definition demo_answer :: "bool \<Rightarrow> answers" where
  "demo_answer busy = \<lparr>an_now = 0, an_alt = Some (Fin 50), an_az = Some (Fin 90), an_moving = Some busy,
     an_ready = Some False, an_index = None, an_fails = False, an_run = demo_answers\<rparr>"

lemma demo_check: "checkSlewSafety demo_agent ra dec None alt az now"
  by (simp add: checkSlewSafety_def demo_agent_def PassesAltAzSafety_def below_opt_def ValidateMountLimits_def
      AboveHorizonProfile_def case_prod_beta split: option.split)

lemma demo_agent_fields:
  "ag_HasWheel demo_agent = False" "ag_SlewTimeout demo_agent = 2 * minute" "0 \<le> minute"
  by (simp_all add: demo_agent_def)

lemma demo_task_fields:
  "ap_TargetRA demo_task = Some (Fin 150)" "ap_TargetDec demo_task = Some (Fin 20)" "ap_MinAltitudeDeg demo_task = None"
  "ap_RequiredFilters demo_task = []" "ap_IntegrationTime demo_task = Fin 60"
  by (simp_all add: demo_task_def demo_assign_def)

lemma demo_answer_fields:
  "an_now (demo_answer b) = 0" "an_alt (demo_answer b) = Some (Fin 50)" "an_az (demo_answer b) = Some (Fin 90)"
  "an_moving (demo_answer b) = Some b" "an_fails (demo_answer b) = False"
  by (simp_all add: demo_answer_def)

lemma demo_receive:
  "handleCommandMessage demo_agent 0 0 ''assign_task'' = Some (\<lparr>cmd_Type = ''assign_task'', cmd_NodeID = ''n1'',
     cmd_Payload = [], cmd_SentAt = [], cmd_Sig = ''s''\<rparr>, Prepare demo_task)"
  "handleCommandMessage demo_agent 0 0 ''preempt_task'' = Some (\<lparr>cmd_Type = ''preempt_task'', cmd_NodeID = ''n1'',
     cmd_Payload = [], cmd_SentAt = [], cmd_Sig = ''s''\<rparr>, RequestStop (Some (demo_task\<lparr>ap_TaskID := 8\<rparr>)))"
  by (simp_all add: handleCommandMessage_def verified_def dispatch_def demo_agent_def VerifyCommandSignature_def
      SignCommandPayload_def CommandMaxAge_def)

text \<open>
  The handler of an assignment slews; a preempting command aborts the slew and prepares its own
  assignment, which clears the stop flag before the first handler looks at it; the first handler then
  sees a mount at rest and exposes, and the preempting one waits for it.
\<close>

definition demo_schedule :: "choice list" where
  "demo_schedule =
     Receive 0 0 ''assign_task'' # replicate 11 (Work 0 (demo_answer True)) @
     Receive 0 0 ''preempt_task'' # replicate 6 (Work 1 (demo_answer False)) @
     replicate 7 (Work 0 (demo_answer False))"

definition demo_log :: "(nat \<times> device_event) list" where
  "demo_log = [(0, StopCleared), (0, Sensed (Some (Fin 50)) (Some (Fin 90)) 0), (0, SlewTo (fdiv (Fin 150) (Fin 15)) (Fin 20)),
     (1, StopRequested), (1, Aborted Mount), (1, Aborted Camera), (1, AbortReturned), (1, StopCleared),
     (0, StartExposure (Fin 60))]"

lemma demo_runs:
  "\<exists>s. pier_run demo_agent demo_schedule \<lparr>pr_rig = idle_rig None, pr_handlers = []\<rparr> = Some s \<and>
     rg_log (pr_rig s) = demo_log \<and> length (pr_handlers s) = 2 \<and>
     snd (pr_handlers s ! 1) = Enter (demo_task\<lparr>ap_TaskID := 8\<rparr>)"
  by (simp add: demo_schedule_def eval_nat_numeral demo_receive demo_check demo_agent_fields demo_task_fields demo_answer_fields
      idle_rig_def sense_def fail_def start_event_def timeout_of_def poll_device_def still_busy_def after_start_def
      override_step_def takePendingCapture_def base_exposure_def fle_def demo_log_def)

lemma demo_reached:
  "\<exists>s. pier_runs demo_agent s \<and> rg_log (pr_rig s) = demo_log \<and> snd (pr_handlers s ! 1) = Enter (demo_task\<lparr>ap_TaskID := 8\<rparr>)"
  using demo_runs pier_run_runs [OF pier_runs.boot] by blast

text \<open>The preempted capture goes on: after the abort of a preempting command has returned and the stop
  flag is cleared for its own task, the handler of the old task starts an exposure, while the new
  task still waits for the capture lock.\<close>

lemma preempted_capture_exposes:
  "\<exists>s before between. pier_runs demo_agent s \<and>
     rg_log (pr_rig s) = before @ (1, AbortReturned) # between @ [(0, StartExposure (Fin 60))] \<and>
     snd (pr_handlers s ! 1) = Enter (demo_task\<lparr>ap_TaskID := 8\<rparr>)"
proof -
  have "demo_log = take 6 demo_log @ (1, AbortReturned) # [(1, StopCleared)] @ [(0, StartExposure (Fin 60))]"
    by (simp add: demo_log_def)
  with demo_reached show ?thesis by metis
qed

theorem hardware_starts_gated_witness:
  "\<exists>s t ra alt az now. pier_runs demo_agent s \<and> commanded demo_agent (fst (pr_handlers s ! 0)) t \<and> ap_TargetRA t = Some ra \<and>
     checkSlewSafety demo_agent ra (Fin 20) (ap_MinAltitudeDeg t) alt az now"
proof -
  obtain s where s: "pier_runs demo_agent s" "rg_log (pr_rig s) = demo_log" using demo_reached by blast
  then have l: "rg_log (pr_rig s) = take 2 demo_log @ (0, SlewTo (fdiv (Fin 150) (Fin 15)) (Fin 20)) # drop 3 demo_log"
    by (simp add: demo_log_def)
  from hardware_starts_gated [OF s(1) l refl] s(1) show ?thesis by blast
qed

theorem abort_holds_until_assignment_witness:
  "\<exists>s. pier_runs demo_agent s \<and> (1, Aborted Mount) \<in> set (rg_log (pr_rig s)) \<and>
     StopCleared \<in> snd ` set (drop 3 (rg_log (pr_rig s)))"
proof -
  obtain s where s: "pier_runs demo_agent s" "rg_log (pr_rig s) = demo_log" using demo_reached by blast
  have l: "rg_log (pr_rig s) = take 3 demo_log @ (1, StopRequested) # [(1, Aborted Mount), (1, Aborted Camera)] @
      (1, AbortReturned) # [(1, StopCleared)] @ (0, StartExposure (Fin 60)) # []"
    using s(2) by (simp add: demo_log_def)
  from abort_holds_until_assignment [OF s(1) l] s show ?thesis
    by (intro exI [of _ s]) (simp add: demo_log_def)
qed

theorem waits_end_witness:
  "\<exists>k \<le> 6. fst (poll_device 0 ((demo_answer True)\<lparr>an_now := int k\<rparr>) Slew 5 demo_capture (idle_rig None))
     \<noteq> PollStop Slew 5 demo_capture"
  using waits_end [of 1 "\<lambda>k. (demo_answer True)\<lparr>an_now := int k\<rparr>" 5 0 Slew demo_capture "\<lambda>_. idle_rig None"] by simp

end
