(* ===== verification/Spec2Isabelle.thy ===== *)
theory Spec2Isabelle
  imports Prelude PierWire Consent Handoff Cohort Pack CampaignProps GradesProps RateLimit Agent
begin

text \<open>
  Saucepan schedules observations on a fleet of amateur telescopes (piers).  The control plane is a set
  of Go programs on one Postgres database, one Redis and one MQTT broker: the \<^bold>\<open>orchestrator\<close>
  (\<open>cmd/orchestrator\<close>) assigns tasks to nodes, the \<^bold>\<open>collector\<close> (\<open>cmd/collector\<close>) turns the piers'
  messages into state, and the \<^bold>\<open>API server\<close> (\<open>cmd/apiserver\<close>) lets researchers run campaigns and
  tasks, takes the frames of the telescopes, queues them for processing and books the grades that come back.
  The \<^bold>\<open>pier agent\<close> (\<open>internal/pieragent\<close>) obeys signed commands and moves the hardware.  \<open>shared/\<close>
  holds the routines that all of them use.  This development models these programs function by function,
  under the names of the source.

  \<^bold>\<open>Foundations.\<close>
  \<^item> \<open>Prelude\<close>: Go strings, \<open>strconv\<close>, sorting, 64-bit wrap-around, Redis hashes and sorted sets, and the
    two SQL statements \<open>UPDATE\<close> and \<open>SELECT\<close> on tables as lists of rows.  \<open>sort.SliceStable\<close> is insertion
    sort; \<open>sort.Slice\<close> is a parameter with the hypothesis \<open>go_sort\<close>.  The locale \<open>respected\<close> carries a
    relation through conditionals, folds and sequences of accesses.
  \<^item> \<open>Float64\<close>: \<open>float64\<close> as rationals rounded half to even at 53 bits, with infinities and NaN; one zero.

  \<^bold>\<open>Shared routines\<close> (\<open>shared/\<close>).
  \<^item> \<open>Wire\<close> (\<open>wire/topics.go\<close>, \<open>wire/sign.go\<close>): topics and command signatures.  \<open>PierWire\<close>
    (\<open>wire/piercode.go\<close>): the menu of on-pier code, the artifact cache and its transport.
  \<^item> \<open>Consent\<close> (\<open>consent/\<close>): the operator's decisions, as a refinement of the list of decisions.
  \<^item> \<open>TaskModel\<close> (\<open>models.go\<close>, \<open>requirements.go\<close>, \<open>task_status.go\<close>, \<open>campaign/lifecycle.go\<close>).
  \<^item> \<open>Safety\<close> (\<open>slew.go\<close>, \<open>obstruction*.go\<close>, \<open>safety_match.go\<close>): pointing safety.  \<open>Handoff\<close>
    (\<open>handoff.go\<close>): urgencies and poll intervals.  \<open>Lanes\<close> (\<open>lanes/\<close>): lanes, agendas, rosters.
    \<open>Selector\<close> (\<open>selector.go\<close> and its helpers): node selection and preemption.  \<open>Cohort\<close> (\<open>cohort/\<close>,
    \<open>cohort_fill.go\<close>).  \<open>Pack\<close> (\<open>campaign/pack.go\<close>): campaign packs and their expansion.
  \<^item> \<open>CoveragePlan\<close> (\<open>coverage/\<close> and the replan loop of \<open>cmd/apiserver/coverage.go\<close>): the greedy choice
    of sites for continuous coverage.  \<open>Grading\<close> (\<open>grading/\<close>): scores, points and reputation;
    \<open>GradingProps\<close> proves their bounds with every rounding.

  \<^bold>\<open>Orchestrator.\<close>  \<open>Store\<close> is the state of the programs: tables, Redis, messages handed to the broker,
  and a list of outcomes of the accesses to come.  \<open>Lease\<close>, \<open>Payload\<close>, \<open>NodeCache\<close>, \<open>Assign\<close>, \<open>Drain\<close>,
  \<open>Reclaim\<close> and \<open>PlannerLoop\<close> model \<open>orchestrator_reclaim.go\<close>, \<open>orchestrator_pg.go\<close>,
  \<open>orchestrator_assign.go\<close> and \<open>orchestrator_lanes.go\<close>.  \<open>assignOnce\<close> is generic in its side effects, as
  in the source; the locale \<open>assign_exec_laws\<close> states what it needs of them, and is interpreted on the
  production ones.

  \<^bold>\<open>Collector and API.\<close>
  \<^item> \<open>Collector\<close> models the handlers of the subscriptions, the lease renewal and the reconciliation of
    assignment markers; \<open>TaskApi\<close> the task endpoints.
  \<^item> \<open>Campaigns\<close> (\<open>campaigns.go\<close>, \<open>campaigns_store.go\<close>) and \<open>CoverageApi\<close> (\<open>coverage.go\<close>,
    \<open>coverage_status.go\<close>) model the campaign and coverage endpoints.  \<open>CampaignSteps\<close> goes through them
    once, for any relation that keeps the laws of the locales \<open>campaign_access\<close> and \<open>campaign_relation\<close>;
    \<open>CampaignProps\<close> and \<open>Lifecycle\<close> interpret them on the relations that they need.
  \<^item> \<open>Lifecycle\<close> makes one step relation of all loops, deliveries and task, campaign and coverage
    endpoints, with arbitrary inputs, clocks and faults (\<open>sys_step\<close>), and proves what every step
    preserves; \<open>TaskProps\<close> states the properties of the whole.
  \<^item> \<open>Uploads\<close> (\<open>upload.go\<close>, \<open>upload_session.go\<close>, \<open>landing_url.go\<close>) and \<open>WorkerQueue\<close>
    (\<open>worker_pending.go\<close>) model the way of a frame from the device to the processing worker;
    \<open>Grades\<close> (\<open>grades*.go\<close> and the deliveries, points and catalogue that they call) what happens when its
    grade comes back.  \<open>UploadProps\<close> and \<open>GradesProps\<close> state what they promise over runs of their events
    (\<open>upload_event\<close>, \<open>grade_event\<close>) with faults in between.
  \<^item> \<open>RateLimit\<close> (\<open>auth_rate_limit.go\<close> and the limited handlers of \<open>auth_proxy.go\<close>): the two backends of
    the limiter are interpretations of the locale \<open>window_backend\<close>, in which the limited endpoints are
    shown to follow a counter of fixed windows.

  \<^bold>\<open>Pier.\<close>  \<open>Agent\<close> (\<open>agent.go\<close> and its helpers) models the command handler, captures, aborts and
  preemption as handlers that are interleaved at their accesses to the shared state, the locks and the
  devices; a state carries the log of the commands received and of the device operations started, and
  \<open>pier_runs\<close> is the set of states that any interleaving reaches.  \<open>PierCode\<close> (\<open>research.go\<close>) models the
  records of on-pier code and their effects, and \<open>BoardWatch\<close> (\<open>boardwatch.go\<close>) the agent's view of the
  campaign boards.

  \<^bold>\<open>Faults.\<close>  Every access to Postgres or Redis consumes one outcome: it succeeds, fails without effect, or
  takes effect and still reports an error.  A transaction is one access.  Properties without a
  hypothesis on the outcomes hold for all of them.  Outside the pier agent a handler runs to its end before
  the next one starts.

  \<^bold>\<open>Bounds.\<close>  All loops are structural recursions or have a measure (\<open>scan_forbidden\<close>); no fuel is used.
  Integers are unbounded except where overflow decides (\<open>backoffWindow\<close>, \<open>wrap64\<close>); times and durations
  are integers in nanoseconds, and a call reads the clock once.

  \<^bold>\<open>Parameters.\<close>  Elementary functions, SHA-256, HMAC, JSON and time codecs, number formatting, URL and
  address parsing, UUIDs and random tokens, the object store, the answers of the identity service, the
  devices and the runner of on-pier code, and unstable sorting are arguments (mostly of records such as
  \<open>services\<close>); what a property needs of them is a hypothesis of it.

  \<^bold>\<open>Not modelled.\<close>  Logs, metrics, expiry times of Redis keys other than the windows of the rate limiter,
  the branches for a missing database or Redis connection, the partial execution of a Redis pipeline,
  process start-up and wiring; allocation failures for oversized requests; the statistics that are single
  aggregate queries; the payloads of events and the copy of the point breakdown in a grade's row; object
  keys with \<open>..\<close> are refused before \<open>path.Clean\<close>, which is modelled on the rest; and the parts that the
  manifest lists as not modelled.
\<close>

end
